(* ===== verification/Prelude.thy ===== *)
theory Prelude
  imports Main
begin

text \<open>
  What every component of the development shares.

  \<^item> \<open>pyval\<close>: a Python value as the validators of \<open>reproof\<close> see it. The code tests
    \<open>type(x) is int\<close>, \<open>type(x) is str\<close> and so on before it uses an argument, so arguments
    that are validated are \<open>pyval\<close>s and a validator returns the typed value or the exception.
    Strings are lists of \<open>char\<close> (code points up to 255).
  \<^item> \<open>py_error\<close>: the exceptions, with the message or code the source raises them with. An
    operation that can raise has a result of type \<open>py_error + 'a\<close>.
  \<^item> The character classes of the regular expressions the components match identifiers with.
  \<^item> SQL tables as lists of rows with a key: lookup, update, delete, sums, with their lemmas
    (locale \<open>row_update\<close> for an \<open>UPDATE\<close> that leaves the key alone).
  \<^item> Runs of a component's operations, where a raised exception rolls the state back (locales
    \<open>guarded_ops\<close> and \<open>fenced_ops\<close>).
\<close>

section \<open>Exceptions and results\<close>

datatype py_error =
    ContractError string
  | DiskBudgetError string
  | RecordingClockError string
  | LiveError string
  | FixtureError string
  | AccessError string
  | ProtocolError string
  | TypeError
  | AttributeError
  | OtherError \<comment> \<open>whatever a caller-supplied function raises\<close>
  | IntegrityError

type_synonym 'a result = "py_error + 'a"

definition bind_result :: "'e + 'a \<Rightarrow> ('a \<Rightarrow> 'e + 'b) \<Rightarrow> 'e + 'b" where
  "bind_result r k = (case r of Inl e \<Rightarrow> Inl e | Inr x \<Rightarrow> k x)"

definition ensure :: "bool \<Rightarrow> 'e \<Rightarrow> 'e + 'b \<Rightarrow> 'e + 'b" where
  "ensure c e k = (if c then k else Inl e)"

definition catch_as :: "'e \<Rightarrow> 'e + 'a \<Rightarrow> 'e + 'a" where
  "catch_as e r = (case r of Inl _ \<Rightarrow> Inl e | Inr x \<Rightarrow> Inr x)"

lemma bind_result_simps [simp]:
  "bind_result (Inl e) k = Inl e"
  "bind_result (Inr x) k = k x"
  by (simp_all add: bind_result_def)

lemma bind_result_Inr_iff: "bind_result r k = Inr y \<longleftrightarrow> (\<exists>x. r = Inr x \<and> k x = Inr y)"
  by (cases r) auto

lemma ensure_simps [simp]:
  "ensure True e k = k"
  "ensure False e k = Inl e"
  by (simp_all add: ensure_def)

lemma ensure_Inr_iff: "ensure c e k = Inr y \<longleftrightarrow> c \<and> k = Inr y"
  by (simp add: ensure_def)

lemma catch_as_Inr_iff: "catch_as e r = Inr y \<longleftrightarrow> r = Inr y"
  by (cases r) (auto simp: catch_as_def)

lemma catch_as_Inl_iff: "catch_as e r = Inl e' \<longleftrightarrow> e' = e \<and> (\<exists>e0. r = Inl e0)"
  by (cases r) (auto simp: catch_as_def)

lemmas result_iff = bind_result_Inr_iff ensure_Inr_iff catch_as_Inr_iff

lemma split_result:
  "P (case r of Inl e \<Rightarrow> f e | Inr x \<Rightarrow> g x) \<longleftrightarrow>
     (\<forall>e. r = Inl e \<longrightarrow> P (f e)) \<and> (\<forall>x. r = Inr x \<longrightarrow> P (g x))"
  by (cases r) auto

section \<open>Python values\<close>

datatype pyval =
    PNone
  | PBool bool
  | PInt int
  | PStr string
  | PList "pyval list"
  | PDict "(string \<times> pyval) list"
  | PObj nat \<comment> \<open>an object of any other type: a float, a callable, an instance\<close>

fun is_hashable :: "pyval \<Rightarrow> bool" where
  "is_hashable (PList _) = False"
| "is_hashable (PDict _) = False"
| "is_hashable _ = True"

text \<open>\<open>x in S\<close> for a set of strings: an unhashable \<open>x\<close> raises \<open>TypeError\<close>.\<close>

definition py_in_strs :: "pyval \<Rightarrow> string list \<Rightarrow> bool result" where
  "py_in_strs x S =
     (if is_hashable x then Inr (case x of PStr s \<Rightarrow> s \<in> set S | _ \<Rightarrow> False) else Inl TypeError)"

text \<open>\<open>type(x) is int and low <= x <= high\<close>; a \<open>bool\<close> is not an \<open>int\<close> here.\<close>

fun int_in_range :: "int \<Rightarrow> int \<Rightarrow> pyval \<Rightarrow> int option" where
  "int_in_range low high (PInt n) = (if low \<le> n \<and> n \<le> high then Some n else None)"
| "int_in_range low high _ = None"

fun as_str :: "pyval \<Rightarrow> string option" where
  "as_str (PStr s) = Some s"
| "as_str _ = None"

lemma int_in_range_Some_iff:
  "int_in_range low high v = Some n \<longleftrightarrow> v = PInt n \<and> low \<le> n \<and> n \<le> high"
  by (cases v) auto

lemma as_str_Some_iff: "as_str v = Some s \<longleftrightarrow> v = PStr s"
  by (cases v) auto

lemma py_in_strs_True_iff: "py_in_strs x S = Inr True \<longleftrightarrow> (\<exists>s \<in> set S. x = PStr s)"
  by (cases x) (auto simp: py_in_strs_def)

text \<open>A dictionary as an association list; equality of two dictionaries ignores their order.\<close>

definition dict_keys :: "('k \<times> 'v) list \<Rightarrow> 'k list" where
  "dict_keys d = map fst d"

definition same_keys :: "('k \<times> 'v) list \<Rightarrow> 'k list \<Rightarrow> bool" where
  "same_keys d ks \<longleftrightarrow> set (map fst d) = set ks"

definition dict_eq :: "('k \<times> 'v) list \<Rightarrow> ('k \<times> 'v) list \<Rightarrow> bool" where
  "dict_eq a b \<longleftrightarrow> list_all (\<lambda>k. map_of a k = map_of b k) (map fst a @ map fst b)"

lemma dict_eq_iff: "dict_eq a b \<longleftrightarrow> map_of a = map_of b"
proof
  assume eq: "dict_eq a b"
  show "map_of a = map_of b"
  proof
    fix k
    show "map_of a k = map_of b k"
    proof (cases "k \<in> set (map fst a @ map fst b)")
      case True
      with eq show ?thesis by (auto simp: dict_eq_def list_all_iff)
    next
      case False
      then have "map_of a k = None" "map_of b k = None"
        by (auto simp: map_of_eq_None_iff)
      then show ?thesis by simp
    qed
  qed
qed (simp add: dict_eq_def list_all_iff)

lemma dict_eq_refl [simp]: "dict_eq a a"
  by (simp add: dict_eq_iff)

section \<open>Character classes\<close>

definition lower_chars :: string where
  "lower_chars = ''abcdefghijklmnopqrstuvwxyz''"

definition upper_chars :: string where
  "upper_chars = ''ABCDEFGHIJKLMNOPQRSTUVWXYZ''"

definition digit_chars :: string where
  "digit_chars = ''0123456789''"

definition hex_chars :: string where
  "hex_chars = ''0123456789abcdef''"

text \<open>\<open>[first][rest]{0,n-1}\<close> as a full match.\<close>

fun matches_name :: "string \<Rightarrow> string \<Rightarrow> nat \<Rightarrow> string \<Rightarrow> bool" where
  "matches_name first rest n [] = False"
| "matches_name first rest n (c # cs) =
     (c \<in> set first \<and> list_all (\<lambda>x. x \<in> set rest) cs \<and> length cs < n)"

text \<open>\<open>[A-Za-z0-9_-]{1,128}\<close>, the identifiers of the Live control plane.\<close>

definition word_dash_chars :: string where
  "word_dash_chars = upper_chars @ lower_chars @ digit_chars @ ''_-''"

definition is_word_id :: "string \<Rightarrow> bool" where
  "is_word_id s = matches_name word_dash_chars word_dash_chars 128 s"

text \<open>\<open>[0-9a-f]{64}\<close>, a SHA-256 digest in hexadecimal.\<close>

definition is_hex_digest :: "string \<Rightarrow> bool" where
  "is_hex_digest s \<longleftrightarrow> length s = 64 \<and> list_all (\<lambda>c. c \<in> set hex_chars) s"

lemma matches_name_not_empty [simp]: "\<not> matches_name first rest n ''''"
  by simp

lemma matches_name_length: "matches_name first rest n s \<Longrightarrow> 0 < length s \<and> length s \<le> n"
  by (cases s) auto

lemma is_word_id_length: "is_word_id s \<Longrightarrow> 0 < length s \<and> length s \<le> 128"
  unfolding is_word_id_def by (rule matches_name_length)

section \<open>Tables\<close>

text \<open>A table is the list of its rows; \<open>key\<close> reads the primary key of a row.\<close>

definition tbl_lookup :: "('row \<Rightarrow> 'k) \<Rightarrow> 'k \<Rightarrow> 'row list \<Rightarrow> 'row option" where
  "tbl_lookup key k rows = find (\<lambda>r. key r = k) rows"

definition tbl_update :: "('row \<Rightarrow> bool) \<Rightarrow> ('row \<Rightarrow> 'row) \<Rightarrow> 'row list \<Rightarrow> 'row list" where
  "tbl_update p f rows = map (\<lambda>r. if p r then f r else r) rows"

definition tbl_delete :: "('row \<Rightarrow> bool) \<Rightarrow> 'row list \<Rightarrow> 'row list" where
  "tbl_delete p rows = filter (\<lambda>r. \<not> p r) rows"

definition tbl_sum :: "('row \<Rightarrow> bool) \<Rightarrow> ('row \<Rightarrow> int) \<Rightarrow> 'row list \<Rightarrow> int" where
  "tbl_sum p f rows = sum_list (map f (filter p rows))"

definition distinct_keys :: "('row \<Rightarrow> 'k) \<Rightarrow> 'row list \<Rightarrow> bool" where
  "distinct_keys key rows = distinct (map key rows)"

lemma tbl_lookup_Some: "tbl_lookup key k rows = Some r \<Longrightarrow> r \<in> set rows \<and> key r = k"
  by (auto simp: tbl_lookup_def find_Some_iff)

lemma tbl_lookup_None_iff: "tbl_lookup key k rows = None \<longleftrightarrow> k \<notin> key ` set rows"
  by (auto simp: tbl_lookup_def find_None_iff)

lemma tbl_lookup_Nil [simp]: "tbl_lookup key k [] = None"
  by (simp add: tbl_lookup_def)

lemma tbl_lookup_Cons [simp]:
  "tbl_lookup key k (r # rows) = (if key r = k then Some r else tbl_lookup key k rows)"
  by (simp add: tbl_lookup_def)

lemma tbl_lookup_append:
  "tbl_lookup key k (xs @ ys) =
     (case tbl_lookup key k xs of Some r \<Rightarrow> Some r | None \<Rightarrow> tbl_lookup key k ys)"
  by (induction xs) auto

lemma tbl_lookup_unique:
  "distinct_keys key rows \<Longrightarrow> r \<in> set rows \<Longrightarrow> tbl_lookup key (key r) rows = Some r"
  by (induction rows) (auto simp: distinct_keys_def)

lemma tbl_delete_lookup:
  "(\<And>r. key r = k \<Longrightarrow> \<not> p r) \<Longrightarrow> tbl_lookup key k (tbl_delete p rows) = tbl_lookup key k rows"
  by (induction rows) (auto simp: tbl_delete_def)

lemma tbl_delete_key: "tbl_lookup key k (tbl_delete (\<lambda>r. key r = k) rows) = None"
  by (induction rows) (auto simp: tbl_delete_def)

lemma set_tbl_delete [simp]: "set (tbl_delete p rows) = {r \<in> set rows. \<not> p r}"
  by (auto simp: tbl_delete_def)

lemma set_tbl_update: "set (tbl_update p f rows) = (\<lambda>r. if p r then f r else r) ` set rows"
  by (simp add: tbl_update_def)

lemma distinct_keys_delete [intro]: "distinct_keys key rows \<Longrightarrow> distinct_keys key (tbl_delete p rows)"
  by (simp add: distinct_keys_def tbl_delete_def distinct_map_filter)

lemma distinct_keys_snoc:
  "distinct_keys key (rows @ [r]) \<longleftrightarrow> distinct_keys key rows \<and> tbl_lookup key (key r) rows = None"
  by (auto simp: distinct_keys_def tbl_lookup_None_iff)

lemma length_tbl_update [simp]: "length (tbl_update p f rows) = length rows"
  by (simp add: tbl_update_def)

lemma length_tbl_delete: "length (tbl_delete p rows) \<le> length rows"
  by (simp add: tbl_delete_def)

lemma tbl_sum_Nil [simp]: "tbl_sum p f [] = 0"
  by (simp add: tbl_sum_def)

lemma tbl_sum_Cons [simp]: "tbl_sum p f (r # rows) = (if p r then f r else 0) + tbl_sum p f rows"
  by (simp add: tbl_sum_def)

lemma tbl_sum_append [simp]: "tbl_sum p f (xs @ ys) = tbl_sum p f xs + tbl_sum p f ys"
  by (simp add: tbl_sum_def)

lemma tbl_sum_nonneg: "(\<And>r. r \<in> set rows \<Longrightarrow> 0 \<le> f r) \<Longrightarrow> 0 \<le> tbl_sum p f rows"
  by (induction rows) auto

lemma tbl_sum_delete_le:
  "(\<And>r. r \<in> set rows \<Longrightarrow> 0 \<le> f r) \<Longrightarrow> tbl_sum p f (tbl_delete q rows) \<le> tbl_sum p f rows"
  by (induction rows) (auto simp: tbl_delete_def intro: add_increasing)

lemma tbl_sum_update_le:
  "(\<And>r. r \<in> set rows \<Longrightarrow> q r \<Longrightarrow> p (g r) = p r \<and> f (g r) \<le> f r) \<Longrightarrow>
     tbl_sum p f (tbl_update q g rows) \<le> tbl_sum p f rows"
  by (induction rows) (auto simp: tbl_update_def intro: add_mono)

lemma tbl_sum_mono_pred:
  "(\<And>r. r \<in> set rows \<Longrightarrow> 0 \<le> f r) \<Longrightarrow> (\<And>r. p r \<Longrightarrow> q r) \<Longrightarrow> tbl_sum p f rows \<le> tbl_sum q f rows"
  by (induction rows) (auto intro: add_increasing)

lemma tbl_sum_split: "tbl_sum (\<lambda>_. True) f rows = tbl_sum p f rows + tbl_sum (\<lambda>r. \<not> p r) f rows"
  by (induction rows) auto

text \<open>An \<open>UPDATE\<close> that leaves the primary key alone.\<close>

locale row_update =
  fixes key :: "'row \<Rightarrow> 'k" and upd :: "'row \<Rightarrow> 'row"
  assumes key_upd: "key (upd r) = key r"
begin

lemma keys_update: "map key (tbl_update p upd rows) = map key rows"
  by (induction rows) (auto simp: tbl_update_def key_upd)

lemma distinct_keys_update: "distinct_keys key (tbl_update p upd rows) \<longleftrightarrow> distinct_keys key rows"
  by (simp add: distinct_keys_def keys_update)

lemma lookup_update_same:
  "tbl_lookup key k (tbl_update (\<lambda>r. key r = k) upd rows) = map_option upd (tbl_lookup key k rows)"
  by (induction rows) (auto simp: tbl_update_def key_upd)

lemma lookup_update_other:
  "k \<noteq> k' \<Longrightarrow> tbl_lookup key k' (tbl_update (\<lambda>r. key r = k) upd rows) = tbl_lookup key k' rows"
  by (induction rows) (auto simp: tbl_update_def key_upd)

end

text \<open>
  Tables that only grow: no row is lost, a row is changed only in ways that \<open>leads\<close> allows, and
  new rows come last.
\<close>

definition grows :: "('row \<Rightarrow> 'row \<Rightarrow> bool) \<Rightarrow> 'row list \<Rightarrow> 'row list \<Rightarrow> bool" where
  "grows leads xs ys \<longleftrightarrow>
     length xs \<le> length ys \<and> list_all2 leads xs (take (length xs) ys)"

lemma grows_append: "grows leads xs ys \<longleftrightarrow> (\<exists>us vs. ys = us @ vs \<and> list_all2 leads xs us)"
proof
  assume "grows leads xs ys"
  then have "ys = take (length xs) ys @ drop (length xs) ys" "list_all2 leads xs (take (length xs) ys)"
    by (simp_all add: grows_def)
  then show "\<exists>us vs. ys = us @ vs \<and> list_all2 leads xs us" by blast
next
  assume "\<exists>us vs. ys = us @ vs \<and> list_all2 leads xs us"
  then obtain us vs where "ys = us @ vs" "list_all2 leads xs us" by blast
  moreover from this have "length xs = length us" by (simp add: list_all2_lengthD)
  ultimately show "grows leads xs ys" by (simp add: grows_def)
qed

lemma grows_member: "grows leads xs ys \<Longrightarrow> r \<in> set xs \<Longrightarrow> \<exists>r' \<in> set ys. leads r r'"
  unfolding grows_append by (fastforce simp: list_all2_conv_all_nth in_set_conv_nth)

locale growing_table =
  fixes key :: "'row \<Rightarrow> 'k" and leads :: "'row \<Rightarrow> 'row \<Rightarrow> bool"
  assumes leads_key: "leads r r' \<Longrightarrow> key r' = key r"
    and leads_refl: "leads r r"
    and leads_trans: "leads r r' \<Longrightarrow> leads r' r'' \<Longrightarrow> leads r r''"
begin

lemma grows_refl [intro]: "grows leads xs xs"
  by (simp add: grows_def list_all2_refl leads_refl)

lemma grows_snoc [intro]: "grows leads xs (xs @ ys)"
  by (simp add: grows_def list_all2_refl leads_refl)

lemma grows_trans: "grows leads xs ys \<Longrightarrow> grows leads ys zs \<Longrightarrow> grows leads xs zs"
  unfolding grows_def
proof (elim conjE, intro conjI)
  assume le: "length xs \<le> length ys" "length ys \<le> length zs"
    and xy: "list_all2 leads xs (take (length xs) ys)" and yz: "list_all2 leads ys (take (length ys) zs)"
  have "list_all2 leads (take (length xs) ys) (take (length xs) zs)"
    using list_all2_takeI [OF yz, of "length xs"] le by (simp add: min_def)
  with xy show "list_all2 leads xs (take (length xs) zs)"
    by (rule list_all2_trans [rotated]) (rule leads_trans)
qed simp

lemma grows_update: "(\<And>r. r \<in> set xs \<Longrightarrow> p r \<Longrightarrow> leads r (f r)) \<Longrightarrow> grows leads xs (tbl_update p f xs)"
  by (auto simp: grows_def tbl_update_def list_all2_conv_all_nth leads_refl)

lemma grows_lookup:
  assumes "grows leads xs ys" and "tbl_lookup key k xs = Some r"
  shows "\<exists>r'. tbl_lookup key k ys = Some r' \<and> leads r r'"
proof -
  obtain us vs where ys: "ys = us @ vs" and ru: "list_all2 leads xs us"
    using assms(1) by (auto simp: grows_append)
  from ru assms(2) have "\<exists>r'. tbl_lookup key k us = Some r' \<and> leads r r'"
    by (induction rule: list_all2_induct) (auto simp: leads_key)
  then show ?thesis by (auto simp: ys tbl_lookup_append)
qed

lemma keys_grow: "grows leads xs ys \<Longrightarrow> take (length xs) (map key ys) = map key xs"
  by (auto simp: grows_def list_all2_conv_all_nth list_eq_iff_nth_eq leads_key)

end

section \<open>Runs of a component's operations\<close>

text \<open>
  An operation either raises, and then its transaction has been rolled back, or returns a
  result and the new state. A caller may catch the exception and go on, so a run is any list
  of operations.
\<close>

fun run_ops :: "('s \<Rightarrow> 'op \<Rightarrow> 'e + ('r \<times> 's)) \<Rightarrow> 's \<Rightarrow> 'op list \<Rightarrow> 's" where
  "run_ops step s [] = s"
| "run_ops step s (x # xs) =
     run_ops step (case step s x of Inl _ \<Rightarrow> s | Inr (_, s') \<Rightarrow> s') xs"

lemma run_ops_append: "run_ops step s (xs @ ys) = run_ops step (run_ops step s xs) ys"
  by (induction xs arbitrary: s) auto

locale guarded_ops =
  fixes step :: "'s \<Rightarrow> 'op \<Rightarrow> 'e + ('r \<times> 's)" and inv :: "'s \<Rightarrow> bool"
  assumes preserves: "inv s \<Longrightarrow> step s x = Inr (r, s') \<Longrightarrow> inv s'"
begin

lemma run_preserves: "inv s \<Longrightarrow> inv (run_ops step s xs)"
proof (induction xs arbitrary: s)
  case (Cons x xs)
  then show ?case
    by (auto split: sum.split dest: preserves)
qed simp

lemma every_prefix: "inv s \<Longrightarrow> inv (run_ops step s (take n xs))"
  by (rule run_preserves)

end

text \<open>
  Operations that also keep a number from decreasing: a generation, an epoch, a watermark.
  This is what fencing rests on, since a stale holder names a smaller number.
\<close>

locale fenced_ops = guarded_ops step inv
  for step :: "'s \<Rightarrow> 'op \<Rightarrow> 'e + ('r \<times> 's)" and inv :: "'s \<Rightarrow> bool" +
  fixes mark :: "'s \<Rightarrow> 'k \<Rightarrow> int"
  assumes mark_mono: "inv s \<Longrightarrow> step s x = Inr (r, s') \<Longrightarrow> mark s k \<le> mark s' k"
begin

lemma run_mark_mono: "inv s \<Longrightarrow> mark s k \<le> mark (run_ops step s xs) k"
proof (induction xs arbitrary: s)
  case (Cons x xs)
  show ?case
  proof (cases "step s x")
    case (Inl e)
    with Cons show ?thesis by simp
  next
    case (Inr p)
    obtain r s' where p: "p = (r, s')" by (cases p)
    with Inr Cons.prems have "inv s'" and "mark s k \<le> mark s' k"
      by (auto dest: preserves mark_mono)
    moreover from this Cons.IH have "mark s' k \<le> mark (run_ops step s' xs) k" by blast
    ultimately show ?thesis using Inr p by simp
  qed
qed simp

end

end
