(* ===== verification/Disk_Budget.thy ===== *)
theory Disk_Budget
  imports Prelude
begin

text \<open>
  \<open>reproof/live/disk_budget.py\<close>: storage reservations of the durable evidence.

  The SQLite database of one root is a \<open>budget\<close>: the \<open>metadata\<close> table, the
  \<open>reservations\<close> table (in insertion order) and the configuration the opening process
  validated. The environment is a parameter of each operation: what \<open>free_bytes()\<close> returned
  (\<open>None\<close> when it raised), the identifier \<open>uuid.uuid4().hex\<close> produced, the SHA-256 function
  and the monotonic time. An operation that raises has been rolled back, so it returns the
  error alone; one that returns gives its result and the new database.
\<close>

definition MAX_BYTES :: int where "MAX_BYTES = 10 * 1024 * 1024 * 1024"
definition MAX_RESERVATIONS :: int where "MAX_RESERVATIONS = 100000"

definition CATEGORIES :: "string list" where
  "CATEGORIES = [''journal'', ''spool'', ''encoding'', ''finalization'', ''transfer'']"

record reservation_row =
  reservation_id :: string
  owner :: string
  category :: string
  reserved_bytes :: int
  charged_bytes :: int
  state :: string
  created_ns :: int

record budget =
  self_ref :: nat \<comment> \<open>the identity of the \<open>DiskBudget\<close> object\<close>
  capacity_bytes :: int
  journal_headroom_bytes :: int
  metadata_headroom_bytes :: int
  max_reservations :: int
  metadata :: "(string \<times> int) list"
  reservations :: "reservation_row list"

record disk_reservation =
  handle_id :: string
  handle_owner :: string
  handle_category :: string
  handle_bytes :: int
  handle_budget :: nat
  handle_closed :: bool

section \<open>Argument checks\<close>

definition require_budget :: "bool \<Rightarrow> string \<Rightarrow> 'a result \<Rightarrow> 'a result" where
  "require_budget c msg k = ensure c (DiskBudgetError msg) k"

definition budget_integer :: "pyval \<Rightarrow> string \<Rightarrow> int \<Rightarrow> int \<Rightarrow> int result" where
  "budget_integer v nm low high =
     (case int_in_range low high v of
        Some n \<Rightarrow> Inr n | None \<Rightarrow> Inl (DiskBudgetError (''Invalid '' @ nm)))"

definition budget_owner :: "pyval \<Rightarrow> string \<Rightarrow> string result" where
  "budget_owner v msg =
     (case as_str v of
        Some s \<Rightarrow> (if is_word_id s then Inr s else Inl (DiskBudgetError msg))
      | None \<Rightarrow> Inl (DiskBudgetError msg))"

definition budget_category :: "pyval \<Rightarrow> string result" where
  "budget_category v =
     bind_result (py_in_strs v CATEGORIES) (\<lambda>ok.
       case as_str v of
         Some s \<Rightarrow> (if ok then Inr s else Inl (DiskBudgetError ''Invalid reservation category''))
       | None \<Rightarrow> Inl (DiskBudgetError ''Invalid reservation category''))"

definition metadata_headroom :: "int \<Rightarrow> int" where
  "metadata_headroom capacity =
     (if capacity \<ge> 1024 * 1024 then max (512 * 1024) (capacity div 8)
      else max 1 (capacity div 16))"

section \<open>Opening a budget\<close>

definition expected_metadata :: "int \<Rightarrow> int \<Rightarrow> int \<Rightarrow> int \<Rightarrow> (string \<times> int) list" where
  "expected_metadata capacity journal meta limit =
     [(''format_version'', 1), (''capacity_bytes'', capacity),
      (''journal_headroom_bytes'', journal), (''metadata_headroom_bytes'', meta),
      (''max_reservations'', limit)]"

definition actual_free :: "pyval option \<Rightarrow> int result" where
  "actual_free free =
     (case free of
        None \<Rightarrow> Inl (DiskBudgetError ''Storage availability is unknown'')
      | Some v \<Rightarrow> budget_integer v ''available storage'' 0 (2 ^ 63 - 1))"

definition charged :: "(reservation_row \<Rightarrow> bool) \<Rightarrow> reservation_row list \<Rightarrow> int" where
  "charged p rs = tbl_sum p charged_bytes rs"

definition is_active :: "reservation_row \<Rightarrow> bool" where
  "is_active r \<longleftrightarrow> state r = ''active''"

definition is_media :: "reservation_row \<Rightarrow> bool" where
  "is_media r \<longleftrightarrow> category r \<noteq> ''journal''"

definition row_sound :: "int \<Rightarrow> reservation_row \<Rightarrow> bool" where
  "row_sound old_capacity r \<longleftrightarrow>
     category r \<in> set CATEGORIES \<and> state r \<in> {''active'', ''committed''} \<and>
     0 < charged_bytes r \<and> charged_bytes r \<le> reserved_bytes r \<and> reserved_bytes r \<le> old_capacity"

text \<open>The migration branch of \<open>_initialize\<close>: an existing database under a larger capacity.\<close>

definition grow_capacity ::
  "bool \<Rightarrow> pyval option \<Rightarrow> budget \<Rightarrow> (string \<times> int) list \<Rightarrow> budget result" where
  "grow_capacity allow free b existing =
     (let expected = expected_metadata (capacity_bytes b) (journal_headroom_bytes b)
                       (metadata_headroom_bytes b) (max_reservations b);
          unchanged = (set (map fst existing) = set (map fst expected) \<and>
            map_of existing ''format_version'' = Some 1 \<and>
            map_of existing ''journal_headroom_bytes'' = Some (journal_headroom_bytes b) \<and>
            map_of existing ''max_reservations'' = Some (max_reservations b))
      in case (map_of existing ''capacity_bytes'', map_of existing ''metadata_headroom_bytes'') of
           (Some old_capacity, Some old_metadata) \<Rightarrow>
             require_budget (allow \<and> unchanged \<and> 0 < old_capacity \<and>
                 old_capacity < capacity_bytes b \<and> old_metadata = metadata_headroom old_capacity)
               ''Disk budget configuration mismatch''
             (require_budget (list_all (row_sound old_capacity) (reservations b))
               ''Disk budget reservation metadata is corrupt''
               (let total = charged (\<lambda>_. True) (reservations b);
                    active = charged is_active (reservations b);
                    usable = capacity_bytes b - metadata_headroom_bytes b
                in require_budget (total \<le> usable) ''Storage pressure prevents capacity growth''
                   (bind_result (actual_free free) (\<lambda>fr.
                     require_budget
                       (fr \<ge> active + journal_headroom_bytes b + metadata_headroom_bytes b)
                       ''Storage pressure prevents capacity growth''
                       (Inr (b\<lparr>metadata :=
                          map (\<lambda>(k, v).
                            if k = ''capacity_bytes'' then (k, capacity_bytes b)
                            else if k = ''metadata_headroom_bytes''
                              then (k, metadata_headroom_bytes b)
                            else (k, v)) existing\<rparr>))))))
         | _ \<Rightarrow> Inl (DiskBudgetError ''Disk budget configuration mismatch''))"

definition initialize :: "bool \<Rightarrow> pyval option \<Rightarrow> budget \<Rightarrow> budget result" where
  "initialize allow free b =
     (let expected = expected_metadata (capacity_bytes b) (journal_headroom_bytes b)
                       (metadata_headroom_bytes b) (max_reservations b);
          existing = metadata b
      in if existing = [] then Inr (b\<lparr>metadata := expected\<rparr>)
         else if dict_eq existing expected then Inr b
         else grow_capacity allow free b existing)"

text \<open>
  \<open>DiskBudget(root, ...)\<close> over the tables a root already holds: \<open>meta\<close> and \<open>rs\<close>, both
  empty for a new root. The directory, lock file and pragmas are the operating system's.
\<close>

definition open_budget ::
  "nat \<Rightarrow> pyval \<Rightarrow> pyval \<Rightarrow> pyval \<Rightarrow> pyval \<Rightarrow> pyval option \<Rightarrow>
   (string \<times> int) list \<Rightarrow> reservation_row list \<Rightarrow> budget result" where
  "open_budget self capacity journal limit allow free meta rs =
     bind_result (budget_integer capacity ''disk capacity'' 1 MAX_BYTES) (\<lambda>cap.
     bind_result (budget_integer journal ''journal headroom'' 1 cap) (\<lambda>jh.
     bind_result (budget_integer limit ''reservation limit'' 1 MAX_RESERVATIONS) (\<lambda>lim.
       case allow of
         PBool a \<Rightarrow> initialize a free
           \<lparr>self_ref = self, capacity_bytes = cap, journal_headroom_bytes = jh,
            metadata_headroom_bytes = metadata_headroom cap, max_reservations = lim,
            metadata = meta, reservations = rs\<rparr>
       | _ \<Rightarrow> Inl (DiskBudgetError ''Invalid capacity migration option''))))"

section \<open>Reservations\<close>

definition totals :: "budget \<Rightarrow> int \<times> int \<times> int" where
  "totals b = (int (length (reservations b)), charged (\<lambda>_. True) (reservations b),
               charged is_media (reservations b))"

definition usable_bytes :: "budget \<Rightarrow> int" where
  "usable_bytes b = capacity_bytes b - metadata_headroom_bytes b"

definition new_handle :: "budget \<Rightarrow> string \<Rightarrow> string \<Rightarrow> string \<Rightarrow> int \<Rightarrow> disk_reservation" where
  "new_handle b i ow cat amount =
     \<lparr>handle_id = i, handle_owner = ow, handle_category = cat, handle_bytes = amount,
      handle_budget = self_ref b, handle_closed = False\<rparr>"

definition lookup_row :: "string \<Rightarrow> reservation_row list \<Rightarrow> reservation_row option" where
  "lookup_row i rs = tbl_lookup reservation_id i rs"

text \<open>The limits a new row must respect, in the order the code tests them.\<close>

definition admit_row ::
  "pyval option \<Rightarrow> int \<Rightarrow> budget \<Rightarrow> string \<Rightarrow> string \<Rightarrow> string \<Rightarrow> int \<Rightarrow>
   (disk_reservation \<times> budget) result" where
  "admit_row free now b i ow cat amount =
     (let (count, total, media) = totals b; usable = usable_bytes b;
          active = charged is_active (reservations b)
      in require_budget (count < max_reservations b) ''Storage reservation limit reached''
        (require_budget (total + amount \<le> usable) ''Storage capacity exhausted''
        (require_budget (cat \<noteq> ''journal'' \<longrightarrow> media + amount \<le> usable - journal_headroom_bytes b)
           ''Journal headroom is reserved''
        (bind_result (actual_free free) (\<lambda>fr.
           require_budget
             (fr \<ge> active + amount + journal_headroom_bytes b + metadata_headroom_bytes b)
             ''Storage pressure prevents reservation''
             (if lookup_row i (reservations b) \<noteq> None then Inl IntegrityError
              else Inr (new_handle b i ow cat amount,
                        b\<lparr>reservations := reservations b @
                          [\<lparr>reservation_id = i, owner = ow, category = cat,
                            reserved_bytes = amount, charged_bytes = amount,
                            state = ''active'', created_ns = now\<rparr>]\<rparr>)))))))"

definition reserve ::
  "(string \<Rightarrow> string) \<Rightarrow> string \<Rightarrow> pyval option \<Rightarrow> int \<Rightarrow> budget \<Rightarrow>
   pyval \<Rightarrow> pyval \<Rightarrow> pyval \<Rightarrow> pyval \<Rightarrow> (disk_reservation \<times> budget) result" where
  "reserve sha256 uuid free now b owner_arg category_arg amount_arg key_arg =
     bind_result (budget_owner owner_arg ''Invalid reservation owner'') (\<lambda>ow.
     bind_result (budget_category category_arg) (\<lambda>cat.
     bind_result (budget_integer amount_arg ''reservation size'' 1 (capacity_bytes b)) (\<lambda>amount.
       if key_arg = PNone then admit_row free now b (''reservation_'' @ uuid) ow cat amount
       else bind_result (budget_owner key_arg ''Invalid reservation idempotency key'') (\<lambda>key.
         let i = ''reservation_'' @ sha256 key
         in case lookup_row i (reservations b) of
              Some r \<Rightarrow>
                require_budget (owner r = ow \<and> category r = cat \<and> reserved_bytes r = amount \<and>
                    charged_bytes r = amount \<and> state r \<in> {''active'', ''committed''})
                  ''Reservation idempotency conflict''
                  (Inr (new_handle b i ow cat amount, b))
            | None \<Rightarrow> admit_row free now b i ow cat amount))))"

text \<open>\<open>adopt\<close>: a handle for an active row a previous process left.\<close>

definition is_reservation_id :: "pyval \<Rightarrow> string option" where
  "is_reservation_id v =
     (case as_str v of
        Some s \<Rightarrow> (if take 12 s = ''reservation_'' then Some s else None)
      | None \<Rightarrow> None)"

definition adopt ::
  "budget \<Rightarrow> pyval \<Rightarrow> pyval \<Rightarrow> pyval \<Rightarrow> pyval \<Rightarrow> disk_reservation result" where
  "adopt b id_arg owner_arg category_arg minimum_arg =
     (case is_reservation_id id_arg of
        None \<Rightarrow> Inl (DiskBudgetError ''Invalid storage reservation'')
      | Some i \<Rightarrow>
          bind_result (budget_owner owner_arg ''Invalid reservation owner'') (\<lambda>ow.
          bind_result (budget_category category_arg) (\<lambda>cat.
          bind_result (budget_integer minimum_arg ''reservation size'' 1 (capacity_bytes b)) (\<lambda>minimum.
            case lookup_row i (reservations b) of
              None \<Rightarrow> Inl (DiskBudgetError ''Storage reservation is unavailable'')
            | Some r \<Rightarrow>
                require_budget (owner r = ow \<and> category r = cat \<and> state r = ''active'' \<and>
                    reserved_bytes r \<ge> minimum) ''Storage reservation is unavailable''
                  (Inr (new_handle b i ow cat (reserved_bytes r)))))))"

definition handle_reservation_id :: "budget \<Rightarrow> disk_reservation \<Rightarrow> string result" where
  "handle_reservation_id b h =
     require_budget (handle_budget h = self_ref b) ''Invalid storage reservation'' (Inr (handle_id h))"

definition set_committed :: "int \<Rightarrow> reservation_row \<Rightarrow> reservation_row" where
  "set_committed actual r = r\<lparr>state := ''committed'', charged_bytes := actual\<rparr>"

definition commit_id :: "budget \<Rightarrow> pyval \<Rightarrow> pyval \<Rightarrow> (unit \<times> budget) result" where
  "commit_id b id_arg actual_arg =
     (case is_reservation_id id_arg of
        None \<Rightarrow> Inl (DiskBudgetError ''Invalid storage reservation'')
      | Some i \<Rightarrow>
          bind_result (budget_integer actual_arg ''committed size'' 1 (capacity_bytes b)) (\<lambda>actual.
            case lookup_row i (reservations b) of
              None \<Rightarrow> Inl (DiskBudgetError ''Storage reservation is unavailable'')
            | Some r \<Rightarrow>
                require_budget (actual \<le> reserved_bytes r) ''Committed size exceeds reservation''
                  (if state r = ''committed''
                   then require_budget (charged_bytes r = actual) ''Committed size changed'' (Inr ((), b))
                   else require_budget (state r = ''active'') ''Storage reservation is unavailable''
                     (Inr ((), b\<lparr>reservations :=
                        tbl_update (\<lambda>x. reservation_id x = i) (set_committed actual) (reservations b)\<rparr>)))))"

definition commit :: "budget \<Rightarrow> disk_reservation \<Rightarrow> pyval \<Rightarrow> (unit \<times> budget) result" where
  "commit b h actual_arg =
     bind_result (handle_reservation_id b h) (\<lambda>i.
       commit_id b (PStr i) (if actual_arg = PNone then PInt (handle_bytes h) else actual_arg))"

definition release_id :: "budget \<Rightarrow> string \<Rightarrow> (unit \<times> budget) result" where
  "release_id b i =
     Inr ((), b\<lparr>reservations := tbl_delete (\<lambda>r. reservation_id r = i) (reservations b)\<rparr>)"

definition release :: "budget \<Rightarrow> disk_reservation \<Rightarrow> (unit \<times> budget) result" where
  "release b h = bind_result (handle_reservation_id b h) (\<lambda>i. release_id b i)"

text \<open>\<open>DiskReservation.close\<close>, also the exit of the \<open>with\<close> block: it releases at most once.\<close>

definition close_handle :: "budget \<Rightarrow> disk_reservation \<Rightarrow> (disk_reservation \<times> budget) result" where
  "close_handle b h =
     (if handle_closed h then Inr (h, b)
      else bind_result (release b h) (\<lambda>(_, b'). Inr (h\<lparr>handle_closed := True\<rparr>, b')))"

definition release_owner :: "budget \<Rightarrow> pyval \<Rightarrow> bool \<Rightarrow> (int \<times> budget) result" where
  "release_owner b owner_arg active_only =
     bind_result (budget_owner owner_arg ''Invalid reservation owner'') (\<lambda>ow.
       let doomed = (\<lambda>r. owner r = ow \<and> (active_only \<longrightarrow> is_active r))
       in Inr (int (length (filter doomed (reservations b))),
               b\<lparr>reservations := tbl_delete doomed (reservations b)\<rparr>))"

definition reservations_for_owner ::
  "budget \<Rightarrow> pyval \<Rightarrow> pyval \<Rightarrow> (string \<times> string \<times> int) list result" where
  "reservations_for_owner b owner_arg category_arg =
     bind_result (budget_owner owner_arg ''Invalid reservation owner'') (\<lambda>ow.
       case as_str category_arg of
         None \<Rightarrow> Inl (DiskBudgetError ''Invalid reservation category'')
       | Some cat \<Rightarrow>
           require_budget (cat \<in> set CATEGORIES) ''Invalid reservation category''
             (let rows = take (nat (max_reservations b + 1))
                           (filter (\<lambda>r. owner r = ow \<and> category r = cat) (reservations b))
              in require_budget (int (length rows) \<le> max_reservations b)
                   ''Storage reservation limit reached''
                   (Inr (map (\<lambda>r. (reservation_id r, state r, charged_bytes r)) rows))))"

definition check_health :: "pyval option \<Rightarrow> budget \<Rightarrow> unit result" where
  "check_health free b =
     bind_result (actual_free free) (\<lambda>fr.
       require_budget (fr \<ge> charged is_active (reservations b) + journal_headroom_bytes b
           + metadata_headroom_bytes b) ''Storage pressure prevents durable shutdown'' (Inr ()))"

definition snapshot :: "budget \<Rightarrow> (string \<times> int) list" where
  "snapshot b =
     (let (count, total, media) = totals b
      in [(''reservations'', count), (''chargedBytes'', total), (''mediaBytes'', media),
          (''journalHeadroomBytes'', journal_headroom_bytes b),
          (''metadataHeadroomBytes'', metadata_headroom_bytes b)])"

section \<open>The invariant of the reservations table\<close>

definition row_ok :: "budget \<Rightarrow> reservation_row \<Rightarrow> bool" where
  "row_ok b r \<longleftrightarrow> row_sound (capacity_bytes b) r \<and> (is_active r \<longrightarrow> charged_bytes r = reserved_bytes r)"

definition budget_inv :: "budget \<Rightarrow> bool" where
  "budget_inv b \<longleftrightarrow>
     distinct_keys reservation_id (reservations b) \<and>
     list_all (row_ok b) (reservations b) \<and>
     int (length (reservations b)) \<le> max_reservations b \<and>
     charged (\<lambda>_. True) (reservations b) \<le> usable_bytes b \<and>
     (charged is_media (reservations b) = 0 \<or>
      charged is_media (reservations b) \<le> usable_bytes b - journal_headroom_bytes b)"

lemma row_ok_nonneg: "list_all (row_ok b) rs \<Longrightarrow> r \<in> set rs \<Longrightarrow> 0 \<le> charged_bytes r"
  by (auto simp: list_all_iff row_ok_def row_sound_def)

lemma charged_nonneg: "list_all (row_ok b) rs \<Longrightarrow> 0 \<le> charged p rs"
  unfolding charged_def by (rule tbl_sum_nonneg) (rule row_ok_nonneg)

lemma charged_delete_le: "list_all (row_ok b) rs \<Longrightarrow> charged p (tbl_delete q rs) \<le> charged p rs"
  unfolding charged_def by (rule tbl_sum_delete_le) (rule row_ok_nonneg)

lemma budget_inv_cong:
  "reservations b' = reservations b \<Longrightarrow> capacity_bytes b' = capacity_bytes b \<Longrightarrow>
   journal_headroom_bytes b' = journal_headroom_bytes b \<Longrightarrow>
   metadata_headroom_bytes b' = metadata_headroom_bytes b \<Longrightarrow>
   max_reservations b' = max_reservations b \<Longrightarrow> budget_inv b \<Longrightarrow> budget_inv b'"
  by (auto simp: budget_inv_def usable_bytes_def row_ok_def list_all_iff)

lemma row_ok_reservations [simp]: "row_ok (b\<lparr>reservations := rs\<rparr>) = row_ok b"
  by (rule ext) (simp add: row_ok_def)

lemma usable_reservations [simp]: "usable_bytes (b\<lparr>reservations := rs\<rparr>) = usable_bytes b"
  by (simp add: usable_bytes_def)

subsection \<open>Arguments\<close>

lemma budget_category_Inr: "budget_category v = Inr c \<longleftrightarrow> v = PStr c \<and> c \<in> set CATEGORIES"
  by (cases v) (auto simp: budget_category_def py_in_strs_def)

lemma budget_owner_Inr: "budget_owner v msg = Inr s \<longleftrightarrow> v = PStr s \<and> is_word_id s"
  by (cases v) (auto simp: budget_owner_def)

lemma budget_integer_Inr:
  "budget_integer v nm low high = Inr n \<longleftrightarrow> v = PInt n \<and> low \<le> n \<and> n \<le> high"
  by (auto simp: budget_integer_def int_in_range_Some_iff split: option.splits)

lemmas budget_arg_iff = budget_category_Inr budget_owner_Inr budget_integer_Inr

subsection \<open>Deleting rows\<close>

lemma delete_preserves_inv:
  assumes inv: "budget_inv b"
  shows "budget_inv (b\<lparr>reservations := tbl_delete q (reservations b)\<rparr>)"
proof -
  let ?rs = "reservations b" and ?rs' = "tbl_delete q (reservations b)"
  from inv have ok: "list_all (row_ok b) ?rs" by (simp add: budget_inv_def)
  have le: "charged p ?rs' \<le> charged p ?rs" for p
    using ok by (rule charged_delete_le)
  have "0 \<le> charged is_media ?rs'"
    by (rule charged_nonneg [of b]) (use ok in \<open>auto simp: list_all_iff\<close>)
  with le [of is_media] le [of "\<lambda>_. True"] inv length_tbl_delete [of q ?rs]
  show ?thesis by (auto simp: budget_inv_def list_all_iff)
qed

lemma release_id_inv: "budget_inv b \<Longrightarrow> release_id b i = Inr (u, b') \<Longrightarrow> budget_inv b'"
  by (auto simp: release_id_def delete_preserves_inv)

lemma release_owner_inv: "budget_inv b \<Longrightarrow> release_owner b v a = Inr (n, b') \<Longrightarrow> budget_inv b'"
  by (auto simp: release_owner_def result_iff Let_def delete_preserves_inv)

subsection \<open>Committing a row\<close>

interpretation committed_row: row_update reservation_id "set_committed actual"
  by unfold_locales (simp add: set_committed_def)

lemma commit_id_Inr_iff:
  "commit_id b v w = Inr (u, b') \<longleftrightarrow>
     (\<exists>i actual r. is_reservation_id v = Some i \<and> w = PInt actual \<and> 1 \<le> actual \<and>
        actual \<le> capacity_bytes b \<and> lookup_row i (reservations b) = Some r \<and>
        actual \<le> reserved_bytes r \<and>
        (state r = ''committed'' \<and> charged_bytes r = actual \<and> b' = b \<or>
         state r = ''active'' \<and> b' = b\<lparr>reservations :=
           tbl_update (\<lambda>x. reservation_id x = i) (set_committed actual) (reservations b)\<rparr>))"
  by (cases "is_reservation_id v")
    (auto simp: commit_id_def require_budget_def result_iff budget_integer_Inr split: option.splits if_splits)

lemma commit_preserves_inv:
  assumes inv: "budget_inv b" and r: "lookup_row i (reservations b) = Some r"
    and le: "actual \<le> reserved_bytes r" "1 \<le> actual" and act: "state r = ''active''"
  shows "budget_inv (b\<lparr>reservations :=
     tbl_update (\<lambda>x. reservation_id x = i) (set_committed actual) (reservations b)\<rparr>)"
proof -
  let ?rs = "reservations b"
  let ?rs' = "tbl_update (\<lambda>x. reservation_id x = i) (set_committed actual) ?rs"
  from inv have ok: "list_all (row_ok b) ?rs" and dist: "distinct_keys reservation_id ?rs"
    by (auto simp: budget_inv_def)
  have same: "x = r" if "x \<in> set ?rs" "reservation_id x = i" for x
    using tbl_lookup_unique [OF dist that(1)] that(2) r by (simp add: lookup_row_def)
  have rin: "r \<in> set ?rs" using r by (auto simp: lookup_row_def dest: tbl_lookup_Some)
  have charge: "charged_bytes r = reserved_bytes r"
    using ok rin act by (auto simp: list_all_iff row_ok_def is_active_def)
  have down: "charged p ?rs' \<le> charged p ?rs" if "\<And>x. p (set_committed actual x) = p x" for p
    unfolding charged_def
    by (rule tbl_sum_update_le) (use same that charge le in \<open>auto simp: set_committed_def\<close>)
  have ok': "list_all (row_ok b) ?rs'"
    using ok le rin by (auto simp: list_all_iff set_tbl_update row_ok_def row_sound_def
        set_committed_def is_active_def dest: same)
  have "charged is_media ?rs' \<le> charged is_media ?rs"
    and "charged (\<lambda>_. True) ?rs' \<le> charged (\<lambda>_. True) ?rs"
    by (rule down; simp add: is_media_def set_committed_def)+
  moreover have "0 \<le> charged is_media ?rs'" using ok' by (rule charged_nonneg)
  ultimately show ?thesis
    using inv ok' by (auto simp: budget_inv_def committed_row.distinct_keys_update)
qed

lemma commit_id_inv: "budget_inv b \<Longrightarrow> commit_id b v w = Inr (u, b') \<Longrightarrow> budget_inv b'"
  by (auto simp: commit_id_Inr_iff intro: commit_preserves_inv)

lemma commit_inv: "budget_inv b \<Longrightarrow> commit b h w = Inr (u, b') \<Longrightarrow> budget_inv b'"
  by (auto simp: commit_def result_iff intro: commit_id_inv)

subsection \<open>Admitting a row\<close>

definition fresh_row :: "string \<Rightarrow> string \<Rightarrow> string \<Rightarrow> int \<Rightarrow> int \<Rightarrow> reservation_row" where
  "fresh_row i ow cat amount now =
     \<lparr>reservation_id = i, owner = ow, category = cat, reserved_bytes = amount,
      charged_bytes = amount, state = ''active'', created_ns = now\<rparr>"

lemma admit_row_Inr_iff:
  "admit_row free now b i ow cat amount = Inr (h, b') \<longleftrightarrow>
     (\<exists>fr. actual_free free = Inr fr \<and>
       int (length (reservations b)) < max_reservations b \<and>
       charged (\<lambda>_. True) (reservations b) + amount \<le> usable_bytes b \<and>
       (cat \<noteq> ''journal'' \<longrightarrow>
         charged is_media (reservations b) + amount \<le> usable_bytes b - journal_headroom_bytes b) \<and>
       fr \<ge> charged is_active (reservations b) + amount + journal_headroom_bytes b
              + metadata_headroom_bytes b \<and>
       lookup_row i (reservations b) = None \<and>
       h = new_handle b i ow cat amount \<and>
       b' = b\<lparr>reservations := reservations b @ [fresh_row i ow cat amount now]\<rparr>)"
  by (auto simp: admit_row_def totals_def Let_def require_budget_def result_iff fresh_row_def)

lemma fresh_row_fields [simp]:
  "reservation_id (fresh_row i ow cat amount now) = i"
  "category (fresh_row i ow cat amount now) = cat"
  "reserved_bytes (fresh_row i ow cat amount now) = amount"
  "charged_bytes (fresh_row i ow cat amount now) = amount"
  "state (fresh_row i ow cat amount now) = ''active''"
  by (simp_all add: fresh_row_def)

lemma charged_fresh [simp]:
  "charged p (rs @ [fresh_row i ow cat amount now]) =
     charged p rs + (if p (fresh_row i ow cat amount now) then amount else 0)"
  by (simp add: charged_def fresh_row_def)

lemma is_media_fresh [simp]: "is_media (fresh_row i ow cat amount now) \<longleftrightarrow> cat \<noteq> ''journal''"
  by (simp add: is_media_def fresh_row_def)

lemma is_active_fresh [simp]: "is_active (fresh_row i ow cat amount now)"
  by (simp add: is_active_def fresh_row_def)

lemma admit_row_inv:
  assumes inv: "budget_inv b" and adm: "admit_row free now b i ow cat amount = Inr (h, b')"
    and amount: "1 \<le> amount" "amount \<le> capacity_bytes b" and cat: "cat \<in> set CATEGORIES"
  shows "budget_inv b'"
  using inv adm amount cat
  by (auto simp: admit_row_Inr_iff budget_inv_def distinct_keys_snoc lookup_row_def row_ok_def
      row_sound_def split: if_splits)

lemma reserve_cases:
  assumes "reserve sha uuid free now b ov cv av kv = Inr (h, b')"
  obtains ow cat amount where "ov = PStr ow" "is_word_id ow" "cv = PStr cat" "cat \<in> set CATEGORIES"
      "av = PInt amount" "1 \<le> amount" "amount \<le> capacity_bytes b"
      "(\<exists>i. admit_row free now b i ow cat amount = Inr (h, b') \<and>
          i = ''reservation_'' @ (case kv of PStr k \<Rightarrow> sha k | _ \<Rightarrow> uuid)) \<or>
       (\<exists>k r. kv = PStr k \<and> is_word_id k \<and> b' = b \<and>
          lookup_row (''reservation_'' @ sha k) (reservations b) = Some r \<and>
          owner r = ow \<and> category r = cat \<and> reserved_bytes r = amount \<and> charged_bytes r = amount \<and>
          h = new_handle b (''reservation_'' @ sha k) ow cat amount)"
  using assms
  by (auto simp: reserve_def result_iff budget_arg_iff require_budget_def Let_def
      split: if_splits option.splits)

lemma reserve_inv:
  "budget_inv b \<Longrightarrow> reserve sha uuid free now b ov cv av kv = Inr (h, b') \<Longrightarrow> budget_inv b'"
  by (erule reserve_cases) (auto intro: admit_row_inv)

section \<open>Operations as steps\<close>

datatype budget_op =
    Reserve string "pyval option" int pyval pyval pyval pyval
  | CommitId pyval pyval
  | ReleaseId string
  | ReleaseOwner pyval bool

fun budget_step :: "(string \<Rightarrow> string) \<Rightarrow> budget \<Rightarrow> budget_op \<Rightarrow> (unit \<times> budget) result" where
  "budget_step sha b (Reserve uuid free now ov cv av kv) =
     bind_result (reserve sha uuid free now b ov cv av kv) (\<lambda>(_, b'). Inr ((), b'))"
| "budget_step sha b (CommitId v w) = commit_id b v w"
| "budget_step sha b (ReleaseId i) = release_id b i"
| "budget_step sha b (ReleaseOwner v a) =
     bind_result (release_owner b v a) (\<lambda>(_, b'). Inr ((), b'))"

lemma budget_step_inv:
  "budget_inv b \<Longrightarrow> budget_step sha b x = Inr (u, b') \<Longrightarrow> budget_inv b'"
  by (cases x) (auto simp: result_iff intro: reserve_inv commit_id_inv release_id_inv release_owner_inv)

interpretation budget_ops: guarded_ops "budget_step sha" budget_inv
  by unfold_locales (rule budget_step_inv)

text \<open>A concrete budget for the witnesses: 8 MiB, of which 1 MiB is journal headroom.\<close>

definition sample_budget :: budget where
  "sample_budget =
     \<lparr>self_ref = 1, capacity_bytes = 8388608, journal_headroom_bytes = 1048576,
      metadata_headroom_bytes = 1048576, max_reservations = 4,
      metadata = expected_metadata 8388608 1048576 1048576 4,
      reservations = [fresh_row ''reservation_a'' ''owner'' ''spool'' 4096 7]\<rparr>"

lemma sample_budget_inv: "budget_inv sample_budget"
  by (simp add: sample_budget_def budget_inv_def distinct_keys_def charged_def row_ok_def
      row_sound_def is_active_def is_media_def usable_bytes_def CATEGORIES_def)

text \<open>
  C15. However the operations of a disk budget are interleaved, and whichever of them raise,
  the reservations table stays sound: identifiers are unique, every row charges between one
  byte and what it reserved, the total charge fits in the capacity less the metadata headroom,
  the rows that are not journal rows leave the journal headroom free, and the number of rows
  respects the limit.
\<close>

theorem budget_run_inv: "budget_inv b \<Longrightarrow> budget_inv (run_ops (budget_step sha) b xs)"
  by (rule budget_ops.run_preserves)

theorem budget_run_inv_witness:
  "budget_inv (run_ops (budget_step (\<lambda>k. k)) sample_budget
     [CommitId (PStr ''reservation_a'') (PInt 100),
      Reserve ''b'' (Some (PInt 9000000)) 8 (PStr ''o'') (PStr ''journal'') (PInt 10) PNone])"
  using sample_budget_inv by (rule budget_run_inv)


lemma word_id_o: "is_word_id ''o''"
  by (simp add: is_word_id_def word_dash_chars_def lower_chars_def)


text \<open>
  Reserving with an idempotency key is idempotent: once it has succeeded, repeating it with
  the same owner, category, size and key succeeds again with the same handle and changes
  nothing, whatever the free space, the clock and the random source say by then.
\<close>

theorem reserve_idempotent:
  assumes first: "reserve sha uuid free now b ov cv av (PStr key) = Inr (h, b')"
  shows "reserve sha uuid' free' now' b' ov cv av (PStr key) = Inr (h, b')"
proof -
  let ?i = "''reservation_'' @ sha key"
  have key: "is_word_id key"
    using first by (auto simp: reserve_def result_iff budget_arg_iff)
  from first obtain ow cat amount where
    args: "ov = PStr ow" "is_word_id ow" "cv = PStr cat" "cat \<in> set CATEGORIES" "av = PInt amount"
      "1 \<le> amount" "amount \<le> capacity_bytes b"
    and out: "admit_row free now b ?i ow cat amount = Inr (h, b') \<or>
       (\<exists>r. b' = b \<and> lookup_row ?i (reservations b) = Some r \<and> owner r = ow \<and> category r = cat \<and>
          reserved_bytes r = amount \<and> charged_bytes r = amount \<and> h = new_handle b ?i ow cat amount)"
    by (erule_tac reserve_cases) auto
  from first args out obtain r where r: "lookup_row ?i (reservations b') = Some r" "owner r = ow"
      "category r = cat" "reserved_bytes r = amount" "charged_bytes r = amount"
      "state r \<in> {''active'', ''committed''}"
    and h: "h = new_handle b' ?i ow cat amount" and cap: "capacity_bytes b' = capacity_bytes b"
    by (auto simp: admit_row_Inr_iff lookup_row_def tbl_lookup_append fresh_row_def new_handle_def
        reserve_def budget_arg_iff result_iff require_budget_def Let_def split: option.splits)
  with args key show ?thesis
    by (simp add: reserve_def budget_arg_iff budget_owner_def budget_category_def py_in_strs_def
        budget_integer_def require_budget_def Let_def)
qed

theorem reserve_idempotent_witness:
  "reserve (\<lambda>k. k) ''u'' None 99
     (sample_budget\<lparr>reservations := reservations sample_budget @
        [fresh_row ''reservation_key'' ''o'' ''spool'' 10 8]\<rparr>)
     (PStr ''o'') (PStr ''spool'') (PInt 10) (PStr ''key'') =
   Inr (new_handle sample_budget ''reservation_key'' ''o'' ''spool'' 10,
     sample_budget\<lparr>reservations := reservations sample_budget @
        [fresh_row ''reservation_key'' ''o'' ''spool'' 10 8]\<rparr>)"
  by (rule reserve_idempotent [of "\<lambda>k. k" "''b''" "Some (PInt 9000000)" 8 sample_budget])
    (simp add: reserve_def budget_owner_def budget_category_def budget_integer_def py_in_strs_def
      CATEGORIES_def is_word_id_def word_dash_chars_def lower_chars_def admit_row_Inr_iff
      sample_budget_def lookup_row_def charged_def is_media_def is_active_def usable_bytes_def
      actual_free_def new_handle_def)

text \<open>
  A reservation that is closed leaves no trace: reserving without an idempotency key and
  closing the handle restores the database exactly, and closing it again does nothing.
\<close>

theorem reserve_close_roundtrip:
  assumes "reserve sha uuid free now b ov cv av PNone = Inr (h, b')"
  shows "close_handle b' h = Inr (h\<lparr>handle_closed := True\<rparr>, b) \<and>
    close_handle b (h\<lparr>handle_closed := True\<rparr>) = Inr (h\<lparr>handle_closed := True\<rparr>, b)"
proof -
  let ?i = "''reservation_'' @ uuid"
  from assms obtain ow cat amount where "admit_row free now b ?i ow cat amount = Inr (h, b')"
    by (erule_tac reserve_cases) auto
  then have h: "h = new_handle b ?i ow cat amount" and none: "lookup_row ?i (reservations b) = None"
    and b': "b' = b\<lparr>reservations := reservations b @ [fresh_row ?i ow cat amount now]\<rparr>"
    by (auto simp: admit_row_Inr_iff)
  have "tbl_delete (\<lambda>r. reservation_id r = ?i) (reservations b') = reservations b"
    using none unfolding b' lookup_row_def tbl_lookup_None_iff
    by (auto simp: tbl_delete_def filter_id_conv image_iff)
  then have "close_handle b' h = Inr (h\<lparr>handle_closed := True\<rparr>, b)"
    by (simp add: close_handle_def release_def handle_reservation_id_def require_budget_def
        release_id_def h b' new_handle_def)
  then show ?thesis by (simp add: close_handle_def)
qed

lemma sample_reserve:
  "reserve (\<lambda>k. k) ''b'' (Some (PInt 9000000)) 8 sample_budget (PStr ''o'') (PStr ''spool'')
     (PInt 10) PNone =
   Inr (new_handle sample_budget ''reservation_b'' ''o'' ''spool'' 10,
     sample_budget\<lparr>reservations := reservations sample_budget @
        [fresh_row ''reservation_b'' ''o'' ''spool'' 10 8]\<rparr>)"
  by (simp add: reserve_def budget_owner_def budget_category_def budget_integer_def py_in_strs_def
      CATEGORIES_def is_word_id_def word_dash_chars_def lower_chars_def admit_row_Inr_iff
      sample_budget_def lookup_row_def charged_def is_media_def is_active_def usable_bytes_def
      actual_free_def new_handle_def)

theorem reserve_close_roundtrip_witness:
  "close_handle (sample_budget\<lparr>reservations := reservations sample_budget @
        [fresh_row ''reservation_b'' ''o'' ''spool'' 10 8]\<rparr>)
     (new_handle sample_budget ''reservation_b'' ''o'' ''spool'' 10) =
   Inr ((new_handle sample_budget ''reservation_b'' ''o'' ''spool'' 10)\<lparr>handle_closed := True\<rparr>,
     sample_budget)"
  by (rule reserve_close_roundtrip [OF sample_reserve, THEN conjunct1])

subsection \<open>Growing the capacity\<close>

lemma metadata_headroom_mono:
  assumes "0 < old" "old < new" "old \<ge> 1024 * 1024 \<or> new < 1024 * 1024"
  shows "old - metadata_headroom old \<le> new - metadata_headroom new"
  using assms unfolding metadata_headroom_def by (auto simp: max_def; presburger)

lemma grow_capacity_Inr:
  assumes "grow_capacity allow free b existing = Inr b'"
  obtains old where "map_of existing ''capacity_bytes'' = Some old"
    "map_of existing ''metadata_headroom_bytes'' = Some (metadata_headroom old)"
    "0 < old" "old < capacity_bytes b" "list_all (row_sound old) (reservations b)"
    "charged (\<lambda>_. True) (reservations b) \<le> usable_bytes b" "reservations b' = reservations b"
    "capacity_bytes b' = capacity_bytes b" "journal_headroom_bytes b' = journal_headroom_bytes b"
    "metadata_headroom_bytes b' = metadata_headroom_bytes b" "max_reservations b' = max_reservations b"
  using assms
  by (auto simp: grow_capacity_def Let_def require_budget_def result_iff usable_bytes_def
      split: option.splits)

text \<open>
  Opening an existing root under a larger capacity keeps the table sound, as long as the
  capacity does not cross 1 MiB, where the metadata headroom jumps.
\<close>

theorem growth_keeps_inv:
  assumes grow: "grow_capacity allow free b existing = Inr b'"
    and meta: "map_of existing ''capacity_bytes'' = Some old"
    and now: "metadata_headroom_bytes b = metadata_headroom (capacity_bytes b)"
    and sound: "budget_inv (b\<lparr>capacity_bytes := old, metadata_headroom_bytes := metadata_headroom old\<rparr>)"
    and side: "old \<ge> 1024 * 1024 \<or> capacity_bytes b < 1024 * 1024"
  shows "budget_inv b'"
proof -
  from grow meta have old: "0 < old" "old < capacity_bytes b"
    and tot: "charged (\<lambda>_. True) (reservations b) \<le> usable_bytes b"
    and same: "reservations b' = reservations b" "capacity_bytes b' = capacity_bytes b"
      "journal_headroom_bytes b' = journal_headroom_bytes b"
      "metadata_headroom_bytes b' = metadata_headroom_bytes b" "max_reservations b' = max_reservations b"
    by (auto elim: grow_capacity_Inr)
  from metadata_headroom_mono [OF old side] now
  have "old - metadata_headroom old \<le> usable_bytes b" by (simp add: usable_bytes_def)
  moreover have "list_all (row_ok b) (reservations b)"
    using sound old by (auto simp: budget_inv_def list_all_iff row_ok_def row_sound_def)
  ultimately have "budget_inv b"
    using sound tot by (auto simp: budget_inv_def usable_bytes_def)
  then show ?thesis using same by (intro budget_inv_cong [of b' b]) auto
qed

definition grown_sample :: budget where
  "grown_sample = sample_budget\<lparr>capacity_bytes := 16777216, metadata_headroom_bytes := 2097152\<rparr>"

theorem growth_keeps_inv_witness:
  "budget_inv (grown_sample\<lparr>metadata := expected_metadata 16777216 1048576 2097152 4\<rparr>)"
proof (rule growth_keeps_inv [of True "Some (PInt 9000000)" grown_sample "metadata sample_budget" _ 8388608])
  show "budget_inv (grown_sample\<lparr>capacity_bytes := 8388608,
      metadata_headroom_bytes := metadata_headroom 8388608\<rparr>)"
    using sample_budget_inv
    by (rule budget_inv_cong [rotated -1])
      (simp_all add: grown_sample_def sample_budget_def metadata_headroom_def)
qed (simp_all add: grown_sample_def sample_budget_def expected_metadata_def metadata_headroom_def
    grow_capacity_def require_budget_def Let_def actual_free_def budget_integer_def row_sound_def
    charged_def is_active_def CATEGORIES_def)

text \<open>
  C17. When an existing root is opened under a larger capacity, the journal headroom survives exactly
  when what the other categories are charged leaves it in the new usable size, which the code does
  not check. It always survives when the capacity does not cross 1 MiB, where the metadata headroom
  jumps. When it does not survive, a journal reservation that fills the headroom is refused for
  capacity, which a sound table never does. The instance shows that this happens: a root of 1048575
  bytes with a headroom of 65536 that charges 520000 bytes to the spool grows by one byte.
\<close>

lemma initialize_grows:
  assumes "initialize allow free b = Inr b'" and "map_of (metadata b) ''capacity_bytes'' = Some old" and "old < capacity_bytes b"
  shows "grow_capacity allow free b (metadata b) = Inr b'"
proof -
  let ?e = "expected_metadata (capacity_bytes b) (journal_headroom_bytes b) (metadata_headroom_bytes b) (max_reservations b)"
  have "map_of ?e ''capacity_bytes'' = Some (capacity_bytes b)" by (simp add: expected_metadata_def)
  then have "map_of (metadata b) ''capacity_bytes'' \<noteq> map_of ?e ''capacity_bytes''" using assms(2,3) by simp
  then have "\<not> dict_eq (metadata b) ?e" using map_of_SomeD [OF assms(2)] by (force simp: dict_eq_def list_all_iff)
  then show ?thesis using assms(1,2) by (auto simp: initialize_def Let_def split: if_splits)
qed

theorem growth_keeps_headroom_iff:
  assumes grow: "initialize allow free b = Inr b'"
    and old: "map_of (metadata b) ''capacity_bytes'' = Some old" "old < capacity_bytes b"
    and now: "metadata_headroom_bytes b = metadata_headroom (capacity_bytes b)"
    and sound: "budget_inv (b\<lparr>capacity_bytes := old, metadata_headroom_bytes := metadata_headroom old\<rparr>)"
  shows "(budget_inv b' \<longleftrightarrow> charged is_media (reservations b) = 0 \<or>
       charged is_media (reservations b) + journal_headroom_bytes b \<le> usable_bytes b) \<and>
     (old \<ge> 1024 * 1024 \<or> capacity_bytes b < 1024 * 1024 \<longrightarrow> budget_inv b') \<and>
     (\<not> budget_inv b' \<and> is_word_id ow \<and> 1 \<le> amount \<and> amount \<le> capacity_bytes b \<and>
        journal_headroom_bytes b \<le> charged (\<lambda>r. \<not> is_media r) (reservations b) + amount \<and>
        int (length (reservations b)) < max_reservations b \<longrightarrow>
      reserve sha uuid fr t b' (PStr ow) (PStr ''journal'') (PInt amount) PNone =
        Inl (DiskBudgetError ''Storage capacity exhausted''))"
proof -
  note grow' = initialize_grows [OF grow old]
  from grow' old have "0 < old" and rows: "list_all (row_sound old) (reservations b)"
    and tot: "charged (\<lambda>_. True) (reservations b) \<le> usable_bytes b"
    and same: "reservations b' = reservations b" "capacity_bytes b' = capacity_bytes b"
      "journal_headroom_bytes b' = journal_headroom_bytes b"
      "metadata_headroom_bytes b' = metadata_headroom_bytes b" "max_reservations b' = max_reservations b"
    by (auto elim: grow_capacity_Inr)
  have usable: "usable_bytes b' = usable_bytes b" by (simp add: usable_bytes_def same)
  have "list_all (row_ok b') (reservations b)"
    using sound old(2) by (auto simp: budget_inv_def list_all_iff row_ok_def row_sound_def same)
  then have iff: "budget_inv b' \<longleftrightarrow> charged is_media (reservations b) = 0 \<or>
      charged is_media (reservations b) + journal_headroom_bytes b \<le> usable_bytes b"
    using sound tot by (auto simp: budget_inv_def usable same)
  moreover have "budget_inv b'" if "old \<ge> 1024 * 1024 \<or> capacity_bytes b < 1024 * 1024"
    using grow' old(1) now sound that by (rule growth_keeps_inv)
  moreover have "reserve sha uuid fr t b' (PStr ow) (PStr ''journal'') (PInt amount) PNone =
        Inl (DiskBudgetError ''Storage capacity exhausted'')"
    if bad: "\<not> budget_inv b'" and args: "is_word_id ow" "1 \<le> amount" "amount \<le> capacity_bytes b"
      "journal_headroom_bytes b \<le> charged (\<lambda>r. \<not> is_media r) (reservations b) + amount"
      "int (length (reservations b)) < max_reservations b"
  proof -
    have "charged (\<lambda>_. True) (reservations b) =
        charged is_media (reservations b) + charged (\<lambda>r. \<not> is_media r) (reservations b)"
      unfolding charged_def by (rule tbl_sum_split)
    with bad iff args(4) have "\<not> charged (\<lambda>_. True) (reservations b) + amount \<le> usable_bytes b" by auto
    moreover have "budget_integer (PInt amount) nm 1 (capacity_bytes b) = Inr amount" for nm
      using args(2,3) by (simp add: budget_integer_Inr)
    ultimately show ?thesis
      using args(1,5) budget_category_Inr [of "PStr ''journal''" "''journal''"]
      by (simp add: reserve_def budget_owner_def same admit_row_def totals_def Let_def usable require_budget_def
          ensure_def CATEGORIES_def)
  qed
  ultimately show ?thesis by blast
qed

definition small_budget :: "int \<Rightarrow> budget" where
  "small_budget cap =
     \<lparr>self_ref = 1, capacity_bytes = cap, journal_headroom_bytes = 65536,
      metadata_headroom_bytes = metadata_headroom cap, max_reservations = 4,
      metadata = expected_metadata 1048575 65536 65535 4,
      reservations = [fresh_row ''reservation_a'' ''owner'' ''spool'' 520000 7]\<rparr>"

lemma small_budget_inv: "budget_inv (small_budget 1048575)"
  by (simp add: small_budget_def metadata_headroom_def row_sound_def charged_def is_active_def is_media_def
      CATEGORIES_def budget_inv_def distinct_keys_def row_ok_def usable_bytes_def)

lemma small_budget_grows: "\<exists>b'. initialize True (Some (PInt 2000000)) (small_budget 1048576) = Inr b'"
  by (simp add: small_budget_def initialize_def grow_capacity_def dict_eq_def expected_metadata_def
      metadata_headroom_def require_budget_def Let_def actual_free_def budget_integer_def row_sound_def
      charged_def is_active_def CATEGORIES_def)

theorem growth_loses_headroom_witness:
  "budget_inv (small_budget 1048575) \<and>
   (\<exists>b'. initialize True (Some (PInt 2000000)) (small_budget 1048576) = Inr b' \<and> \<not> budget_inv b' \<and>
      reserve (\<lambda>k. k) ''j'' (Some (PInt 2000000)) 8 b' (PStr ''o'') (PStr ''journal'') (PInt 65536) PNone =
        Inl (DiskBudgetError ''Storage capacity exhausted''))"
proof -
  obtain b' where grow: "initialize True (Some (PInt 2000000)) (small_budget 1048576) = Inr b'"
    using small_budget_grows by blast
  have "(small_budget 1048576)\<lparr>capacity_bytes := 1048575, metadata_headroom_bytes := metadata_headroom 1048575\<rparr> =
      small_budget 1048575" by (simp add: small_budget_def)
  then have old: "budget_inv ((small_budget 1048576)\<lparr>capacity_bytes := 1048575,
      metadata_headroom_bytes := metadata_headroom 1048575\<rparr>)" using small_budget_inv by simp
  have meta: "map_of (metadata (small_budget 1048576)) ''capacity_bytes'' = Some 1048575"
    "1048575 < capacity_bytes (small_budget 1048576)"
    "metadata_headroom_bytes (small_budget 1048576) = metadata_headroom (capacity_bytes (small_budget 1048576))"
    by (simp_all add: small_budget_def expected_metadata_def)
  from growth_keeps_headroom_iff [OF grow meta old, of "''o''" 65536] grow small_budget_inv word_id_o show ?thesis
    by (simp add: small_budget_def charged_def is_media_def usable_bytes_def metadata_headroom_def)
qed

end
