(* ===== verification/Clock_Sync.thy ===== *)
theory Clock_Sync
  imports Complex_Main Prelude
begin

text \<open>
  \<open>reproof/live/clock_sync.py\<close>: trusted clock samples, cross-clock mappings with conservative
  bounds, and the time anchor of a recording.

  Object identity (\<open>_issuer = object()\<close>, compared with \<open>is\<close>) is a number; a synchronizer
  carries the next unused one, so a new issuer differs from every earlier one. What the
  platform clock returned is a parameter of each operation, \<open>None\<close> when it raised or returned
  something other than a \<open>ClockReading\<close>. An operation of a synchronizer can change its state
  and still raise, so it returns the outcome together with the new state. \<open>fp\<close> is the
  fingerprint (SHA-256 of the canonical JSON) of a mapping's fields.
\<close>

definition MAX_NS :: int where "MAX_NS = 2 ^ 63 - 1"
definition MAX_UNCERTAINTY_NS :: int where "MAX_UNCERTAINTY_NS = 60000000000"
definition MAX_DRIFT_PPM :: int where "MAX_DRIFT_PPM = 1000000"
definition DEFAULT_MAX_MAPPING_UNCERTAINTY_NS :: int where
  "DEFAULT_MAX_MAPPING_UNCERTAINTY_NS = 250000000"

section \<open>Argument checks\<close>

definition require_clock :: "bool \<Rightarrow> string \<Rightarrow> 'a result \<Rightarrow> 'a result" where
  "require_clock c msg k = ensure c (ContractError msg) k"

definition clock_identifier :: "pyval \<Rightarrow> string \<Rightarrow> string result" where
  "clock_identifier v nm =
     (case as_str v of
        Some s \<Rightarrow> (if matches_name lower_chars (lower_chars @ digit_chars @ ''_-'') 64 s then Inr s
                   else Inl (ContractError (''Invalid '' @ nm)))
      | None \<Rightarrow> Inl (ContractError (''Invalid '' @ nm)))"

definition clock_digest :: "pyval \<Rightarrow> string \<Rightarrow> string result" where
  "clock_digest v nm =
     (case as_str v of
        Some s \<Rightarrow> (if is_hex_digest s then Inr s else Inl (ContractError (''Invalid '' @ nm)))
      | None \<Rightarrow> Inl (ContractError (''Invalid '' @ nm)))"

definition clock_integer :: "pyval \<Rightarrow> string \<Rightarrow> int \<Rightarrow> int \<Rightarrow> int result" where
  "clock_integer v nm low high =
     (case int_in_range low high v of
        Some n \<Rightarrow> Inr n | None \<Rightarrow> Inl (ContractError (''Invalid '' @ nm)))"

lemma clock_integer_Inr:
  "clock_integer v nm low high = Inr n \<longleftrightarrow> v = PInt n \<and> low \<le> n \<and> n \<le> high"
  by (auto simp: clock_integer_def int_in_range_Some_iff split: option.splits)

section \<open>Readings, samples and intervals\<close>

record clock_reading =
  clock_id :: string
  boot_digest :: string
  nanoseconds :: int
  uncertainty_ns :: int

definition make_reading :: "pyval \<Rightarrow> pyval \<Rightarrow> pyval \<Rightarrow> pyval \<Rightarrow> clock_reading result" where
  "make_reading cid boot ns unc =
     bind_result (clock_identifier cid ''clock identity'') (\<lambda>c.
     bind_result (clock_digest boot ''boot incarnation digest'') (\<lambda>d.
     bind_result (clock_integer ns ''clock value'' 0 MAX_NS) (\<lambda>n.
     bind_result (clock_integer unc ''clock uncertainty'' 0 MAX_UNCERTAINTY_NS) (\<lambda>u.
       Inr \<lparr>clock_id = c, boot_digest = d, nanoseconds = n, uncertainty_ns = u\<rparr>))))"

record trusted_sample =
  reading :: clock_reading
  sample_issuer :: nat

record clock_interval =
  earliest_ns :: int
  latest_ns :: int

definition make_interval :: "int \<Rightarrow> int \<Rightarrow> clock_interval result" where
  "make_interval lo hi =
     bind_result (clock_integer (PInt lo) ''translated clock lower bound'' 0 MAX_NS) (\<lambda>l.
     bind_result (clock_integer (PInt hi) ''translated clock upper bound'' 0 MAX_NS) (\<lambda>h.
     require_clock (l \<le> h) ''Invalid translated clock interval''
       (Inr \<lparr>earliest_ns = l, latest_ns = h\<rparr>)))"

definition interval_uncertainty :: "clock_interval \<Rightarrow> int" where
  "interval_uncertainty i = latest_ns i - earliest_ns i"

text \<open>The macOS clock: ticks of \<open>mach_continuous_time\<close> scaled by the timebase.\<close>

definition darwin_uncertainty :: "int \<Rightarrow> int \<Rightarrow> int" where
  "darwin_uncertainty numer denom = (numer + denom - 1) div denom"

definition read_darwin :: "int \<Rightarrow> int \<Rightarrow> int \<Rightarrow> int" where
  "read_darwin ticks numer denom = ticks * numer div denom"

section \<open>Mappings\<close>

record clock_mapping =
  coordinator_clock_id :: string
  host_clock_id :: string
  host_boot_digest :: string
  coordinator_send_ns :: int
  coordinator_receive_ns :: int
  host_receive_ns :: int
  host_send_ns :: int
  offset_lower_ns :: int
  offset_upper_ns :: int
  max_drift_ppm :: int
  mapping_id :: string
  mapping_issuer :: nat
  measurement :: string

definition drift_allowance :: "clock_mapping \<Rightarrow> int \<Rightarrow> int" where
  "drift_allowance m v =
     (let horizon = max \<bar>v - coordinator_send_ns m\<bar> \<bar>v - coordinator_receive_ns m\<bar>
      in (horizon * max_drift_ppm m + 999999) div 1000000)"

definition translate :: "clock_mapping \<Rightarrow> pyval \<Rightarrow> clock_interval result" where
  "translate m coordinator_ns =
     bind_result (clock_integer coordinator_ns ''coordinator clock value'' 0 MAX_NS) (\<lambda>v.
       let drift = drift_allowance m v;
           lower = v + offset_lower_ns m - drift;
           upper = v + offset_upper_ns m + drift
       in require_clock (0 \<le> lower \<and> lower \<le> upper \<and> upper \<le> MAX_NS)
            ''Clock translation is out of range'' (make_interval lower upper))"

definition require_compatible :: "clock_mapping \<Rightarrow> trusted_sample \<Rightarrow> clock_reading result" where
  "require_compatible m sample =
     require_clock (sample_issuer sample = mapping_issuer m) ''Clock mapping is incompatible''
       (let r = reading sample
        in require_clock (clock_id r = host_clock_id m \<and> boot_digest r = host_boot_digest m \<and>
             nanoseconds r \<ge> max (host_send_ns m) (host_receive_ns m))
             ''Clock mapping is incompatible'' (Inr r))"

definition mapping_fields :: "clock_mapping \<Rightarrow> (string \<times> pyval) list" where
  "mapping_fields m =
     [(''coordinatorClockId'', PStr (coordinator_clock_id m)),
      (''hostClockId'', PStr (host_clock_id m)), (''hostBootDigest'', PStr (host_boot_digest m)),
      (''coordinatorSendNs'', PInt (coordinator_send_ns m)),
      (''coordinatorReceiveNs'', PInt (coordinator_receive_ns m)),
      (''hostReceiveNs'', PInt (host_receive_ns m)), (''hostSendNs'', PInt (host_send_ns m)),
      (''offsetLowerNs'', PInt (offset_lower_ns m)), (''offsetUpperNs'', PInt (offset_upper_ns m)),
      (''maxDriftPpm'', PInt (max_drift_ppm m))] @
     (if measurement m \<noteq> ''peer-exchange'' then [(''measurement'', PStr (measurement m))] else [])"

section \<open>The synchronizer\<close>

record synchronizer =
  issuer :: nat
  next_object :: nat
  last_reading :: "clock_reading option"
  max_mapping_uncertainty_ns :: int

definition new_synchronizer :: "pyval \<Rightarrow> synchronizer result" where
  "new_synchronizer unc =
     bind_result (clock_integer unc ''maximum mapping uncertainty'' 0 MAX_UNCERTAINTY_NS) (\<lambda>u.
       Inr \<lparr>issuer = 0, next_object = 1, last_reading = None, max_mapping_uncertainty_ns = u\<rparr>)"

definition renew_issuer :: "synchronizer \<Rightarrow> synchronizer" where
  "renew_issuer s = s\<lparr>issuer := next_object s, next_object := Suc (next_object s)\<rparr>"

definition epoch_broken :: "clock_reading option \<Rightarrow> clock_reading \<Rightarrow> bool" where
  "epoch_broken previous r =
     (case previous of None \<Rightarrow> False
      | Some p \<Rightarrow> clock_id r \<noteq> clock_id p \<or> boot_digest r \<noteq> boot_digest p \<or>
                  nanoseconds r < nanoseconds p)"

definition sample :: "clock_reading option \<Rightarrow> synchronizer \<Rightarrow> trusted_sample result \<times> synchronizer" where
  "sample raw s =
     (case raw of
        None \<Rightarrow> (Inl (ContractError ''Suspend-inclusive clock is unavailable''),
                 (renew_issuer s)\<lparr>last_reading := None\<rparr>)
      | Some r \<Rightarrow>
          (let s1 = (if epoch_broken (last_reading s) r then renew_issuer s else s)
           in (Inr \<lparr>reading = r, sample_issuer = issuer s1\<rparr>, s1\<lparr>last_reading := Some r\<rparr>)))"

definition same_epoch :: "clock_reading \<Rightarrow> clock_reading \<Rightarrow> bool" where
  "same_epoch a b \<longleftrightarrow>
     clock_id a = clock_id b \<and> boot_digest a = boot_digest b \<and> nanoseconds a \<le> nanoseconds b"

text \<open>A sample argument is \<open>None\<close> when it is not a \<open>TrustedClockSample\<close> at all.\<close>

fun trusted_by :: "synchronizer \<Rightarrow> trusted_sample option \<Rightarrow> clock_reading option" where
  "trusted_by s None = None"
| "trusted_by s (Some x) = (if sample_issuer x = issuer s then Some (reading x) else None)"

text \<open>The mapping of an exchange, its fingerprint taken over the fields.\<close>

definition sealed_mapping ::
  "((string \<times> pyval) list \<Rightarrow> string) \<Rightarrow> synchronizer \<Rightarrow> string \<Rightarrow> clock_reading \<Rightarrow> int \<Rightarrow> int \<Rightarrow>
   int \<Rightarrow> int \<Rightarrow> int \<Rightarrow> int \<Rightarrow> int \<Rightarrow> string \<Rightarrow> clock_mapping" where
  "sealed_mapping fp s cid first sent_ns receive_ns host_receive host_send lower upper drift kind =
     (let m = \<lparr>coordinator_clock_id = cid, host_clock_id = clock_id first,
            host_boot_digest = boot_digest first, coordinator_send_ns = sent_ns,
            coordinator_receive_ns = receive_ns, host_receive_ns = host_receive,
            host_send_ns = host_send, offset_lower_ns = lower, offset_upper_ns = upper,
            max_drift_ppm = drift, mapping_id = [], mapping_issuer = issuer s,
            measurement = kind\<rparr>
      in m\<lparr>mapping_id := fp (mapping_fields m)\<rparr>)"

definition record_exchange ::
  "((string \<times> pyval) list \<Rightarrow> string) \<Rightarrow> synchronizer \<Rightarrow> pyval \<Rightarrow> pyval \<Rightarrow>
   trusted_sample option \<Rightarrow> trusted_sample option \<Rightarrow> pyval \<Rightarrow> pyval \<Rightarrow> pyval \<Rightarrow> clock_mapping result" where
  "record_exchange fp s coordinator_id send host_received host_sent receive uncertainty drift_ppm =
     bind_result (clock_identifier coordinator_id ''coordinator clock identity'') (\<lambda>cid.
     bind_result (clock_integer send ''coordinator send time'' 0 MAX_NS) (\<lambda>sent_ns.
     bind_result (clock_integer receive ''coordinator receive time'' 0 MAX_NS) (\<lambda>receive_ns.
     bind_result (clock_integer uncertainty ''coordinator clock uncertainty'' 0 MAX_UNCERTAINTY_NS) (\<lambda>cu.
     bind_result (clock_integer drift_ppm ''clock drift bound'' 0 MAX_DRIFT_PPM) (\<lambda>drift.
       case (trusted_by s host_received, trusted_by s host_sent) of
         (Some first, Some second) \<Rightarrow>
           require_clock (sent_ns \<le> receive_ns \<and> same_epoch first second) ''Clock exchange is inconsistent''
             (let lower = nanoseconds second - uncertainty_ns second - (receive_ns + cu);
                  upper = nanoseconds first + uncertainty_ns first - (sent_ns - cu)
              in require_clock (lower \<le> upper) ''Clock exchange is inconsistent''
                (require_clock (upper - lower \<le> max_mapping_uncertainty_ns s)
                   ''Clock mapping uncertainty is excessive''
                   (Inr (sealed_mapping fp s cid first sent_ns receive_ns (nanoseconds first)
                      (nanoseconds second) lower upper drift ''peer-exchange''))))
       | _ \<Rightarrow> Inl (ContractError ''Trusted local clock samples required''))))))"

definition record_probe ::
  "((string \<times> pyval) list \<Rightarrow> string) \<Rightarrow> synchronizer \<Rightarrow> pyval \<Rightarrow> pyval \<Rightarrow>
   trusted_sample option \<Rightarrow> trusted_sample option \<Rightarrow> pyval \<Rightarrow> pyval \<Rightarrow> clock_mapping result" where
  "record_probe fp s coordinator_id native host_sent host_received uncertainty drift_ppm =
     bind_result (clock_identifier coordinator_id ''coordinator clock identity'') (\<lambda>cid.
     bind_result (clock_integer native ''coordinator clock value'' 0 MAX_NS) (\<lambda>native_ns.
     bind_result (clock_integer uncertainty ''coordinator clock uncertainty'' 0 MAX_UNCERTAINTY_NS) (\<lambda>cu.
     bind_result (clock_integer drift_ppm ''clock drift bound'' 0 MAX_DRIFT_PPM) (\<lambda>drift.
       case (trusted_by s host_sent, trusted_by s host_received) of
         (Some first, Some final) \<Rightarrow>
           require_clock (same_epoch first final) ''Clock probe is inconsistent''
             (let lower = nanoseconds first - uncertainty_ns first - native_ns - cu;
                  upper = nanoseconds final + uncertainty_ns final - native_ns + cu
              in require_clock (upper - lower \<le> max_mapping_uncertainty_ns s)
                   ''Clock mapping uncertainty is excessive''
                   (Inr (sealed_mapping fp s cid first native_ns native_ns (nanoseconds final)
                      (nanoseconds first) lower upper drift ''host-probe'')))
       | _ \<Rightarrow> Inl (ContractError ''Trusted local clock samples required'')))))"

definition require_mapping ::
  "((string \<times> pyval) list \<Rightarrow> string) \<Rightarrow> clock_reading option \<Rightarrow> clock_mapping option \<Rightarrow>
   synchronizer \<Rightarrow> trusted_sample result \<times> synchronizer" where
  "require_mapping fp raw mapping s =
     (case mapping of
        None \<Rightarrow> (Inl (ContractError ''Trusted clock mapping required''), s)
      | Some m \<Rightarrow>
          if mapping_issuer m = issuer s \<and> measurement m \<in> {''peer-exchange'', ''host-probe''} \<and>
             mapping_id m = fp (mapping_fields m)
          then (case sample raw s of
                  (Inl e, s') \<Rightarrow> (Inl e, s')
                | (Inr x, s') \<Rightarrow> (bind_result (require_compatible m x) (\<lambda>_. Inr x), s'))
          else (Inl (ContractError ''Trusted clock mapping required''), s))"

section \<open>The time anchor of a recording\<close>

record recording_stamp =
  display_ms :: int
  offset_ms :: int
  earliest_offset_ms :: int
  latest_offset_ms :: int
  stamp_uncertainty_ns :: int
  provider_clock_id :: "string option"
  provider_boot_digest :: "string option"
  native_incarnation :: "string option"

record provider_binding =
  binding_mapping :: clock_mapping
  binding_boot_digest :: string
  binding_incarnation :: string
  binding_issuer :: nat

record time_anchor =
  anchor :: trusted_sample
  started_at_ms :: int
  provider_issuer :: nat
  provider_next :: nat
  provider_identity :: "(string \<times> string \<times> string) option"
  provider_last :: "string \<rightharpoonup> int"

definition new_anchor ::
  "clock_reading option \<Rightarrow> pyval option \<Rightarrow> synchronizer \<Rightarrow> time_anchor result \<times> synchronizer" where
  "new_anchor raw wall s =
     (case sample raw s of
        (Inl e, s') \<Rightarrow> (Inl e, s')
      | (Inr a, s') \<Rightarrow>
          (case wall of
             None \<Rightarrow> Inl (RecordingClockError ''Recording display clock is unavailable'')
           | Some w \<Rightarrow>
               bind_result (catch_as (RecordingClockError ''Recording display clock is unavailable'')
                   (clock_integer w ''recording display time'' 0 32503680000000)) (\<lambda>started.
               Inr \<lparr>anchor = a, started_at_ms = started, provider_issuer = 0, provider_next = 1,
                    provider_identity = None, provider_last = Map.empty\<rparr>), s'))"

definition current_sample ::
  "time_anchor \<Rightarrow> clock_reading option \<Rightarrow> synchronizer \<Rightarrow> trusted_sample result \<times> synchronizer" where
  "current_sample t raw s =
     (case sample raw s of
        (Inl _, s') \<Rightarrow> (Inl (RecordingClockError ''Recording clock segment is invalid''), s')
      | (Inr x, s') \<Rightarrow>
          (ensure (sample_issuer x = sample_issuer (anchor t) \<and>
               clock_id (reading x) = clock_id (reading (anchor t)) \<and>
               boot_digest (reading x) = boot_digest (reading (anchor t)) \<and>
               nanoseconds (reading x) \<ge> nanoseconds (reading (anchor t)))
             (RecordingClockError ''Recording clock segment is invalid'') (Inr x), s'))"

definition ceil_ms :: "int \<Rightarrow> int" where
  "ceil_ms ns = (ns + 999999) div 1000000"

definition elapsed_stamp :: "time_anchor \<Rightarrow> clock_reading \<Rightarrow> recording_stamp" where
  "elapsed_stamp t r =
     (let elapsed = nanoseconds r - nanoseconds (reading (anchor t));
          offset = elapsed div 1000000;
          unc = uncertainty_ns r + uncertainty_ns (reading (anchor t))
      in \<lparr>display_ms = started_at_ms t + offset, offset_ms = offset,
          earliest_offset_ms = max 0 ((elapsed - unc) div 1000000),
          latest_offset_ms = ceil_ms (elapsed + unc), stamp_uncertainty_ns = unc,
          provider_clock_id = None, provider_boot_digest = None, native_incarnation = None\<rparr>)"

definition stamp ::
  "time_anchor \<Rightarrow> clock_reading option \<Rightarrow> synchronizer \<Rightarrow> recording_stamp result \<times> synchronizer" where
  "stamp t raw s =
     (case current_sample t raw s of
        (Inl e, s') \<Rightarrow> (Inl e, s')
      | (Inr x, s') \<Rightarrow> (Inr (elapsed_stamp t (reading x)), s'))"

definition bind_provider ::
  "((string \<times> pyval) list \<Rightarrow> string) \<Rightarrow> time_anchor \<Rightarrow> clock_reading option \<Rightarrow> clock_mapping option \<Rightarrow>
   pyval \<Rightarrow> pyval \<Rightarrow> synchronizer \<Rightarrow> (provider_binding \<times> time_anchor) result \<times> synchronizer" where
  "bind_provider fp t raw mapping boot native s =
     (case (mapping, require_mapping fp raw mapping s) of
        (Some m, Inr _, s') \<Rightarrow>
          (catch_as (RecordingClockError ''Provider clock mapping is invalid'')
            (bind_result (clock_digest boot ''provider boot incarnation digest'') (\<lambda>d.
             bind_result (clock_identifier native ''native incarnation'') (\<lambda>n.
               let identity = (coordinator_clock_id m, d, n)
               in require_clock (provider_identity t \<in> {None, Some identity})
                    ''Provider clock incarnation changed''
                    (Inr (\<lparr>binding_mapping = m, binding_boot_digest = d, binding_incarnation = n,
                           binding_issuer = provider_issuer t\<rparr>,
                          t\<lparr>provider_identity := Some identity\<rparr>))))), s')
      | (_, _, s') \<Rightarrow> (Inl (RecordingClockError ''Provider clock mapping is invalid''), s'))"

definition invalidate_provider_mappings :: "time_anchor \<Rightarrow> time_anchor" where
  "invalidate_provider_mappings t =
     t\<lparr>provider_issuer := provider_next t, provider_next := Suc (provider_next t),
       provider_identity := None, provider_last := Map.empty\<rparr>"

text \<open>
  \<open>stamp_provider\<close>: the checks before the clock is sampled, the sampling, and the stamp the
  translated interval gives. \<open>raw\<close> is the reading \<open>require_mapping\<close> samples.
\<close>

definition provider_admitted ::
  "time_anchor \<Rightarrow> provider_binding option \<Rightarrow> pyval \<Rightarrow> pyval \<Rightarrow> (provider_binding \<times> int \<times> int) result" where
  "provider_admitted t binding provider_ns capture_start =
     bind_result (clock_integer provider_ns ''provider clock value'' 0 MAX_NS) (\<lambda>p.
     bind_result (if capture_start = PNone then Inr p
                  else clock_integer capture_start ''provider capture start'' 0 MAX_NS) (\<lambda>start.
     require_clock (0 \<le> p - start \<and> p - start \<le> 10000000000) ''Provider capture interval is invalid''
     (case binding of
        None \<Rightarrow> Inl (ContractError ''Provider clock mapping is invalid'')
      | Some b \<Rightarrow>
          require_clock (binding_issuer b = provider_issuer t \<and>
              provider_identity t = Some (coordinator_clock_id (binding_mapping b),
                binding_boot_digest b, binding_incarnation b)) ''Provider clock mapping is invalid''
          (require_clock (case provider_last t (binding_incarnation b) of
                            None \<Rightarrow> True | Some previous \<Rightarrow> start \<ge> previous)
             ''Provider clock moved backward'' (Inr (b, p, start))))))"

definition provider_interval ::
  "time_anchor \<Rightarrow> int \<Rightarrow> provider_binding \<Rightarrow> int \<Rightarrow> int \<Rightarrow> trusted_sample \<Rightarrow> (int \<times> int) result" where
  "provider_interval t max_unc b p start current =
     require_clock (sample_issuer current = sample_issuer (anchor t)) ''Recording clock segment is invalid''
     (bind_result (translate (binding_mapping b) (PInt p)) (\<lambda>interval.
      bind_result (translate (binding_mapping b) (PInt start)) (\<lambda>start_interval.
        let a = reading (anchor t);
            earliest = earliest_ns start_interval - nanoseconds a - uncertainty_ns a;
            latest = latest_ns interval - nanoseconds a + uncertainty_ns a
        in require_clock (max (interval_uncertainty interval) (interval_uncertainty start_interval)
               + 2 * uncertainty_ns a \<le> max_unc) ''Provider clock uncertainty is excessive''
           (require_clock (latest \<ge> 0) ''Provider timestamp predates recording'' (Inr (earliest, latest))))))"

definition provider_stamp :: "time_anchor \<Rightarrow> provider_binding \<Rightarrow> int \<Rightarrow> int \<Rightarrow> recording_stamp" where
  "provider_stamp t b earliest latest =
     (let earliest_ms = max 0 (earliest div 1000000);
          latest_ms = max earliest_ms (ceil_ms latest);
          presentation = (earliest_ms + latest_ms) div 2
      in \<lparr>display_ms = started_at_ms t + presentation, offset_ms = presentation,
          earliest_offset_ms = earliest_ms, latest_offset_ms = latest_ms,
          stamp_uncertainty_ns = latest - earliest,
          provider_clock_id = Some (coordinator_clock_id (binding_mapping b)),
          provider_boot_digest = Some (binding_boot_digest b),
          native_incarnation = Some (binding_incarnation b)\<rparr>)"

definition stamp_provider ::
  "((string \<times> pyval) list \<Rightarrow> string) \<Rightarrow> time_anchor \<Rightarrow> clock_reading option \<Rightarrow>
   provider_binding option \<Rightarrow> pyval \<Rightarrow> pyval \<Rightarrow> synchronizer \<Rightarrow>
   (recording_stamp \<times> time_anchor) result \<times> synchronizer" where
  "stamp_provider fp t raw binding provider_ns capture_start s =
     (case provider_admitted t binding provider_ns capture_start of
        Inl _ \<Rightarrow> (Inl (RecordingClockError ''Provider clock mapping is invalid''), s)
      | Inr (b, p, start) \<Rightarrow>
          (case require_mapping fp raw (Some (binding_mapping b)) s of
             (Inl _, s') \<Rightarrow> (Inl (RecordingClockError ''Provider clock mapping is invalid''), s')
           | (Inr current, s') \<Rightarrow>
               (case provider_interval t (max_mapping_uncertainty_ns s') b p start current of
                  Inl _ \<Rightarrow> (Inl (RecordingClockError ''Provider clock mapping is invalid''), s')
                | Inr (earliest, latest) \<Rightarrow>
                    (Inr (provider_stamp t b earliest latest,
                          t\<lparr>provider_last := (provider_last t)(binding_incarnation b \<mapsto> p)\<rparr>), s'))))"

section \<open>Epochs of trusted samples\<close>

text \<open>What the users of a synchronizer rely on when they sample it.\<close>

fun sample_run ::
  "('raw \<Rightarrow> 's \<Rightarrow> trusted_sample result \<times> 's) \<Rightarrow> 'raw list \<Rightarrow> 's \<Rightarrow> trusted_sample list \<times> 's" where
  "sample_run op [] s = ([], s)"
| "sample_run op (raw # raws) s =
     (case op raw s of
        (Inl _, s') \<Rightarrow> sample_run op raws s'
      | (Inr x, s') \<Rightarrow> (let (xs, s'') = sample_run op raws s' in (x # xs, s'')))"

locale sampled_clock =
  fixes op :: "'raw \<Rightarrow> 's \<Rightarrow> trusted_sample result \<times> 's"
    and epoch :: "'s \<Rightarrow> nat" and latest :: "'s \<Rightarrow> clock_reading option" and ok :: "'s \<Rightarrow> bool"
  assumes op_ok: "ok s \<Longrightarrow> op raw s = (r, s') \<Longrightarrow> ok s'"
    and op_epoch: "ok s \<Longrightarrow> op raw s = (r, s') \<Longrightarrow> epoch s \<le> epoch s'"
    and op_fails: "ok s \<Longrightarrow> op raw s = (Inl e, s') \<Longrightarrow> epoch s < epoch s'"
    and op_issues: "ok s \<Longrightarrow> op raw s = (Inr x, s') \<Longrightarrow>
      sample_issuer x = epoch s' \<and> latest s' = Some (reading x)"
    and op_same: "ok s \<Longrightarrow> op raw s = (Inr x, s') \<Longrightarrow> epoch s' = epoch s \<Longrightarrow> latest s = Some p \<Longrightarrow>
      same_epoch p (reading x)"
begin

lemma run_later:
  "ok s \<Longrightarrow> sample_run op raws s = (xs, s') \<Longrightarrow> x \<in> set xs \<Longrightarrow>
     epoch s \<le> sample_issuer x \<and>
     (sample_issuer x = epoch s \<longrightarrow> latest s = Some p \<longrightarrow> same_epoch p (reading x))"
proof (induction raws arbitrary: s xs p)
  case (Cons raw raws)
  obtain r s1 where step: "op raw s = (r, s1)" by (cases "op raw s")
  with Cons.prems(1) have ok1: "ok s1" and mono: "epoch s \<le> epoch s1"
    by (auto dest: op_ok op_epoch)
  show ?case
  proof (cases r)
    case (Inl e)
    with step Cons.prems have "sample_run op raws s1 = (xs, s')" and "epoch s < epoch s1"
      by (auto dest: op_fails)
    with Cons.IH [OF ok1 this(1) Cons.prems(3), of p] show ?thesis by auto
  next
    case (Inr y)
    with step Cons.prems obtain ys where ys: "sample_run op raws s1 = (ys, s')" "xs = y # ys"
      by (auto split: prod.splits)
    from step Inr Cons.prems(1) have y: "sample_issuer y = epoch s1" "latest s1 = Some (reading y)"
      and same: "epoch s1 = epoch s \<Longrightarrow> latest s = Some p \<Longrightarrow> same_epoch p (reading y)" for p
      by (auto dest: op_issues op_same)
    show ?thesis
    proof (cases "x = y")
      case True
      with y mono same show ?thesis by auto
    next
      case False
      with ys Cons.prems(3) have "x \<in> set ys" by simp
      from Cons.IH [OF ok1 ys(1) this, of "reading y"] y(2) mono same [of p]
      show ?thesis by (auto simp: same_epoch_def)
    qed
  qed
qed simp

lemma run_epochs:
  "ok s \<Longrightarrow> sample_run op raws s = (xs, s') \<Longrightarrow>
     sorted_wrt (\<lambda>a b. sample_issuer a = sample_issuer b \<longrightarrow> same_epoch (reading a) (reading b)) xs"
proof (induction raws arbitrary: s xs)
  case (Cons raw raws)
  obtain r s1 where step: "op raw s = (r, s1)" by (cases "op raw s")
  with Cons.prems(1) have ok1: "ok s1" by (auto dest: op_ok)
  show ?case
  proof (cases r)
    case (Inl e)
    with step Cons show ?thesis by (auto dest: op_ok)
  next
    case (Inr y)
    with step Cons.prems obtain ys where ys: "sample_run op raws s1 = (ys, s')" "xs = y # ys"
      by (auto split: prod.splits)
    from step Inr Cons.prems(1) have y: "sample_issuer y = epoch s1" "latest s1 = Some (reading y)"
      by (auto dest: op_issues)
    have "sample_issuer y = sample_issuer b \<longrightarrow> same_epoch (reading y) (reading b)" if "b \<in> set ys" for b
      using run_later [OF ok1 ys(1) that, of "reading y"] y by auto
    with Cons.IH [OF ok1 ys(1)] ys(2) show ?thesis by simp
  qed
qed simp

end

definition sync_ok :: "synchronizer \<Rightarrow> bool" where
  "sync_ok s \<longleftrightarrow> issuer s < next_object s"

interpretation clock: sampled_clock sample issuer last_reading sync_ok
  by unfold_locales
    (auto simp: sample_def renew_issuer_def sync_ok_def epoch_broken_def same_epoch_def Let_def
      split: option.splits if_splits)

lemma new_synchronizer_ok: "new_synchronizer v = Inr s \<Longrightarrow> sync_ok s"
  by (auto simp: new_synchronizer_def result_iff sync_ok_def)

definition sample_clock :: "int \<Rightarrow> int \<Rightarrow> clock_reading" where
  "sample_clock n u = \<lparr>clock_id = ''c'', boot_digest = ''d'', nanoseconds = n, uncertainty_ns = u\<rparr>"

definition sample_sync :: synchronizer where
  "sample_sync = \<lparr>issuer = 0, next_object = 1, last_reading = None,
     max_mapping_uncertainty_ns = 250000000\<rparr>"

text \<open>
  C18. Samples of one issuer form one clock epoch: among all samples a synchronizer ever gives
  out, two with the same issuer come from the same clock and the same boot, and the later one
  never reads an earlier time. A restart, a clock that steps back or a failed read starts a new
  issuer.
\<close>

theorem samples_of_one_issuer:
  assumes "sync_ok s"
  shows "sorted_wrt (\<lambda>a b. sample_issuer a = sample_issuer b \<longrightarrow> same_epoch (reading a) (reading b))
    (fst (sample_run sample raws s))"
proof -
  obtain xs s' where run: "sample_run sample raws s = (xs, s')" by fastforce
  from clock.run_epochs [OF assms run] run show ?thesis by simp
qed

theorem samples_of_one_issuer_witness:
  "fst (sample_run sample [Some (sample_clock 5 1), Some (sample_clock 3 1), Some (sample_clock 4 1)]
      sample_sync) =
    [\<lparr>reading = sample_clock 5 1, sample_issuer = 0\<rparr>, \<lparr>reading = sample_clock 3 1, sample_issuer = 1\<rparr>,
     \<lparr>reading = sample_clock 4 1, sample_issuer = 1\<rparr>] \<and>
   same_epoch (sample_clock 3 1) (sample_clock 4 1)"
proof -
  have run: "fst (sample_run sample [Some (sample_clock 5 1), Some (sample_clock 3 1),
      Some (sample_clock 4 1)] sample_sync) =
    [\<lparr>reading = sample_clock 5 1, sample_issuer = 0\<rparr>, \<lparr>reading = sample_clock 3 1, sample_issuer = 1\<rparr>,
     \<lparr>reading = sample_clock 4 1, sample_issuer = 1\<rparr>]"
    by (simp add: sample_def sample_sync_def renew_issuer_def epoch_broken_def sample_clock_def)
  have "sync_ok sample_sync" by (simp add: sync_ok_def sample_sync_def)
  from samples_of_one_issuer [OF this, of "[Some (sample_clock 5 1), Some (sample_clock 3 1),
      Some (sample_clock 4 1)]"] run
  show ?thesis by simp
qed

section \<open>Mappings of an old epoch stay dead\<close>

lemma sample_epoch_mono: "sync_ok s \<Longrightarrow> sample raw s = (r, s') \<Longrightarrow> sync_ok s' \<and> issuer s \<le> issuer s'"
  by (auto dest: clock.op_ok clock.op_epoch)

lemma sample_run_epoch_mono:
  "sync_ok s \<Longrightarrow> sync_ok (snd (sample_run sample raws s)) \<and> issuer s \<le> issuer (snd (sample_run sample raws s))"
proof (induction raws arbitrary: s)
  case (Cons raw raws)
  obtain r s1 where step: "sample raw s = (r, s1)" by (cases "sample raw s")
  with Cons.prems have "sync_ok s1" "issuer s \<le> issuer s1" by (auto dest: sample_epoch_mono)
  with Cons.IH [of s1] step show ?case
    by (auto split: sum.splits prod.splits)
qed simp

text \<open>
  A clock fault revokes every mapping: once a read fails, or the clock changes identity,
  boot or steps back, no mapping issued before is ever accepted again, whatever the clock reads
  later.
\<close>

theorem fault_revokes_mappings:
  assumes ok: "sync_ok s"
    and fault: "raw = None \<or> (\<exists>r. raw = Some r \<and> epoch_broken (last_reading s) r)"
    and m: "mapping_issuer m \<le> issuer s"
  shows "fst (require_mapping fp raw' (Some m) (snd (sample_run sample (raw # raws) s))) =
    Inl (ContractError ''Trusted clock mapping required'')"
proof -
  obtain r s1 where step: "sample raw s = (r, s1)" by (cases "sample raw s")
  with fault ok have "issuer s < issuer s1"
    by (auto simp: sample_def renew_issuer_def sync_ok_def Let_def)
  moreover from step ok have "sync_ok s1" by (auto dest: sample_epoch_mono)
  then have "issuer s1 \<le> issuer (snd (sample_run sample raws s1))"
    using sample_run_epoch_mono by blast
  moreover have "snd (sample_run sample (raw # raws) s) = snd (sample_run sample raws s1)"
    using step by (auto split: sum.splits prod.splits)
  ultimately have "mapping_issuer m \<noteq> issuer (snd (sample_run sample (raw # raws) s))"
    using m by simp
  then show ?thesis by (simp add: require_mapping_def)
qed

definition sample_mapping :: clock_mapping where
  "sample_mapping =
     \<lparr>coordinator_clock_id = ''k'', host_clock_id = ''c'', host_boot_digest = ''d'',
      coordinator_send_ns = 1000, coordinator_receive_ns = 1400, host_receive_ns = 5100,
      host_send_ns = 5200, offset_lower_ns = 3790, offset_upper_ns = 4110, max_drift_ppm = 100,
      mapping_id = ''fp'', mapping_issuer = 0, measurement = ''peer-exchange''\<rparr>"

theorem fault_revokes_mappings_witness:
  "fst (require_mapping (\<lambda>_. ''fp'') (Some (sample_clock 9000 1)) (Some sample_mapping)
     (snd (sample_run sample [None, Some (sample_clock 8000 1)] sample_sync))) =
   Inl (ContractError ''Trusted clock mapping required'')"
  by (rule fault_revokes_mappings) (simp_all add: sync_ok_def sample_sync_def sample_mapping_def)

section \<open>Translation is conservative\<close>

lemma sealed_mapping_fields [simp]:
  "coordinator_clock_id (sealed_mapping fp s cid first sn rn hr hs lo up drift kind) = cid"
  "host_clock_id (sealed_mapping fp s cid first sn rn hr hs lo up drift kind) = clock_id first"
  "host_boot_digest (sealed_mapping fp s cid first sn rn hr hs lo up drift kind) = boot_digest first"
  "coordinator_send_ns (sealed_mapping fp s cid first sn rn hr hs lo up drift kind) = sn"
  "coordinator_receive_ns (sealed_mapping fp s cid first sn rn hr hs lo up drift kind) = rn"
  "host_receive_ns (sealed_mapping fp s cid first sn rn hr hs lo up drift kind) = hr"
  "host_send_ns (sealed_mapping fp s cid first sn rn hr hs lo up drift kind) = hs"
  "offset_lower_ns (sealed_mapping fp s cid first sn rn hr hs lo up drift kind) = lo"
  "offset_upper_ns (sealed_mapping fp s cid first sn rn hr hs lo up drift kind) = up"
  "max_drift_ppm (sealed_mapping fp s cid first sn rn hr hs lo up drift kind) = drift"
  "mapping_issuer (sealed_mapping fp s cid first sn rn hr hs lo up drift kind) = issuer s"
  "measurement (sealed_mapping fp s cid first sn rn hr hs lo up drift kind) = kind"
  by (simp_all add: sealed_mapping_def Let_def)

lemma sealed_mapping_id [simp]:
  "mapping_id (sealed_mapping fp s cid first sn rn hr hs lo up drift kind) =
     fp (mapping_fields (sealed_mapping fp s cid first sn rn hr hs lo up drift kind))"
  by (simp add: sealed_mapping_def mapping_fields_def Let_def)

lemma record_exchange_Inr:
  assumes "record_exchange fp s cid send hr hs receive unc drift = Inr m"
  shows "\<exists>k first second S R cu ppm lo up.
    m = sealed_mapping fp s k first S R (nanoseconds first) (nanoseconds second) lo up ppm
          ''peer-exchange'' \<and>
    trusted_by s hr = Some first \<and> trusted_by s hs = Some second \<and> send = PInt S \<and>
    receive = PInt R \<and> unc = PInt cu \<and> 0 \<le> cu \<and> S \<le> R \<and> same_epoch first second \<and>
    0 \<le> ppm \<and> lo = nanoseconds second - uncertainty_ns second - (R + cu) \<and>
    up = nanoseconds first + uncertainty_ns first - (S - cu) \<and> lo \<le> up \<and>
    up - lo \<le> max_mapping_uncertainty_ns s"
proof -
  from assms obtain k S R cu ppm where
    args: "send = PInt S" "receive = PInt R" "unc = PInt cu" "0 \<le> cu" "0 \<le> ppm"
    and rest: "(case (trusted_by s hr, trusted_by s hs) of
         (Some first, Some second) \<Rightarrow>
           require_clock (S \<le> R \<and> same_epoch first second) ''Clock exchange is inconsistent''
             (let lower = nanoseconds second - uncertainty_ns second - (R + cu);
                  upper = nanoseconds first + uncertainty_ns first - (S - cu)
              in require_clock (lower \<le> upper) ''Clock exchange is inconsistent''
                (require_clock (upper - lower \<le> max_mapping_uncertainty_ns s)
                   ''Clock mapping uncertainty is excessive''
                   (Inr (sealed_mapping fp s k first S R (nanoseconds first)
                      (nanoseconds second) lower upper ppm ''peer-exchange''))))
       | _ \<Rightarrow> Inl (ContractError ''Trusted local clock samples required'')) = Inr m"
    unfolding record_exchange_def by (auto simp: bind_result_Inr_iff clock_integer_Inr)
  from rest obtain first second where tr: "trusted_by s hr = Some first" "trusted_by s hs = Some second"
    by (auto split: option.splits)
  with rest have "S \<le> R \<and> same_epoch first second"
    and "nanoseconds second - uncertainty_ns second - (R + cu) \<le>
           nanoseconds first + uncertainty_ns first - (S - cu)"
    and "nanoseconds first + uncertainty_ns first - (S - cu) -
           (nanoseconds second - uncertainty_ns second - (R + cu)) \<le> max_mapping_uncertainty_ns s"
    and "m = sealed_mapping fp s k first S R (nanoseconds first) (nanoseconds second)
          (nanoseconds second - uncertainty_ns second - (R + cu))
          (nanoseconds first + uncertainty_ns first - (S - cu)) ppm ''peer-exchange''"
    by (simp_all only: option.case prod.case require_clock_def ensure_Inr_iff Let_def sum.inject)
  with args tr show ?thesis by blast
qed

lemma drift_allowance_ge:
  assumes "0 \<le> max_drift_ppm m"
  shows "real_of_int (max \<bar>v - coordinator_send_ns m\<bar> \<bar>v - coordinator_receive_ns m\<bar>)
           * real_of_int (max_drift_ppm m) / 1000000 \<le> real_of_int (drift_allowance m v)"
proof -
  let ?h = "max \<bar>v - coordinator_send_ns m\<bar> \<bar>v - coordinator_receive_ns m\<bar> * max_drift_ppm m"
  have "?h \<le> 1000000 * ((?h + 999999) div 1000000)" by linarith
  then have "real_of_int ?h \<le> 1000000 * real_of_int (drift_allowance m v)"
    unfolding drift_allowance_def Let_def by linarith
  then show ?thesis by simp
qed

text \<open>
  The clock model: \<open>host c\<close> is the host clock when the coordinator clock is at \<open>c\<close>, and over an
  interval the two may drift apart by at most \<open>ppm\<close> parts per million of it.
\<close>

definition drifts_at_most :: "int \<Rightarrow> (real \<Rightarrow> real) \<Rightarrow> bool" where
  "drifts_at_most ppm host \<longleftrightarrow>
     (\<forall>c c'. \<bar>(host c - c) - (host c' - c')\<bar> \<le> real_of_int ppm / 1000000 * \<bar>c - c'\<bar>)"

lemma offset_from_exchange:
  assumes drift: "drifts_at_most ppm host" and ppm: "0 \<le> ppm"
    and c: "real_of_int S - u \<le> c" "c \<le> real_of_int R + u" and SR: "S \<le> R"
  shows "\<bar>(host v - v) - (host c - c)\<bar> \<le>
    (max \<bar>v - real_of_int S\<bar> \<bar>v - real_of_int R\<bar> + u) * real_of_int ppm / 1000000"
proof -
  from c have "\<bar>v - c\<bar> \<le> max \<bar>v - real_of_int S\<bar> \<bar>v - real_of_int R\<bar> + u" by (auto simp: max_def abs_if)
  then have "real_of_int ppm / 1000000 * \<bar>v - c\<bar> \<le>
      real_of_int ppm / 1000000 * (max \<bar>v - real_of_int S\<bar> \<bar>v - real_of_int R\<bar> + u)"
    using ppm by (intro mult_left_mono) auto
  moreover have "\<bar>(host v - v) - (host c - c)\<bar> \<le> real_of_int ppm / 1000000 * \<bar>v - c\<bar>"
    using drift by (simp add: drifts_at_most_def)
  ultimately show ?thesis by (simp add: mult.commute)
qed

text \<open>
  C19. A recorded exchange translates soundly. Let the coordinator send its request and receive
  the answer within \<open>cu\<close> of the times it recorded, let the host stamp the request on receipt
  (coordinator time \<open>c1\<close>) and on answering (\<open>c2\<close>) within the samples' uncertainties, and let the
  clocks drift by at most the recorded bound. Then the true host time at every coordinator time
  the mapping translates lies in the translated interval, widened by the drift over \<open>cu\<close>; with an
  exact coordinator clock (\<open>cu = 0\<close>) it lies in the interval itself.
\<close>

theorem translate_sound:
  fixes host :: "real \<Rightarrow> real" and c1 c2 :: real
  assumes exch: "record_exchange fp s cid (PInt S) hr hs (PInt R) (PInt cu) ppm = Inr m"
    and first: "trusted_by s hr = Some first" and second: "trusted_by s hs = Some second"
    and c1: "S - cu \<le> c1" "c1 \<le> R + cu" and c2: "S - cu \<le> c2" "c2 \<le> R + cu"
    and h1: "host c1 \<le> nanoseconds first + uncertainty_ns first"
    and h2: "nanoseconds second - uncertainty_ns second \<le> host c2"
    and drift: "drifts_at_most (max_drift_ppm m) host"
    and tr: "translate m (PInt v) = Inr i"
  shows "earliest_ns i - cu * max_drift_ppm m / 1000000 \<le> host v \<and>
         host v \<le> latest_ns i + cu * max_drift_ppm m / 1000000"
proof -
  from exch first second have SR: "S \<le> R" and ppm: "0 \<le> max_drift_ppm m"
    and ns: "coordinator_send_ns m = S" "coordinator_receive_ns m = R"
    and lo: "offset_lower_ns m = nanoseconds second - uncertainty_ns second - (R + cu)"
    and up: "offset_upper_ns m = nanoseconds first + uncertainty_ns first - (S - cu)"
    by (auto dest!: record_exchange_Inr)
  let ?d = "real_of_int (drift_allowance m v)" and ?w = "real_of_int cu * real_of_int (max_drift_ppm m) / 1000000"
  from tr have i: "earliest_ns i = v + offset_lower_ns m - drift_allowance m v"
    "latest_ns i = v + offset_upper_ns m + drift_allowance m v"
    by (auto simp: translate_def result_iff clock_integer_Inr require_clock_def make_interval_def Let_def)
  have near: "\<bar>(host v - v) - (host c - c)\<bar> \<le> ?d + ?w"
    if "real_of_int S - real_of_int cu \<le> c" "c \<le> real_of_int R + real_of_int cu" for c :: real
  proof -
    have "\<bar>(host v - v) - (host c - c)\<bar> \<le>
        (max \<bar>real_of_int v - S\<bar> \<bar>real_of_int v - R\<bar> + cu) * max_drift_ppm m / 1000000"
      using that by (intro offset_from_exchange [OF drift ppm _ _ SR]) auto
    also have "\<dots> \<le> ?d + ?w"
      using drift_allowance_ge [OF ppm, of v] unfolding ns
      by (simp add: algebra_simps add_divide_distrib of_int_max)
    finally show ?thesis .
  qed
  from near [OF c1] have "host v - v \<le> host c1 - c1 + ?d + ?w" by linarith
  moreover from h1 c1(1) have "host c1 - c1 \<le> offset_upper_ns m" unfolding up by simp
  moreover from near [OF c2] have "host c2 - c2 - ?d - ?w \<le> host v - v" by linarith
  moreover from h2 c2(2) have "offset_lower_ns m \<le> host c2 - c2" unfolding lo by simp
  ultimately show ?thesis unfolding i by (simp add: algebra_simps)
qed

definition sync_samples :: "trusted_sample \<times> trusted_sample" where
  "sync_samples = (\<lparr>reading = sample_clock 5100 10, sample_issuer = 0\<rparr>,
                   \<lparr>reading = sample_clock 5200 10, sample_issuer = 0\<rparr>)"

lemma sample_exchange:
  "record_exchange (\<lambda>_. ''fp'') sample_sync (PStr ''k'') (PInt 1000) (Some (fst sync_samples))
     (Some (snd sync_samples)) (PInt 1400) (PInt 0) (PInt 100) = Inr sample_mapping"
  by (simp add: record_exchange_def clock_identifier_def clock_integer_def MAX_NS_def
      MAX_UNCERTAINTY_NS_def MAX_DRIFT_PPM_def sync_samples_def sample_sync_def sample_clock_def
      same_epoch_def require_clock_def sample_mapping_def lower_chars_def sealed_mapping_def Let_def)

theorem translate_sound_witness:
  "real_of_int 5789 - 0 * 100 / 1000000 \<le> (6100 :: real) \<and> (6100 :: real) \<le> real_of_int 6111 + 0 * 100 / 1000000"
proof -
  have "translate sample_mapping (PInt 2000) = Inr \<lparr>earliest_ns = 5789, latest_ns = 6111\<rparr>"
    by (simp add: translate_def clock_integer_def MAX_NS_def drift_allowance_def sample_mapping_def
        require_clock_def make_interval_def)
  from translate_sound [OF sample_exchange _ _ _ _ _ _ _ _ _ this, of "sample_clock 5100 10"
      "sample_clock 5200 10" 1000 1100 "\<lambda>c. c + 4100"]
  show ?thesis
    by (simp add: sync_samples_def sample_sync_def sample_clock_def drifts_at_most_def sample_mapping_def)
qed

text \<open>
  C20. The widening is needed: with a coordinator clock that is uncertain by 100 ms, clocks that
  drift within the recorded bound and an exchange within all the recorded uncertainties, the
  true host time can lie outside the translated interval, because the drift allowance is
  measured from the recorded send and receive times and leaves the coordinator's uncertainty out.
\<close>

definition wide_exchange :: "clock_mapping result" where
  "wide_exchange = record_exchange (\<lambda>_. ''fp'') sample_sync (PStr ''k'') (PInt 1000000000)
     (Some \<lparr>reading = sample_clock 1000000000 0, sample_issuer = 0\<rparr>)
     (Some \<lparr>reading = sample_clock 1000000000 0, sample_issuer = 0\<rparr>)
     (PInt 1000000000) (PInt 100000000) (PInt 1000000)"

theorem translate_omits_coordinator_uncertainty:
  "\<exists>m i host. wide_exchange = Inr m \<and> translate m (PInt 1000000000) = Inr i \<and>
     drifts_at_most (max_drift_ppm m) host \<and> host 1100000000 = 1000000000 \<and>
     host 1000000000 < real_of_int (earliest_ns i)"
proof -
  let ?host = "\<lambda>c :: real. 2 * c - 1200000000"
  let ?m = "sealed_mapping (\<lambda>_. ''fp'') sample_sync ''k'' (sample_clock 1000000000 0)
      1000000000 1000000000 1000000000 1000000000 (- 100000000) 100000000 1000000 ''peer-exchange''"
  let ?i = "\<lparr>earliest_ns = 900000000, latest_ns = 1100000000\<rparr>"
  have "wide_exchange = Inr ?m"
    by (simp add: wide_exchange_def record_exchange_def clock_identifier_def clock_integer_def
        MAX_NS_def MAX_UNCERTAINTY_NS_def MAX_DRIFT_PPM_def sample_sync_def sample_clock_def
        same_epoch_def require_clock_def lower_chars_def Let_def)
  moreover have "translate ?m (PInt 1000000000) = Inr ?i"
    by (simp add: translate_def clock_integer_def MAX_NS_def drift_allowance_def require_clock_def
        make_interval_def)
  moreover have "drifts_at_most (max_drift_ppm ?m) ?host"
    unfolding drifts_at_most_def by simp
  moreover have "?host 1100000000 = 1000000000" and "?host 1000000000 < real_of_int (earliest_ns ?i)"
    by simp_all
  ultimately show ?thesis by blast
qed

section \<open>Stamps\<close>

lemma ceil_ms_ge: "ns \<le> 1000000 * ceil_ms ns"
  unfolding ceil_ms_def by linarith

lemma ceil_ms_mono: "a \<le> b \<Longrightarrow> ceil_ms a \<le> ceil_ms b"
  unfolding ceil_ms_def by (intro zdiv_mono1) auto

lemma div_ms_le_ceil: "a \<le> b \<Longrightarrow> a div 1000000 \<le> ceil_ms b"
  unfolding ceil_ms_def by (intro zdiv_mono1) auto

text \<open>
  A stamp brackets the time since the recording started. The true elapsed time between the
  anchor and the current reading, each within its uncertainty, lies between the earliest and the
  latest offset in milliseconds; the displayed offset lies between them and is not negative.
\<close>

theorem stamp_brackets_elapsed:
  assumes st: "stamp t raw s = (Inr z, s')"
    and x: "raw = Some r" and unc: "0 \<le> uncertainty_ns r" "0 \<le> uncertainty_ns (reading (anchor t))"
    and now: "\<bar>now - nanoseconds r\<bar> \<le> uncertainty_ns r"
    and start: "\<bar>start - nanoseconds (reading (anchor t))\<bar> \<le> uncertainty_ns (reading (anchor t))"
    and order: "start \<le> now"
  shows "1000000 * earliest_offset_ms z \<le> now - start \<and> now - start \<le> 1000000 * latest_offset_ms z \<and>
         0 \<le> earliest_offset_ms z \<and> earliest_offset_ms z \<le> offset_ms z \<and>
         offset_ms z \<le> latest_offset_ms z \<and> display_ms z = started_at_ms t + offset_ms z"
proof -
  let ?a = "reading (anchor t)"
  let ?el = "nanoseconds r - nanoseconds ?a" and ?u = "uncertainty_ns r + uncertainty_ns ?a"
  from st x have ge: "nanoseconds ?a \<le> nanoseconds r" and zdef: "z = elapsed_stamp t r"
    by (auto simp: stamp_def current_sample_def sample_def ensure_Inr_iff Let_def split: sum.splits)
  have z: "offset_ms z = ?el div 1000000" "earliest_offset_ms z = max 0 ((?el - ?u) div 1000000)"
      "latest_offset_ms z = ceil_ms (?el + ?u)" "display_ms z = started_at_ms t + ?el div 1000000"
    by (simp_all add: zdef elapsed_stamp_def Let_def)
  have in1: "?el - ?u \<le> now - start" and in2: "now - start \<le> ?el + ?u"
    using now start by linarith+
  have "1000000 * ((?el - ?u) div 1000000) \<le> now - start" using in1 by linarith
  moreover have "now - start \<le> 1000000 * ceil_ms (?el + ?u)" using in2 ceil_ms_ge [of "?el + ?u"] by linarith
  moreover have "(?el - ?u) div 1000000 \<le> ?el div 1000000" using unc by (intro zdiv_mono1) auto
  moreover have "?el div 1000000 \<le> ceil_ms (?el + ?u)" using unc by (intro div_ms_le_ceil) auto
  moreover have "0 \<le> ?el div 1000000" using ge by simp
  ultimately show ?thesis using order unfolding z by (auto simp: max_def)
qed

definition sample_anchor :: time_anchor where
  "sample_anchor = \<lparr>anchor = \<lparr>reading = sample_clock 1000000 10, sample_issuer = 0\<rparr>,
     started_at_ms = 50, provider_issuer = 0, provider_next = 1, provider_identity = None,
     provider_last = Map.empty\<rparr>"

theorem stamp_brackets_elapsed_witness:
  "1000000 * (2 :: int) \<le> 2500000 \<and> (2500000 :: int) \<le> 1000000 * 3"
proof -
  define z where "z = \<lparr>display_ms = 52, offset_ms = 2, earliest_offset_ms = 2, latest_offset_ms = 3,
    stamp_uncertainty_ns = 20, provider_clock_id = None, provider_boot_digest = None,
    native_incarnation = None\<rparr>"
  have st: "stamp sample_anchor (Some (sample_clock 3500000 10)) sample_sync =
      (Inr z, sample_sync\<lparr>last_reading := Some (sample_clock 3500000 10)\<rparr>)"
    by (simp add: stamp_def elapsed_stamp_def current_sample_def sample_def sample_sync_def epoch_broken_def
        sample_anchor_def sample_clock_def ceil_ms_def z_def)
  show ?thesis
    using stamp_brackets_elapsed [OF st refl, of 3500000 1000000]
    by (simp add: sample_clock_def sample_anchor_def z_def)
qed

text \<open>
  Provider frames keep their order and stay in bounds: a stamp's presentation offset lies
  between its earliest and latest offset and is not negative, and the capture of a later frame of
  the same native incarnation never starts before the frame stamped last; a capture that starts
  earlier is refused and changes nothing in the anchor.
\<close>

theorem stamp_provider_ordered:
  assumes "stamp_provider fp t raw (Some b) (PInt p) PNone s = (Inr (z, t'), s')"
  shows "0 \<le> earliest_offset_ms z \<and> earliest_offset_ms z \<le> offset_ms z \<and>
         offset_ms z \<le> latest_offset_ms z \<and>
         (p' < p \<longrightarrow> stamp_provider fp t' raw' (Some b) (PInt q) (PInt p') s'' =
            (Inl (RecordingClockError ''Provider clock mapping is invalid''), s''))"
proof -
  from assms obtain earliest latest where z: "z = provider_stamp t b earliest latest"
    and t': "t' = t\<lparr>provider_last := (provider_last t)(binding_incarnation b \<mapsto> p)\<rparr>"
    by (auto simp: stamp_provider_def provider_admitted_def result_iff clock_integer_Inr require_clock_def
        split: sum.splits prod.splits)
  have "0 \<le> earliest_offset_ms z \<and> earliest_offset_ms z \<le> offset_ms z \<and> offset_ms z \<le> latest_offset_ms z"
    unfolding z provider_stamp_def Let_def by (auto simp: max_def)
  moreover have "provider_admitted t' (Some b) (PInt q) (PInt p') \<noteq> Inr y" if "p' < p" for y
    using that by (cases y) (auto simp: provider_admitted_def result_iff clock_integer_Inr
        require_clock_def t')
  then have "p' < p \<longrightarrow> stamp_provider fp t' raw' (Some b) (PInt q) (PInt p') s'' =
      (Inl (RecordingClockError ''Provider clock mapping is invalid''), s'')"
    by (auto simp: stamp_provider_def split: sum.splits)
  ultimately show ?thesis by blast
qed

definition provider_anchor :: time_anchor where
  "provider_anchor = sample_anchor\<lparr>anchor := \<lparr>reading = sample_clock 5000 10, sample_issuer = 0\<rparr>,
     provider_identity := Some (''k'', ''b'', ''n'')\<rparr>"

definition sample_binding :: provider_binding where
  "sample_binding = \<lparr>binding_mapping = sample_mapping, binding_boot_digest = ''b'',
     binding_incarnation = ''n'', binding_issuer = 0\<rparr>"

theorem stamp_provider_ordered_witness:
  "stamp_provider (\<lambda>_. ''fp'') (provider_anchor\<lparr>provider_last := [''n'' \<mapsto> 2000]\<rparr>) None
     (Some sample_binding) (PInt 2500) (PInt 1500) sample_sync =
   (Inl (RecordingClockError ''Provider clock mapping is invalid''), sample_sync)"
proof -
  have "stamp_provider (\<lambda>_. ''fp'') provider_anchor (Some (sample_clock 9000 1)) (Some sample_binding)
      (PInt 2000) PNone sample_sync =
    (Inr (provider_stamp provider_anchor sample_binding 779 1121,
          provider_anchor\<lparr>provider_last := [''n'' \<mapsto> 2000]\<rparr>),
     sample_sync\<lparr>last_reading := Some (sample_clock 9000 1)\<rparr>)"
    by (simp add: stamp_provider_def provider_admitted_def clock_integer_def MAX_NS_def
        provider_anchor_def sample_anchor_def sample_binding_def sample_mapping_def
        require_mapping_def sample_sync_def sample_def epoch_broken_def require_compatible_def
        sample_clock_def require_clock_def provider_interval_def translate_def drift_allowance_def
        make_interval_def interval_uncertainty_def)
  from stamp_provider_ordered [OF this, of 1500 None 2500 sample_sync] show ?thesis by simp
qed

end
