(* ===== verification/Contracts.thy ===== *)
theory Contracts
  imports Prelude
begin

text \<open>
  \<open>reproof/contracts/versions.py\<close>: the strict scalar, collection, path and digest rules the
  contract documents and the wire protocol share.

  Strings hold code points up to 255, so \<open>utf8_len\<close> counts one byte below 128 and two from there
  on. Lowering a part of a path only matters where it is compared with ASCII names, so \<open>lower\<close>
  maps the ASCII capitals.
\<close>

definition CONTRACT_VERSION :: int where "CONTRACT_VERSION = 1"
definition MAX_EPOCH_MS :: int where "MAX_EPOCH_MS = 32503680000000"

definition require_contract :: "bool \<Rightarrow> string \<Rightarrow> 'a result \<Rightarrow> 'a result" where
  "require_contract c msg k = ensure c (ContractError msg) k"

definition utf8_len :: "string \<Rightarrow> nat" where
  "utf8_len s = sum_list (map (\<lambda>c. if (of_char c :: nat) < 128 then 1 else 2) s)"

definition is_control :: "char \<Rightarrow> bool" where
  "is_control c \<longleftrightarrow> (of_char c :: nat) < 32 \<or> (of_char c :: nat) = 127"

section \<open>Scalars\<close>

definition validate_id :: "pyval \<Rightarrow> string \<Rightarrow> string result" where
  "validate_id v field =
     (case as_str v of
        Some s \<Rightarrow> require_contract (matches_name lower_chars (lower_chars @ digit_chars @ ''_-'') 64 s)
                    (''Invalid '' @ field) (Inr s)
      | None \<Rightarrow> Inl (ContractError (''Invalid '' @ field)))"

definition validate_external_ticket_id :: "pyval \<Rightarrow> string result" where
  "validate_external_ticket_id v =
     (case as_str v of
        Some s \<Rightarrow> require_contract (matches_name (upper_chars @ lower_chars @ digit_chars)
                      word_dash_chars 64 s)
                    ''Ticket reference must be a bounded identifier, not text or a URL'' (Inr s)
      | None \<Rightarrow> Inl (ContractError ''Ticket reference must be a bounded identifier, not text or a URL''))"

definition validate_version :: "pyval \<Rightarrow> string \<Rightarrow> int result" where
  "validate_version v field =
     require_contract (v = PInt CONTRACT_VERSION) (''Unsupported '' @ field) (Inr CONTRACT_VERSION)"

definition bounded_int :: "pyval \<Rightarrow> string \<Rightarrow> int \<Rightarrow> int \<Rightarrow> int result" where
  "bounded_int v field low high =
     (case int_in_range low high v of
        Some n \<Rightarrow> Inr n | None \<Rightarrow> Inl (ContractError (''Invalid '' @ field)))"

definition bounded_text :: "pyval \<Rightarrow> string \<Rightarrow> nat \<Rightarrow> bool \<Rightarrow> string result" where
  "bounded_text v field limit allow_empty =
     (case as_str v of
        Some s \<Rightarrow>
          require_contract ((allow_empty \<or> 0 < length s) \<and> length s \<le> limit) (''Invalid '' @ field)
          (require_contract (\<not> list_ex is_control s) (''Invalid '' @ field)
          (require_contract (utf8_len s \<le> limit) (''Invalid '' @ field) (Inr s)))
      | None \<Rightarrow> Inl (ContractError (''Invalid '' @ field)))"

definition epoch_ms :: "pyval \<Rightarrow> string \<Rightarrow> int result" where
  "epoch_ms v field = bounded_int v field 0 MAX_EPOCH_MS"

definition validate_digest :: "pyval \<Rightarrow> string \<Rightarrow> string result" where
  "validate_digest v field =
     (case as_str v of
        Some s \<Rightarrow> require_contract (is_hex_digest s) (''Invalid '' @ field) (Inr s)
      | None \<Rightarrow> Inl (ContractError (''Invalid '' @ field)))"

section \<open>Paths\<close>

text \<open>\<open>str.split(sep)\<close> for a one-character separator, and \<open>sep.join\<close>.\<close>

fun split_on :: "char \<Rightarrow> string \<Rightarrow> string list" where
  "split_on sep [] = [[]]"
| "split_on sep (c # cs) =
     (if c = sep then [] # split_on sep cs
      else (case split_on sep cs of [] \<Rightarrow> [[c]] | p # ps \<Rightarrow> (c # p) # ps))"

fun join_with :: "string \<Rightarrow> string list \<Rightarrow> string" where
  "join_with sep [] = []"
| "join_with sep [p] = p"
| "join_with sep (p # ps) = p @ sep @ join_with sep ps"

definition lower_char :: "char \<Rightarrow> char" where
  "lower_char c =
     (case map_of (zip upper_chars lower_chars) c of Some d \<Rightarrow> d | None \<Rightarrow> c)"

definition lower :: "string \<Rightarrow> string" where
  "lower s = map lower_char s"

definition ends_with :: "string \<Rightarrow> string \<Rightarrow> bool" where
  "ends_with s suffix \<longleftrightarrow> length suffix \<le> length s \<and> drop (length s - length suffix) s = suffix"

definition starts_with :: "string \<Rightarrow> string \<Rightarrow> bool" where
  "starts_with s prefix \<longleftrightarrow> take (length prefix) s = prefix"

text \<open>\<open>str(PurePosixPath(value))\<close>: repeated slashes and \<open>.\<close> components are dropped.\<close>

definition posix_path_str :: "string \<Rightarrow> string" where
  "posix_path_str s =
     (let root = (if starts_with s ''//'' \<and> \<not> starts_with s ''///'' then ''//''
                  else if starts_with s ''/'' then ''/'' else '''');
          parts = filter (\<lambda>p. p \<noteq> '''' \<and> p \<noteq> ''.'') (split_on (CHR ''/'') s)
      in if root = '''' \<and> parts = [] then ''.'' else root @ join_with ''/'' parts)"

definition secret_names :: "string list" where
  "secret_names = [''auth.json'', ''credentials'', ''credentials.json'', ''id_rsa'', ''id_ed25519'',
     ''id_ecdsa'', ''id_dsa'', ''.netrc'', ''.npmrc'', ''.pypirc'']"

definition secret_suffixes :: "string list" where
  "secret_suffixes = [''.keystore'', ''.jks'', ''.p12'', ''.pfx'', ''.pem'', ''.key'']"

definition is_secret_part :: "string \<Rightarrow> bool" where
  "is_secret_part p \<longleftrightarrow>
     p \<in> set secret_names \<or> starts_with p ''.env'' \<or> list_ex (ends_with p) secret_suffixes"

definition safe_relative_path :: "pyval \<Rightarrow> string \<Rightarrow> string result" where
  "safe_relative_path v field =
     bind_result (bounded_text v field 1024 False) (\<lambda>s.
     require_contract (CHR 0x5C \<notin> set s \<and> \<not> starts_with s ''/'') (''Invalid '' @ field)
     (let parts = split_on (CHR ''/'') s
      in require_contract (list_all (\<lambda>p. p \<notin> {'''', ''.'', ''..''}) parts) (''Invalid '' @ field)
        (require_contract (posix_path_str s = s) (''Invalid '' @ field)
        (require_contract (\<not> list_ex is_secret_part (map lower parts)) (''Invalid '' @ field) (Inr s)))))"

section \<open>Documents\<close>

definition as_dict :: "pyval \<Rightarrow> (string \<times> pyval) list option" where
  "as_dict v = (case v of PDict d \<Rightarrow> Some d | _ \<Rightarrow> None)"

text \<open>\<open>exact(document, required, optional)\<close>; the model returns the fields it has checked.\<close>

definition exact :: "pyval \<Rightarrow> string list \<Rightarrow> string list \<Rightarrow> (string \<times> pyval) list result" where
  "exact v required optional =
     (case as_dict v of
        None \<Rightarrow> Inl (ContractError ''Contract must be an object'')
      | Some d \<Rightarrow>
          require_contract (set required \<subseteq> set (map fst d) \<and> set (map fst d) \<subseteq> set required \<union> set optional)
            ''Unknown or missing contract field'' (Inr d))"

text \<open>\<open>d[k]\<close> for a key \<open>exact\<close> has established.\<close>

definition field_of :: "(string \<times> pyval) list \<Rightarrow> string \<Rightarrow> pyval" where
  "field_of d k = (case map_of d k of Some v \<Rightarrow> v | None \<Rightarrow> PNone)"

definition bounded_list :: "pyval \<Rightarrow> string \<Rightarrow> nat \<Rightarrow> nat \<Rightarrow> pyval list result" where
  "bounded_list v field maximum minimum =
     (case v of
        PList xs \<Rightarrow> require_contract (minimum \<le> length xs \<and> length xs \<le> maximum) (''Invalid '' @ field) (Inr xs)
      | _ \<Rightarrow> Inl (ContractError (''Invalid '' @ field)))"

section \<open>Facts about the checks\<close>

lemma require_contract_Inr [simp]: "require_contract c msg k = Inr x \<longleftrightarrow> c \<and> k = Inr x"
  by (simp add: require_contract_def ensure_def)

lemma bounded_int_Inr: "bounded_int v f low high = Inr n \<longleftrightarrow> v = PInt n \<and> low \<le> n \<and> n \<le> high"
  by (auto simp: bounded_int_def int_in_range_Some_iff split: option.splits)

lemma validate_digest_Inr: "validate_digest v f = Inr s \<longleftrightarrow> v = PStr s \<and> is_hex_digest s"
  by (cases v) (auto simp: validate_digest_def)

lemma exact_Inr:
  "exact v required optional = Inr d \<longleftrightarrow>
     v = PDict d \<and> set required \<subseteq> set (map fst d) \<and> set (map fst d) \<subseteq> set required \<union> set optional"
  by (cases v) (auto simp: exact_def as_dict_def)

lemma bounded_list_Inr:
  "bounded_list v f hi lo = Inr xs \<longleftrightarrow> v = PList xs \<and> lo \<le> length xs \<and> length xs \<le> hi"
  by (cases v) (auto simp: bounded_list_def)

lemma bounded_text_Inr:
  "bounded_text v f limit e = Inr s \<longleftrightarrow>
     v = PStr s \<and> (e \<or> s \<noteq> []) \<and> length s \<le> limit \<and> \<not> list_ex is_control s \<and> utf8_len s \<le> limit"
  by (cases v) (auto simp: bounded_text_def)

lemmas contract_iff = bounded_int_Inr validate_digest_Inr exact_Inr bounded_list_Inr bounded_text_Inr

lemma split_on_not_Nil [simp]: "split_on sep s \<noteq> []"
  by (induction s) (auto split: list.splits)

lemma join_Cons: "join_with sep (p # ps) = (if ps = [] then p else p @ sep @ join_with sep ps)"
  by (cases ps) auto

lemma join_split: "join_with [sep] (split_on sep s) = s"
proof (induction s)
  case (Cons c cs)
  obtain q qs where "split_on sep cs = q # qs" by (cases "split_on sep cs") auto
  with Cons show ?case by (simp add: join_Cons split: if_splits)
qed simp

lemma split_on_no_sep: "p \<in> set (split_on sep s) \<Longrightarrow> sep \<notin> set p"
proof (induction s arbitrary: p)
  case (Cons c cs)
  obtain q qs where "split_on sep cs = q # qs" by (cases "split_on sep cs") auto
  with Cons show ?case by (auto split: if_splits)
qed simp

lemma split_on_append: "sep \<notin> set p \<Longrightarrow> split_on sep (p @ sep # s) = p # split_on sep s"
  by (induction p) auto

lemma split_on_none: "sep \<notin> set p \<Longrightarrow> split_on sep p = [p]"
  by (induction p) auto

lemma split_join:
  "ps \<noteq> [] \<Longrightarrow> (\<And>p. p \<in> set ps \<Longrightarrow> sep \<notin> set p) \<Longrightarrow> split_on sep (join_with [sep] ps) = ps"
proof (induction ps)
  case (Cons p ps)
  then show ?case by (cases "ps = []") (auto simp: join_Cons split_on_none split_on_append)
qed simp

text \<open>
  What a safe path promises: it is relative, no component is empty or a dot name, it is its own
  normal form, and no component names a credential.
\<close>

lemma safe_relative_path_Inr:
  "safe_relative_path v f = Inr s \<longleftrightarrow>
     v = PStr s \<and> s \<noteq> [] \<and> length s \<le> 1024 \<and> \<not> list_ex is_control s \<and> utf8_len s \<le> 1024 \<and>
     CHR 0x5C \<notin> set s \<and> \<not> starts_with s ''/'' \<and>
     list_all (\<lambda>p. p \<notin> {'''', ''.'', ''..''}) (split_on (CHR ''/'') s) \<and> posix_path_str s = s \<and>
     \<not> list_ex is_secret_part (map lower (split_on (CHR ''/'') s))"
  by (auto simp: safe_relative_path_def result_iff bounded_text_Inr Let_def)

text \<open>The last normal-form test of the code never refuses anything the others let through.\<close>

lemma posix_path_str_redundant:
  assumes "s \<noteq> []" "\<not> starts_with s ''/''"
    and parts: "list_all (\<lambda>p. p \<notin> {'''', ''.'', ''..''}) (split_on (CHR ''/'') s)"
  shows "posix_path_str s = s"
proof -
  have "filter (\<lambda>p. p \<noteq> '''' \<and> p \<noteq> ''.'') (split_on (CHR ''/'') s) = split_on (CHR ''/'') s"
    using parts by (auto simp: filter_id_conv list_all_iff)
  moreover have "\<not> starts_with s ''//''"
    using assms(2) by (cases s; cases "tl s") (auto simp: starts_with_def)
  ultimately show ?thesis
    using assms(2) join_split [of "CHR ''/''" s] by (simp add: posix_path_str_def)
qed

end
