(* ===== verification/Wire.thy ===== *)
theory Wire
  imports Contracts "HOL-Library.List_Lexorder" "HOL-Library.Char_ord"
begin

text \<open>
  \<open>reproof/execution/wire.py\<close>: the canonical JSON of the host/guest protocol, transfer chunks,
  transfer manifests and the validation of every message.

  Bytes are natural numbers below 256. The Unicode tables behind \<open>str.casefold\<close> and
  \<open>unicodedata.normalize\<close> are parameters (\<open>casefold\<close>, \<open>nfc\<close>); what is proved holds for any.
  A \<open>PObj\<close> has no JSON form (the protocol carries no floats).
\<close>

definition MAX_FRAME_BYTES :: nat where "MAX_FRAME_BYTES = 256 * 1024"
definition CHUNK_BYTES :: nat where "CHUNK_BYTES = 32 * 1024"
definition MAX_TRANSFER_BYTES :: int where "MAX_TRANSFER_BYTES = 64 * 1024 * 1024"
definition MAX_FILES :: nat where "MAX_FILES = 1024"
definition PROBE_MODES :: "string list" where
  "PROBE_MODES = [''containment'', ''hold'', ''oversize'', ''forged-report'']"

section \<open>Canonical JSON\<close>

fun nat_digits :: "nat \<Rightarrow> string" where
  "nat_digits n = (if n < 10 then [char_of (48 + n)] else nat_digits (n div 10) @ [char_of (48 + n mod 10)])"

declare nat_digits.simps [simp del]

definition int_text :: "int \<Rightarrow> string" where
  "int_text i = (if i < 0 then ''-'' @ nat_digits (nat (- i)) else nat_digits (nat i))"

definition escape_char :: "char \<Rightarrow> string" where
  "escape_char c =
     (let n = (of_char c :: nat) in
      if c = CHR 0x22 then [CHR 0x5C, CHR 0x22]
      else if c = CHR 0x5C then [CHR 0x5C, CHR 0x5C]
      else if n = 8 then [CHR 0x5C, CHR ''b''] else if n = 9 then [CHR 0x5C, CHR ''t'']
      else if n = 10 then [CHR 0x5C, CHR ''n''] else if n = 12 then [CHR 0x5C, CHR ''f'']
      else if n = 13 then [CHR 0x5C, CHR ''r'']
      else if n < 32 then [CHR 0x5C, CHR ''u'', CHR ''0'', CHR ''0'', hex_chars ! (n div 16), hex_chars ! (n mod 16)]
      else [c])"

definition string_text :: "string \<Rightarrow> string" where
  "string_text s = [CHR 0x22] @ concat (map escape_char s) @ [CHR 0x22]"

text \<open>\<open>json.dumps(value, sort_keys=True, separators=(",", ":"), ensure_ascii=False)\<close>.\<close>

fun json_text :: "pyval \<Rightarrow> string option"
and json_items :: "pyval list \<Rightarrow> string list option"
and json_members :: "(string \<times> pyval) list \<Rightarrow> (string \<times> string) list option" where
  "json_text PNone = Some ''null''"
| "json_text (PBool b) = Some (if b then ''true'' else ''false'')"
| "json_text (PInt i) = Some (int_text i)"
| "json_text (PStr s) = Some (string_text s)"
| "json_text (PList xs) =
     map_option (\<lambda>ts. ''['' @ join_with '','' ts @ '']'') (json_items xs)"
| "json_text (PDict d) =
     map_option (\<lambda>ms. ''{'' @ join_with '','' (map (\<lambda>(k, t). string_text k @ '':'' @ t)
       (sort_key fst ms)) @ ''}'') (json_members d)"
| "json_text (PObj n) = None"
| "json_items [] = Some []"
| "json_items (x # xs) =
     (case (json_text x, json_items xs) of (Some t, Some ts) \<Rightarrow> Some (t # ts) | _ \<Rightarrow> None)"
| "json_members [] = Some []"
| "json_members ((k, x) # d) =
     (case (json_text x, json_members d) of (Some t, Some ts) \<Rightarrow> Some ((k, t) # ts) | _ \<Rightarrow> None)"

definition utf8_bytes :: "string \<Rightarrow> nat list" where
  "utf8_bytes s = concat (map (\<lambda>c. let n = of_char c in
     if n < 128 then [n] else [192 + n div 64, 128 + n mod 64]) s)"

lemma length_utf8_bytes: "length (utf8_bytes s) = utf8_len s"
  by (induction s) (auto simp: utf8_bytes_def utf8_len_def Let_def)

definition canonical :: "pyval \<Rightarrow> nat list result" where
  "canonical v =
     (case json_text v of
        None \<Rightarrow> Inl (ProtocolError ''Invalid protocol data'')
      | Some t \<Rightarrow> Inr (utf8_bytes t))"

section \<open>Transfer chunks\<close>

definition b64_chars :: string where
  "b64_chars = upper_chars @ lower_chars @ digit_chars @ ''+/''"

definition b64_char :: "nat \<Rightarrow> char" where
  "b64_char i = b64_chars ! i"

definition b64_index :: "char \<Rightarrow> nat option" where
  "b64_index c = map_of (zip b64_chars [0..<64]) c"

fun b64_encode :: "nat list \<Rightarrow> string" where
  "b64_encode [] = []"
| "b64_encode [a] = [b64_char (a div 4), b64_char (a mod 4 * 16), CHR ''='', CHR ''='']"
| "b64_encode [a, b] =
     [b64_char (a div 4), b64_char (a mod 4 * 16 + b div 16), b64_char (b mod 16 * 4), CHR ''='']"
| "b64_encode (a # b # c # rest) =
     [b64_char (a div 4), b64_char (a mod 4 * 16 + b div 16), b64_char (b mod 16 * 4 + c div 64),
      b64_char (c mod 64)] @ b64_encode rest"

text \<open>\<open>b64decode(data, validate=True)\<close>; \<open>None\<close> is \<open>binascii.Error\<close>.\<close>

fun b64_decode :: "string \<Rightarrow> nat list option" where
  "b64_decode [] = Some []"
| "b64_decode (p # q # r # s # rest) =
     (case (b64_index p, b64_index q) of
        (Some i, Some j) \<Rightarrow>
          if r = CHR ''='' \<and> s = CHR ''='' \<and> rest = [] then Some [i * 4 + j div 16]
          else (case b64_index r of
             None \<Rightarrow> None
           | Some k \<Rightarrow>
               if s = CHR ''='' \<and> rest = [] then Some [i * 4 + j div 16, j mod 16 * 16 + k div 4]
               else (case (b64_index s, b64_decode rest) of
                  (Some l, Some bs) \<Rightarrow>
                    Some ([i * 4 + j div 16, j mod 16 * 16 + k div 4, k mod 4 * 64 + l] @ bs)
                | _ \<Rightarrow> None))
      | _ \<Rightarrow> None)"
| "b64_decode _ = None"

definition decode_chunk :: "pyval \<Rightarrow> nat list result" where
  "decode_chunk data =
     (case as_str data of
        None \<Rightarrow> Inl (ProtocolError ''Invalid transfer chunk'')
      | Some s \<Rightarrow>
          if length s \<le> 4 * ((CHUNK_BYTES + 2) div 3) then
            (case b64_decode s of
               None \<Rightarrow> Inl (ProtocolError ''Invalid transfer chunk'')
             | Some raw \<Rightarrow>
                 if 0 < length raw \<and> length raw \<le> CHUNK_BYTES \<and> b64_encode raw = s then Inr raw
                 else Inl (ProtocolError ''Invalid transfer chunk''))
          else Inl (ProtocolError ''Invalid transfer chunk''))"

section \<open>Transfer manifests\<close>

definition protected_suffixes :: "string list" where
  "protected_suffixes = [''.mobileprovision'', ''.keychain'', ''.keychain-db'']"

definition safe_transfer_path :: "pyval \<Rightarrow> string result" where
  "safe_transfer_path v =
     bind_result (safe_relative_path v ''path'') (\<lambda>s.
       require_contract
         (\<not> list_ex (\<lambda>p. list_ex (ends_with (lower p)) protected_suffixes) (split_on (CHR ''/'') s))
         ''Protected credential path rejected'' (Inr s))"

text \<open>One file of the manifest: the folded path it adds and its size.\<close>

definition manifest_item ::
  "(string \<Rightarrow> string) \<Rightarrow> (string \<Rightarrow> string) \<Rightarrow> string list \<Rightarrow> pyval \<Rightarrow> (string \<times> int) result" where
  "manifest_item casefold nfc seen item =
     bind_result (exact item [''path'', ''digest'', ''size''] []) (\<lambda>d.
     bind_result (safe_transfer_path (field_of d ''path'')) (\<lambda>path.
     require_contract (nfc path = path) ''Invalid transfer path''
     (require_contract (casefold path \<notin> set seen) ''Duplicate transfer path''
     (bind_result (validate_digest (field_of d ''digest'') ''digest'') (\<lambda>_.
      bind_result (bounded_int (field_of d ''size'') ''transfer size'' 0 MAX_TRANSFER_BYTES) (\<lambda>size.
        Inr (casefold path, size)))))))"

fun manifest_items ::
  "(string \<Rightarrow> string) \<Rightarrow> (string \<Rightarrow> string) \<Rightarrow> string list \<Rightarrow> int \<Rightarrow> pyval list \<Rightarrow> (string list \<times> int) result" where
  "manifest_items casefold nfc seen bytes [] = Inr (seen, bytes)"
| "manifest_items casefold nfc seen bytes (x # xs) =
     bind_result (manifest_item casefold nfc seen x) (\<lambda>(p, size).
       manifest_items casefold nfc (seen @ [p]) (bytes + size) xs)"

text \<open>The proper directory prefixes of a path.\<close>

definition path_prefixes :: "string \<Rightarrow> string list" where
  "path_prefixes path =
     (let parts = split_on (CHR ''/'') path
      in map (\<lambda>i. join_with ''/'' (take i parts)) [1..<length parts])"

definition validate_manifest ::
  "(string \<Rightarrow> string) \<Rightarrow> (string \<Rightarrow> string) \<Rightarrow> pyval \<Rightarrow> unit result" where
  "validate_manifest casefold nfc payload =
     bind_result (exact payload [''digest'', ''files''] []) (\<lambda>d.
     bind_result (validate_digest (field_of d ''digest'') ''digest'') (\<lambda>_.
     bind_result (bounded_list (field_of d ''files'') ''transfer files'' MAX_FILES 1) (\<lambda>files.
     bind_result (manifest_items casefold nfc [] 0 files) (\<lambda>(paths, bytes).
       require_contract (list_all (\<lambda>p. \<not> list_ex (\<lambda>q. q \<in> set paths) (path_prefixes p)) paths)
         ''Conflicting transfer paths''
       (require_contract (bytes \<le> MAX_TRANSFER_BYTES) ''Transfer limit exceeded'' (Inr ()))))))"

section \<open>Messages\<close>

definition allowed_kinds :: "string \<Rightarrow> string list" where
  "allowed_kinds role =
     (if role = ''host'' then [''input-start'', ''input-chunk'', ''input-end'', ''run'', ''cancel'', ''probe'']
      else [''ready'', ''artifact-start'', ''artifact-chunk'', ''artifact-end'', ''result'', ''error'',
            ''probe-started''])"

text \<open>A \<open>ContractError\<close>, \<open>TypeError\<close> or \<open>ValueError\<close> becomes the message error; a
  \<open>ProtocolError\<close> (a bad chunk) passes through.\<close>

definition as_message_error :: "'a result \<Rightarrow> 'a result" where
  "as_message_error r =
     (case r of
        Inl (ProtocolError m) \<Rightarrow> Inl (ProtocolError m)
      | Inl _ \<Rightarrow> Inl (ProtocolError ''Invalid protocol message'')
      | Inr x \<Rightarrow> Inr x)"

definition validate_payload ::
  "(string \<Rightarrow> string) \<Rightarrow> (string \<Rightarrow> string) \<Rightarrow> string \<Rightarrow> pyval \<Rightarrow> unit result" where
  "validate_payload casefold nfc kind payload =
     (if kind \<in> {''input-start'', ''artifact-start''} then validate_manifest casefold nfc payload
      else if kind \<in> {''input-chunk'', ''artifact-chunk''} then
        bind_result (exact payload [''index'', ''offset'', ''data''] []) (\<lambda>d.
        bind_result (bounded_int (field_of d ''index'') ''file index'' 0 (int MAX_FILES - 1)) (\<lambda>_.
        bind_result (bounded_int (field_of d ''offset'') ''file offset'' 0 MAX_TRANSFER_BYTES) (\<lambda>_.
        bind_result (decode_chunk (field_of d ''data'')) (\<lambda>_. Inr ()))))
      else if kind \<in> {''input-end'', ''artifact-end'', ''cancel''} then
        bind_result (exact payload [] []) (\<lambda>_. Inr ())
      else if kind = ''run'' then
        bind_result (exact payload [''recipeId'', ''inputDigest''] []) (\<lambda>d.
        bind_result (validate_id (field_of d ''recipeId'') ''id'') (\<lambda>_.
        bind_result (validate_digest (field_of d ''inputDigest'') ''digest'') (\<lambda>_. Inr ())))
      else if kind \<in> {''probe'', ''probe-started''} then
        bind_result (exact payload [''mode''] []) (\<lambda>d.
          require_contract (case as_str (field_of d ''mode'') of Some s \<Rightarrow> s \<in> set PROBE_MODES | None \<Rightarrow> False)
            ''Invalid probe mode'' (Inr ()))
      else if kind = ''ready'' then
        bind_result (exact payload [''agentDigest'', ''catalogDigest''] []) (\<lambda>d.
        bind_result (validate_digest (field_of d ''agentDigest'') ''digest'') (\<lambda>_.
        bind_result (validate_digest (field_of d ''catalogDigest'') ''digest'') (\<lambda>_. Inr ())))
      else if kind = ''result'' then
        bind_result (exact payload [''exitCode'', ''outputTruncated'', ''logDigest''] []) (\<lambda>d.
        bind_result (bounded_int (field_of d ''exitCode'') ''exit code'' (- 255) 255) (\<lambda>_.
        require_contract (\<exists>b \<in> {True, False}. field_of d ''outputTruncated'' = PBool b) ''Invalid truncation flag''
        (bind_result (validate_digest (field_of d ''logDigest'') ''digest'') (\<lambda>_. Inr ()))))
      else if kind = ''error'' then
        bind_result (exact payload [''code''] []) (\<lambda>d.
          require_contract (field_of d ''code'' \<in> PStr ` {''input-rejected'', ''recipe-rejected'',
              ''execution-failed'', ''output-rejected'', ''cancelled''}) ''Invalid error code'' (Inr ()))
      else Inr ())"

definition validate_message ::
  "(string \<Rightarrow> string) \<Rightarrow> (string \<Rightarrow> string) \<Rightarrow> pyval \<Rightarrow> pyval \<Rightarrow> pyval \<Rightarrow> unit result" where
  "validate_message casefold nfc role kind payload =
     as_message_error
       (require_contract (role \<in> {PStr ''host'', PStr ''guest''}) ''Invalid role''
         (case as_str kind of
            None \<Rightarrow> Inl (ContractError ''Invalid message kind'')
          | Some k \<Rightarrow>
              require_contract (k \<in> set (allowed_kinds (if role = PStr ''host'' then ''host'' else ''guest'')))
                ''Invalid message kind'' (validate_payload casefold nfc k payload)))"

section \<open>Chunks: decoding inverts encoding\<close>

lemma length_b64_chars [simp]: "length b64_chars = 64"
  by (simp add: b64_chars_def upper_chars_def lower_chars_def digit_chars_def)

lemma distinct_b64_chars: "distinct b64_chars"
  by (simp add: b64_chars_def upper_chars_def lower_chars_def digit_chars_def)

lemma b64_index_Some: "b64_index c = Some i \<Longrightarrow> i < 64 \<and> b64_char i = c"
  unfolding b64_index_def b64_char_def
  by (auto dest!: map_of_SomeD simp: set_zip)

lemma b64_index_char [simp]: "i < 64 \<Longrightarrow> b64_index (b64_char i) = Some i"
  unfolding b64_index_def b64_char_def
  using map_of_zip_nth [of b64_chars "[0..<64]" i] distinct_b64_chars by simp

lemma b64_char_not_pad [simp]: "i < 64 \<Longrightarrow> b64_char i \<noteq> CHR ''=''"
proof -
  assume "i < 64"
  then have "b64_char i \<in> set b64_chars" by (simp add: b64_char_def)
  then show ?thesis
    by (auto simp: b64_chars_def upper_chars_def lower_chars_def digit_chars_def)
qed

lemma length_b64_encode: "length (b64_encode bs) = 4 * ((length bs + 2) div 3)"
  by (induction bs rule: b64_encode.induct) (simp_all, arith)

lemma two_digits:
  fixes x y m :: nat
  shows "y < m \<Longrightarrow> (x * m + y) div m = x" and "y < m \<Longrightarrow> (x * m + y) mod m = y"
  by simp_all

lemma sextets:
  fixes a b c :: nat
  assumes "a < 256" "b < 256" "c < 256"
  shows "a div 4 < 64" "a mod 4 * 16 + b div 16 < 64" "b mod 16 * 4 + c div 64 < 64" "c mod 64 < 64"
    "a mod 4 * 16 < 64" "b mod 16 * 4 < 64"
    "a div 4 * 4 + (a mod 4 * 16 + b div 16) div 16 = a"
    "(a mod 4 * 16 + b div 16) mod 16 * 16 + (b mod 16 * 4 + c div 64) div 4 = b"
    "(b mod 16 * 4 + c div 64) mod 4 * 64 + c mod 64 = c"
    "a div 4 * 4 + a mod 4 * 16 div 16 = a"
    "(a mod 4 * 16 + b div 16) mod 16 * 16 + b mod 16 * 4 div 4 = b"
  using assms two_digits [of "b div 16" 16 "a mod 4"] two_digits [of "c div 64" 4 "b mod 16"]
    two_digits [of 0 16 "a mod 4"] two_digits [of 0 4 "b mod 16"]
  by (simp_all, (linarith+)?)

lemma b64_decode_encode: "list_all (\<lambda>b. b < 256) bs \<Longrightarrow> b64_decode (b64_encode bs) = Some bs"
proof (induction bs rule: b64_encode.induct)
  case (2 a)
  then show ?case using sextets [of a 0 0] by simp
next
  case (3 a b)
  then show ?case using sextets [of a b 0] by simp
next
  case (4 a b c rest)
  then show ?case using sextets [of a b c] by simp
qed simp

lemma b64_decode_bytes: "b64_decode s = Some bs \<Longrightarrow> list_all (\<lambda>b. b < 256) bs"
proof (induction s arbitrary: bs rule: b64_decode.induct)
  case (2 p q r s rest)
  have bound: "i * 4 + j div 16 < 256" "j mod 16 * 16 + k div 4 < 256" "k mod 4 * 64 + l < 256"
    if "i < 64" "j < 64" "k < 64" "l < 64" for i j k l :: nat
    using that by linarith+
  from 2 show ?case
    by (auto split: option.splits if_splits dest!: b64_index_Some intro!: bound)
qed simp_all

text \<open>
  C21. A chunk is accepted exactly when it is the canonical base64 text of between one byte and
  32 KiB, and what it decodes to is those bytes: there is one text for each chunk, so a chunk
  cannot be altered without changing the bytes it carries.
\<close>

theorem decode_chunk_canonical:
  "decode_chunk data = Inr raw \<longleftrightarrow>
     data = PStr (b64_encode raw) \<and> 0 < length raw \<and> length raw \<le> CHUNK_BYTES \<and>
     list_all (\<lambda>b. b < 256) raw"
proof
  assume "decode_chunk data = Inr raw"
  then show "data = PStr (b64_encode raw) \<and> 0 < length raw \<and> length raw \<le> CHUNK_BYTES \<and>
      list_all (\<lambda>b. b < 256) raw"
    by (auto simp: decode_chunk_def as_str_Some_iff dest!: b64_decode_bytes split: option.splits if_splits)
next
  assume raw: "data = PStr (b64_encode raw) \<and> 0 < length raw \<and> length raw \<le> CHUNK_BYTES \<and>
      list_all (\<lambda>b. b < 256) raw"
  then have "4 * ((length raw + 2) div 3) \<le> 4 * ((CHUNK_BYTES + 2) div 3)"
    by (intro mult_le_mono2 div_le_mono) simp
  with raw show "decode_chunk data = Inr raw"
    by (simp add: decode_chunk_def b64_decode_encode length_b64_encode)
qed

section \<open>Manifests\<close>

definition item_path :: "pyval \<Rightarrow> string" where
  "item_path item = (case as_dict item of
     Some d \<Rightarrow> (case as_str (field_of d ''path'') of Some s \<Rightarrow> s | None \<Rightarrow> []) | None \<Rightarrow> [])"

definition item_size :: "pyval \<Rightarrow> int" where
  "item_size item = (case as_dict item of
     Some d \<Rightarrow> (case field_of d ''size'' of PInt n \<Rightarrow> n | _ \<Rightarrow> 0) | None \<Rightarrow> 0)"

lemma safe_transfer_path_PStr: "safe_transfer_path v = Inr s \<Longrightarrow> v = PStr s"
  by (auto simp: safe_transfer_path_def result_iff safe_relative_path_Inr)

lemma manifest_item_Inr:
  assumes "manifest_item cf nfc seen x = Inr (p, n)"
  shows "p = cf (item_path x) \<and> n = item_size x \<and> p \<notin> set seen \<and> 0 \<le> n \<and>
     safe_transfer_path (PStr (item_path x)) = Inr (item_path x)"
proof -
  from assms obtain d path where d: "x = PDict d" and safe: "safe_transfer_path (field_of d ''path'') = Inr path"
    and size: "field_of d ''size'' = PInt n" "0 \<le> n" and p: "p = cf path" "cf path \<notin> set seen"
    by (auto simp: manifest_item_def result_iff exact_Inr bounded_int_Inr)
  from safe have "field_of d ''path'' = PStr path" by (rule safe_transfer_path_PStr)
  with d safe size p show ?thesis by (simp add: item_path_def item_size_def as_dict_def)
qed

lemma manifest_items_Inr:
  "manifest_items cf nfc seen t xs = Inr (ps, n) \<Longrightarrow> distinct seen \<Longrightarrow>
     ps = seen @ map (\<lambda>x. cf (item_path x)) xs \<and> distinct ps \<and> n = t + sum_list (map item_size xs) \<and>
     list_all (\<lambda>x. 0 \<le> item_size x \<and> safe_transfer_path (PStr (item_path x)) = Inr (item_path x)) xs"
proof (induction xs arbitrary: seen t)
  case (Cons x xs)
  from Cons.prems(1) obtain p k where x: "manifest_item cf nfc seen x = Inr (p, k)"
    and rest: "manifest_items cf nfc (seen @ [p]) (t + k) xs = Inr (ps, n)"
    by (auto simp: bind_result_Inr_iff)
  from manifest_item_Inr [OF x] have p: "p = cf (item_path x)" "p \<notin> set seen"
    and k: "k = item_size x" "0 \<le> k" "safe_transfer_path (PStr (item_path x)) = Inr (item_path x)"
    by blast+
  from p Cons.prems(2) have "distinct (seen @ [p])" by simp
  note ih = Cons.IH [OF rest this]
  show ?case
  proof (intro conjI)
    show "distinct ps" using ih by blast
  qed (use ih p k in simp_all)
qed auto

text \<open>
  C22. An accepted manifest can be unpacked without one file touching another: it lists between
  one and 1024 files, their paths are safe relative paths that name no credential, no two are
  equal after case folding, none is a directory on the way to another, and together they are at
  most 64 MiB.
\<close>

theorem manifest_files_disjoint:
  assumes "validate_manifest cf nfc payload = Inr ()"
  shows "\<exists>d files. payload = PDict d \<and> field_of d ''files'' = PList files \<and>
    1 \<le> length files \<and> length files \<le> MAX_FILES \<and>
    distinct (map (\<lambda>x. cf (item_path x)) files) \<and>
    list_all (\<lambda>x. list_all (\<lambda>y. cf (item_path y) \<notin> set (path_prefixes (cf (item_path x)))) files) files \<and>
    list_all (\<lambda>x. 0 \<le> item_size x \<and> safe_transfer_path (PStr (item_path x)) = Inr (item_path x)) files \<and>
    sum_list (map item_size files) \<le> MAX_TRANSFER_BYTES"
proof -
  from assms obtain d files ps n where d: "payload = PDict d" "field_of d ''files'' = PList files"
    and len: "1 \<le> length files" "length files \<le> MAX_FILES"
    and items: "manifest_items cf nfc [] 0 files = Inr (ps, n)"
    and conf: "list_all (\<lambda>p. \<not> list_ex (\<lambda>q. q \<in> set ps) (path_prefixes p)) ps"
    and fits: "n \<le> MAX_TRANSFER_BYTES"
    by (auto simp: validate_manifest_def result_iff contract_iff)
  from manifest_items_Inr [OF items] have "ps = map (\<lambda>x. cf (item_path x)) files" "distinct ps"
    "n = sum_list (map item_size files)"
    "list_all (\<lambda>x. 0 \<le> item_size x \<and> safe_transfer_path (PStr (item_path x)) = Inr (item_path x)) files"
    by auto
  with d len conf fits show ?thesis
    by (auto simp: list_all_iff list_ex_iff)
qed

definition sample_digest :: string where
  "sample_digest = replicate 64 (CHR ''a'')"

definition sample_file :: "string \<Rightarrow> int \<Rightarrow> pyval" where
  "sample_file p n = PDict [(''path'', PStr p), (''digest'', PStr sample_digest), (''size'', PInt n)]"

definition sample_manifest :: pyval where
  "sample_manifest = PDict [(''digest'', PStr sample_digest),
     (''files'', PList [sample_file ''a/b'' 5, sample_file ''a/c'' 7])]"

lemma sample_digest_ok [simp]: "is_hex_digest sample_digest"
  by (simp add: is_hex_digest_def sample_digest_def hex_chars_def list_all_iff)

lemma sample_manifest_ok: "validate_manifest lower (\<lambda>s. s) sample_manifest = Inr ()"
proof -
  have ok: "safe_transfer_path (PStr [CHR ''a'', CHR ''/'', c]) = Inr [CHR ''a'', CHR ''/'', c]"
    if "c = CHR ''b'' \<or> c = CHR ''c''" for c
    using that
    by (auto simp: safe_transfer_path_def safe_relative_path_def bounded_text_def utf8_len_def
        is_control_def posix_path_str_def starts_with_def is_secret_part_def secret_names_def
        secret_suffixes_def ends_with_def protected_suffixes_def lower_def lower_char_def
        upper_chars_def lower_chars_def Let_def require_contract_def)
  show ?thesis
    by (simp add: validate_manifest_def sample_manifest_def exact_def as_dict_def field_of_def
        validate_digest_def bounded_list_def MAX_FILES_def sample_file_def manifest_item_def ok
        bounded_int_def MAX_TRANSFER_BYTES_def require_contract_def lower_def lower_char_def
        upper_chars_def lower_chars_def path_prefixes_def upt_conv_Cons)
qed

theorem manifest_files_disjoint_witness:
  "\<exists>d files. sample_manifest = PDict d \<and> field_of d ''files'' = PList files \<and> 1 \<le> length files \<and>
     sum_list (map item_size files) \<le> MAX_TRANSFER_BYTES"
  using manifest_files_disjoint [OF sample_manifest_ok] by blast

text \<open>
  No message can be reflected: a kind the host may send is never a kind the guest may send,
  so a message valid in one direction is invalid in the other, whatever its payload.
\<close>

theorem no_reflected_message:
  assumes "validate_message cf nfc (PStr ''host'') kind payload = Inr ()"
  shows "validate_message cf' nfc' (PStr ''guest'') kind payload' = Inl (ProtocolError ''Invalid protocol message'')"
proof -
  from assms obtain k where k: "kind = PStr k" "k \<in> set (allowed_kinds ''host'')"
    by (cases kind) (auto simp: validate_message_def as_message_error_def require_contract_def ensure_def
        split: sum.splits py_error.splits if_splits)
  then have "k \<notin> set (allowed_kinds ''guest'')" by (auto simp: allowed_kinds_def)
  with k show ?thesis
    by (simp add: validate_message_def as_message_error_def require_contract_def)
qed

theorem no_reflected_message_witness:
  "validate_message id id (PStr ''guest'') (PStr ''cancel'') (PDict []) =
     Inl (ProtocolError ''Invalid protocol message'')"
  by (rule no_reflected_message [of id id _ "PDict []"])
    (simp add: validate_message_def allowed_kinds_def validate_payload_def exact_def as_dict_def
      as_message_error_def require_contract_def)

end
