(* ===== verification/Unified_Diff.thy ===== *)
theory Unified_Diff
  imports Wire "HOL-Library.Sublist"
begin

text \<open>
  \<open>reproof/unified_diff.py\<close>: an exact-position unified diff, checked against the source texts and
  turned into exact replacements, without running \<open>patch\<close> or Git.

  The index \<open>i\<close> of the code is the list of the lines that are left; the two loops are recursive
  functions over it that consume at least one line a round. A hunk is applied line by line
  (\<open>hunk_body\<close>), a file is a header with its hunks (\<open>file_block\<close>), and \<open>exact_edits\<close> runs over the
  files. The theorems compare this with \<open>splice\<close>, which replaces each hunk's old lines by its new
  lines at the position its header names and leaves everything else alone.
\<close>

definition nl :: char where "nl = CHR 0x0A"
definition cr :: char where "cr = CHR 0x0D"
definition nul :: char where "nul = CHR 0x00"

text \<open>\<open>[line + "\n" for line in text[:-1].split("\n")]\<close>.\<close>

definition lf_lines :: "string \<Rightarrow> string list" where
  "lf_lines s = map (\<lambda>l. l @ [nl]) (split_on nl (butlast s))"

text \<open>\<open>str.splitlines(keepends=True)\<close> on code points up to 255.\<close>

definition is_line_break :: "char \<Rightarrow> bool" where
  "is_line_break c \<longleftrightarrow> c \<in> {CHR 0x0A, CHR 0x0B, CHR 0x0C, CHR 0x0D, CHR 0x1C, CHR 0x1D, CHR 0x1E, CHR 0x85}"

fun splitlines_keep :: "string \<Rightarrow> string list" where
  "splitlines_keep [] = []"
| "splitlines_keep (c # cs) =
     (if c = CHR 0x0D \<and> cs \<noteq> [] \<and> hd cs = CHR 0x0A
      then [c, CHR 0x0A] # splitlines_keep (tl cs)
      else if is_line_break c then [c] # splitlines_keep cs
      else (case splitlines_keep cs of [] \<Rightarrow> [[c]] | l # ls \<Rightarrow> (c # l) # ls))"

section \<open>Headers\<close>

definition is_digit :: "char \<Rightarrow> bool" where
  "is_digit c \<longleftrightarrow> c \<in> set digit_chars"

definition digits_value :: "string \<Rightarrow> int" where
  "digits_value ds = foldl (\<lambda>n c. 10 * n + (of_char c - 48)) 0 ds"

text \<open>\<open>([0-9]{1,7})(?:,([0-9]{1,7}))?\<close>; what follows is a blank, so the match is unique.\<close>

definition parse_number :: "string \<Rightarrow> (int \<times> string) option" where
  "parse_number s =
     (let ds = takeWhile is_digit s in
      if 1 \<le> length ds \<and> length ds \<le> 7 then Some (digits_value ds, dropWhile is_digit s) else None)"

definition parse_range :: "string \<Rightarrow> (int \<times> int \<times> string) option" where
  "parse_range s =
     (case parse_number s of
        None \<Rightarrow> None
      | Some (start, r) \<Rightarrow>
          if starts_with r '','' then
            (case parse_number (drop 1 r) of None \<Rightarrow> None | Some (n, r') \<Rightarrow> Some (start, n, r'))
          else Some (start, 1, r))"

text \<open>\<open>_HUNK.fullmatch\<close> with the absent counts read as 1.\<close>

definition parse_hunk :: "string \<Rightarrow> (int \<times> int \<times> int \<times> int) option" where
  "parse_hunk line =
     (if \<not> starts_with line ''@@ -'' then None
      else case parse_range (drop 4 line) of
        None \<Rightarrow> None
      | Some (old_start, old_count, r) \<Rightarrow>
          if \<not> starts_with r '' +'' then None
          else case parse_range (drop 2 r) of
            None \<Rightarrow> None
          | Some (new_start, new_count, r') \<Rightarrow>
              if starts_with r' '' @@'' \<and>
                 (drop 3 r' = [nl] \<or>
                  starts_with (drop 3 r') '' '' \<and> last r' = nl \<and> 2 \<le> length (drop 3 r') \<and>
                  list_all (\<lambda>c. c \<noteq> nl \<and> c \<noteq> cr) (butlast (drop 3 r')))
              then Some (old_start, old_count, new_start, new_count) else None)"

definition is_hex :: "char \<Rightarrow> bool" where
  "is_hex c \<longleftrightarrow> c \<in> set hex_chars"

definition valid_index_line :: "string \<Rightarrow> bool" where
  "valid_index_line line \<longleftrightarrow>
     (let r = drop 6 line; a = takeWhile is_hex r; r1 = dropWhile is_hex r;
          b = takeWhile is_hex (drop 2 r1); r2 = dropWhile is_hex (drop 2 r1)
      in starts_with line ''index '' \<and> 7 \<le> length a \<and> length a \<le> 64 \<and> starts_with r1 ''..'' \<and>
         7 \<le> length b \<and> length b \<le> 64 \<and> (r2 = [nl] \<or> r2 = '' 100644'' @ [nl]))"

text \<open>\<open>header.split(sep, 1)\<close> when \<open>sep\<close> occurs.\<close>

fun split_first :: "string \<Rightarrow> string \<Rightarrow> (string \<times> string) option" where
  "split_first sep [] = (if sep = [] then Some ([], []) else None)"
| "split_first sep (c # cs) =
     (if starts_with (c # cs) sep then Some ([], drop (length sep) (c # cs))
      else map_option (\<lambda>(l, r). (c # l, r)) (split_first sep cs))"

text \<open>The optional \<open>diff --git\<close> and \<open>index\<close> lines: the path they name and the lines that are left.\<close>

definition git_header :: "string list \<Rightarrow> (string option \<times> string list) result" where
  "git_header lines =
     (case lines of
        [] \<Rightarrow> Inr (None, [])
      | l # ls \<Rightarrow>
          if starts_with l ''diff --git '' then
            (let header = butlast (drop 11 l) in
             case (if starts_with header ''a/'' then split_first '' b/'' header else None) of
               None \<Rightarrow> Inl (ContractError ''Invalid diff header'')
             | Some (left, right) \<Rightarrow>
                 require_contract (drop 2 left = right) ''Rename is not supported''
                   (case ls of
                      [] \<Rightarrow> Inr (Some right, [])
                    | l' # ls' \<Rightarrow>
                        if starts_with l' ''index '' then
                          require_contract (valid_index_line l') ''Invalid index header'' (Inr (Some right, ls'))
                        else Inr (Some right, ls)))
          else Inr (None, lines))"

section \<open>Hunks\<close>

record hunk_state =
  out_lines :: "string list"
  cursor :: int
  previous_end :: int
  hunks :: nat

text \<open>The inner loop: the lines of one hunk, against the original from \<open>start\<close> on.\<close>

fun hunk_body ::
  "string list \<Rightarrow> nat \<Rightarrow> nat \<Rightarrow> nat \<Rightarrow> nat \<Rightarrow> nat \<Rightarrow> string list \<Rightarrow> string list \<Rightarrow>
   (string list \<times> string list) result" where
  "hunk_body original start old_count new_count old_seen new_seen out lines =
     (if old_seen < old_count \<or> new_seen < new_count then
        (case lines of
           [] \<Rightarrow> Inl (ContractError ''Truncated hunk'')
         | l # ls \<Rightarrow>
             if l = [] \<or> hd l \<notin> {CHR '' '', CHR ''+'', CHR ''-''} then Inl (ContractError ''Truncated hunk'')
             else if hd l = CHR ''-'' then
               require_contract (old_seen < old_count \<and> start + old_seen < length original \<and>
                   original ! (start + old_seen) = tl l) ''Original context mismatch''
                 (hunk_body original start old_count new_count (Suc old_seen) new_seen out ls)
             else if hd l = CHR ''+'' then
               require_contract (new_seen < new_count) ''Hunk count mismatch''
                 (hunk_body original start old_count new_count old_seen (Suc new_seen) (out @ [tl l]) ls)
             else
               require_contract (old_seen < old_count \<and> start + old_seen < length original \<and>
                   original ! (start + old_seen) = tl l) ''Original context mismatch''
               (require_contract (new_seen < new_count) ''Hunk count mismatch''
                 (hunk_body original start old_count new_count (Suc old_seen) (Suc new_seen)
                    (out @ [tl l]) ls)))
      else Inr (out, lines))"

declare hunk_body.simps [simp del]

text \<open>One round of the hunk loop: the header line and its body.\<close>

definition hunk_step ::
  "string list \<Rightarrow> hunk_state \<Rightarrow> string \<Rightarrow> string list \<Rightarrow> (hunk_state \<times> string list) result" where
  "hunk_step original st line rest =
     (case parse_hunk line of
        None \<Rightarrow> Inl (ContractError ''Invalid hunk'')
      | Some (old_start, old_count, new_start, new_count) \<Rightarrow>
          let start = (if old_count \<noteq> 0 then old_start - 1 else old_start);
              before = out_lines st @ take (nat (start - cursor st)) (drop (nat (cursor st)) original)
          in require_contract (old_count \<noteq> 0 \<or> new_count \<noteq> 0) ''Empty hunk''
            (require_contract (0 \<le> start \<and> start \<le> int (length original) \<and> start \<ge> cursor st \<and>
                start > previous_end st) ''Overlapping or unordered hunks''
            (require_contract (old_count = 0 \<or> old_start > 0) ''Invalid old position''
            (require_contract
               (new_start = (if new_count \<noteq> 0 then int (length before) + 1 else int (length before)))
               ''New position mismatch''
            (bind_result
               (hunk_body original (nat start) (nat old_count) (nat new_count) 0 0 before rest)
               (\<lambda>(out, rest').
                 require_contract (Suc (hunks st) \<le> 4096) ''Too many hunks''
                   (Inr (\<lparr>out_lines = out, cursor = start + old_count,
                          previous_end = (if old_count = 0 then start else start + old_count - 1),
                          hunks = Suc (hunks st)\<rparr>, rest'))))))))"

lemma hunk_body_suffix:
  "hunk_body original start oc nc os ns out lines = Inr (out', rest) \<Longrightarrow> suffix rest lines"
proof (induction lines arbitrary: os ns out)
  case Nil
  then show ?case by (auto simp: hunk_body.simps split: if_splits)
next
  case (Cons l ls)
  from Cons.prems Cons.IH show ?case
    by (auto simp: hunk_body.simps [of _ _ _ _ _ _ _ "l # ls"] split: if_splits intro: suffix_ConsI)
qed

lemma hunk_step_suffix: "hunk_step original st line ls = Inr (st', rest) \<Longrightarrow> suffix rest ls"
  by (auto simp: hunk_step_def result_iff Let_def split: option.splits dest!: hunk_body_suffix)

function hunk_loop :: "string list \<Rightarrow> hunk_state \<Rightarrow> string list \<Rightarrow> (hunk_state \<times> string list) result" where
  "hunk_loop original st [] = Inr (st, [])"
| "hunk_loop original st (l # ls) =
     (if starts_with l ''@@ '' then
        (case hunk_step original st l ls of
           Inl e \<Rightarrow> Inl e
         | Inr (st', rest) \<Rightarrow> hunk_loop original st' rest)
      else Inr (st, l # ls))"
  by pat_completeness auto
termination
  by (relation "measure (\<lambda>(_, _, ls). length ls)")
    (auto dest!: hunk_step_suffix suffix_length_le)

section \<open>Files\<close>

record edit =
  edit_path :: string
  edit_old :: string
  edit_new :: string

definition supported_text :: "pyval \<Rightarrow> string result" where
  "supported_text v =
     (case as_str v of
        None \<Rightarrow> Inl (ContractError ''Unsupported source text'')
      | Some s \<Rightarrow>
          require_contract (s \<noteq> [] \<and> last s = nl \<and> cr \<notin> set s \<and> nul \<notin> set s \<and> utf8_len s \<le> 128 * 1024)
            ''Unsupported source text'' (Inr s))"

definition initial_state :: hunk_state where
  "initial_state = \<lparr>out_lines = [], cursor = 0, previous_end = -1, hunks = 0\<rparr>"

text \<open>One file of the diff: its two file headers and its hunks give the edit.\<close>

definition file_edit ::
  "(string \<times> pyval) list \<Rightarrow> string list \<Rightarrow> string option \<Rightarrow> string \<Rightarrow> string \<Rightarrow> string list \<Rightarrow>
   (edit \<times> string list) result" where
  "file_edit sources seen git_path l1 l2 body =
     require_contract (starts_with l1 ''--- a/'' \<and> starts_with l2 ''+++ b/'')
       ''Expected existing-file headers''
     (let path = butlast (drop 6 l1) in
      require_contract (path = butlast (drop 6 l2) \<and> (git_path = None \<or> git_path = Some path))
        ''Path mismatch''
      (bind_result (safe_transfer_path (PStr path)) (\<lambda>_.
       require_contract (path \<notin> set seen \<and> path \<in> set (map fst sources) \<and> length seen < 64)
         ''Undeclared or duplicate path''
       (bind_result (supported_text (field_of sources path)) (\<lambda>before.
        bind_result (hunk_loop (lf_lines before) initial_state body) (\<lambda>(st, rest).
          let after = concat (out_lines st @ drop (nat (cursor st)) (lf_lines before)) in
          require_contract (hunks st > 0) ''Missing hunk''
          (require_contract (after \<noteq> [] \<and> after \<noteq> before \<and> utf8_len after \<le> 128 * 1024)
            ''Empty, no-op or oversized candidate''
            (Inr (\<lparr>edit_path = path, edit_old = before, edit_new = after\<rparr>, rest)))))))))"

definition file_block ::
  "(string \<times> pyval) list \<Rightarrow> string list \<Rightarrow> string list \<Rightarrow> (edit \<times> string list) result" where
  "file_block sources seen lines =
     bind_result (git_header lines) (\<lambda>(git_path, ls).
       case ls of
         l1 # l2 # body \<Rightarrow> file_edit sources seen git_path l1 l2 body
       | _ \<Rightarrow> Inl (ContractError ''Expected existing-file headers''))"

lemma git_header_suffix: "git_header lines = Inr (g, ls) \<Longrightarrow> suffix ls lines"
  by (auto simp: git_header_def result_iff Let_def suffix_Cons split: list.splits if_splits option.splits)

lemma hunk_loop_suffix: "hunk_loop original st ls = Inr (st', rest) \<Longrightarrow> suffix rest ls"
proof (induction original st ls rule: hunk_loop.induct)
  case (2 original st l ls)
  then show ?case
    by (fastforce split: if_splits sum.splits prod.splits dest: hunk_step_suffix
        intro: suffix_ConsI suffix_order.order_trans)
qed simp

lemma file_edit_Inr:
  assumes "file_edit sources seen g l1 l2 body = Inr (e, rest)"
  shows "\<exists>st. safe_transfer_path (PStr (edit_path e)) = Inr (edit_path e) \<and>
     edit_path e \<notin> set seen \<and> edit_path e \<in> set (map fst sources) \<and> length seen < 64 \<and>
     supported_text (field_of sources (edit_path e)) = Inr (edit_old e) \<and>
     hunk_loop (lf_lines (edit_old e)) initial_state body = Inr (st, rest) \<and> hunks st > 0 \<and>
     edit_new e = concat (out_lines st @ drop (nat (cursor st)) (lf_lines (edit_old e))) \<and>
     edit_new e \<noteq> [] \<and> edit_new e \<noteq> edit_old e \<and> utf8_len (edit_new e) \<le> 128 * 1024"
proof -
  let ?p = "butlast (drop 6 l1)"
  from assms obtain q before st where safe: "safe_transfer_path (PStr ?p) = Inr q"
    and seen: "?p \<notin> set seen \<and> ?p \<in> set (map fst sources) \<and> length seen < 64"
    and before: "supported_text (field_of sources ?p) = Inr before"
    and loop: "hunk_loop (lf_lines before) initial_state body = Inr (st, rest)" and "hunks st > 0"
    and after: "concat (out_lines st @ drop (nat (cursor st)) (lf_lines before)) \<noteq> []"
      "concat (out_lines st @ drop (nat (cursor st)) (lf_lines before)) \<noteq> before"
      "utf8_len (concat (out_lines st @ drop (nat (cursor st)) (lf_lines before))) \<le> 128 * 1024"
    and e: "e = \<lparr>edit_path = ?p, edit_old = before,
        edit_new = concat (out_lines st @ drop (nat (cursor st)) (lf_lines before))\<rparr>"
    unfolding file_edit_def Let_def bind_result_Inr_iff require_contract_Inr split_paired_Ex prod.case
    by blast
  from safe have "q = ?p" by (auto dest: safe_transfer_path_PStr)
  with safe seen before loop \<open>hunks st > 0\<close> after show ?thesis unfolding e by auto
qed

lemma file_block_Inr:
  assumes "file_block sources seen lines = Inr (e, rest)"
  shows "\<exists>g l1 l2 body. git_header lines = Inr (g, l1 # l2 # body) \<and>
       file_edit sources seen g l1 l2 body = Inr (e, rest)"
proof -
  from assms obtain g ls where g: "git_header lines = Inr (g, ls)"
    and ls: "(case ls of l1 # l2 # body \<Rightarrow> file_edit sources seen g l1 l2 body
       | _ \<Rightarrow> Inl (ContractError ''Expected existing-file headers'')) = Inr (e, rest)"
    unfolding file_block_def bind_result_Inr_iff by auto
  from ls obtain l1 l2 body where "ls = l1 # l2 # body" by (auto split: list.splits)
  with g ls show ?thesis by auto
qed

lemma file_block_shorter: "file_block sources seen lines = Inr (e, rest) \<Longrightarrow> length rest < length lines"
  by (fastforce dest!: file_block_Inr file_edit_Inr git_header_suffix hunk_loop_suffix suffix_length_le)

function file_loop ::
  "(string \<times> pyval) list \<Rightarrow> string list \<Rightarrow> edit list \<Rightarrow> string list \<Rightarrow> edit list result" where
  "file_loop sources seen edits lines =
     (if lines = [] then Inr edits
      else case file_block sources seen lines of
        Inl e \<Rightarrow> Inl e
      | Inr (ed, rest) \<Rightarrow> file_loop sources (seen @ [edit_path ed]) (edits @ [ed]) rest)"
  by pat_completeness auto
termination
  by (relation "measure (\<lambda>(_, _, _, ls). length ls)") (auto dest: file_block_shorter)

declare file_loop.simps [simp del]

lemma file_loop_Nil [simp]: "file_loop sources seen edits [] = Inr edits"
  by (simp add: file_loop.simps)

lemma file_loop_block:
  "lines \<noteq> [] \<Longrightarrow> file_block sources seen lines = Inr (e, rest) \<Longrightarrow>
     file_loop sources seen edits lines = file_loop sources (seen @ [edit_path e]) (edits @ [e]) rest"
  by (subst file_loop.simps) simp

definition edit_document :: "edit \<Rightarrow> pyval" where
  "edit_document e = PDict [(''path'', PStr (edit_path e)), (''old'', PStr (edit_old e)),
     (''new'', PStr (edit_new e))]"

definition exact_edits :: "pyval \<Rightarrow> pyval \<Rightarrow> edit list result" where
  "exact_edits diff sources =
     (case as_str diff of
        None \<Rightarrow> Inl (ContractError ''Invalid unified diff'')
      | Some text \<Rightarrow>
          require_contract (0 < utf8_len text \<and> utf8_len text \<le> 256 * 1024 \<and> cr \<notin> set text \<and>
              nul \<notin> set text \<and> text \<noteq> [] \<and> last text = nl) ''Invalid unified diff''
          (case as_dict sources of
             None \<Rightarrow> Inl (ContractError ''Invalid source packet'')
           | Some src \<Rightarrow>
               require_contract (src \<noteq> []) ''Invalid source packet''
               (require_contract (splitlines_keep text = lf_lines text) ''Invalid line delimiter''
               (bind_result (file_loop src [] [] (lf_lines text)) (\<lambda>edits.
                bind_result (canonical (PList (map edit_document edits))) (\<lambda>raw.
                  require_contract (edits \<noteq> [] \<and> length raw \<le> 256 * 1024) ''Proposal too large''
                    (Inr edits)))))))"

section \<open>The reference: replacing spans of lines\<close>

text \<open>
  \<open>splice original cursor out hs\<close>: the lines before \<open>cursor\<close> have become \<open>out\<close>; each \<open>(at, old, new)\<close>
  of \<open>hs\<close> copies what lies before \<open>at\<close>, checks that \<open>old\<close> stands there and puts \<open>new\<close> in its place;
  the rest of the original is copied.
\<close>

fun splice ::
  "string list \<Rightarrow> nat \<Rightarrow> string list \<Rightarrow> (nat \<times> string list \<times> string list) list \<Rightarrow> string list option" where
  "splice original cur out [] = Some (out @ drop cur original)"
| "splice original cur out ((at, old, new) # hs) =
     (if cur \<le> at \<and> at + length old \<le> length original \<and> take (length old) (drop at original) = old
      then splice original (at + length old) (out @ take (at - cur) (drop cur original) @ new) hs
      else None)"

text \<open>The hunks that undo \<open>hs\<close>, positioned in the new text.\<close>

fun inverse_hunks ::
  "nat \<Rightarrow> nat \<Rightarrow> (nat \<times> string list \<times> string list) list \<Rightarrow> (nat \<times> string list \<times> string list) list" where
  "inverse_hunks cur pos [] = []"
| "inverse_hunks cur pos ((at, old, new) # hs) =
     (pos + (at - cur), new, old) # inverse_hunks (at + length old) (pos + (at - cur) + length new) hs"

text \<open>
  A hunk is its header line and its body. The body has two sides; the header \<open>@@ -a,n +b,m @@\<close> says
  that the old side has \<open>n\<close> lines and the new side \<open>m\<close>, and where each stands: a range of lines starts
  at the line its header names, counted from 1, and an empty range comes after that line.
\<close>

type_synonym hunk = "string \<times> string list"

definition hunk_mark :: "string \<Rightarrow> bool" where
  "hunk_mark l \<longleftrightarrow> l \<noteq> [] \<and> hd l \<in> {CHR '' '', CHR ''+'', CHR ''-''}"

definition old_side :: "string list \<Rightarrow> string list" where
  "old_side ls = map tl (filter (\<lambda>l. hd l \<noteq> CHR ''+'') ls)"

definition new_side :: "string list \<Rightarrow> string list" where
  "new_side ls = map tl (filter (\<lambda>l. hd l \<noteq> CHR ''-'') ls)"

definition range_at :: "int \<Rightarrow> int \<Rightarrow> nat" where
  "range_at start count = (if count = 0 then nat start else nat (start - 1))"

definition old_at :: "string \<Rightarrow> nat" where
  "old_at header = (case parse_hunk header of None \<Rightarrow> 0 | Some (a, n, b, m) \<Rightarrow> range_at a n)"

definition new_at :: "string \<Rightarrow> nat" where
  "new_at header = (case parse_hunk header of None \<Rightarrow> 0 | Some (a, n, b, m) \<Rightarrow> range_at b m)"

definition hunk_ok :: "hunk \<Rightarrow> bool" where
  "hunk_ok h = (case parse_hunk (fst h) of
     None \<Rightarrow> False
   | Some (a, n, b, m) \<Rightarrow>
       n = int (length (old_side (snd h))) \<and> m = int (length (new_side (snd h))) \<and> list_all hunk_mark (snd h))"

definition hunk_edit :: "hunk \<Rightarrow> nat \<times> string list \<times> string list" where
  "hunk_edit h = (old_at (fst h), old_side (snd h), new_side (snd h))"

text \<open>The same hunk read from the new side to the old side.\<close>

definition hunk_undo :: "hunk \<Rightarrow> nat \<times> string list \<times> string list" where
  "hunk_undo h = (new_at (fst h), new_side (snd h), old_side (snd h))"

definition hunk_lines :: "hunk \<Rightarrow> string list" where
  "hunk_lines h = fst h # snd h"

lemma splice_prefix: "splice original cur out hs = Some res \<Longrightarrow> \<exists>ys. res = out @ ys"
  by (induction original cur out hs rule: splice.induct) (auto split: if_splits)

lemma splice_inverse:
  "splice original cur out hs = Some res \<Longrightarrow>
     splice res (length out) out' (inverse_hunks cur (length out) hs) = Some (out' @ drop cur original)"
proof (induction original cur out hs arbitrary: out' rule: splice.induct)
  case (1 original cur out)
  then have "res = out @ drop cur original" by simp
  then show ?case by simp
next
  case (2 original cur out at old new hs)
  let ?k = "take (at - cur) (drop cur original)"
  from "2.prems" have fit: "cur \<le> at" "at + length old \<le> length original"
    "take (length old) (drop at original) = old"
    and rest: "splice original (at + length old) (out @ ?k @ new) hs = Some res"
    by (auto split: if_splits)
  obtain ys where res: "res = (out @ ?k @ new) @ ys" using splice_prefix [OF rest] by blast
  have k: "length ?k = at - cur" using fit by simp
  have IH: "splice res (length out + (at - cur) + length new) (out' @ ?k @ old)
      (inverse_hunks (at + length old) (length out + (at - cur) + length new) hs) =
      Some ((out' @ ?k @ old) @ drop (at + length old) original)"
    using "2.IH" [of "out' @ ?k @ old"] fit rest k by (simp add: add.assoc)
  have "drop cur original = ?k @ drop at original"
    using fit append_take_drop_id [of "at - cur" "drop cur original"] by (simp add: add.commute)
  moreover have "drop at original = old @ drop (at + length old) original"
    using fit append_take_drop_id [of "length old" "drop at original"] by (simp add: add.commute)
  ultimately have "drop cur original = ?k @ old @ drop (at + length old) original" by simp
  moreover have "take (at - cur) (drop (length out) res) = ?k" using k by (simp add: res)
  moreover have "take (length new) (drop (length out + (at - cur)) res) = new"
    using k by (simp add: res)
  ultimately show ?case using IH k by (simp add: res)
qed

subsection \<open>The code's hunks are such replacements\<close>

lemma hunk_body_sides:
  "hunk_body original start oc nc os ns out lines = Inr (out', rest) \<Longrightarrow> os \<le> oc \<Longrightarrow> ns \<le> nc \<Longrightarrow>
   start + os \<le> length original \<Longrightarrow>
     \<exists>body. lines = body @ rest \<and> list_all hunk_mark body \<and> os + length (old_side body) = oc \<and> start + oc \<le> length original \<and>
       ns + length (new_side body) = nc \<and> out' = out @ new_side body \<and>
       take (length (old_side body)) (drop (start + os) original) = old_side body"
proof (induction lines arbitrary: os ns out)
  case Nil
  then show ?case
    by (auto simp: hunk_body.simps old_side_def new_side_def split: if_splits)
next
  case (Cons l ls)
  show ?case
  proof (cases "os < oc \<or> ns < nc")
    case False
    with Cons.prems show ?thesis
      by (auto simp: hunk_body.simps [of _ _ _ _ _ _ _ "l # ls"] old_side_def new_side_def intro!: exI [of _ "[]"])
  next
    case True
    let ?i = "start + os"
    have at: "drop ?i original = original ! ?i # drop (Suc ?i) original" if "?i < length original"
      using that by (simp add: Cons_nth_drop_Suc)
    from True Cons.prems(1) have mark: "l \<noteq> []" "hd l \<in> {CHR '' '', CHR ''+'', CHR ''-''}"
      by (auto simp: hunk_body.simps [of _ _ _ _ _ _ _ "l # ls"] split: if_splits)
    then consider (del) "hd l = CHR ''-''" | (add) "hd l = CHR ''+''" | (ctx) "hd l = CHR '' ''" by blast
    then show ?thesis
    proof cases
      case del
      with True mark Cons.prems(1) have "os < oc" "?i < length original" "original ! ?i = tl l"
        and rec: "hunk_body original start oc nc (Suc os) ns out ls = Inr (out', rest)"
        by (auto simp: hunk_body.simps [of _ _ _ _ _ _ _ "l # ls"])
      moreover from Cons.IH [OF rec] \<open>os < oc\<close> \<open>?i < length original\<close> Cons.prems obtain body where
        "ls = body @ rest" "list_all hunk_mark body" "Suc os + length (old_side body) = oc" "start + oc \<le> length original"
        "ns + length (new_side body) = nc" "out' = out @ new_side body"
        "take (length (old_side body)) (drop (start + Suc os) original) = old_side body" by auto
      ultimately show ?thesis using at del mark
        by (intro exI [of _ "l # body"]) (simp add: old_side_def new_side_def hunk_mark_def [of l])
    next
      case add
      with True mark Cons.prems(1) have "ns < nc"
        and rec: "hunk_body original start oc nc os (Suc ns) (out @ [tl l]) ls = Inr (out', rest)"
        by (auto simp: hunk_body.simps [of _ _ _ _ _ _ _ "l # ls"])
      moreover from Cons.IH [OF rec] \<open>ns < nc\<close> Cons.prems obtain body where
        "ls = body @ rest" "list_all hunk_mark body" "os + length (old_side body) = oc" "start + oc \<le> length original"
        "Suc ns + length (new_side body) = nc" "out' = out @ [tl l] @ new_side body"
        "take (length (old_side body)) (drop (start + os) original) = old_side body" by auto
      ultimately show ?thesis using add mark
        by (intro exI [of _ "l # body"]) (simp add: old_side_def new_side_def hunk_mark_def [of l])
    next
      case ctx
      with True mark Cons.prems(1) have "os < oc" "ns < nc" "?i < length original" "original ! ?i = tl l"
        and rec: "hunk_body original start oc nc (Suc os) (Suc ns) (out @ [tl l]) ls = Inr (out', rest)"
        by (auto simp: hunk_body.simps [of _ _ _ _ _ _ _ "l # ls"])
      moreover from Cons.IH [OF rec] \<open>os < oc\<close> \<open>ns < nc\<close> \<open>?i < length original\<close> Cons.prems obtain body where
        "ls = body @ rest" "list_all hunk_mark body" "Suc os + length (old_side body) = oc" "start + oc \<le> length original"
        "Suc ns + length (new_side body) = nc" "out' = out @ [tl l] @ new_side body"
        "take (length (old_side body)) (drop (start + Suc os) original) = old_side body" by auto
      ultimately show ?thesis using at ctx mark
        by (intro exI [of _ "l # body"]) (simp add: old_side_def new_side_def hunk_mark_def [of l])
    qed
  qed
qed

lemma digit_value_nonneg: "is_digit c \<Longrightarrow> (0 :: int) \<le> of_char c - 48"
  by (auto simp: is_digit_def digit_chars_def)

lemma digits_value_nonneg: "list_all is_digit ds \<Longrightarrow> 0 \<le> n \<Longrightarrow> 0 \<le> foldl (\<lambda>n c. 10 * n + (of_char c - 48)) (n :: int) ds"
proof (induction ds arbitrary: n)
  case (Cons c cs)
  then have "0 \<le> 10 * n + (of_char c - 48)" using digit_value_nonneg [of c] by simp
  with Cons show ?case by simp
qed simp

lemma parse_number_nonneg: "parse_number s = Some (n, r) \<Longrightarrow> 0 \<le> n"
  using digits_value_nonneg [of "takeWhile is_digit s" 0]
  by (auto simp: parse_number_def digits_value_def Let_def list_all_iff dest: set_takeWhileD split: if_splits)

lemma parse_range_nonneg: "parse_range s = Some (a, n, r) \<Longrightarrow> 0 \<le> a \<and> 0 \<le> n"
  by (auto simp: parse_range_def dest: parse_number_nonneg split: option.splits if_splits)

lemma parse_hunk_nonneg: "parse_hunk l = Some (a, n, b, m) \<Longrightarrow> 0 \<le> a \<and> 0 \<le> n \<and> 0 \<le> b \<and> 0 \<le> m"
  by (auto simp: parse_hunk_def dest!: parse_range_nonneg split: option.splits if_splits)

lemma hunk_step_splice:
  assumes step: "hunk_step original st l ls = Inr (st', rest)"
    and cur: "0 \<le> cursor st"
  shows "\<exists>body. ls = body @ rest \<and> hunk_ok (l, body) \<and> nat (cursor st) \<le> old_at l \<and>
    old_at l + length (old_side body) \<le> length original \<and>
    take (length (old_side body)) (drop (old_at l) original) = old_side body \<and>
    out_lines st' = out_lines st @ take (old_at l - nat (cursor st)) (drop (nat (cursor st)) original) @ new_side body \<and>
    cursor st' = int (old_at l + length (old_side body)) \<and> hunks st' = Suc (hunks st) \<and>
    new_at l = length (out_lines st) + (old_at l - nat (cursor st))"
proof -
  obtain a n b m where parse: "parse_hunk l = Some (a, n, b, m)"
    using step by (auto simp: hunk_step_def split: option.splits)
  define start where "start = (if n \<noteq> 0 then a - 1 else a)"
  let ?before = "out_lines st @ take (nat (start - cursor st)) (drop (nat (cursor st)) original)"
  from step parse obtain out where start: "0 \<le> start" "start \<le> int (length original)" "cursor st \<le> start"
    and pos: "b = (if m \<noteq> 0 then int (length ?before) + 1 else int (length ?before))"
    and body: "hunk_body original (nat start) (nat n) (nat m) 0 0 ?before ls = Inr (out, rest)"
    and st': "out_lines st' = out" "cursor st' = start + n" "hunks st' = Suc (hunks st)"
    by (auto simp: hunk_step_def result_iff Let_def start_def)
  from parse_hunk_nonneg [OF parse] have nonneg: "0 \<le> n" "0 \<le> m" by simp_all
  have at: "old_at l = nat start" using parse by (simp add: old_at_def range_at_def start_def)
  define k where "k = length ?before"
  have new: "new_at l = length ?before"
    using parse pos unfolding k_def [symmetric] by (simp add: new_at_def range_at_def split: if_splits)
  have "nat (start - cursor st) = nat start - nat (cursor st)" using start cur by (simp add: nat_diff_distrib)
  moreover have "nat start \<le> length original" "nat (cursor st) \<le> nat start" using start by auto
  moreover from hunk_body_sides [OF body] this(1) obtain b where "ls = b @ rest" "list_all hunk_mark b"
    "length (old_side b) = nat n" "length (new_side b) = nat m" "nat start + nat n \<le> length original"
    "out = ?before @ new_side b"
    "take (length (old_side b)) (drop (nat start) original) = old_side b" by auto
  moreover have "new_at l = length (out_lines st) + (nat start - nat (cursor st))"
  proof -
    have "nat (start - cursor st) \<le> length (drop (nat (cursor st)) original)"
      using calculation(1,2) by (simp add: diff_le_mono)
    then show ?thesis unfolding new using calculation(1) by simp
  qed
  ultimately show ?thesis using start st' nonneg parse
    by (intro exI [of _ b]) (simp add: at hunk_ok_def)
qed

lemma hunk_loop_splice:
  "hunk_loop original st ls = Inr (st', rest) \<Longrightarrow> 0 \<le> cursor st \<Longrightarrow>
     \<exists>hs. ls = concat (map hunk_lines hs) @ rest \<and> list_all hunk_ok hs \<and> hunks st' = hunks st + length hs \<and>
       splice original (nat (cursor st)) (out_lines st) (map hunk_edit hs) =
         Some (out_lines st' @ drop (nat (cursor st')) original) \<and>
       inverse_hunks (nat (cursor st)) (length (out_lines st)) (map hunk_edit hs) = map hunk_undo hs"
proof (induction original st ls rule: hunk_loop.induct)
  case (1 original st)
  then show ?case by (auto intro: exI [of _ "[]"])
next
  case (2 original st l ls)
  show ?case
  proof (cases "starts_with l ''@@ ''")
    case False
    with "2.prems" show ?thesis by (auto intro: exI [of _ "[]"])
  next
    case True
    with "2.prems"(1) obtain st1 r1 where step: "hunk_step original st l ls = Inr (st1, r1)"
      and loop: "hunk_loop original st1 r1 = Inr (st', rest)"
      by (auto split: sum.splits)
    from hunk_step_splice [OF step "2.prems"(2)] obtain body where
      body: "ls = body @ r1" "hunk_ok (l, body)" "nat (cursor st) \<le> old_at l"
        "old_at l + length (old_side body) \<le> length original"
        "take (length (old_side body)) (drop (old_at l) original) = old_side body"
        "out_lines st1 = out_lines st @ take (old_at l - nat (cursor st)) (drop (nat (cursor st)) original) @ new_side body"
        "cursor st1 = int (old_at l + length (old_side body))" "hunks st1 = Suc (hunks st)"
        "new_at l = length (out_lines st) + (old_at l - nat (cursor st))" by blast
    have len: "length (out_lines st1) = new_at l + length (new_side body)"
      using body(3,4) unfolding body(6,9) by simp
    from "2.IH" [OF True step refl loop] body(7) obtain hs where
      hs: "r1 = concat (map hunk_lines hs) @ rest" "list_all hunk_ok hs" "hunks st' = hunks st1 + length hs"
        "splice original (nat (cursor st1)) (out_lines st1) (map hunk_edit hs) =
            Some (out_lines st' @ drop (nat (cursor st')) original)"
        "inverse_hunks (nat (cursor st1)) (length (out_lines st1)) (map hunk_edit hs) = map hunk_undo hs" by auto
    have "splice original (nat (cursor st)) (out_lines st) (map hunk_edit ((l, body) # hs)) =
        Some (out_lines st' @ drop (nat (cursor st')) original)"
      using hs(4) body by (simp add: hunk_edit_def nat_int_add)
    moreover have "inverse_hunks (nat (cursor st)) (length (out_lines st)) (map hunk_edit ((l, body) # hs)) =
        map hunk_undo ((l, body) # hs)"
      using hs(5) body(7,9) len by (simp add: hunk_edit_def hunk_undo_def nat_int_add)
    ultimately show ?thesis using hs(1-3) body(1,2,8)
      by (intro exI [of _ "(l, body) # hs"]) (simp add: hunk_lines_def [of "(l, body)"])
  qed
qed

subsection \<open>From the lines of the diff to the edits\<close>

lemma concat_terminated: "ps \<noteq> [] \<Longrightarrow> concat (map (\<lambda>l. l @ [c]) ps) = join_with [c] ps @ [c]"
proof (induction ps)
  case (Cons p ps)
  then show ?case by (cases ps) auto
qed simp

lemma split_on_nonempty [simp]: "split_on c s \<noteq> []"
  by (induction s) (auto split: list.splits)

lemma concat_lf_lines: "s \<noteq> [] \<Longrightarrow> last s = nl \<Longrightarrow> concat (lf_lines s) = s"
  using append_butlast_last_id [of s] by (simp add: lf_lines_def concat_terminated join_split)

lemma supported_text_Inr:
  "supported_text v = Inr s \<longleftrightarrow> v = PStr s \<and> s \<noteq> [] \<and> last s = nl \<and> cr \<notin> set s \<and> nul \<notin> set s \<and>
     utf8_len s \<le> 128 * 1024"
  by (cases v) (auto simp: supported_text_def)

text \<open>
  One file of a diff: the edit, the Git lines before its two headers and its hunks. Its lines are these
  and nothing else, and the edit is what its hunks do to the old text.
\<close>

type_synonym file_part = "edit \<times> string list \<times> hunk list"

definition git_line :: "string \<Rightarrow> bool" where
  "git_line l \<longleftrightarrow> starts_with l ''diff --git a/'' \<or> starts_with l ''index ''"

fun file_lines :: "file_part \<Rightarrow> string list" where
  "file_lines (e, git, hs) =
     git @ [''--- a/'' @ edit_path e @ [nl], ''+++ b/'' @ edit_path e @ [nl]] @ concat (map hunk_lines hs)"

fun file_applied :: "file_part \<Rightarrow> bool" where
  "file_applied (e, git, hs) \<longleftrightarrow>
     list_all git_line git \<and> hs \<noteq> [] \<and> list_all hunk_ok hs \<and> concat (lf_lines (edit_old e)) = edit_old e \<and>
     (case splice (lf_lines (edit_old e)) 0 [] (map hunk_edit hs) of
        None \<Rightarrow> False
      | Some res \<Rightarrow> concat res = edit_new e \<and> splice res 0 [] (map hunk_undo hs) = Some (lf_lines (edit_old e)))"

definition declared_edit :: "(string \<times> pyval) list \<Rightarrow> edit \<Rightarrow> bool" where
  "declared_edit sources e \<longleftrightarrow>
     safe_transfer_path (PStr (edit_path e)) = Inr (edit_path e) \<and> edit_path e \<in> set (map fst sources) \<and>
     field_of sources (edit_path e) = PStr (edit_old e) \<and> edit_old e \<noteq> [] \<and> last (edit_old e) = nl \<and>
     edit_new e \<noteq> [] \<and> edit_new e \<noteq> edit_old e \<and> utf8_len (edit_new e) \<le> 128 * 1024"

definition ended :: "string \<Rightarrow> bool" where
  "ended l \<longleftrightarrow> l \<noteq> [] \<and> last l = nl"

lemma ended_lf_lines: "list_all ended (lf_lines s)"
  by (auto simp: lf_lines_def ended_def list_all_iff)

lemma ended_suffix: "suffix ls lines \<Longrightarrow> list_all ended lines \<Longrightarrow> list_all ended ls"
  by (auto simp: suffix_def)

lemma header_line:
  assumes "ended l" and "starts_with l p" and "p \<noteq> []" and "last p \<noteq> nl" and n: "n = length p"
  shows "l = p @ butlast (drop n l) @ [nl]"
proof -
  have l: "l = p @ drop (length p) l"
    using assms(2) append_take_drop_id [of "length p" l] by (simp add: starts_with_def)
  then have "drop (length p) l \<noteq> []" using assms(1,4) by (metis append_Nil2 ended_def)
  moreover from this have "last (drop (length p) l) = nl" using assms(1) by (simp add: ended_def)
  ultimately have "drop (length p) l = butlast (drop (length p) l) @ [nl]" by (metis append_butlast_last_id)
  with l n show ?thesis by simp
qed

lemma split_first_starts: "starts_with l ''diff --git '' \<Longrightarrow> starts_with (butlast (drop 11 l)) ''a/'' \<Longrightarrow> git_line l"
proof -
  assume l: "starts_with l ''diff --git ''" and r: "starts_with (butlast (drop 11 l)) ''a/''"
  have a: "take 2 (butlast (drop 11 l)) = ''a/''" using r by (simp add: starts_with_def numeral_2_eq_2)
  have "2 \<le> length (butlast (drop 11 l))" using arg_cong [OF a, of length] by simp
  then have "take 2 (butlast (drop 11 l)) = take 2 (drop 11 l)" by (simp add: butlast_conv_take)
  with a have "take 2 (drop 11 l) = ''a/''" by simp
  moreover have "take 11 l = ''diff --git ''" using l by (simp add: starts_with_def eval_nat_numeral)
  moreover have "take 13 l = take 11 l @ take 2 (drop 11 l)" using take_add [of 11 2 l] by simp
  ultimately show ?thesis by (simp add: git_line_def starts_with_def eval_nat_numeral)
qed

lemma git_header_lines:
  assumes "git_header lines = Inr (g, ls)"
  shows "\<exists>git. lines = git @ ls \<and> list_all git_line git"
proof (cases lines)
  case Nil
  with assms show ?thesis by (simp add: git_header_def)
next
  case (Cons l rest)
  show ?thesis
  proof (cases "starts_with l ''diff --git ''")
    case False
    with assms Cons show ?thesis by (auto simp: git_header_def intro: exI [of _ "[]"])
  next
    case True
    with assms Cons have l: "git_line l"
      by (auto simp: git_header_def Let_def result_iff split: option.splits if_splits intro: split_first_starts)
    from True assms Cons have "ls = rest \<or> (\<exists>l'. rest = l' # ls \<and> starts_with l' ''index '')"
      by (auto simp: git_header_def Let_def result_iff split: option.splits if_splits list.splits)
    with l Cons show ?thesis
      by (elim disjE exE) (auto simp: git_line_def intro: exI [of _ "[l]"] exI [of _ "[l, l']" for l'])
  qed
qed

lemma file_edit_heads:
  assumes "file_edit sources seen g l1 l2 body = Inr (e, rest)" and "ended l1" "ended l2"
  shows "l1 = ''--- a/'' @ edit_path e @ [nl]" "l2 = ''+++ b/'' @ edit_path e @ [nl]"
proof -
  from assms(1) have "starts_with l1 ''--- a/''" "starts_with l2 ''+++ b/''"
    and path: "edit_path e = butlast (drop 6 l1)" "butlast (drop 6 l1) = butlast (drop 6 l2)"
    by (auto simp: file_edit_def Let_def result_iff)
  with header_line [OF assms(2), of "''--- a/''" 6] header_line [OF assms(3), of "''+++ b/''" 6]
  show "l1 = ''--- a/'' @ edit_path e @ [nl]" "l2 = ''+++ b/'' @ edit_path e @ [nl]"
    by (simp_all add: nl_def)
qed

lemma file_block_applied:
  assumes "file_block sources seen lines = Inr (e, rest)" and "list_all ended lines"
  shows "edit_path e \<notin> set seen \<and> length seen < 64 \<and> declared_edit sources e \<and> list_all ended rest \<and>
    (\<exists>git hs. lines = file_lines (e, git, hs) @ rest \<and> file_applied (e, git, hs))"
proof -
  from file_block_Inr [OF assms(1)] obtain g l1 l2 body where
    g: "git_header lines = Inr (g, l1 # l2 # body)"
    and fe: "file_edit sources seen g l1 l2 body = Inr (e, rest)" by blast
  from git_header_lines [OF g] obtain git where git: "lines = git @ l1 # l2 # body" "list_all git_line git" by blast
  have heads: "l1 = ''--- a/'' @ edit_path e @ [nl]" "l2 = ''+++ b/'' @ edit_path e @ [nl]"
    using file_edit_heads [OF fe] assms(2) git(1) by simp_all
  from file_edit_Inr [OF fe] obtain st where fe':
    "safe_transfer_path (PStr (edit_path e)) = Inr (edit_path e)"
    "edit_path e \<notin> set seen" "edit_path e \<in> set (map fst sources)" "length seen < 64"
    "supported_text (field_of sources (edit_path e)) = Inr (edit_old e)"
    and loop: "hunk_loop (lf_lines (edit_old e)) initial_state body = Inr (st, rest)" and some: "hunks st > 0"
    and new: "edit_new e = concat (out_lines st @ drop (nat (cursor st)) (lf_lines (edit_old e)))"
    and new': "edit_new e \<noteq> []" "edit_new e \<noteq> edit_old e" "utf8_len (edit_new e) \<le> 128 * 1024" by blast
  from hunk_loop_splice [OF loop] obtain hs where
    hs: "body = concat (map hunk_lines hs) @ rest" "list_all hunk_ok hs" "hunks st = length hs"
    and sp: "splice (lf_lines (edit_old e)) 0 [] (map hunk_edit hs) =
      Some (out_lines st @ drop (nat (cursor st)) (lf_lines (edit_old e)))"
    and undo: "inverse_hunks 0 0 (map hunk_edit hs) = map hunk_undo hs"
    by (auto simp: initial_state_def)
  have "splice (out_lines st @ drop (nat (cursor st)) (lf_lines (edit_old e))) 0 [] (map hunk_undo hs) =
      Some (lf_lines (edit_old e))"
    using splice_inverse [OF sp, of "[]"] undo by simp
  moreover have "lines = file_lines (e, git, hs) @ rest" using git(1) heads hs(1) by simp
  moreover from this have "list_all ended rest" using assms(2) by simp
  moreover have "hs \<noteq> []" using some hs(3) by auto
  ultimately show ?thesis using sp new new' fe' git(2) hs(2)
    by (auto simp: declared_edit_def supported_text_Inr concat_lf_lines intro!: exI [of _ git] exI [of _ hs])
qed

lemma file_loop_applied:
  "file_loop sources seen edits lines = Inr out \<Longrightarrow> seen = map edit_path edits \<Longrightarrow> list_all ended lines \<Longrightarrow>
     distinct (map edit_path edits) \<Longrightarrow> length edits \<le> 64 \<Longrightarrow>
     \<exists>ps. out = edits @ map fst ps \<and> lines = concat (map file_lines ps) \<and> list_all file_applied ps \<and>
       list_all (declared_edit sources) (map fst ps) \<and> distinct (map edit_path out) \<and> length out \<le> 64"
proof (induction sources seen edits lines rule: file_loop.induct)
  case (1 sources seen edits lines)
  show ?case
  proof (cases "lines = []")
    case True
    with "1.prems" show ?thesis by (auto intro: exI [of _ "[]"])
  next
    case False
    with "1.prems"(1) obtain e rest where block: "file_block sources seen lines = Inr (e, rest)"
      and loop: "file_loop sources (seen @ [edit_path e]) (edits @ [e]) rest = Inr out"
      by (auto simp: file_loop.simps [of _ _ _ lines] split: sum.splits prod.splits)
    from file_block_applied [OF block "1.prems"(3)] obtain git hs where
      e: "edit_path e \<notin> set seen" "length seen < 64" "declared_edit sources e" "list_all ended rest"
      and part: "lines = file_lines (e, git, hs) @ rest" "file_applied (e, git, hs)" by blast
    from "1.IH" [OF False block refl loop] e "1.prems"(2,4) obtain ps where
      "out = (edits @ [e]) @ map fst ps" "rest = concat (map file_lines ps)" "list_all file_applied ps"
      "list_all (declared_edit sources) (map fst ps)" "distinct (map edit_path out)" "length out \<le> 64" by auto
    with part e(3) show ?thesis by (intro exI [of _ "(e, git, hs) # ps"]) simp
  qed
qed

lemma exact_edits_Inr:
  assumes "exact_edits diff (PDict src) = Inr edits"
  shows "\<exists>text ps. diff = PStr text \<and> edits \<noteq> [] \<and> edits = map fst ps \<and> lf_lines text = concat (map file_lines ps) \<and>
    concat (lf_lines text) = text \<and> list_all file_applied ps \<and> list_all (declared_edit src) edits \<and>
    distinct (map edit_path edits) \<and> length edits \<le> 64"
proof -
  from assms obtain t where t: "diff = PStr t" "t \<noteq> []" "last t = nl" and loop: "file_loop src [] [] (lf_lines t) = Inr edits"
    and "edits \<noteq> []"
    by (cases diff) (auto simp: exact_edits_def as_dict_def result_iff)
  moreover obtain ps where "edits = map fst ps" "lf_lines t = concat (map file_lines ps)" "list_all file_applied ps"
    "list_all (declared_edit src) (map fst ps)" "distinct (map edit_path edits)" "length edits \<le> 64"
    using file_loop_applied [OF loop _ ended_lf_lines] by auto
  ultimately show ?thesis using concat_lf_lines [OF t(2,3)] by auto
qed

section \<open>Properties\<close>

text \<open>
  C23. An accepted diff is applied exactly, and all of it. Its lines are those of its files, one after
  the other: the headers that name the path and the hunks, nothing else. Every hunk takes the lines
  its header names: replacing its old side, at the old position of the header, by its new side gives
  the new text, the new text has the new side at the new position of the header, and putting the old
  sides back there gives the old text, so nothing outside the hunks was touched.
\<close>

theorem diff_applied_exactly:
  assumes "exact_edits (PStr text) (PDict src) = Inr edits"
  shows "\<exists>parts. map fst parts = edits \<and> concat (concat (map file_lines parts)) = text \<and>
    list_all (\<lambda>(e, git, hs). list_all git_line git \<and> hs \<noteq> [] \<and> list_all hunk_ok hs \<and>
      concat (lf_lines (edit_old e)) = edit_old e \<and>
      (\<exists>res. splice (lf_lines (edit_old e)) 0 [] (map hunk_edit hs) = Some res \<and> concat res = edit_new e \<and>
        splice res 0 [] (map hunk_undo hs) = Some (lf_lines (edit_old e)))) parts"
proof -
  from exact_edits_Inr [OF assms] obtain ps where ps: "edits = map fst ps" "list_all file_applied ps"
    "lf_lines text = concat (map file_lines ps)" "concat (lf_lines text) = text" by blast
  have "concat (concat (map file_lines ps)) = text" using ps(4) unfolding ps(3) .
  with ps(1,2) show ?thesis
    by (intro exI [of _ ps]) (auto simp: list_all_iff split: option.splits)
qed

text \<open>
  An accepted proposal only touches declared files: its paths are safe, distinct and at most 64,
  each is in the source packet with exactly the text the edit replaces, and every edit changes it.
\<close>

theorem diff_touches_declared_sources:
  assumes "exact_edits diff (PDict src) = Inr edits"
  shows "edits \<noteq> [] \<and> length edits \<le> 64 \<and> distinct (map edit_path edits) \<and>
     list_all (\<lambda>e. safe_transfer_path (PStr (edit_path e)) = Inr (edit_path e) \<and>
       edit_path e \<in> set (map fst src) \<and> field_of src (edit_path e) = PStr (edit_old e) \<and>
       edit_new e \<noteq> [] \<and> edit_new e \<noteq> edit_old e \<and> utf8_len (edit_new e) \<le> 128 * 1024) edits"
  using exact_edits_Inr [OF assms]
  by (auto simp: declared_edit_def list_all_iff)

definition sample_diff :: string where
  "sample_diff = ''--- a/a.txt'' @ [nl] @ ''+++ b/a.txt'' @ [nl] @ ''@@ -1,2 +1,2 @@'' @ [nl] @
     '' one'' @ [nl] @ ''-two'' @ [nl] @ ''+TWO'' @ [nl]"

definition sample_sources :: "(string \<times> pyval) list" where
  "sample_sources = [(''a.txt'', PStr (''one'' @ [nl] @ ''two'' @ [nl]))]"

definition sample_edits :: "edit list" where
  "sample_edits = [\<lparr>edit_path = ''a.txt'', edit_old = ''one'' @ [nl] @ ''two'' @ [nl],
     edit_new = ''one'' @ [nl] @ ''TWO'' @ [nl]\<rparr>]"

definition sample_body :: "string list" where
  "sample_body = [''@@ -1,2 +1,2 @@'' @ [nl], '' one'' @ [nl], ''-two'' @ [nl], ''+TWO'' @ [nl]]"

abbreviation (input) head1 :: string where "head1 \<equiv> ''--- a/a.txt'' @ [nl]"
abbreviation (input) head2 :: string where "head2 \<equiv> ''+++ b/a.txt'' @ [nl]"
abbreviation (input) old_text :: string where "old_text \<equiv> ''one'' @ [nl] @ ''two'' @ [nl]"
abbreviation (input) new_text :: string where "new_text \<equiv> ''one'' @ [nl] @ ''TWO'' @ [nl]"

lemma sample_lines: "lf_lines sample_diff = head1 # head2 # sample_body"
  by code_simp

lemma sample_splitlines: "splitlines_keep sample_diff = lf_lines sample_diff"
  by code_simp

lemma sample_text_ok: "utf8_len sample_diff = 55" "cr \<notin> set sample_diff"
  "nul \<notin> set sample_diff" "sample_diff \<noteq> []" "last sample_diff = nl"
  by code_simp+

lemma sample_heads: "starts_with head1 ''--- a/''" "starts_with head2 ''+++ b/''"
  "butlast (drop 6 head1) = ''a.txt''" "butlast (drop 6 head2) = ''a.txt''" "\<not> starts_with head1 ''diff --git ''"
  by code_simp+

lemma sample_path: "safe_transfer_path (PStr ''a.txt'') = Inr ''a.txt''"
  by code_simp

lemma sample_source: "supported_text (field_of sample_sources ''a.txt'') = Inr old_text"
proof -
  have "field_of sample_sources ''a.txt'' = PStr old_text" "utf8_len old_text = 8" "old_text \<noteq> []"
    "last old_text = nl" "cr \<notin> set old_text" "nul \<notin> set old_text"
    by code_simp+
  then show ?thesis unfolding supported_text_Inr by simp
qed

lemma sample_step:
  "hunk_step (lf_lines old_text) initial_state (hd sample_body) (tl sample_body) =
     Inr (\<lparr>out_lines = [''one'' @ [nl], ''TWO'' @ [nl]], cursor = 2, previous_end = 1, hunks = 1\<rparr>, [])"
  by code_simp

lemma sample_hunks:
  "hunk_loop (lf_lines old_text) initial_state sample_body =
     Inr (\<lparr>out_lines = [''one'' @ [nl], ''TWO'' @ [nl]], cursor = 2, previous_end = 1, hunks = 1\<rparr>, [])"
proof -
  have "starts_with (hd sample_body) ''@@ ''" "sample_body = hd sample_body # tl sample_body" by code_simp+
  then show ?thesis using sample_step hunk_loop.simps(2) [of _ _ "hd sample_body" "tl sample_body"]
    by simp
qed

lemma sample_result: "concat ([''one'' @ [nl], ''TWO'' @ [nl]] @ drop (nat 2) (lf_lines old_text)) = new_text"
  by code_simp

lemma sample_edit_checks: "new_text \<noteq> old_text" "utf8_len new_text = 8"
  "''a.txt'' \<in> set (map fst sample_sources)"
  by code_simp+

lemma sample_file_edit: "file_edit sample_sources [] None head1 head2 sample_body = Inr (hd sample_edits, [])"
proof -
  note [simp del] = append.simps append_assoc
  show ?thesis
    unfolding file_edit_def sample_heads Let_def sample_path sample_source sample_hunks
      bind_result_def sum.case prod.case hunk_state.simps sample_result
    using sample_heads sample_edit_checks by (simp add: sample_edits_def require_contract_def ensure_def)
qed

lemma sample_document:
  "canonical (PList (map edit_document sample_edits)) =
     Inr (projr (canonical (PList (map edit_document sample_edits))))"
  "length (projr (canonical (PList (map edit_document sample_edits)))) < 100"
proof -
  have "\<not> isl (canonical (PList (map edit_document sample_edits)))" by code_simp
  then show "canonical (PList (map edit_document sample_edits)) =
     Inr (projr (canonical (PList (map edit_document sample_edits))))"
    by (cases "canonical (PList (map edit_document sample_edits))") auto
qed code_simp

lemma sample_diff_accepted: "exact_edits (PStr sample_diff) (PDict sample_sources) = Inr sample_edits"
proof -
  have some: "sample_sources \<noteq> []" "sample_edits \<noteq> []" "[hd sample_edits] = sample_edits"
    by (simp_all add: sample_sources_def sample_edits_def)
  have "git_header (lf_lines sample_diff) = Inr (None, lf_lines sample_diff)"
    unfolding sample_lines using sample_heads(5) by (simp add: git_header_def)
  then have "file_block sample_sources [] (lf_lines sample_diff) = Inr (hd sample_edits, [])"
    using sample_file_edit unfolding sample_lines file_block_def by (simp add: bind_result_def)
  then have "file_loop sample_sources [] [] (lf_lines sample_diff) = Inr sample_edits"
    using some by (subst file_loop_block) (auto simp: sample_lines)
  then show ?thesis using some sample_document sample_text_ok
    by (auto simp: exact_edits_def as_dict_def result_iff sample_splitlines)
qed

theorem diff_applied_exactly_witness:
  "\<exists>parts. map fst parts = sample_edits \<and> concat (concat (map file_lines parts)) = sample_diff"
  using diff_applied_exactly [OF sample_diff_accepted] by blast

theorem diff_touches_declared_sources_witness:
  "sample_edits \<noteq> [] \<and> distinct (map edit_path sample_edits)"
  using diff_touches_declared_sources [OF sample_diff_accepted] by simp

end
