(* ===== verification/Job_Queue.thy ===== *)
theory Job_Queue
  imports Wire "HOL-Library.AList" "HOL-Library.Product_Lexorder"
begin

text \<open>
  \<open>reproof/live/jobs.py\<close>: the durable queue of replay jobs.

  The queue is a record (\<open>job_queue\<close>): the jobs, the index of request ids, the devices that are
  assigned, the workers, the cancel flags and the files on disk. What a thread does while it holds
  the lock is one function on this record. The worker thread \<open>_run\<close> is a state machine whose
  phases (\<open>phase\<close>) are the points between two lock sections or two rounds of a loop; what the lab
  answers, what the clock reads and whether a write of the worker fails are inputs of its steps, so
  an interleaving of threads is a list of events (\<open>jq_step\<close>) and \<open>jq_reach\<close> holds of the queues
  they can lead to. Times are integers in one unit; the writes of the other operations are taken to
  succeed.
\<close>

section \<open>Jobs\<close>

datatype job_state = Queued | Starting | Running | Cleaning | Succeeded | Failed | Cancelled | Interrupted

fun terminal :: "job_state \<Rightarrow> bool" where
  "terminal Queued = False"
| "terminal Starting = False"
| "terminal Running = False"
| "terminal Cleaning = False"
| "terminal _ = True"

fun state_name :: "job_state \<Rightarrow> string" where
  "state_name Queued = ''queued''"
| "state_name Starting = ''starting''"
| "state_name Running = ''running''"
| "state_name Cleaning = ''cleaning''"
| "state_name Succeeded = ''succeeded''"
| "state_name Failed = ''failed''"
| "state_name Cancelled = ''cancelled''"
| "state_name Interrupted = ''interrupted''"

definition all_states :: "job_state list" where
  "all_states = [Queued, Starting, Running, Cleaning, Succeeded, Failed, Cancelled, Interrupted]"

definition state_of_name :: "pyval \<Rightarrow> job_state option" where
  "state_of_name v = find (\<lambda>s. v = PStr (state_name s)) all_states"

definition SAFE_CODES :: "string list" where
  "SAFE_CODES = [''invalid_request'', ''not_found'', ''owner_forbidden'', ''request_conflict'',
     ''request_unverifiable'', ''recording_changed'', ''recording_not_replayable'',
     ''provider_mismatch'', ''device_busy'', ''startup_failed'', ''startup_timeout'',
     ''replay_failed'', ''replay_cancelled'', ''injection_unknown'', ''timeout'',
     ''cancelled'', ''cleanup_failed'', ''quarantined'', ''interrupted'', ''closed'',
     ''queue_full'', ''controller_lost'', ''shutdown_timeout'', ''authorization_revoked'']"

text \<open>What the lab answers to a call: a value, a \<open>LiveError\<close> with its code, another exception.\<close>

datatype 'a reply = Answer 'a | Live_error string | Other_error

definition safe_code :: "'a reply \<Rightarrow> string \<Rightarrow> string" where
  "safe_code r fallback =
     (case r of Live_error code \<Rightarrow> if code \<in> set SAFE_CODES then code else fallback | _ \<Rightarrow> fallback)"

definition reply_error :: "'a reply \<Rightarrow> py_error" where
  "reply_error r = (case r of Live_error code \<Rightarrow> LiveError code | _ \<Rightarrow> OtherError)"

record run_result =
  run_no :: int
  result_replay :: string
  receipts :: "pyval list"

text \<open>The last five fields are the keys with an underscore: they live in memory only.\<close>

record job =
  job_id :: string
  request_id :: string
  recording_id :: string
  recording_digest :: string
  device_id :: string
  jstate :: job_state
  created_at :: int
  started_at :: "int option"
  ended_at :: "int option"
  session_id :: "string option"
  repeats :: int
  completed_runs :: int
  results :: "run_result list"
  error_code :: "string option"
  job_owner :: string
  timeout_seconds :: int
  cancel_requested :: bool
  project_id :: "string option"
  principal_id :: "string option"
  credential_id :: "string option"
  authorization_id :: "string option"
  variables :: "(string \<times> pyval) list option"
  fingerprint :: "nat list option"
  deadline :: "int option"
  job_order :: nat
  controller :: "(string \<times> int) option"

definition stored_job :: "job \<Rightarrow> job" where
  "stored_job j = j\<lparr>variables := None, fingerprint := None, deadline := None, job_order := 0, controller := None\<rparr>"

text \<open>\<open>_public\<close>: the owner and the authorization are not shown either.\<close>

definition public_job :: "job \<Rightarrow> job" where
  "public_job j = (stored_job j)\<lparr>job_owner := [], principal_id := None, credential_id := None,
     authorization_id := None\<rparr>"

text \<open>The phases of a worker. An outcome is the final state with its error code.\<close>

type_synonym outcome = "job_state \<times> string option"

record replay_wait =
  wait_run :: int
  wait_replay :: string
  expected_receipts :: nat
  cancel_sent :: bool
  cancel_deadline :: int
  timed_out :: bool

datatype phase =
    At_start
  | Awaiting string int
  | At_run string int
  | Replaying string replay_wait
  | Finishing bool "string option" outcome
  | Closing string outcome
  | Releasing bool
  | Dead

record job_queue =
  max_running :: nat
  max_pending :: nat
  poll_interval :: int
  startup_timeout :: int
  jobs :: "job list"
  request_index :: "((string \<times> string) \<times> (string \<times> nat list option)) list"
  assigned :: "(string \<times> string) list"
  retry_after :: "(string \<times> int) list"
  workers :: "(string \<times> phase) list"
  cancels :: "(string \<times> bool) list"
  closed :: bool
  next_order :: nat
  disk :: "job list"

definition job_of :: "job_queue \<Rightarrow> string \<Rightarrow> job option" where
  "job_of q i = tbl_lookup job_id i (jobs q)"

definition put_row :: "job \<Rightarrow> job list \<Rightarrow> job list" where
  "put_row j rows = (if tbl_lookup job_id (job_id j) rows = None then rows @ [j]
     else tbl_update (\<lambda>r. job_id r = job_id j) (\<lambda>_. j) rows)"

text \<open>A change of a job in memory, and \<open>_persist\<close>.\<close>

definition put_job :: "job \<Rightarrow> job_queue \<Rightarrow> job_queue" where
  "put_job j q = q\<lparr>jobs := put_row j (jobs q)\<rparr>"

definition persist :: "job \<Rightarrow> job_queue \<Rightarrow> job_queue" where
  "persist j q = q\<lparr>disk := put_row (stored_job j) (disk q)\<rparr>"

text \<open>The change with its write, which may fail after the change.\<close>

definition save_job :: "bool \<Rightarrow> job \<Rightarrow> job_queue \<Rightarrow> job_queue" where
  "save_job ok j q = (if ok then persist j (put_job j q) else put_job j q)"

definition finish :: "job_state \<Rightarrow> string option \<Rightarrow> int \<Rightarrow> job \<Rightarrow> job" where
  "finish st code now j = j\<lparr>variables := None, deadline := None, controller := None, jstate := st,
     ended_at := Some now, error_code := code\<rparr>"

text \<open>\<open>_terminal\<close>.\<close>

definition set_terminal :: "bool \<Rightarrow> job_state \<Rightarrow> string option \<Rightarrow> int \<Rightarrow> job \<Rightarrow> job_queue \<Rightarrow> job_queue" where
  "set_terminal ok st code now j q = (if terminal (jstate j) then q else save_job ok (finish st code now j) q)"

text \<open>A monotonic clock that reads \<open>now\<close> is past a deadline; every job that waits has one.\<close>

definition past :: "int \<Rightarrow> int option \<Rightarrow> bool" where
  "past now d = (case d of Some t \<Rightarrow> t \<le> now | None \<Rightarrow> True)"

section \<open>Job files\<close>

definition opt_doc :: "('a \<Rightarrow> pyval) \<Rightarrow> 'a option \<Rightarrow> pyval" where
  "opt_doc f x = (case x of None \<Rightarrow> PNone | Some y \<Rightarrow> f y)"

definition result_doc :: "run_result \<Rightarrow> pyval" where
  "result_doc r = PDict [(''run'', PInt (run_no r)), (''replayId'', PStr (result_replay r)),
     (''state'', PStr ''succeeded''), (''receipts'', PList (receipts r))]"

definition job_doc :: "job \<Rightarrow> (string \<times> pyval) list" where
  "job_doc j =
     [(''id'', PStr (job_id j)), (''requestId'', PStr (request_id j)), (''recordingId'', PStr (recording_id j)),
      (''recordingDigest'', PStr (recording_digest j)), (''deviceId'', PStr (device_id j)),
      (''state'', PStr (state_name (jstate j))), (''createdAt'', PInt (created_at j)),
      (''startedAt'', opt_doc PInt (started_at j)), (''endedAt'', opt_doc PInt (ended_at j)),
      (''sessionId'', opt_doc PStr (session_id j)), (''repeats'', PInt (repeats j)),
      (''completedRuns'', PInt (completed_runs j)), (''results'', PList (map result_doc (results j))),
      (''errorCode'', opt_doc PStr (error_code j)), (''owner'', PStr (job_owner j)),
      (''timeoutSeconds'', PInt (timeout_seconds j)), (''cancelRequested'', PBool (cancel_requested j)),
      (''projectId'', opt_doc PStr (project_id j)), (''principalId'', opt_doc PStr (principal_id j)),
      (''credentialId'', opt_doc PStr (credential_id j)), (''authorizationId'', opt_doc PStr (authorization_id j))]"

text \<open>\<open>write_json(path, {"job": stored})\<close>.\<close>

definition job_file :: "job \<Rightarrow> string \<times> pyval option" where
  "job_file j = (job_id j, Some (PDict [(''job'', PDict (job_doc j))]))"

definition dget :: "(string \<times> pyval) list \<Rightarrow> string \<Rightarrow> pyval \<Rightarrow> pyval" where
  "dget d k v0 = (case map_of d k of Some v \<Rightarrow> v | None \<Rightarrow> v0)"

text \<open>
  \<open>_normalise_loaded\<close>. Every way it can raise (\<open>LiveError\<close>, or \<open>TypeError\<close> and \<open>KeyError\<close> of the
  tests themselves) skips the file, so the model has one error.
\<close>

definition invalid_request :: "'a result" where
  "invalid_request = Inl (LiveError ''invalid_request'')"

definition str_field :: "(string \<times> pyval) list \<Rightarrow> string \<Rightarrow> (string \<Rightarrow> bool) \<Rightarrow> string result" where
  "str_field d k p = (case dget d k PNone of PStr s \<Rightarrow> if p s then Inr s else invalid_request | _ \<Rightarrow> invalid_request)"

definition opt_str_field :: "(string \<times> pyval) list \<Rightarrow> string \<Rightarrow> (string \<Rightarrow> bool) \<Rightarrow> string option result" where
  "opt_str_field d k p = (if dget d k PNone = PNone then Inr None else map_sum id Some (str_field d k p))"

definition int_field :: "(string \<times> pyval) list \<Rightarrow> string \<Rightarrow> pyval \<Rightarrow> (int \<Rightarrow> bool) \<Rightarrow> int result" where
  "int_field d k v0 p = (case dget d k v0 of PInt n \<Rightarrow> if p n then Inr n else invalid_request | _ \<Rightarrow> invalid_request)"

definition opt_int_field :: "(string \<times> pyval) list \<Rightarrow> string \<Rightarrow> int option result" where
  "opt_int_field d k = (if dget d k PNone = PNone then Inr None else map_sum id Some (int_field d k PNone (\<lambda>_. True)))"

definition is_int :: "pyval \<Rightarrow> bool" where
  "is_int v = (case v of PInt _ \<Rightarrow> True | _ \<Rightarrow> False)"

definition valid_receipt :: "pyval \<Rightarrow> bool" where
  "valid_receipt v =
     (case v of
        PDict r \<Rightarrow>
          set (map fst r) \<subseteq> set [''id'', ''sequence'', ''action'', ''status'', ''epoch'', ''frameId'',
            ''durationMs'', ''timing''] \<and>
          (case dget r ''id'' (PStr []) of PStr s \<Rightarrow> is_word_id s | _ \<Rightarrow> False) \<and>
          is_int (dget r ''sequence'' (PInt 0)) \<and> is_int (dget r ''epoch'' (PInt 0)) \<and>
          is_int (dget r ''frameId'' (PInt 0)) \<and> is_int (dget r ''durationMs'' (PInt 0)) \<and>
          dget r ''action'' PNone \<in> PStr ` set [''tap'', ''long_press'', ''swipe'', ''text'', ''home'', ''reset'', ''pointer''] \<and>
          dget r ''status'' PNone \<in> PStr ` set [''injected'', ''unknown''] \<and>
          dget r ''timing'' PNone \<in> {PNone, PStr ''best-effort''}
      | _ \<Rightarrow> False)"

definition parse_result :: "int \<Rightarrow> pyval \<Rightarrow> run_result result" where
  "parse_result n v =
     (case v of
        PDict r \<Rightarrow>
          (case (dget r ''run'' PNone, dget r ''replayId'' PNone, dget r ''state'' PNone, dget r ''receipts'' PNone) of
             (PInt i, PStr rid, PStr st, PList xs) \<Rightarrow>
               if same_keys r [''run'', ''replayId'', ''state'', ''receipts''] \<and> 1 \<le> i \<and> i \<le> n \<and>
                  is_word_id rid \<and> st = ''succeeded'' \<and> list_all valid_receipt xs
               then Inr \<lparr>run_no = i, result_replay = rid, receipts = xs\<rparr> else invalid_request
           | _ \<Rightarrow> invalid_request)
      | _ \<Rightarrow> invalid_request)"

fun parse_all :: "('a \<Rightarrow> 'b result) \<Rightarrow> 'a list \<Rightarrow> 'b list result" where
  "parse_all f [] = Inr []"
| "parse_all f (x # xs) = bind_result (f x) (\<lambda>y. bind_result (parse_all f xs) (\<lambda>ys. Inr (y # ys)))"

definition parse_results :: "int \<Rightarrow> pyval \<Rightarrow> run_result list result" where
  "parse_results n v =
     (case v of
        PList xs \<Rightarrow> if length xs \<le> 10 then parse_all (parse_result n) xs else invalid_request
      | _ \<Rightarrow> invalid_request)"

definition shared_ids_ok :: "string option list \<Rightarrow> bool" where
  "shared_ids_ok xs \<longleftrightarrow> list_all (\<lambda>x. x = None) xs \<or> list_all (\<lambda>x. x \<noteq> None) xs"

definition normalise_loaded :: "(string \<times> pyval) list \<Rightarrow> job result" where
  "normalise_loaded d =
     bind_result (str_field d ''id'' is_word_id) (\<lambda>i.
     bind_result (str_field d ''requestId'' is_word_id) (\<lambda>req.
     bind_result (str_field d ''recordingId'' is_word_id) (\<lambda>rec.
     bind_result (str_field d ''recordingDigest'' is_hex_digest) (\<lambda>dig.
     bind_result (str_field d ''deviceId'' (\<lambda>_. True)) (\<lambda>dev.
     bind_result (case state_of_name (dget d ''state'' PNone) of Some s \<Rightarrow> Inr s | None \<Rightarrow> invalid_request) (\<lambda>st.
     bind_result (int_field d ''createdAt'' PNone (\<lambda>_. True)) (\<lambda>created.
     bind_result (opt_int_field d ''startedAt'') (\<lambda>started.
     bind_result (opt_int_field d ''endedAt'') (\<lambda>ended.
     bind_result (opt_str_field d ''sessionId'' is_word_id) (\<lambda>session.
     bind_result (int_field d ''repeats'' (PInt 1) (\<lambda>n. 1 \<le> n \<and> n \<le> 10)) (\<lambda>reps.
     bind_result (int_field d ''completedRuns'' (PInt 0) (\<lambda>n. 0 \<le> n \<and> n \<le> reps)) (\<lambda>runs.
     bind_result (parse_results reps (dget d ''results'' (PList []))) (\<lambda>ress.
     bind_result (opt_str_field d ''errorCode'' (\<lambda>s. s \<in> set SAFE_CODES)) (\<lambda>code.
     bind_result (str_field d ''owner'' (\<lambda>_. True)) (\<lambda>own.
     bind_result (int_field d ''timeoutSeconds'' (PInt 900) (\<lambda>n. 1 \<le> n \<and> n \<le> 3600)) (\<lambda>limit.
     bind_result (case dget d ''cancelRequested'' (PBool False) of PBool b \<Rightarrow> Inr b | _ \<Rightarrow> invalid_request) (\<lambda>cancelled.
     bind_result (opt_str_field d ''projectId'' is_word_id) (\<lambda>project.
     bind_result (opt_str_field d ''principalId'' is_word_id) (\<lambda>principal.
     bind_result (opt_str_field d ''credentialId'' is_word_id) (\<lambda>credential.
     bind_result (opt_str_field d ''authorizationId'' is_word_id) (\<lambda>authorization.
       if shared_ids_ok [project, principal, credential] \<and> (authorization \<noteq> None \<longrightarrow> project \<noteq> None) then
         Inr \<lparr>job_id = i, request_id = req, recording_id = rec, recording_digest = dig, device_id = dev,
           jstate = st, created_at = created, started_at = started, ended_at = ended, session_id = session,
           repeats = reps, completed_runs = runs, results = ress, error_code = code, job_owner = own,
           timeout_seconds = limit, cancel_requested = cancelled, project_id = project,
           principal_id = principal, credential_id = credential, authorization_id = authorization,
           variables = None, fingerprint = None, deadline = None, job_order = 0, controller = None\<rparr>
       else invalid_request)))))))))))))))))))))"

text \<open>
  One file of \<open>_load\<close>: a file that cannot be read (\<open>None\<close>) or holds no valid job is skipped. A file
  whose JSON is not an object makes \<open>value.get\<close> raise \<open>AttributeError\<close>, which nothing catches.
\<close>

definition load_file :: "string \<times> pyval option \<Rightarrow> job option result" where
  "load_file file =
     (case snd file of
        None \<Rightarrow> Inr None
      | Some (PDict v) \<Rightarrow>
          (case dget v ''job'' (PDict v) of
             PDict d \<Rightarrow>
               if dget d ''id'' PNone \<noteq> PStr (fst file) then Inr None
               else (case normalise_loaded d of Inl _ \<Rightarrow> Inr None | Inr j \<Rightarrow> Inr (Some j))
           | _ \<Rightarrow> Inr None)
      | Some _ \<Rightarrow> Inl AttributeError)"

definition interrupt :: "int \<Rightarrow> job \<Rightarrow> job" where
  "interrupt now j = (if terminal (jstate j) then j
     else j\<lparr>jstate := Interrupted, ended_at := Some now, error_code := Some ''interrupted''\<rparr>)"

text \<open>
  A loaded job enters the table and the index. Only an interrupted job is written again; the file of
  a final one already holds the row that \<open>persist\<close> records in \<open>disk\<close>.
\<close>

definition load_job :: "int \<Rightarrow> job \<Rightarrow> job_queue \<Rightarrow> job_queue" where
  "load_job now j q =
     (let j1 = j\<lparr>job_order := next_order q\<rparr>;
          q1 = put_job (interrupt now j1)
            (q\<lparr>next_order := Suc (next_order q),
               request_index := AList.update (job_owner j, request_id j) (job_id j, None) (request_index q)\<rparr>)
      in persist (interrupt now j1) q1)"

fun load_files :: "int \<Rightarrow> (string \<times> pyval option) list \<Rightarrow> job_queue \<Rightarrow> job_queue result" where
  "load_files now [] q = Inr q"
| "load_files now (f # fs) q =
     bind_result (load_file f) (\<lambda>r. load_files now fs (case r of None \<Rightarrow> q | Some j \<Rightarrow> load_job now j q))"

definition empty_queue :: "nat \<Rightarrow> nat \<Rightarrow> int \<Rightarrow> int \<Rightarrow> job_queue" where
  "empty_queue running pending poll startup =
     \<lparr>max_running = running, max_pending = pending, poll_interval = poll, startup_timeout = startup,
      jobs = [], request_index = [], assigned = [], retry_after = [], workers = [], cancels = [],
      closed = False, next_order = 0, disk = []\<rparr>"

text \<open>\<open>sorted(self.output.glob("*.json"))\<close>: a file is named by its stem.\<close>

definition open_queue :: "nat \<Rightarrow> nat \<Rightarrow> int \<Rightarrow> int \<Rightarrow> int \<Rightarrow> (string \<times> pyval option) list \<Rightarrow> job_queue result" where
  "open_queue running pending poll startup now files =
     ensure (1 \<le> running \<and> running \<le> 64 \<and> 0 < poll \<and> 0 < startup \<and> 1 \<le> pending \<and> pending \<le> 10000)
       (LiveError ''invalid_request'')
       (load_files now (sort_key (\<lambda>f. fst f @ ''.json'') files) (empty_queue running pending poll startup))"

section \<open>Requests\<close>

record submission =
  sub_owner :: string
  sub_recording :: string
  sub_request :: string
  sub_variables :: "(string \<times> pyval) list"
  sub_timeout :: int
  sub_repeats :: int
  sub_project :: "string option"
  sub_principal :: "string option"
  sub_credential :: "string option"
  sub_authorization :: "string option"

definition opt_id :: "pyval \<Rightarrow> string option result" where
  "opt_id v = (case v of PNone \<Rightarrow> Inr None | PStr s \<Rightarrow> if is_word_id s then Inr (Some s) else invalid_request
     | _ \<Rightarrow> invalid_request)"

definition word_id :: "pyval \<Rightarrow> string result" where
  "word_id v = (case v of PStr s \<Rightarrow> if is_word_id s then Inr s else invalid_request | _ \<Rightarrow> invalid_request)"

text \<open>The checks of \<open>submit\<close> on its arguments; \<open>hooks\<close>: an authorizer and a binder are configured.\<close>

definition check_submission ::
  "bool \<Rightarrow> pyval \<Rightarrow> pyval \<Rightarrow> pyval \<Rightarrow> pyval \<Rightarrow> pyval \<Rightarrow> pyval \<Rightarrow> submission result" where
  "check_submission hooks owner request project prin credential authorization =
     bind_result (case owner of PStr s \<Rightarrow> if 0 < length s \<and> length s \<le> 256 then Inr s else invalid_request
        | _ \<Rightarrow> invalid_request) (\<lambda>own.
     bind_result (case request of PDict d \<Rightarrow>
          if set (map fst d) \<subseteq> set [''recordingId'', ''variables'', ''requestId'', ''timeoutSeconds'', ''repeats''] \<and>
             set [''recordingId'', ''variables'', ''requestId''] \<subseteq> set (map fst d)
          then Inr d else invalid_request
        | _ \<Rightarrow> invalid_request) (\<lambda>d.
     bind_result (word_id (dget d ''recordingId'' PNone)) (\<lambda>rec.
     bind_result (word_id (dget d ''requestId'' PNone)) (\<lambda>req.
     bind_result (case dget d ''variables'' PNone of PDict vs \<Rightarrow> if length vs \<le> 500 then Inr vs else invalid_request
        | _ \<Rightarrow> invalid_request) (\<lambda>vs.
     bind_result (int_field d ''timeoutSeconds'' (PInt 900) (\<lambda>n. 1 \<le> n \<and> n \<le> 3600)) (\<lambda>limit.
     bind_result (int_field d ''repeats'' (PInt 1) (\<lambda>n. 1 \<le> n \<and> n \<le> 10)) (\<lambda>reps.
     bind_result (opt_id project) (\<lambda>pr. bind_result (opt_id prin) (\<lambda>pc. bind_result (opt_id credential) (\<lambda>cr.
     ensure (shared_ids_ok [pr, pc, cr] \<and> (pr \<noteq> None \<longrightarrow> hooks)) (LiveError ''invalid_request'')
    (bind_result (opt_id authorization) (\<lambda>au.
     ensure (au \<noteq> None \<longrightarrow> pr \<noteq> None) (LiveError ''invalid_request'')
       (Inr \<lparr>sub_owner = own, sub_recording = rec, sub_request = req, sub_variables = vs, sub_timeout = limit,
          sub_repeats = reps, sub_project = pr, sub_principal = pc, sub_credential = cr,
          sub_authorization = au\<rparr>)))))))))))))"

text \<open>\<open>_fingerprint\<close>: the keyed hash \<open>mac\<close> of the canonical text of the request.\<close>

definition request_doc :: "submission \<Rightarrow> pyval" where
  "request_doc s = PDict [(''recordingId'', PStr (sub_recording s)), (''variables'', PDict (sub_variables s)),
     (''requestId'', PStr (sub_request s)), (''timeoutSeconds'', PInt (sub_timeout s)), (''repeats'', PInt (sub_repeats s))]"

definition request_mac :: "(string \<Rightarrow> nat list) \<Rightarrow> submission \<Rightarrow> nat list result" where
  "request_mac mac s = (case json_text (request_doc s) of None \<Rightarrow> Inl TypeError | Some t \<Rightarrow> Inr (mac t))"

text \<open>What the request index says of a request: unknown, the job it already made, or a refusal.\<close>

definition known_request :: "job_queue \<Rightarrow> string \<Rightarrow> string \<Rightarrow> nat list \<Rightarrow> string option result" where
  "known_request q owner req fp =
     ensure (\<not> closed q) (LiveError ''closed'')
     (case map_of (request_index q) (owner, req) of
        None \<Rightarrow> Inr None
      | Some (_, None) \<Rightarrow> Inl (LiveError ''request_unverifiable'')
      | Some (i, Some fp') \<Rightarrow> ensure (fp' = fp) (LiveError ''request_conflict'') (Inr (Some i)))"

text \<open>The lab's recording, as far as the queue reads it.\<close>

record recording =
  rec_status :: string
  rec_replayable :: bool
  rec_variables :: "string list option"
  rec_digest :: string
  rec_device :: string
  rec_events :: nat

definition check_recording :: "submission \<Rightarrow> recording reply \<Rightarrow> recording result" where
  "check_recording s r =
     (case r of
        Live_error code \<Rightarrow> Inl (LiveError
          (if code = ''forbidden'' then ''owner_forbidden''
           else if code \<in> {''not_found'', ''recording_changed''} then code else ''recording_not_replayable''))
      | Other_error \<Rightarrow> Inl OtherError
      | Answer rec \<Rightarrow>
          ensure (rec_status rec = ''complete'' \<and> rec_replayable rec) (LiveError ''recording_not_replayable'')
          (case rec_variables rec of
             None \<Rightarrow> invalid_request
           | Some names \<Rightarrow>
               ensure (set (map fst (sub_variables s)) = set names \<and>
                   list_all (\<lambda>(_, v). case v of PStr t \<Rightarrow> length t \<le> 256 | _ \<Rightarrow> False) (sub_variables s))
                 (LiveError ''invalid_request'') (Inr rec)))"

definition new_job :: "submission \<Rightarrow> nat list \<Rightarrow> recording \<Rightarrow> string \<Rightarrow> int \<Rightarrow> int \<Rightarrow> nat \<Rightarrow> job" where
  "new_job s fp rec i now clk ord =
     \<lparr>job_id = i, request_id = sub_request s, recording_id = sub_recording s, recording_digest = rec_digest rec,
      device_id = rec_device rec, jstate = Queued, created_at = now, started_at = None, ended_at = None,
      session_id = None, repeats = sub_repeats s, completed_runs = 0, results = [], error_code = None,
      job_owner = sub_owner s, timeout_seconds = sub_timeout s, cancel_requested = False,
      project_id = sub_project s, principal_id = sub_principal s, credential_id = sub_credential s,
      authorization_id = sub_authorization s, variables = Some (sub_variables s), fingerprint = Some fp,
      deadline = Some (clk + sub_timeout s), job_order = ord, controller = None\<rparr>"

definition pending_count :: "job_queue \<Rightarrow> nat" where
  "pending_count q = length (filter (\<lambda>j. \<not> terminal (jstate j)) (jobs q))"

definition show_job :: "job_queue \<Rightarrow> string \<Rightarrow> job result" where
  "show_job q i = (case job_of q i of Some j \<Rightarrow> Inr (public_job j) | None \<Rightarrow> Inl (LiveError ''not_found''))"

text \<open>The second lock section of \<open>submit\<close>; \<open>i\<close> is the fresh id, \<open>bound\<close> what the binder does.\<close>

definition submit_commit ::
  "submission \<Rightarrow> nat list \<Rightarrow> recording \<Rightarrow> string \<Rightarrow> int \<Rightarrow> int \<Rightarrow> unit reply \<Rightarrow> job_queue \<Rightarrow> job result \<times> job_queue" where
  "submit_commit s fp rec i now clk bound q =
     (case known_request q (sub_owner s) (sub_request s) fp of
        Inl e \<Rightarrow> (Inl e, q)
      | Inr (Some known) \<Rightarrow> (show_job q known, q)
      | Inr None \<Rightarrow>
          if pending_count q < max_pending q then
            (let j = new_job s fp rec i now clk (next_order q);
                 q1 = q\<lparr>next_order := Suc (next_order q)\<rparr>
             in if sub_project s = None \<or> bound = Answer () then
                  (Inr (public_job j),
                   persist j (put_job j (q1\<lparr>request_index :=
                     AList.update (sub_owner s, sub_request s) (i, Some fp) (request_index q1)\<rparr>)))
                else (Inl (reply_error bound), q1))
          else (Inl (LiveError ''queue_full''), q))"

definition submit ::
  "(string \<Rightarrow> nat list) \<Rightarrow> bool \<Rightarrow> pyval \<Rightarrow> pyval \<Rightarrow> pyval \<Rightarrow> pyval \<Rightarrow> pyval \<Rightarrow> pyval \<Rightarrow>
   recording reply \<Rightarrow> string \<Rightarrow> int \<Rightarrow> int \<Rightarrow> unit reply \<Rightarrow> job_queue \<Rightarrow> job result \<times> job_queue" where
  "submit mac hooks owner request project prin credential authorization reply i now clk bound q =
     (case bind_result (check_submission hooks owner request project prin credential authorization)
         (\<lambda>s. bind_result (request_mac mac s) (\<lambda>fp.
          bind_result (known_request q (sub_owner s) (sub_request s) fp) (\<lambda>known. Inr (s, fp, known)))) of
        Inl e \<Rightarrow> (Inl e, q)
      | Inr (s, fp, Some known) \<Rightarrow> (show_job q known, q)
      | Inr (s, fp, None) \<Rightarrow>
          (case check_recording s reply of
             Inl e \<Rightarrow> (Inl e, q)
           | Inr rec \<Rightarrow> submit_commit s fp rec i now clk bound q))"

definition owned :: "job_queue \<Rightarrow> pyval \<Rightarrow> string \<Rightarrow> job result" where
  "owned q i owner =
     (case i of
        PStr s \<Rightarrow>
          if \<not> is_word_id s then Inl (LiveError ''not_found'')
          else (case job_of q s of
            None \<Rightarrow> Inl (LiveError ''not_found'')
          | Some j \<Rightarrow> ensure (job_owner j = owner) (LiveError ''owner_forbidden'') (Inr j))
      | _ \<Rightarrow> Inl (LiveError ''not_found''))"

definition get_job :: "job_queue \<Rightarrow> pyval \<Rightarrow> string \<Rightarrow> job result" where
  "get_job q i owner = bind_result (owned q i owner) (\<lambda>j. Inr (public_job j))"

definition list_jobs :: "job_queue \<Rightarrow> pyval \<Rightarrow> job list result" where
  "list_jobs q owner =
     (case owner of
        PStr s \<Rightarrow> ensure (0 < length s \<and> length s \<le> 256) (LiveError ''invalid_request'')
          (Inr (map public_job (filter (\<lambda>j. job_owner j = s)
            (rev (sort_key (\<lambda>j. (created_at j, job_order j)) (rev (jobs q)))))))
      | _ \<Rightarrow> invalid_request)"

definition cancel_job :: "pyval \<Rightarrow> string \<Rightarrow> int \<Rightarrow> job_queue \<Rightarrow> job result \<times> job_queue" where
  "cancel_job i owner now q =
     (case owned q i owner of
        Inl e \<Rightarrow> (Inl e, q)
      | Inr j \<Rightarrow>
          if terminal (jstate j) then (Inr (public_job j), q)
          else if jstate j = Queued then
            (let q' = set_terminal True Cancelled (Some ''cancelled'') now j q in (show_job q' (job_id j), q'))
          else
            (let j' = j\<lparr>cancel_requested := True\<rparr>
             in (Inr (public_job j'),
                 save_job True j' (q\<lparr>cancels := AList.update (job_id j) True (cancels q)\<rparr>))))"

section \<open>The dispatcher\<close>

text \<open>Queued jobs whose time is over fail.\<close>

definition expire :: "int \<Rightarrow> int \<Rightarrow> job_queue \<Rightarrow> job_queue" where
  "expire clk now q =
     foldl (\<lambda>q' j. if jstate j = Queued \<and> past clk (deadline j)
        then set_terminal True Failed (Some ''timeout'') now j q' else q') q (jobs q)"

definition queued_jobs :: "job_queue \<Rightarrow> job list" where
  "queued_jobs q = sort_key (\<lambda>j. (job_order j, job_id j)) (filter (\<lambda>j. jstate j = Queued) (jobs q))"

definition is_queued :: "job_queue \<Rightarrow> string \<Rightarrow> bool" where
  "is_queued q i = (case job_of q i of Some j \<Rightarrow> jstate j = Queued | None \<Rightarrow> False)"

definition oldest_for_device :: "job_queue \<Rightarrow> job list \<Rightarrow> job \<Rightarrow> bool" where
  "oldest_for_device q queued j \<longleftrightarrow>
     \<not> list_ex (\<lambda>k. device_id k = device_id j \<and> is_queued q (job_id k) \<and>
         (job_order k, job_id k) < (job_order j, job_id j)) queued"

definition start_job :: "int \<Rightarrow> job \<Rightarrow> job_queue \<Rightarrow> job_queue" where
  "start_job now j q =
     save_job True (j\<lparr>jstate := Starting, started_at := Some now\<rparr>)
       (q\<lparr>assigned := AList.update (device_id j) (job_id j) (assigned q),
          cancels := AList.update (job_id j) False (cancels q),
          workers := AList.update (job_id j) At_start (workers q)\<rparr>)"

text \<open>The scan over the queued jobs: \<open>auth i\<close> is what the authorizer does for the job \<open>i\<close>.\<close>

fun scan :: "string list \<Rightarrow> (string \<Rightarrow> unit reply) \<Rightarrow> int \<Rightarrow> int \<Rightarrow> job list \<Rightarrow> job list \<Rightarrow> job_queue \<Rightarrow>
    string option \<times> job_queue" where
  "scan available auth clk now queued [] q = (None, q)"
| "scan available auth clk now queued (j # js) q =
     (if device_id j \<in> set (map fst (assigned q)) \<or> device_id j \<notin> set available then
        scan available auth clk now queued js q
      else if \<not> oldest_for_device q queued j then scan available auth clk now queued js q
      else if (case map_of (retry_after q) (device_id j) of Some t \<Rightarrow> clk < t | None \<Rightarrow> clk < 0) then
        scan available auth clk now queued js q
      else if project_id j \<noteq> None \<and> auth (job_id j) \<noteq> Answer () then
        scan available auth clk now queued js
          (set_terminal True Failed (Some ''authorization_revoked'') now j q)
      else (Some (job_id j), start_job now j q))"

definition dispatch :: "string list \<Rightarrow> (string \<Rightarrow> unit reply) \<Rightarrow> int \<Rightarrow> int \<Rightarrow> job_queue \<Rightarrow> string option \<times> job_queue" where
  "dispatch available auth clk now q =
     (let q1 = expire clk now q
      in if length (assigned q1) < max_running q1
         then scan available auth clk now (queued_jobs q1) (queued_jobs q1) q1
         else (None, q1))"

section \<open>The worker\<close>

definition cancel_set :: "job_queue \<Rightarrow> string \<Rightarrow> bool" where
  "cancel_set q i = (map_of (cancels q) i = Some True)"

definition goto :: "string \<Rightarrow> phase \<Rightarrow> job_queue \<Rightarrow> job_queue" where
  "goto i p q = q\<lparr>workers := AList.update i p (workers q)\<rparr>"

text \<open>An exception that no handler of \<open>_run\<close> catches: \<open>outcome\<close> still has its first value.\<close>

definition escape_to :: "string \<Rightarrow> phase" where
  "escape_to session = Finishing False (Some session) (Succeeded, None)"

definition stop_with :: "string \<Rightarrow> job_state \<Rightarrow> string \<Rightarrow> phase" where
  "stop_with session st code = Finishing False (Some session) (st, Some code)"

text \<open>Start-up: authorization, the recording again, the session. \<open>ok\<close>: the write succeeds.\<close>

definition startup_reply :: "job \<Rightarrow> unit reply \<Rightarrow> recording reply \<Rightarrow> string reply \<Rightarrow> string reply" where
  "startup_reply j auth rec session =
     (case (if project_id j = None then Answer () else auth) of
        Live_error c \<Rightarrow> Live_error c
      | Other_error \<Rightarrow> Live_error ''authorization_revoked''
      | Answer _ \<Rightarrow>
          (case rec of
             Live_error c \<Rightarrow> Live_error c
           | Other_error \<Rightarrow> Other_error
           | Answer r \<Rightarrow> if rec_digest r \<noteq> recording_digest j then Live_error ''recording_changed'' else session))"

definition w_start :: "bool \<Rightarrow> int \<Rightarrow> unit reply \<Rightarrow> recording reply \<Rightarrow> string reply \<Rightarrow> job \<Rightarrow> job_queue \<Rightarrow> job_queue" where
  "w_start ok clk auth rec session j q =
     (if cancel_set q (job_id j) then goto (job_id j) (Finishing False None (Cancelled, Some ''cancelled'')) q
      else case startup_reply j auth rec session of
        Live_error c \<Rightarrow>
          goto (job_id j) (if c = ''device_busy'' then Finishing True None (Succeeded, None)
            else Finishing False None (Failed, Some (safe_code (Live_error c :: unit reply) ''startup_failed''))) q
      | Other_error \<Rightarrow> goto (job_id j) (Finishing False None (Failed, Some ''startup_failed'')) q
      | Answer s \<Rightarrow>
          goto (job_id j)
            (if ok then Awaiting s (case deadline j of Some t \<Rightarrow> min t (clk + startup_timeout q) | None \<Rightarrow> clk)
             else escape_to s)
            (save_job ok (j\<lparr>session_id := Some s\<rparr>) q))"

text \<open>
  One round of the start-up wait. \<open>clk\<close> and \<open>clk'\<close> are two readings of the clock, \<open>late\<close> says whether
  a cancel request arrived while the lab was being called.
\<close>

definition w_await ::
  "bool \<Rightarrow> bool \<Rightarrow> int \<Rightarrow> int \<Rightarrow> (string \<times> int) reply \<Rightarrow> (string \<times> int) reply \<Rightarrow> string \<Rightarrow> int \<Rightarrow> job \<Rightarrow> job_queue \<Rightarrow> job_queue" where
  "w_await ok late clk clk' session claim s limit j q =
     (if cancel_set q (job_id j) then goto (job_id j) (stop_with s Cancelled ''cancelled'') q
      else if limit \<le> clk then
        goto (job_id j) (stop_with s Failed (if past clk' (deadline j) then ''timeout'' else ''startup_timeout'')) q
      else case session of
        Answer (st, epoch) \<Rightarrow>
          if st = ''active'' then
            (case claim of
               Answer c \<Rightarrow>
                 goto (job_id j) (if ok then At_run s 1 else escape_to s)
                   (save_job ok (j\<lparr>controller := Some c, jstate := Running\<rparr>) q)
             | _ \<Rightarrow> goto (job_id j) (stop_with s Failed (if late then ''cancelled'' else ''controller_lost'')) q)
          else if st \<in> {''failed'', ''closed'', ''draining''} then
            goto (job_id j) (stop_with s Failed (if st = ''failed'' then ''quarantined'' else ''startup_failed'')) q
          else q
      | _ \<Rightarrow> goto (job_id j) (stop_with s Failed ''startup_failed'') q)"

text \<open>One run: the recording again, the controller again, and the replay is started.\<close>

definition w_run ::
  "bool \<Rightarrow> int \<Rightarrow> recording reply \<Rightarrow> string reply \<Rightarrow> string reply \<Rightarrow> string \<Rightarrow> int \<Rightarrow> job \<Rightarrow> job_queue \<Rightarrow> job_queue" where
  "w_run late clk rec control replay s run j q =
     (let raised = (\<lambda>code. if late \<or> cancel_set q (job_id j) then stop_with s Cancelled ''cancelled''
             else stop_with s Failed code)
      in goto (job_id j)
        (if run > repeats j then Finishing False (Some s) (Succeeded, None)
         else if cancel_set q (job_id j) then stop_with s Cancelled ''cancelled''
         else if past clk (deadline j) then stop_with s Failed ''timeout''
         else case rec of
           Answer r \<Rightarrow>
             if rec_digest r \<noteq> recording_digest j then stop_with s Failed ''recording_changed''
             else (case control of
               Answer c \<Rightarrow>
                 if map_option fst (controller j) \<noteq> Some c then stop_with s Failed ''controller_lost''
                 else (case replay of
                   Answer rid \<Rightarrow> Replaying s \<lparr>wait_run = run, wait_replay = rid, expected_receipts = rec_events r,
                       cancel_sent = False, cancel_deadline = 0, timed_out = False\<rparr>
                 | _ \<Rightarrow> raised (safe_code replay ''replay_failed''))
             | _ \<Rightarrow> raised (safe_code control ''replay_failed''))
         | _ \<Rightarrow> raised (safe_code rec ''replay_failed'')) q)"

text \<open>The replay artifact the lab writes, and what \<open>_wait_replay\<close> returns.\<close>

record artifact =
  art_id :: string
  art_recording :: string
  art_digest :: string
  art_state :: "string option"
  art_receipts :: "pyval list option"

record replay_result =
  res_state :: "string option"
  res_timed_out :: bool
  res_unknown :: bool
  res_receipts :: "pyval list"

definition failed_unknown :: "bool \<Rightarrow> replay_result" where
  "failed_unknown t = \<lparr>res_state = Some ''failed'', res_timed_out = t, res_unknown = True, res_receipts = []\<rparr>"

definition valid_success :: "replay_wait \<Rightarrow> job \<Rightarrow> artifact \<Rightarrow> bool" where
  "valid_success w j a \<longleftrightarrow>
     art_id a = wait_replay w \<and> art_recording a = recording_id j \<and> art_digest a = recording_digest j \<and>
     art_state a = Some ''actions_replayed'' \<and>
     (case art_receipts a of Some xs \<Rightarrow> length xs = expected_receipts w | None \<Rightarrow> False)"

definition read_artifact :: "replay_wait \<Rightarrow> job \<Rightarrow> artifact \<Rightarrow> replay_result" where
  "read_artifact w j a =
     (let xs = (case art_receipts a of Some xs \<Rightarrow> xs | None \<Rightarrow> [])
      in if timed_out w then
           \<lparr>res_state = Some ''cancelled'', res_timed_out = True, res_unknown = False, res_receipts = xs\<rparr>
         else if valid_success w j a then
           \<lparr>res_state = art_state a, res_timed_out = False, res_unknown = False, res_receipts = xs\<rparr>
         else if art_state a = Some ''actions_replayed'' then failed_unknown False
         else \<lparr>res_state = art_state a, res_timed_out = False,
             res_unknown = (art_state a = Some ''failed'' \<and> \<not> cancel_sent w), res_receipts = xs\<rparr>)"

text \<open>
  One round of \<open>_wait_replay\<close>: first a cancel request or the deadline sends the cancel call, then the
  answer is read. \<open>session\<close> is the replay the lab shows with its state, \<open>file\<close> the artifact
  (\<open>Answer None\<close>: there is none). The lab writes no \<open>timedOut\<close> key.
\<close>

definition wait_cancel :: "bool \<Rightarrow> int \<Rightarrow> replay_wait \<Rightarrow> job \<Rightarrow> replay_wait" where
  "wait_cancel cancelled clk w j =
     (let w1 = (if cancelled \<and> \<not> cancel_sent w then w\<lparr>cancel_sent := True, cancel_deadline := clk + 5\<rparr> else w)
      in if past clk (deadline j) \<and> \<not> cancel_sent w1
         then w1\<lparr>cancel_sent := True, timed_out := True, cancel_deadline := clk + 5\<rparr> else w1)"

definition wait_answer ::
  "int \<Rightarrow> (string \<times> string) option reply \<Rightarrow> artifact option reply \<Rightarrow> replay_wait \<Rightarrow> job \<Rightarrow> replay_result option" where
  "wait_answer clk session file w j =
     (let later = (if cancel_sent w \<and> cancel_deadline w \<le> clk then Some (failed_unknown (timed_out w)) else None)
      in case session of
           Answer (Some (rid, st)) \<Rightarrow>
             if rid = wait_replay w \<and> st \<in> {''actions_replayed'', ''cancelled'', ''failed''} then
               (case file of
                  Answer (Some a) \<Rightarrow> Some (read_artifact w j a)
                | Answer None \<Rightarrow>
                    if st \<noteq> ''actions_replayed'' then
                      Some \<lparr>res_state = Some st, res_timed_out = timed_out w, res_unknown = (st = ''failed''),
                         res_receipts = []\<rparr>
                    else later
                | _ \<Rightarrow> Some (failed_unknown False))
             else later
         | Answer None \<Rightarrow> later
         | _ \<Rightarrow> Some (failed_unknown False))"

definition wait_round ::
  "bool \<Rightarrow> int \<Rightarrow> int \<Rightarrow> (string \<times> string) option reply \<Rightarrow> artifact option reply \<Rightarrow> replay_wait \<Rightarrow> job \<Rightarrow>
   replay_result option \<times> replay_wait" where
  "wait_round cancelled clk clk' session file w j =
     (let w' = wait_cancel cancelled clk w j in (wait_answer clk' session file w' j, w'))"

definition w_replay ::
  "bool \<Rightarrow> bool \<Rightarrow> int \<Rightarrow> int \<Rightarrow> (string \<times> string) option reply \<Rightarrow> artifact option reply \<Rightarrow>
   string \<Rightarrow> replay_wait \<Rightarrow> job \<Rightarrow> job_queue \<Rightarrow> job_queue" where
  "w_replay ok late clk clk' session file s w j q =
     (case wait_round (cancel_set q (job_id j)) clk clk' session file w j of
        (None, w') \<Rightarrow> goto (job_id j) (Replaying s w') q
      | (Some r, w') \<Rightarrow>
          if res_timed_out r then goto (job_id j) (stop_with s Failed ''timeout'') q
          else (case res_state r of
            None \<Rightarrow> goto (job_id j) (escape_to s) q
          | Some st \<Rightarrow>
              if st = ''actions_replayed'' then
                goto (job_id j) (if ok then At_run s (wait_run w' + 1) else escape_to s)
                  (save_job ok (j\<lparr>results := results j @ [\<lparr>run_no = wait_run w', result_replay = wait_replay w',
                      receipts = res_receipts r\<rparr>], completed_runs := wait_run w'\<rparr>) q)
              else if st = ''cancelled'' then
                goto (job_id j) (stop_with s Cancelled
                  (if late \<or> cancel_set q (job_id j) then ''cancelled'' else ''replay_cancelled'')) q
              else goto (job_id j) (stop_with s Failed
                  (if res_unknown r then ''injection_unknown'' else ''replay_failed'')) q))"

text \<open>The \<open>finally\<close> of \<open>_run\<close>: the state \<open>cleaning\<close>, the session closed, the final state, the release.\<close>

definition w_finish :: "bool \<Rightarrow> int \<Rightarrow> bool \<Rightarrow> string option \<Rightarrow> outcome \<Rightarrow> job \<Rightarrow> job_queue \<Rightarrow> job_queue" where
  "w_finish ok now retry session outcome j q =
     (case session of
        Some s \<Rightarrow>
          if ok then goto (job_id j) (Closing s outcome) (save_job True (j\<lparr>jstate := Cleaning\<rparr>) q)
          else goto (job_id j) (Closing s (Failed, Some ''cleanup_failed'')) (save_job False (j\<lparr>jstate := Cleaning\<rparr>) q)
      | None \<Rightarrow>
          if retry then goto (job_id j) (Releasing True) q
          else goto (job_id j) (if ok \<or> terminal (jstate j) then Releasing False else Dead)
            (set_terminal ok (fst outcome) (snd outcome) now j q))"

definition w_close :: "bool \<Rightarrow> int \<Rightarrow> bool \<Rightarrow> outcome \<Rightarrow> job \<Rightarrow> job_queue \<Rightarrow> job_queue" where
  "w_close ok now session_closed outcome j q =
     goto (job_id j) (if ok \<or> terminal (jstate j) then Releasing False else Dead)
       (if session_closed then set_terminal ok (fst outcome) (snd outcome) now j q
        else set_terminal ok Failed (Some ''cleanup_failed'') now j q)"

text \<open>
  The release of the device at the end of \<open>_run\<close>. Its own write, of a job that is queued again or
  cancelled, is taken to succeed; the faults of a run are those of the writes before it.
\<close>

definition w_release :: "int \<Rightarrow> int \<Rightarrow> bool \<Rightarrow> job \<Rightarrow> job_queue \<Rightarrow> job_queue" where
  "w_release clk now retry j q =
     (let q1 = q\<lparr>assigned := AList.delete (device_id j) (assigned q), workers := AList.delete (job_id j) (workers q),
            cancels := AList.delete (job_id j) (cancels q)\<rparr>
      in if retry then
           (let q2 = q1\<lparr>retry_after := AList.update (device_id j) (clk + poll_interval q) (retry_after q)\<rparr>
            in if cancel_set q (job_id j) \<or> closed q
               then set_terminal True Cancelled (Some ''cancelled'') now j q2
               else save_job True (j\<lparr>jstate := Queued, started_at := None\<rparr>) q2)
         else put_job (j\<lparr>variables := None\<rparr>) q1)"

section \<open>Closing\<close>

definition close_begin :: "int \<Rightarrow> job_queue \<Rightarrow> job_queue" where
  "close_begin now q =
     (if closed q then q
      else foldl (\<lambda>q' j. if jstate j = Queued then set_terminal True Cancelled (Some ''cancelled'') now j q'
             else if terminal (jstate j) then q'
             else q'\<lparr>cancels := AList.update (job_id j) True (cancels q')\<rparr>) (q\<lparr>closed := True\<rparr>) (jobs q))"

definition worker_alive :: "job_queue \<Rightarrow> string \<Rightarrow> bool" where
  "worker_alive q i = (case map_of (workers q) i of Some p \<Rightarrow> p \<noteq> Dead | None \<Rightarrow> False)"

text \<open>After the joins have timed out: what is still at work is left in \<open>cleaning\<close>.\<close>

definition close_end :: "job_queue \<Rightarrow> job_queue" where
  "close_end q =
     foldl (\<lambda>q' j. if \<not> terminal (jstate j) \<and> worker_alive q (job_id j)
        then save_job True (j\<lparr>jstate := Cleaning, error_code := Some ''shutdown_timeout''\<rparr>) q' else q') q (jobs q)"

section \<open>Interleavings\<close>

datatype worker_input =
    In_start bool int "unit reply" "recording reply" "string reply"
  | In_await bool bool int int "(string \<times> int) reply" "(string \<times> int) reply"
  | In_run bool int "recording reply" "string reply" "string reply"
  | In_replay bool bool int int "(string \<times> string) option reply" "artifact option reply"
  | In_finish bool int
  | In_close bool int bool
  | In_release int int

definition worker_step :: "string \<Rightarrow> worker_input \<Rightarrow> job_queue \<Rightarrow> job_queue" where
  "worker_step i x q =
     (case (job_of q i, map_of (workers q) i) of
        (Some j, Some p) \<Rightarrow>
          (case (p, x) of
             (At_start, In_start ok clk auth rec session) \<Rightarrow> w_start ok clk auth rec session j q
           | (Awaiting s limit, In_await ok late clk clk' session claim) \<Rightarrow> w_await ok late clk clk' session claim s limit j q
           | (At_run s run, In_run late clk rec control replay) \<Rightarrow> w_run late clk rec control replay s run j q
           | (Replaying s w, In_replay ok late clk clk' session file) \<Rightarrow> w_replay ok late clk clk' session file s w j q
           | (Finishing retry session outcome, In_finish ok now) \<Rightarrow> w_finish ok now retry session outcome j q
           | (Closing s outcome, In_close ok now session_closed) \<Rightarrow> w_close ok now session_closed outcome j q
           | (Releasing retry, In_release clk now) \<Rightarrow> w_release clk now retry j q
           | _ \<Rightarrow> q)
      | _ \<Rightarrow> q)"

datatype jq_event =
    Submit submission "nat list" recording string int int "unit reply"
  | Cancel pyval string int
  | Dispatch "string list" "string \<Rightarrow> unit reply" int int
  | Worker string worker_input
  | Close_begin int
  | Close_end

fun jq_step :: "job_queue \<Rightarrow> jq_event \<Rightarrow> job_queue" where
  "jq_step q (Submit s fp rec i now clk bound) = snd (submit_commit s fp rec i now clk bound q)"
| "jq_step q (Cancel i owner now) = snd (cancel_job i owner now q)"
| "jq_step q (Dispatch available auth clk now) = snd (dispatch available auth clk now q)"
| "jq_step q (Worker i x) = worker_step i x q"
| "jq_step q (Close_begin now) = close_begin now q"
| "jq_step q Close_end = close_end q"

text \<open>What is known of an event when it happens: the arguments were checked, a drawn id is new.\<close>

definition sound_submission :: "submission \<Rightarrow> bool" where
  "sound_submission s \<longleftrightarrow>
     is_word_id (sub_recording s) \<and> is_word_id (sub_request s) \<and>
     1 \<le> sub_timeout s \<and> sub_timeout s \<le> 3600 \<and> 1 \<le> sub_repeats s \<and> sub_repeats s \<le> 10 \<and>
     list_all (\<lambda>x. case x of Some i \<Rightarrow> is_word_id i | None \<Rightarrow> True)
       [sub_project s, sub_principal s, sub_credential s, sub_authorization s] \<and>
     shared_ids_ok [sub_project s, sub_principal s, sub_credential s] \<and>
     (sub_authorization s \<noteq> None \<longrightarrow> sub_project s \<noteq> None)"

definition sound_input :: "worker_input \<Rightarrow> bool" where
  "sound_input x =
     (case x of
        In_start _ _ _ _ (Answer s) \<Rightarrow> is_word_id s
      | In_run _ _ _ _ (Answer rid) \<Rightarrow> is_word_id rid
      | In_replay _ _ _ _ _ (Answer (Some a)) \<Rightarrow>
          (case art_receipts a of Some xs \<Rightarrow> list_all valid_receipt xs | None \<Rightarrow> True)
      | _ \<Rightarrow> True)"

definition sound_event :: "job_queue \<Rightarrow> jq_event \<Rightarrow> bool" where
  "sound_event q ev =
     (case ev of
        Submit s fp rec i now clk bound \<Rightarrow>
          sound_submission s \<and> is_hex_digest (rec_digest rec) \<and> is_word_id i \<and> job_of q i = None
      | Worker i x \<Rightarrow> sound_input x
      | _ \<Rightarrow> True)"

text \<open>No write of the worker fails, and every artifact has a state.\<close>

definition faultless :: "jq_event \<Rightarrow> bool" where
  "faultless ev =
     (case ev of
        Worker i (In_start ok _ _ _ _) \<Rightarrow> ok
      | Worker i (In_await ok _ _ _ _ _) \<Rightarrow> ok
      | Worker i (In_replay ok _ _ _ _ file) \<Rightarrow>
          ok \<and> (case file of Answer (Some a) \<Rightarrow> art_state a \<noteq> None | _ \<Rightarrow> True)
      | Worker i (In_finish ok _) \<Rightarrow> ok
      | Worker i (In_close ok _ _) \<Rightarrow> ok
      | _ \<Rightarrow> True)"

inductive jq_run :: "bool \<Rightarrow> job_queue \<Rightarrow> job_queue \<Rightarrow> bool" for faults :: bool where
  run_here: "jq_run faults q q"
| run_event: "jq_run faults q q' \<Longrightarrow> sound_event q' ev \<Longrightarrow> faults \<or> faultless ev \<Longrightarrow>
     jq_run faults q (jq_step q' ev)"

inductive jq_reach :: "bool \<Rightarrow> job_queue \<Rightarrow> bool" for faults :: bool where
  reach_open: "open_queue running pending poll startup now files = Inr q \<Longrightarrow> jq_reach faults q"
| reach_event: "jq_reach faults q \<Longrightarrow> sound_event q ev \<Longrightarrow> faults \<or> faultless ev \<Longrightarrow>
     jq_reach faults (jq_step q ev)"

lemma reach_run: "jq_run faults q q' \<Longrightarrow> jq_reach faults q \<Longrightarrow> jq_reach faults q'"
  by (induction rule: jq_run.induct) (auto intro: reach_event)

end
