(* ===== verification/Job_Queue_Props.thy ===== *)
theory Job_Queue_Props
  imports Job_Queue
begin

text \<open>
  What holds of the queues that any interleaving of requests, dispatcher rounds, worker steps and
  shutdown can lead to: device exclusivity, final states that stay, first-in-first-out dispatch,
  idempotent submission, what a success means and what a restart finds on disk.
\<close>

text \<open>The tables are read as functions, not as sets of pairs.\<close>

declare map_of_eq_Some_iff [simp del]

section \<open>What the steps change\<close>

lemma lookup_put_row: "tbl_lookup job_id i (put_row j rows) = (if i = job_id j then Some j else tbl_lookup job_id i rows)"
proof (cases "tbl_lookup job_id (job_id j) rows")
  case None
  then show ?thesis by (auto simp: put_row_def tbl_lookup_append split: option.split)
next
  case (Some r)
  have "tbl_lookup job_id i (tbl_update (\<lambda>r. job_id r = job_id j) (\<lambda>_. j) rows) =
      (if i = job_id j then map_option (\<lambda>_. j) (tbl_lookup job_id i rows) else tbl_lookup job_id i rows)"
    by (induction rows) (auto simp: tbl_update_def)
  with Some show ?thesis by (simp add: put_row_def)
qed

lemma distinct_put_row: "distinct_keys job_id rows \<Longrightarrow> distinct_keys job_id (put_row j rows)"
proof -
  assume d: "distinct_keys job_id rows"
  have "map job_id (tbl_update (\<lambda>r. job_id r = job_id j) (\<lambda>_. j) rows) = map job_id rows"
    by (induction rows) (auto simp: tbl_update_def)
  with d show ?thesis by (auto simp: put_row_def distinct_keys_snoc) (simp add: distinct_keys_def)
qed

lemma set_put_row: "r \<in> set (put_row j rows) \<Longrightarrow> r = j \<or> r \<in> set rows"
  by (auto simp: put_row_def set_tbl_update split: if_splits)

lemma put_job_simps [simp]:
  "job_of (put_job j q) i = (if i = job_id j then Some j else job_of q i)"
  "assigned (put_job j q) = assigned q" "workers (put_job j q) = workers q" "cancels (put_job j q) = cancels q"
  "max_running (put_job j q) = max_running q" "closed (put_job j q) = closed q" "disk (put_job j q) = disk q"
  "request_index (put_job j q) = request_index q" "jobs (put_job j q) = put_row j (jobs q)"
  by (simp_all add: put_job_def job_of_def lookup_put_row)

lemma persist_simps [simp]:
  "job_of (persist j q) i = job_of q i" "jobs (persist j q) = jobs q"
  "assigned (persist j q) = assigned q" "workers (persist j q) = workers q" "cancels (persist j q) = cancels q"
  "max_running (persist j q) = max_running q" "closed (persist j q) = closed q"
  "disk (persist j q) = put_row (stored_job j) (disk q)" "request_index (persist j q) = request_index q"
  by (simp_all add: persist_def job_of_def)

lemma save_job_simps [simp]:
  "job_of (save_job ok j q) i = (if i = job_id j then Some j else job_of q i)"
  "jobs (save_job ok j q) = put_row j (jobs q)"
  "assigned (save_job ok j q) = assigned q" "workers (save_job ok j q) = workers q" "cancels (save_job ok j q) = cancels q"
  "max_running (save_job ok j q) = max_running q" "closed (save_job ok j q) = closed q"
  "disk (save_job ok j q) = (if ok then put_row (stored_job j) (disk q) else disk q)"
  "request_index (save_job ok j q) = request_index q"
  by (simp_all add: save_job_def put_job_def)
    (simp_all add: job_of_def lookup_put_row)

lemma job_of_update [simp]:
  "job_of (q\<lparr>assigned := a\<rparr>) i = job_of q i" "job_of (q\<lparr>workers := w\<rparr>) i = job_of q i"
  "job_of (q\<lparr>cancels := c\<rparr>) i = job_of q i" "job_of (q\<lparr>closed := b\<rparr>) i = job_of q i"
  "job_of (q\<lparr>retry_after := r\<rparr>) i = job_of q i" "job_of (q\<lparr>next_order := n\<rparr>) i = job_of q i"
  "job_of (q\<lparr>request_index := x\<rparr>) i = job_of q i"
  by (simp_all add: job_of_def)

lemma goto_simps [simp]:
  "job_of (goto i p q) k = job_of q k" "jobs (goto i p q) = jobs q" "assigned (goto i p q) = assigned q"
  "max_running (goto i p q) = max_running q" "disk (goto i p q) = disk q" "closed (goto i p q) = closed q"
  "map_of (workers (goto i p q)) = (map_of (workers q))(i \<mapsto> p)" "cancels (goto i p q) = cancels q"
  by (simp_all add: goto_def job_of_def AList.update_conv')

lemma finish_simps [simp]:
  "job_id (finish st code now j) = job_id j" "device_id (finish st code now j) = device_id j"
  "jstate (finish st code now j) = st" "variables (finish st code now j) = None"
  by (simp_all add: finish_def)

lemma job_of_id: "job_of q i = Some j \<Longrightarrow> job_id j = i"
  by (auto simp: job_of_def dest: tbl_lookup_Some)

lemma job_of_in: "job_of q i = Some j \<Longrightarrow> j \<in> set (jobs q)"
  by (auto simp: job_of_def dest: tbl_lookup_Some)

text \<open>A pass over the jobs that only changes the job it is at.\<close>

lemma fold_jobs:
  assumes "P q" and "distinct (map job_id js)" and "\<And>j. j \<in> set js \<Longrightarrow> job_of q (job_id j) = Some j"
    and step: "\<And>q j. P q \<Longrightarrow> job_of q (job_id j) = Some j \<Longrightarrow>
      P (f q j) \<and> (\<forall>k. k \<noteq> job_id j \<longrightarrow> job_of (f q j) k = job_of q k)"
  shows "P (foldl f q js)"
  using assms(1-3)
proof (induction js arbitrary: q)
  case (Cons j js)
  from Cons.prems have "job_of q (job_id j) = Some j" by simp
  with step Cons.prems(1) have "P (f q j)" and same: "\<And>k. k \<noteq> job_id j \<Longrightarrow> job_of (f q j) k = job_of q k" by auto
  moreover have "job_of (f q j) (job_id k) = Some k" if "k \<in> set js" for k
    using Cons.prems that by (metis (no_types, lifting) distinct.simps(2) image_eqI list.set_intros(2) list.set_map
      list.simps(9) same)
  ultimately show ?case using Cons by simp
qed simp

section \<open>The invariant of the queue\<close>

definition active :: "job_state \<Rightarrow> bool" where
  "active st \<longleftrightarrow> st \<noteq> Queued \<and> \<not> terminal st"

fun phase_state :: "phase \<Rightarrow> job_state \<Rightarrow> bool" where
  "phase_state (Releasing False) st = terminal st"
| "phase_state Dead st = True"
| "phase_state _ st = active st"

definition job_ok :: "job \<Rightarrow> bool" where
  "job_ok j \<longleftrightarrow> (if terminal (jstate j) then variables j = None else deadline j \<noteq> None)"

definition jq_inv :: "job_queue \<Rightarrow> bool" where
  "jq_inv q \<longleftrightarrow>
     distinct_keys job_id (jobs q) \<and> distinct (map fst (assigned q)) \<and> length (assigned q) \<le> max_running q \<and>
     (\<forall>i j. job_of q i = Some j \<longrightarrow> job_ok j \<and> (active (jstate j) \<longrightarrow> map_of (assigned q) (device_id j) = Some i)) \<and>
     (\<forall>i p. map_of (workers q) i = Some p \<longrightarrow> p \<noteq> Dead \<longrightarrow>
        (\<exists>j. job_of q i = Some j \<and> map_of (assigned q) (device_id j) = Some i \<and> phase_state p (jstate j)))"

lemma jq_inv_job:
  "jq_inv q \<Longrightarrow> job_of q i = Some j \<Longrightarrow> job_ok j \<and> (active (jstate j) \<longrightarrow> map_of (assigned q) (device_id j) = Some i)"
  by (auto simp: jq_inv_def)

lemma jq_inv_worker:
  "jq_inv q \<Longrightarrow> map_of (workers q) i = Some p \<Longrightarrow> p \<noteq> Dead \<Longrightarrow> job_of q i = Some j \<Longrightarrow>
     map_of (assigned q) (device_id j) = Some i \<and> phase_state p (jstate j)"
  unfolding jq_inv_def by fastforce

text \<open>A worker changes its own job and its own phase.\<close>

lemma inv_advance:
  assumes "jq_inv q" "job_of q (job_id j) = Some j" "map_of (workers q) (job_id j) = Some p0" "p0 \<noteq> Dead"
    and "job_id j' = job_id j" "device_id j' = device_id j" "job_ok j'" "phase_state p (jstate j')" "jstate j' \<noteq> Queued"
  shows "jq_inv (goto (job_id j) p (save_job ok j' q))"
  using assms jq_inv_worker [OF assms(1,3,4,2)]
  by (auto simp: jq_inv_def active_def distinct_put_row)

lemma inv_goto:
  assumes "jq_inv q" "job_of q (job_id j) = Some j" "map_of (workers q) (job_id j) = Some p0" "p0 \<noteq> Dead"
    and "phase_state p (jstate j)"
  shows "jq_inv (goto (job_id j) p q)"
  using assms jq_inv_worker [OF assms(1,3,4,2)] by (auto simp: jq_inv_def)

lemma inv_set_terminal:
  assumes "jq_inv q" "job_of q (job_id j) = Some j" "jstate j = Queued" "terminal st"
  shows "jq_inv (set_terminal ok st code now j q)"
proof -
  have "map_of (workers q) (job_id j) = Some p \<Longrightarrow> p \<noteq> Dead \<Longrightarrow> phase_state p Queued" for p
    using jq_inv_worker [OF assms(1) _ _ assms(2), of p] assms(3) by simp
  then have "map_of (workers q) (job_id j) = Some p \<Longrightarrow> p = Dead" for p
    by (cases p) (auto simp: active_def split: bool.splits elim: phase_state.elims)
  with assms show ?thesis
    by (auto simp: jq_inv_def set_terminal_def distinct_put_row active_def job_ok_def)
qed

lemma phase_state_simps [simp]:
  "phase_state At_start = active" "phase_state (Awaiting s t) = active" "phase_state (At_run s n) = active"
  "phase_state (Replaying s w) = active" "phase_state (Finishing b so oc) = active"
  "phase_state (Closing s oc) = active" "phase_state (Releasing True) = active"
  by (rule ext, simp)+

lemma active_simps [simp]: "active Starting" "active Running" "active Cleaning" "\<not> active Queued"
  "terminal st \<Longrightarrow> \<not> active st" "active st \<Longrightarrow> st \<noteq> Queued"
  by (auto simp: active_def)

lemma inv_set_terminal_phase:
  assumes "jq_inv q" "job_of q (job_id j) = Some j" "map_of (workers q) (job_id j) = Some p0" "p0 \<noteq> Dead"
    and "terminal st" "p = Releasing False \<or> p = Dead"
  shows "jq_inv (goto (job_id j) p (set_terminal ok st code now j q))"
proof (cases "terminal (jstate j)")
  case True
  moreover have "phase_state p (jstate j)" using assms(6) True by auto
  ultimately show ?thesis using inv_goto [OF assms(1-4)] by (simp add: set_terminal_def)
next
  case False
  have "job_ok (finish st code now j)" "phase_state p st" "st \<noteq> Queued"
    using assms(5,6) by (auto simp: job_ok_def)
  with False show ?thesis
    using inv_advance [OF assms(1-4), of "finish st code now j" p] by (simp add: set_terminal_def)
qed

text \<open>The state of the worker's job in the phases before the release.\<close>

lemma worker_job:
  assumes "jq_inv q" "job_of q (job_id j) = Some j" "map_of (workers q) (job_id j) = Some p"
    and "phase_state p = active"
  shows "active (jstate j)" "deadline j \<noteq> None" "p \<noteq> Dead"
proof -
  show "p \<noteq> Dead"
  proof
    assume "p = Dead"
    with assms(4) have "phase_state Dead = active" by blast
    from fun_cong [OF this, of Queued] have "active Queued" by (simp only: phase_state.simps)
    then show False by simp
  qed
  with assms have "active (jstate j)" using jq_inv_worker [OF assms(1,3) _ assms(2)] by simp
  moreover have "job_ok j" using jq_inv_job [OF assms(1,2)] by simp
  ultimately show "active (jstate j)" "deadline j \<noteq> None" by (auto simp: job_ok_def active_def)
qed

lemma inv_moves:
  assumes "jq_inv q" "job_of q (job_id j) = Some j" "map_of (workers q) (job_id j) = Some p0"
    and "phase_state p0 = active"
  shows inv_move: "phase_state p = active \<Longrightarrow> jq_inv (goto (job_id j) p q)"
    and inv_save: "phase_state p = active \<Longrightarrow> job_id j' = job_id j \<Longrightarrow> device_id j' = device_id j \<Longrightarrow>
      active (jstate j') \<Longrightarrow> deadline j' = deadline j \<Longrightarrow> jq_inv (goto (job_id j) p (save_job ok j' q))"
proof -
  note w = worker_job [OF assms]
  show "jq_inv (goto (job_id j) p q)" if "phase_state p = active"
    using inv_goto [OF assms(1-3) w(3)] w(1) that by simp
  show "jq_inv (goto (job_id j) p (save_job ok j' q))" if "phase_state p = active" and
    "job_id j' = job_id j" "device_id j' = device_id j" "active (jstate j')" "deadline j' = deadline j"
  proof (rule inv_advance [OF assms(1-3) w(3) that(2,3)])
    show "job_ok j'" using w(2) that(4,5) by (auto simp: job_ok_def active_def)
    show "phase_state p (jstate j')" "jstate j' \<noteq> Queued" using that by auto
  qed
qed

lemma w_start_inv:
  assumes "jq_inv q" "job_of q (job_id j) = Some j" "map_of (workers q) (job_id j) = Some At_start"
  shows "jq_inv (w_start ok clk auth rec session j q)"
  using worker_job(1) [OF assms] by (simp add: w_start_def escape_to_def inv_moves [OF assms] split: reply.split)

lemma w_await_inv:
  assumes "jq_inv q" "job_of q (job_id j) = Some j" "map_of (workers q) (job_id j) = Some (Awaiting s limit)"
  shows "jq_inv (w_await ok late clk clk' session claim s limit j q)"
  using assms(1) by (simp add: w_await_def escape_to_def stop_with_def inv_moves [OF assms] split: reply.split)

lemma w_run_inv:
  assumes "jq_inv q" "job_of q (job_id j) = Some j" "map_of (workers q) (job_id j) = Some (At_run s run)"
  shows "jq_inv (w_run late clk rec control replay s run j q)"
  unfolding w_run_def Let_def by (rule inv_move [OF assms]) (auto simp: stop_with_def split: reply.split)

definition add_result :: "job \<Rightarrow> replay_wait \<Rightarrow> replay_result \<Rightarrow> job" where
  "add_result j w r = j\<lparr>results := results j @ [\<lparr>run_no = wait_run w, result_replay = wait_replay w,
     receipts = res_receipts r\<rparr>], completed_runs := wait_run w\<rparr>"

text \<open>The four ways a round of the replay wait ends.\<close>

lemma w_replay_cases:
  obtains (wait) w' where "wait_round (cancel_set q (job_id j)) clk clk' sess art w j = (None, w')"
      "w_replay ok late clk clk' sess art s w j q = goto (job_id j) (Replaying s w') q"
  | (run) r w' where "wait_round (cancel_set q (job_id j)) clk clk' sess art w j = (Some r, w')"
      "\<not> res_timed_out r" "res_state r = Some ''actions_replayed''"
      "w_replay ok late clk clk' sess art s w j q =
        goto (job_id j) (if ok then At_run s (wait_run w' + 1) else escape_to s) (save_job ok (add_result j w' r) q)"
  | (escaped) r w' where "wait_round (cancel_set q (job_id j)) clk clk' sess art w j = (Some r, w')"
      "res_state r = None" "w_replay ok late clk clk' sess art s w j q = goto (job_id j) (escape_to s) q"
  | (stopped) st code where "st = Failed \<or> st = Cancelled" "code \<in> set SAFE_CODES"
      "w_replay ok late clk clk' sess art s w j q = goto (job_id j) (stop_with s st code) q"
proof -
  obtain o' w' where round: "wait_round (cancel_set q (job_id j)) clk clk' sess art w j = (o', w')" by force
  have codes: "''timeout'' \<in> set SAFE_CODES" "''cancelled'' \<in> set SAFE_CODES" "''replay_cancelled'' \<in> set SAFE_CODES"
    "''injection_unknown'' \<in> set SAFE_CODES" "''replay_failed'' \<in> set SAFE_CODES"
    by (simp_all add: SAFE_CODES_def)
  show thesis
  proof (cases o')
    case None
    with round wait [of w'] show ?thesis by (simp add: w_replay_def)
  next
    case (Some r)
    note r = round [unfolded Some]
    show ?thesis
    proof (cases "res_timed_out r")
      case True
      with r stopped [of Failed "''timeout''"] codes show ?thesis by (simp add: w_replay_def)
    next
      case False
      show ?thesis
      proof (cases "res_state r")
        case None
        with r False escaped show ?thesis by (simp add: w_replay_def)
      next
        case (Some st)
        consider "st = ''actions_replayed''" | "st = ''cancelled''" | "st \<noteq> ''actions_replayed''" "st \<noteq> ''cancelled''" by blast
        then show ?thesis
        proof cases
          case 1
          with r False Some run show ?thesis by (simp add: w_replay_def add_result_def)
        next
          case 2
          with r False Some codes
            stopped [of Cancelled "if late \<or> cancel_set q (job_id j) then ''cancelled'' else ''replay_cancelled''"]
          show ?thesis by (simp add: w_replay_def)
        next
          case 3
          with r False Some codes
            stopped [of Failed "if res_unknown r then ''injection_unknown'' else ''replay_failed''"]
          show ?thesis by (simp add: w_replay_def)
        qed
      qed
    qed
  qed
qed

lemma w_replay_inv:
  assumes "jq_inv q" "job_of q (job_id j) = Some j" "map_of (workers q) (job_id j) = Some (Replaying s w)"
  shows "jq_inv (w_replay ok late clk clk' sess art s w j q)"
  using worker_job(1) [OF assms]
  by (cases rule: w_replay_cases [of q j clk clk' sess art w ok late s])
    (simp_all add: escape_to_def stop_with_def add_result_def inv_moves [OF assms])

text \<open>Only the final states an outcome names are written.\<close>

fun phase_outcome :: "phase \<Rightarrow> bool" where
  "phase_outcome (Finishing _ _ oc) = terminal (fst oc)"
| "phase_outcome (Closing _ oc) = terminal (fst oc)"
| "phase_outcome _ = True"

definition outcomes_inv :: "job_queue \<Rightarrow> bool" where
  "outcomes_inv q \<longleftrightarrow> (\<forall>i p. map_of (workers q) i = Some p \<longrightarrow> phase_outcome p)"

lemma w_finish_inv:
  assumes "jq_inv q" "job_of q (job_id j) = Some j" "map_of (workers q) (job_id j) = Some (Finishing retry session oc)"
    and "terminal (fst oc)"
  shows "jq_inv (w_finish ok now retry session oc j q)"
  using inv_set_terminal_phase [OF assms(1-3) _ assms(4)]
  by (simp add: w_finish_def inv_moves [OF assms(1-3)] split: option.split)

lemma w_close_inv:
  assumes "jq_inv q" "job_of q (job_id j) = Some j" "map_of (workers q) (job_id j) = Some (Closing s oc)"
    and "terminal (fst oc)"
  shows "jq_inv (w_close ok now session_closed oc j q)"
  using inv_set_terminal_phase [OF assms(1-3)] assms(4) by (simp add: w_close_def)

lemma distinct_AList_delete: "distinct (map fst xs) \<Longrightarrow> distinct (map fst (AList.delete k xs))"
  by (rule AList.distinct_delete)

lemma length_AList_update:
  "map_of xs k = None \<Longrightarrow> length (AList.update k v xs) = Suc (length xs)"
  by (induction xs) auto

lemma length_AList_delete_le: "length (AList.delete k xs) \<le> length xs"
  by (rule AList.length_delete_le)

lemma w_release_inv:
  assumes inv: "jq_inv q" and job: "job_of q (job_id j) = Some j"
    and work: "map_of (workers q) (job_id j) = Some (Releasing retry)"
  shows "jq_inv (w_release clk now retry j q)"
proof -
  have dev: "map_of (assigned q) (device_id j) = Some (job_id j)" and st: "phase_state (Releasing retry) (jstate j)"
    using jq_inv_worker [OF inv work _ job] by auto
  let ?q1 = "q\<lparr>assigned := AList.delete (device_id j) (assigned q), workers := AList.delete (job_id j) (workers q),
            cancels := AList.delete (job_id j) (cancels q)\<rparr>"
  have jok: "job_ok j" using jq_inv_job [OF inv job] by simp
  have put: "jq_inv q'"
    if q': "assigned q' = assigned ?q1" "workers q' = workers ?q1" "max_running q' = max_running q"
      "jobs q' = put_row j' (jobs q)"
      and j': "job_id j' = job_id j" "device_id j' = device_id j" "job_ok j'" "\<not> active (jstate j')" for j' q'
  proof -
    have look: "job_of q' i = (if i = job_id j then Some j' else job_of q i)" for i
      using q' j' by (simp add: job_of_def lookup_put_row)
    have "distinct (map fst (AList.delete (device_id j) (assigned q)))"
      "length (AList.delete (device_id j) (assigned q)) \<le> max_running q"
      using inv length_AList_delete_le [of "device_id j" "assigned q"]
      by (auto simp: jq_inv_def intro: distinct_AList_delete)
    moreover have "map_of (AList.delete (device_id j) (assigned q)) (device_id k) = Some i"
      if "job_of q i = Some k" "i \<noteq> job_id j" "active (jstate k)" for i k
      using jq_inv_job [OF inv that(1)] that dev by (auto simp: AList.delete_conv')
    moreover have "i \<noteq> job_id j \<and> (\<exists>k. job_of q i = Some k \<and>
        map_of (AList.delete (device_id j) (assigned q)) (device_id k) = Some i \<and> phase_state p (jstate k))"
      if "map_of (AList.delete (job_id j) (workers q)) i = Some p" "p \<noteq> Dead" for i p
    proof -
      from that(1) have w: "map_of (workers q) i = Some p" "i \<noteq> job_id j"
        by (auto simp: AList.delete_conv' split: if_splits)
      with inv that(2) obtain k where "job_of q i = Some k" "map_of (assigned q) (device_id k) = Some i"
        "phase_state p (jstate k)" unfolding jq_inv_def by blast
      with w(2) dev show ?thesis by (auto simp: AList.delete_conv')
    qed
    ultimately show ?thesis using inv j' q' unfolding jq_inv_def look
      by (simp add: distinct_put_row)
  qed
  show ?thesis
  proof (cases retry)
    case True
    with st have live: "\<not> terminal (jstate j)" "deadline j \<noteq> None"
      using jok by (auto simp: active_def job_ok_def)
    show ?thesis
    proof (cases "cancel_set q (job_id j) \<or> closed q")
      case True
      with live \<open>retry\<close> show ?thesis
        by (intro put [of _ "finish Cancelled (Some ''cancelled'') now j"])
          (simp_all add: w_release_def Let_def set_terminal_def job_ok_def)
    next
      case False
      with live \<open>retry\<close> show ?thesis
        by (intro put [of _ "j\<lparr>jstate := Queued, started_at := None\<rparr>"])
          (simp_all add: w_release_def Let_def job_ok_def)
    qed
  next
    case False
    with st have "terminal (jstate j)" by simp
    with False show ?thesis
      by (intro put [of _ "j\<lparr>variables := None\<rparr>"]) (simp_all add: w_release_def Let_def job_ok_def put_job_def)
  qed
qed

lemma jq_inv_cong:
  "jobs q' = jobs q \<Longrightarrow> assigned q' = assigned q \<Longrightarrow> workers q' = workers q \<Longrightarrow> max_running q' = max_running q \<Longrightarrow>
     jq_inv q \<Longrightarrow> jq_inv q'"
  by (simp add: jq_inv_def job_of_def)

text \<open>A new job, and a change of a job that leaves its state and its device alone.\<close>

lemma inv_new:
  assumes "jq_inv q" "job_of q (job_id j) = None" "jstate j = Queued" "job_ok j"
  shows "jq_inv (persist j (put_job j q))"
proof -
  have "map_of (workers q) (job_id j) = Some p \<Longrightarrow> p = Dead" for p
    using assms(1,2) unfolding jq_inv_def by fastforce
  with assms show ?thesis unfolding jq_inv_def by (auto simp: distinct_put_row)
qed

lemma inv_same_state:
  assumes "jq_inv q" "job_of q (job_id j) = Some j" "job_id j' = job_id j" "device_id j' = device_id j"
    and "jstate j' = jstate j" "job_ok j'"
  shows "jq_inv (save_job ok j' q)"
proof -
  have "map_of (workers q) (job_id j) = Some p \<Longrightarrow> p \<noteq> Dead \<Longrightarrow> map_of (assigned q) (device_id j) = Some (job_id j) \<and>
      phase_state p (jstate j)" for p
    using jq_inv_worker [OF assms(1) _ _ assms(2)] by blast
  moreover have "active (jstate j) \<Longrightarrow> map_of (assigned q) (device_id j) = Some (job_id j)"
    using jq_inv_job [OF assms(1,2)] by blast
  ultimately show ?thesis using assms unfolding jq_inv_def by (simp add: distinct_put_row)
qed

lemma submit_commit_inv:
  assumes "jq_inv q" "job_of q i = None"
  shows "jq_inv (snd (submit_commit s fp rec i now clk bound q))"
proof -
  have id: "job_id (new_job s fp rec i now clk n) = i" for n by (simp add: new_job_def)
  have "jq_inv (q\<lparr>next_order := n\<rparr>)" "jq_inv (q\<lparr>next_order := n, request_index := x\<rparr>)" for n x
    using assms(1) by (auto intro: jq_inv_cong)
  then show ?thesis using assms
    by (auto simp: submit_commit_def Let_def id split: sum.split option.split
        intro!: inv_new) (simp_all add: new_job_def job_ok_def)
qed

lemma owned_Inr: "owned q i owner = Inr j \<Longrightarrow> job_of q (job_id j) = Some j \<and> i = PStr (job_id j) \<and> job_owner j = owner"
  by (auto simp: owned_def ensure_def dest: job_of_id split: pyval.splits if_splits option.splits)

lemma cancel_job_inv: "jq_inv q \<Longrightarrow> jq_inv (snd (cancel_job i owner now q))"
proof -
  assume inv: "jq_inv q"
  have "jq_inv (save_job True (j\<lparr>cancel_requested := True\<rparr>) (q\<lparr>cancels := c\<rparr>))"
    if "job_of q (job_id j) = Some j" for j c
  proof (rule inv_same_state)
    show "jq_inv (q\<lparr>cancels := c\<rparr>)" using inv by (auto intro: jq_inv_cong)
    show "job_of (q\<lparr>cancels := c\<rparr>) (job_id j) = Some j" using that by simp
    show "job_ok (j\<lparr>cancel_requested := True\<rparr>)" using jq_inv_job [OF inv that] by (simp add: job_ok_def)
  qed simp_all
  with inv show ?thesis
    by (auto simp: cancel_job_def Let_def dest!: owned_Inr intro!: inv_set_terminal split: sum.split)
qed

lemma set_terminal_frame [simp]:
  "k \<noteq> job_id j \<Longrightarrow> job_of (set_terminal ok st code now j q) k = job_of q k"
  "workers (set_terminal ok st code now j q) = workers q" "assigned (set_terminal ok st code now j q) = assigned q"
  "max_running (set_terminal ok st code now j q) = max_running q"
  by (simp_all add: set_terminal_def)

lemma jobs_distinct: "jq_inv q \<Longrightarrow> distinct (map job_id (jobs q))"
  by (simp add: jq_inv_def distinct_keys_def)

lemma jobs_lookup: "jq_inv q \<Longrightarrow> j \<in> set (jobs q) \<Longrightarrow> job_of q (job_id j) = Some j"
  by (simp add: jq_inv_def job_of_def tbl_lookup_unique)

lemma expire_inv: "jq_inv q \<Longrightarrow> jq_inv (expire clk now q)"
  unfolding expire_def
  by (rule fold_jobs [where P = jq_inv]) (auto simp: jobs_distinct jobs_lookup intro: inv_set_terminal)

lemma start_job_inv:
  assumes inv: "jq_inv q" and job: "job_of q (job_id j) = Some j" and st: "jstate j = Queued"
    and dev: "device_id j \<notin> set (map fst (assigned q))" and room: "length (assigned q) < max_running q"
  shows "jq_inv (start_job now j q)"
proof -
  have none: "map_of (assigned q) (device_id j) = None" using dev by (simp add: map_of_eq_None_iff)
  then have "length (AList.update (device_id j) (job_id j) (assigned q)) \<le> max_running q"
    using room by (simp add: length_AList_update)
  moreover have other: "device_id k \<noteq> device_id j" if "map_of (assigned q) (device_id k) = Some i" for k i
    using that none by auto
  moreover have "job_ok (j\<lparr>jstate := Starting, started_at := Some now\<rparr>)"
    using jq_inv_job [OF inv job] st by (simp add: job_ok_def)
  moreover have "map_of ((assigned q)) (device_id k) = Some i \<and> device_id k \<noteq> device_id j"
    if "job_of q i = Some k" "active (jstate k)" for i k
    using jq_inv_job [OF inv that(1)] that(2) other by blast
  moreover have "\<exists>k. job_of q i = Some k \<and> device_id k \<noteq> device_id j \<and> map_of (assigned q) (device_id k) = Some i \<and>
      phase_state p (jstate k)" if "map_of (workers q) i = Some p" "p \<noteq> Dead" for i p
    using inv that other unfolding jq_inv_def by blast
  ultimately show ?thesis using inv job unfolding jq_inv_def start_job_def
    by (simp add: distinct_put_row AList.update_conv' distinct_update) blast
qed

lemma scan_inv:
  "scan available auth clk now queued js q = (r, q') \<Longrightarrow> jq_inv q \<Longrightarrow> length (assigned q) < max_running q \<Longrightarrow>
     distinct (map job_id js) \<Longrightarrow> (\<And>j. j \<in> set js \<Longrightarrow> job_of q (job_id j) = Some j \<and> jstate j = Queued) \<Longrightarrow> jq_inv q'"
proof (induction js arbitrary: q)
  case (Cons j js)
  have j: "job_of q (job_id j) = Some j" "jstate j = Queued" using Cons.prems(5) [of j] by auto
  let ?t = "set_terminal True Failed (Some ''authorization_revoked'') now j q"
  have "jq_inv ?t" using Cons.prems(2) j by (intro inv_set_terminal) auto
  moreover have "job_of ?t (job_id k) = Some k \<and> jstate k = Queued" if "k \<in> set js" for k
    using that Cons.prems(4) Cons.prems(5) [of k] by (auto simp: image_iff)
  ultimately have "scan available auth clk now queued js ?t = (r, q') \<Longrightarrow> jq_inv q'"
    using Cons.IH [of ?t] Cons.prems(3,4) by auto
  moreover have "scan available auth clk now queued js q = (r, q') \<Longrightarrow> jq_inv q'"
    using Cons.IH [of q] Cons.prems by auto
  ultimately show ?case using Cons.prems(1) start_job_inv [OF Cons.prems(2) j _ Cons.prems(3)]
    by (auto split: if_splits)
qed auto

lemma set_queued_jobs: "set (queued_jobs q) = {j \<in> set (jobs q). jstate j = Queued}"
  by (auto simp: queued_jobs_def)

lemma distinct_queued_jobs: "jq_inv q \<Longrightarrow> distinct (map job_id (queued_jobs q))"
proof -
  assume "jq_inv q"
  then have "distinct (map job_id (filter (\<lambda>j. jstate j = Queued) (jobs q)))"
    using jobs_distinct distinct_map_filter by blast
  then show ?thesis unfolding queued_jobs_def by (simp add: distinct_map inj_on_def)
qed

lemma dispatch_inv: "jq_inv q \<Longrightarrow> jq_inv (snd (dispatch available auth clk now q))"
proof -
  assume "jq_inv q"
  then have inv: "jq_inv (expire clk now q)" by (rule expire_inv)
  let ?s = "scan available auth clk now (queued_jobs (expire clk now q)) (queued_jobs (expire clk now q)) (expire clk now q)"
  have "jq_inv (snd ?s)" if "length (assigned (expire clk now q)) < max_running (expire clk now q)"
    by (rule scan_inv [of available auth clk now _ _ _ "fst ?s", OF _ inv that distinct_queued_jobs [OF inv]])
      (auto simp: set_queued_jobs jobs_lookup [OF inv])
  with inv show ?thesis by (simp add: dispatch_def Let_def)
qed


lemma close_begin_inv: "jq_inv q \<Longrightarrow> jq_inv (close_begin now q)"
proof -
  assume inv: "jq_inv q"
  have closed: "jq_inv (q\<lparr>closed := True\<rparr>)" using inv by (auto intro: jq_inv_cong)
  have cancel: "jq_inv (q'\<lparr>cancels := c\<rparr>)" if "jq_inv q'" for q' c using that by (auto intro: jq_inv_cong)
  show ?thesis unfolding close_begin_def using inv
    by (auto intro!: fold_jobs [where P = jq_inv] simp: closed jobs_distinct jobs_lookup cancel inv_set_terminal)
qed

lemma close_end_inv: "jq_inv q \<Longrightarrow> jq_inv (close_end q)"
proof -
  assume inv: "jq_inv q"
  let ?P = "\<lambda>q'. jq_inv q' \<and> workers q' = workers q"
  have "?P (close_end q)" unfolding close_end_def
  proof (rule fold_jobs [where P = ?P])
    show "?P q" using inv by simp
    show "distinct (map job_id (jobs q))" using inv by (rule jobs_distinct)
    show "job_of q (job_id j) = Some j" if "j \<in> set (jobs q)" for j using inv that by (rule jobs_lookup)
    fix q' j
    assume P: "?P q'" and job: "job_of q' (job_id j) = Some j"
    let ?j' = "j\<lparr>jstate := Cleaning, error_code := Some ''shutdown_timeout''\<rparr>"
    have "jq_inv (save_job True ?j' q')" if "\<not> terminal (jstate j)" "worker_alive q (job_id j)"
    proof -
      from that(2) P obtain p where p: "map_of (workers q') (job_id j) = Some p" "p \<noteq> Dead"
        by (auto simp: worker_alive_def split: option.splits)
      with jq_inv_worker [OF _ p job] P that(1) have a: "map_of (assigned q') (device_id j) = Some (job_id j)"
        "phase_state p (jstate j)" by auto
      with that(1) p(2) have st: "phase_state p = active \<or> p = Releasing True"
        by (cases p) (auto split: if_splits) 
      moreover have "job_ok ?j'" using jq_inv_job [OF _ job] P that(1) by (simp add: job_ok_def)
      ultimately show ?thesis using P a p job unfolding jq_inv_def
        by (auto simp: distinct_put_row)
    qed
    with P show "?P (if \<not> terminal (jstate j) \<and> worker_alive q (job_id j) then save_job True ?j' q' else q') \<and>
        (\<forall>k. k \<noteq> job_id j \<longrightarrow> job_of (if \<not> terminal (jstate j) \<and> worker_alive q (job_id j)
          then save_job True ?j' q' else q') k = job_of q' k)"
      by simp
  qed
  then show ?thesis by simp
qed


lemma fold_workers:
  "(\<And>q j. workers (f q j) = workers q) \<Longrightarrow> workers (foldl f q js) = workers q"
  by (induction js arbitrary: q) simp_all

lemma start_job_workers [simp]: "map_of (workers (start_job now j q)) = (map_of (workers q))(job_id j \<mapsto> At_start)"
  by (simp add: start_job_def AList.update_conv')

lemma scan_workers:
  "map_of (workers (snd (scan available auth clk now queued js q))) i = Some p \<Longrightarrow>
     map_of (workers q) i = Some p \<or> p = At_start"
proof (induction js arbitrary: q)
  case (Cons j js)
  have "map_of (workers (start_job now j q)) i = Some p \<Longrightarrow> map_of (workers q) i = Some p \<or> p = At_start"
    by (auto split: if_splits)
  then show ?case
    using Cons.IH [of q] Cons.IH [of "set_terminal True Failed (Some ''authorization_revoked'') now j q"] Cons.prems
    by (simp split: if_splits)
qed simp

lemma workers_same [simp]:
  "workers (expire clk now q) = workers q" "workers (close_begin now q) = workers q" "workers (close_end q) = workers q"
  "workers (snd (submit_commit s fp rec i now clk bound q)) = workers q"
  "workers (snd (cancel_job c owner now q)) = workers q"
proof -
  show "workers (expire clk now q) = workers q" unfolding expire_def by (rule fold_workers) simp
  have "workers (foldl (\<lambda>q' j. if jstate j = Queued then set_terminal True Cancelled (Some ''cancelled'') now j q'
      else if terminal (jstate j) then q' else q'\<lparr>cancels := AList.update (job_id j) True (cancels q')\<rparr>) r js) = workers r"
    for r js by (rule fold_workers) simp
  then show "workers (close_begin now q) = workers q" by (simp add: close_begin_def)
  show "workers (close_end q) = workers q" unfolding close_end_def by (rule fold_workers) simp
  show "workers (snd (submit_commit s fp rec i now clk bound q)) = workers q"
    by (simp add: submit_commit_def Let_def split: sum.split option.split)
  show "workers (snd (cancel_job c owner now q)) = workers q"
    by (simp add: cancel_job_def Let_def split: sum.split)
qed

text \<open>A worker step only touches its own entries.\<close>

lemma put_job_release [simp]:
  "k \<noteq> job_id j \<Longrightarrow> job_of (w_release clk now retry j q) k = job_of q k"
  "workers (w_release clk now retry j q) = AList.delete (job_id j) (workers q)"
  by (simp_all add: w_release_def Let_def)

lemma worker_step_frame:
  assumes "k \<noteq> i"
  shows "job_of (worker_step i x q) k = job_of q k \<and> map_of (workers (worker_step i x q)) k = map_of (workers q) k"
proof (cases "job_of q i")
  case (Some j)
  note id = job_of_id [OF Some]
  have "job_of (w_start ok clk auth rec session j q) k = job_of q k \<and>
      map_of (workers (w_start ok clk auth rec session j q)) k = map_of (workers q) k" for ok clk auth rec session
    using assms id by (simp add: w_start_def split: reply.split)
  moreover have "job_of (w_await ok late clk clk' sess claim s l j q) k = job_of q k \<and>
      map_of (workers (w_await ok late clk clk' sess claim s l j q)) k = map_of (workers q) k"
    for ok late clk clk' sess claim s l
    using assms id by (simp add: w_await_def split: reply.split)
  moreover have "job_of (w_run late clk rec control replay s run j q) k = job_of q k \<and>
      map_of (workers (w_run late clk rec control replay s run j q)) k = map_of (workers q) k"
    for late clk rec control replay s run
    using assms id by (simp add: w_run_def Let_def)
  moreover have "job_of (w_replay ok late clk clk' sess art s w j q) k = job_of q k \<and>
      map_of (workers (w_replay ok late clk clk' sess art s w j q)) k = map_of (workers q) k"
    for ok late clk clk' sess art s w
    using assms id by (cases rule: w_replay_cases [of q j clk clk' sess art w ok late s]) (simp_all add: add_result_def)
  moreover have "job_of (w_finish ok now retry sess oc j q) k = job_of q k \<and>
      map_of (workers (w_finish ok now retry sess oc j q)) k = map_of (workers q) k" for ok now retry sess oc
    using assms id by (simp add: w_finish_def split: option.split)
  moreover have "job_of (w_close ok now b oc j q) k = job_of q k \<and>
      map_of (workers (w_close ok now b oc j q)) k = map_of (workers q) k" for ok now b oc
    using assms id by (simp add: w_close_def)
  moreover have "job_of (w_release clk now retry j q) k = job_of q k \<and>
      map_of (workers (w_release clk now retry j q)) k = map_of (workers q) k" for clk now retry
    using assms id by (simp add: AList.delete_conv')
  ultimately show ?thesis using Some
    by (simp add: worker_step_def split: option.split phase.split worker_input.split)
qed (simp add: worker_step_def)


lemma outcomes_goto: "outcomes_inv q \<Longrightarrow> map_of (workers q') = map_of (workers q) \<Longrightarrow> phase_outcome p \<Longrightarrow>
    outcomes_inv (goto i p q')"
  by (simp add: outcomes_inv_def)

lemma phase_outcome_stop [simp]:
  "phase_outcome (stop_with s st code) = terminal st" "phase_outcome (escape_to s)"
  by (simp_all add: stop_with_def escape_to_def)

lemma w_replay_outcomes: "outcomes_inv q \<Longrightarrow> outcomes_inv (w_replay ok late clk clk' sess art s w j q)"
  by (cases rule: w_replay_cases [of q j clk clk' sess art w ok late s])
    (auto simp: outcomes_goto)

lemma worker_step_outcomes: "outcomes_inv q \<Longrightarrow> outcomes_inv (worker_step i x q)"
proof (cases "job_of q i")
  case (Some j)
  assume inv: "outcomes_inv q"
  have oc: "map_of (workers q) i = Some p \<Longrightarrow> phase_outcome p" for p using inv by (simp add: outcomes_inv_def)
  have "outcomes_inv (w_start ok clk auth rec sess j q)" for ok clk auth rec sess
    using inv by (simp add: w_start_def outcomes_goto split: reply.split)
  moreover have "outcomes_inv (w_await ok late clk clk' sess claim s l j q)" for ok late clk clk' sess claim s l
    using inv by (simp add: w_await_def outcomes_goto split: reply.split)
  moreover have "outcomes_inv (w_run late clk rec control replay s run j q)" for late clk rec control replay s run
    using inv by (simp add: w_run_def Let_def outcomes_goto split: reply.split)
  moreover have "outcomes_inv (w_finish ok now retry sess oc j q)" if "terminal (fst oc)" for ok now retry sess oc
    using inv that by (simp add: w_finish_def outcomes_goto split: option.split)
  moreover have "outcomes_inv (w_close ok now b oc j q)" for ok now b oc
    using inv by (simp add: w_close_def outcomes_goto)
  moreover have "outcomes_inv (w_release clk now retry j q)" for clk now retry
    using inv by (auto simp: outcomes_inv_def AList.delete_conv' split: if_splits)
  ultimately show ?thesis using Some inv oc w_replay_outcomes [OF inv]
    by (auto simp: worker_step_def split: option.split phase.split worker_input.split)
qed (simp add: worker_step_def)

lemma worker_step_inv: "jq_inv q \<Longrightarrow> outcomes_inv q \<Longrightarrow> jq_inv (worker_step i x q)"
proof (cases "job_of q i")
  case (Some j)
  assume inv: "jq_inv q" "outcomes_inv q"
  have j: "job_id j = i" "job_of q (job_id j) = Some j" using Some job_of_id by auto
  note rules = w_start_inv w_await_inv w_run_inv w_replay_inv w_release_inv
  have fin: "terminal (fst oc)" if "map_of (workers q) i = Some (Finishing r so oc) \<or> map_of (workers q) i = Some (Closing s oc)"
    for r so s oc using inv(2) that unfolding outcomes_inv_def by (metis phase_outcome.simps(1,2))
  show ?thesis
  proof (cases "map_of (workers q) i")
    case None
    with inv Some show ?thesis by (simp add: worker_step_def)
  next
    fix p assume p: "map_of (workers q) i = Some p"
    have at: "map_of (workers q) (job_id j) = Some p" using p j by simp
    show ?thesis unfolding worker_step_def Some p
      using rules [OF inv(1) j(2)] at w_finish_inv [OF inv(1) j(2)] w_close_inv [OF inv(1) j(2)] fin p inv(1)
      by (auto split: phase.split worker_input.split)
  qed
qed (simp add: worker_step_def)

lemma jq_step_inv:
  assumes "jq_inv q" "outcomes_inv q" "sound_event q ev"
  shows "jq_inv (jq_step q ev) \<and> outcomes_inv (jq_step q ev)"
proof (cases ev)
  case (Submit s fp rec i now clk bound)
  with assms show ?thesis by (simp add: submit_commit_inv sound_event_def outcomes_inv_def)
next
  case (Dispatch available auth clk now)
  have "outcomes_inv (snd (dispatch available auth clk now q))"
    using assms(2) by (auto simp: outcomes_inv_def dispatch_def Let_def dest!: scan_workers)
  with assms Dispatch show ?thesis by (simp add: dispatch_inv)
next
  case (Worker i x)
  with assms show ?thesis by (simp add: worker_step_inv worker_step_outcomes)
qed (use assms in \<open>simp_all add: cancel_job_inv close_begin_inv close_end_inv outcomes_inv_def\<close>)


text \<open>Opening the queue: the loaded jobs are final, nothing is assigned.\<close>

definition fresh_load :: "job_queue \<Rightarrow> bool" where
  "fresh_load q \<longleftrightarrow> assigned q = [] \<and> workers q = [] \<and> distinct_keys job_id (jobs q) \<and> \<not> closed q \<and>
     (\<forall>i j. job_of q i = Some j \<longrightarrow> terminal (jstate j) \<and> variables j = None \<and> fingerprint j = None)"

lemma bind_step: "bind_result r k = Inr y \<Longrightarrow> \<exists>x. r = Inr x \<and> k x = Inr y"
  by (simp add: bind_result_Inr_iff)

lemma normalise_loaded_memory:
  "normalise_loaded d = Inr j \<Longrightarrow> variables j = None \<and> fingerprint j = None \<and> deadline j = None \<and> controller j = None \<and>
     job_order j = 0"
  unfolding normalise_loaded_def
  by (drule bind_step, elim exE conjE)+ (auto simp: invalid_request_def split: if_splits)

lemma load_file_memory: "load_file f = Inr (Some j) \<Longrightarrow> variables j = None \<and> fingerprint j = None \<and> deadline j = None"
  by (auto simp: load_file_def dest: normalise_loaded_memory split: option.splits pyval.splits if_splits sum.splits)

lemma interrupt_simps [simp]:
  "job_id (interrupt now j) = job_id j" "terminal (jstate (interrupt now j))"
  "variables (interrupt now j) = variables j" "fingerprint (interrupt now j) = fingerprint j"
  by (simp_all add: interrupt_def)

lemma load_job_fresh:
  "fresh_load q \<Longrightarrow> variables j = None \<Longrightarrow> fingerprint j = None \<Longrightarrow> fresh_load (load_job now j q)"
  by (auto simp: fresh_load_def load_job_def Let_def distinct_put_row split: if_splits)

lemma load_files_fresh: "load_files now fs q = Inr q' \<Longrightarrow> fresh_load q \<Longrightarrow> fresh_load q'"
proof (induction fs arbitrary: q)
  case (Cons f fs)
  then obtain r where r: "load_file f = Inr r"
    and rest: "load_files now fs (case r of None \<Rightarrow> q | Some j \<Rightarrow> load_job now j q) = Inr q'"
    by (auto simp: bind_result_Inr_iff)
  from r Cons.prems(2) have "fresh_load (case r of None \<Rightarrow> q | Some j \<Rightarrow> load_job now j q)"
    by (auto split: option.split dest!: load_file_memory intro: load_job_fresh)
  with Cons.IH rest show ?case by blast
qed simp

lemma open_queue_fresh: "open_queue running pending poll startup now files = Inr q \<Longrightarrow> fresh_load q"
  unfolding open_queue_def ensure_Inr_iff
  by (elim conjE, erule load_files_fresh) (simp add: fresh_load_def empty_queue_def job_of_def distinct_keys_def)

lemma fresh_load_inv: "fresh_load q \<Longrightarrow> jq_inv q \<and> outcomes_inv q"
  by (auto simp: fresh_load_def jq_inv_def outcomes_inv_def job_ok_def)

lemma reach_inv: "jq_reach faults q \<Longrightarrow> jq_inv q \<and> outcomes_inv q"
proof (induction rule: jq_reach.induct)
  case (reach_open running pending poll startup now files q)
  then show ?case using open_queue_fresh fresh_load_inv by blast
next
  case (reach_event q ev)
  then show ?case using jq_step_inv by blast
qed

section \<open>Final states stay\<close>

lemma fold_keeps:
  assumes "job_of q i = Some j" and "\<And>q k. job_of q i = Some j \<Longrightarrow> k \<in> set js \<Longrightarrow> job_of (f q k) i = Some j"
  shows "job_of (foldl f q js) i = Some j"
  using assms by (induction js arbitrary: q) auto

lemma terminal_other: "jq_inv q \<Longrightarrow> job_of q i = Some j \<Longrightarrow> terminal (jstate j) \<Longrightarrow> k \<in> set (jobs q) \<Longrightarrow>
    \<not> terminal (jstate k) \<Longrightarrow> job_id k \<noteq> i"
  using jobs_lookup by fastforce

lemma worker_step_terminal:
  assumes "jq_inv q" "job_of q i = Some j" "terminal (jstate j)"
  shows "job_of (worker_step k x q) i = Some j"
proof (cases "k = i")
  case False
  with assms worker_step_frame show ?thesis by metis
next
  case True
  have id: "job_id j = i" using assms(2) by (rule job_of_id)
  have idle: "j\<lparr>variables := None\<rparr> = j" using jq_inv_job [OF assms(1,2)] assms(3)
    by (simp add: job_ok_def)
  show ?thesis
  proof (cases "map_of (workers q) i")
    case None
    then show ?thesis using assms True by (simp add: worker_step_def)
  next
    case (Some p)
    have "p = Dead \<or> p = Releasing False"
      using jq_inv_worker [OF assms(1) Some _ assms(2)] assms(3)
      by (cases p) (auto simp: active_def split: bool.splits)
    then show ?thesis using assms True Some id idle
      by (auto simp: worker_step_def w_release_def Let_def split: worker_input.split)
  qed
qed

lemma scan_terminal:
  "job_of q i = Some j \<Longrightarrow> (\<And>k. k \<in> set js \<Longrightarrow> job_id k \<noteq> i) \<Longrightarrow>
     job_of (snd (scan available auth clk now queued js q)) i = Some j"
  by (induction js arbitrary: q) (auto simp: start_job_def)


lemma expire_terminal: "jq_inv q \<Longrightarrow> job_of q i = Some j \<Longrightarrow> terminal (jstate j) \<Longrightarrow> job_of (expire clk now q) i = Some j"
  unfolding expire_def by (rule fold_keeps) (auto dest: terminal_other)

lemma dispatch_terminal:
  assumes "jq_inv q" "job_of q i = Some j" "terminal (jstate j)"
  shows "job_of (snd (dispatch available auth clk now q)) i = Some j"
proof -
  have e: "jq_inv (expire clk now q)" "job_of (expire clk now q) i = Some j"
    using assms expire_inv expire_terminal by auto
  moreover have "job_id k \<noteq> i" if "k \<in> set (queued_jobs (expire clk now q))" for k
    using that terminal_other [OF e assms(3), of k] by (auto simp: set_queued_jobs)
  ultimately show ?thesis by (simp add: dispatch_def Let_def scan_terminal)
qed

lemma close_begin_terminal:
  "jq_inv q \<Longrightarrow> job_of q i = Some j \<Longrightarrow> terminal (jstate j) \<Longrightarrow> job_of (close_begin now q) i = Some j"
proof -
  assume inv: "jq_inv q" and j: "job_of q i = Some j" "terminal (jstate j)"
  have "\<not> terminal (jstate k) \<Longrightarrow> k \<in> set (jobs q) \<Longrightarrow> i \<noteq> job_id k" for k
    using terminal_other [OF inv j] by blast
  then show ?thesis unfolding close_begin_def using j by (auto intro!: fold_keeps)
qed

lemma close_end_terminal:
  "jq_inv q \<Longrightarrow> job_of q i = Some j \<Longrightarrow> terminal (jstate j) \<Longrightarrow> job_of (close_end q) i = Some j"
  unfolding close_end_def by (rule fold_keeps) (auto dest: terminal_other)

lemma cancel_terminal:
  "job_of q i = Some j \<Longrightarrow> terminal (jstate j) \<Longrightarrow> job_of (snd (cancel_job c owner now q)) i = Some j"
proof (cases "owned q c owner")
  case (Inr k)
  assume j: "job_of q i = Some j" "terminal (jstate j)"
  from owned_Inr [OF Inr] have k: "job_of q (job_id k) = Some k" by simp
  then have "\<not> terminal (jstate k) \<Longrightarrow> i \<noteq> job_id k" using j by auto
  with Inr j show ?thesis by (simp add: cancel_job_def Let_def)
qed (simp add: cancel_job_def)

lemma submit_commit_other:
  "job_of q i = Some j \<Longrightarrow> job_of q n = None \<Longrightarrow> job_of (snd (submit_commit s fp rec n now clk bound q)) i = Some j"
proof -
  assume "job_of q i = Some j" "job_of q n = None"
  then have "i \<noteq> n" by auto
  moreover have "job_id (new_job s fp rec n now clk ord) = n" for ord by (simp add: new_job_def)
  ultimately show ?thesis using \<open>job_of q i = Some j\<close>
    by (simp add: submit_commit_def Let_def split: sum.split option.split)
qed

lemma jq_step_terminal:
  "jq_inv q \<Longrightarrow> sound_event q ev \<Longrightarrow> job_of q i = Some j \<Longrightarrow> terminal (jstate j) \<Longrightarrow> job_of (jq_step q ev) i = Some j"
  by (cases ev) (simp_all add: sound_event_def submit_commit_other cancel_terminal dispatch_terminal
      worker_step_terminal close_begin_terminal close_end_terminal)

lemma run_terminal:
  "jq_run faults q q' \<Longrightarrow> jq_inv q \<and> outcomes_inv q \<Longrightarrow> job_of q i = Some j \<Longrightarrow> terminal (jstate j) \<Longrightarrow>
     (jq_inv q' \<and> outcomes_inv q') \<and> job_of q' i = Some j"
  by (induction rule: jq_run.induct) (auto simp: jq_step_inv jq_step_terminal)

section \<open>Dispatch in order\<close>

lemma scan_some:
  "scan available auth clk now queued js q = (Some i, q') \<Longrightarrow> (\<And>k. k \<in> set js \<Longrightarrow> job_of q (job_id k) = Some k) \<Longrightarrow>
     distinct (map job_id js) \<Longrightarrow>
     \<exists>j q1. j \<in> set js \<and> job_id j = i \<and> device_id j \<notin> set (map fst (assigned q)) \<and> device_id j \<in> set available \<and>
       oldest_for_device q1 queued j \<and> (project_id j \<noteq> None \<longrightarrow> auth i = Answer ()) \<and> q' = start_job now j q1 \<and>
       assigned q1 = assigned q \<and> (\<forall>k. is_queued q1 k \<longrightarrow> job_of q1 k = job_of q k)"
proof (induction js arbitrary: q)
  case (Cons j js)
  let ?t = "set_terminal True Failed (Some ''authorization_revoked'') now j q"
  let ?P = "\<lambda>q j q1. job_id j = i \<and> device_id j \<notin> set (map fst (assigned q)) \<and> device_id j \<in> set available \<and>
       oldest_for_device q1 queued j \<and> (project_id j \<noteq> None \<longrightarrow> auth i = Answer ()) \<and> q' = start_job now j q1 \<and>
       assigned q1 = assigned q \<and> (\<forall>k. is_queued q1 k \<longrightarrow> job_of q1 k = job_of q k)"
  have j: "job_of q (job_id j) = Some j" using Cons.prems(2) by simp
  have keep: "job_of ?t (job_id k) = Some k" if "k \<in> set js" for k
    using that Cons.prems(2,3) by (auto simp: image_iff)
  have less: "is_queued ?t k \<Longrightarrow> job_of ?t k = job_of q k" for k
    using j by (auto simp: is_queued_def set_terminal_def split: option.splits if_splits)
  show ?case
  proof (cases "scan available auth clk now queued js q = (Some i, q')")
    case True
    have "distinct (map job_id js)" using Cons.prems(3) by simp
    from Cons.IH [OF True _ this] Cons.prems(2) obtain j' q1 where "j' \<in> set js" "?P q j' q1" by auto
    then show ?thesis by (intro exI [of _ j'] exI [of _ q1]) simp
  next
    case False
    show ?thesis
    proof (cases "scan available auth clk now queued js ?t = (Some i, q')")
      case True
      have "distinct (map job_id js)" using Cons.prems(3) by simp
      from Cons.IH [OF True keep this] obtain j' q1 where "j' \<in> set js" "?P ?t j' q1" by auto
      moreover from this have "job_of q1 k = job_of q k" if "is_queued q1 k" for k
        using less [of k] that by (simp add: is_queued_def)
      ultimately show ?thesis by (intro exI [of _ j'] exI [of _ q1]) simp
    next
      case ne: False
      with False Cons.prems(1) have "device_id j \<notin> set (map fst (assigned q)) \<and> device_id j \<in> set available \<and>
        oldest_for_device q queued j \<and> (project_id j \<noteq> None \<longrightarrow> auth (job_id j) = Answer ()) \<and>
        job_id j = i \<and> q' = start_job now j q"
        by (simp split: if_splits) auto
      then show ?thesis by (intro exI [of _ j] exI [of _ q]) auto
    qed
  qed
qed simp


lemma expire_assigned [simp]: "assigned (expire clk now q) = assigned q"
proof -
  have "assigned (foldl (\<lambda>q' j. if jstate j = Queued \<and> past clk (deadline j)
      then set_terminal True Failed (Some ''timeout'') now j q' else q') r js) = assigned r" for r js
    by (induction js arbitrary: r) simp_all
  then show ?thesis by (simp add: expire_def)
qed

lemma set_terminal_queued:
  "job_of (set_terminal ok st code now k q) i = Some j \<Longrightarrow> jstate j \<noteq> st \<Longrightarrow> job_of q i = Some j"
  by (cases "i = job_id k"; cases "terminal (jstate k)") (auto simp: set_terminal_def)

lemma expire_queued: "job_of (expire clk now q) i = Some j \<Longrightarrow> jstate j = Queued \<Longrightarrow> job_of q i = Some j"
proof -
  assume queued: "jstate j = Queued"
  let ?f = "\<lambda>q' j. if jstate j = Queued \<and> past clk (deadline j)
      then set_terminal True Failed (Some ''timeout'') now j q' else q'"
  have one: "job_of (?f r k) i = Some j \<Longrightarrow> job_of r i = Some j" for r k
    using set_terminal_queued [of True Failed "Some ''timeout''" now k r i j] queued
    by (cases "jstate k = Queued \<and> past clk (deadline k)") simp_all
  have "job_of (foldl ?f r js) i = Some j \<Longrightarrow> job_of r i = Some j" for r js
  proof (induction js arbitrary: r)
    case (Cons k js)
    from Cons.prems have "job_of (foldl ?f (?f r k) js) i = Some j" by (simp only: foldl_Cons)
    then have "job_of (?f r k) i = Some j" by (rule Cons.IH)
    then show ?case by (rule one)
  qed (simp only: foldl_Nil)
  then show "job_of (expire clk now q) i = Some j \<Longrightarrow> job_of q i = Some j" by (simp only: expire_def)
qed

section \<open>Requests are idempotent\<close>

text \<open>No step but a new submission changes the index, and no job is ever removed.\<close>

definition keeps :: "job_queue \<Rightarrow> job_queue \<Rightarrow> bool" where
  "keeps q q' \<longleftrightarrow> request_index q' = request_index q \<and> (\<forall>k. job_of q k \<noteq> None \<longrightarrow> job_of q' k \<noteq> None)"

lemma keeps_refl [simp]: "keeps q q" by (simp add: keeps_def)

lemma keeps_trans: "keeps q q1 \<Longrightarrow> keeps q1 q2 \<Longrightarrow> keeps q q2" by (simp add: keeps_def)

lemma keeps_simps [simp]:
  "keeps q (goto i p q') = keeps q q'" "keeps q (save_job ok j q)" "keeps q (put_job j q)"
  by (simp_all add: keeps_def goto_def)

lemma keeps_set_terminal [simp]: "keeps q (set_terminal ok st code now j q)"
  by (simp add: set_terminal_def)

lemma keeps_update: "jobs q1 = jobs q \<Longrightarrow> request_index q1 = request_index q \<Longrightarrow> keeps q1 q2 \<Longrightarrow> keeps q q2"
  by (simp add: keeps_def job_of_def)

lemma keeps_start_job [simp]: "keeps q (start_job now j q)"
  unfolding start_job_def by (rule keeps_update [OF _ _ keeps_simps(2)]) simp_all

lemma keeps_release [simp]: "keeps q (w_release clk now retry j q)"
proof -
  define q1 where "q1 = q\<lparr>assigned := AList.delete (device_id j) (assigned q), workers := AList.delete (job_id j) (workers q),
            cancels := AList.delete (job_id j) (cancels q)\<rparr>"
  have "keeps q (q1\<lparr>retry_after := x\<rparr>)" "keeps q q1" for x by (simp_all add: q1_def keeps_def)
  then show ?thesis unfolding w_release_def Let_def q1_def [symmetric]
    by (simp add: keeps_trans [OF _ keeps_simps(2)] keeps_trans [OF _ keeps_simps(3)] keeps_trans [OF _ keeps_set_terminal])
qed

lemma keeps_fold: "(\<And>q j. keeps q (f q j)) \<Longrightarrow> keeps q (foldl f q js)"
  by (induction js arbitrary: q) (auto intro: keeps_trans)

lemma keeps_scan: "keeps q (snd (scan available auth clk now queued js q))"
proof (induction js arbitrary: q)
  case (Cons j js)
  have "keeps q (snd (scan available auth clk now queued js
      (set_terminal True Failed (Some ''authorization_revoked'') now j q)))"
    by (rule keeps_trans [OF _ Cons.IH]) simp
  moreover have "keeps q (snd (scan available auth clk now queued js q))" by (rule Cons.IH)
  moreover have "keeps q (start_job now j q)" by simp
  ultimately show ?case by (simp only: scan.simps split: if_split) auto
qed simp

lemma keeps_worker_step: "keeps q (worker_step i x q)"
proof (cases "job_of q i")
  case (Some j)
  have "keeps q (w_replay ok late clk clk' sess art s w j q)" for ok late clk clk' sess art s w
    by (cases rule: w_replay_cases [of q j clk clk' sess art w ok late s]) simp_all
  moreover have "keeps q (w_start ok clk auth rec sess j q)" for ok clk auth rec sess
    by (simp add: w_start_def split: reply.split)
  moreover have "keeps q (w_await ok late clk clk' sess claim s l j q)" for ok late clk clk' sess claim s l
    by (simp add: w_await_def split: reply.split)
  moreover have "keeps q (w_run late clk rec control replay s run j q)" for late clk rec control replay s run
    by (simp add: w_run_def Let_def)
  moreover have "keeps q (w_finish ok now retry sess oc j q)" for ok now retry sess oc
    by (simp add: w_finish_def split: option.split)
  moreover have "keeps q (w_close ok now b oc j q)" for ok now b oc
    by (simp add: w_close_def)
  ultimately show ?thesis using Some
    by (simp add: worker_step_def split: option.split phase.split worker_input.split)
qed (simp add: worker_step_def)

lemma keeps_step:
  assumes "\<And>s fp rec i now clk bound. ev \<noteq> Submit s fp rec i now clk bound"
  shows "keeps q (jq_step q ev)"
proof (cases ev)
  case (Cancel i owner now)
  have save: "keeps q (save_job True j (q\<lparr>cancels := c\<rparr>))" for j c
    by (rule keeps_update [OF _ _ keeps_simps(2)]) simp_all
  show ?thesis unfolding Cancel jq_step.simps
    by (cases "owned q i owner") (simp_all add: cancel_job_def Let_def save)
next
  case (Dispatch available auth clk now)
  have "keeps q (expire clk now q)" unfolding expire_def by (rule keeps_fold) simp
  with keeps_trans [OF this keeps_scan] Dispatch show ?thesis by (simp add: dispatch_def Let_def)
next
  case (Close_begin now)
  have cl: "keeps q (q\<lparr>closed := True\<rparr>)" "keeps q (q\<lparr>cancels := c\<rparr>)" for q c
    by (rule keeps_update [OF _ _ keeps_refl]; simp)+
  have "keeps (q\<lparr>closed := True\<rparr>) (foldl (\<lambda>q' j.
      if jstate j = Queued then set_terminal True Cancelled (Some ''cancelled'') now j q'
      else if terminal (jstate j) then q' else q'\<lparr>cancels := AList.update (job_id j) True (cancels q')\<rparr>)
      (q\<lparr>closed := True\<rparr>) (jobs q))"
    by (rule keeps_fold) (simp add: cl)
  from keeps_trans [OF cl(1) this] show ?thesis unfolding Close_begin jq_step.simps close_begin_def
    by simp
next
  case Close_end
  show ?thesis unfolding Close_end jq_step.simps close_end_def by (rule keeps_fold) simp
next
  case (Submit s fp rec i now clk bound)
  with assms show ?thesis by blast
next
  case (Worker i x)
  show ?thesis unfolding Worker jq_step.simps by (rule keeps_worker_step)
qed

definition indexed :: "job_queue \<Rightarrow> string \<Rightarrow> string \<Rightarrow> string \<Rightarrow> nat list \<Rightarrow> bool" where
  "indexed q owner req i fp \<longleftrightarrow>
     map_of (request_index q) (owner, req) = Some (i, Some fp) \<and> job_of q i \<noteq> None"

text \<open>What a submission does to the queue: nothing, an order number is spent, or a new job.\<close>

definition with_new_job :: "submission \<Rightarrow> nat list \<Rightarrow> job \<Rightarrow> job_queue \<Rightarrow> job_queue" where
  "with_new_job s fp j q = persist j (put_job j (q\<lparr>next_order := Suc (next_order q),
     request_index := AList.update (sub_owner s, sub_request s) (job_id j, Some fp) (request_index q)\<rparr>))"

lemma submit_commit_cases:
  obtains (same) "snd (submit_commit s fp rec i now clk bound q) = q"
  | (spent) n where "snd (submit_commit s fp rec i now clk bound q) = q\<lparr>next_order := n\<rparr>"
  | (new) "known_request q (sub_owner s) (sub_request s) fp = Inr None"
      "snd (submit_commit s fp rec i now clk bound q) =
         with_new_job s fp (new_job s fp rec i now clk (next_order q)) q"
proof -
  have id: "job_id (new_job s fp rec i now clk n) = i" for n by (simp add: new_job_def)
  show thesis
  proof (cases "known_request q (sub_owner s) (sub_request s) fp = Inr None \<and> pending_count q < max_pending q")
    case True
    show thesis
    proof (cases "sub_project s = None \<or> bound = Answer ()")
      case True
      with \<open>known_request _ _ _ _ = _ \<and> _\<close> show thesis
        by (intro new) (simp_all add: submit_commit_def Let_def with_new_job_def id)
    next
      case False
      with \<open>known_request _ _ _ _ = _ \<and> _\<close> show thesis
        by (intro spent [of "Suc (next_order q)"]) (auto simp: submit_commit_def Let_def)
    qed
  next
    case False
    then show thesis by (intro same) (auto simp: submit_commit_def split: sum.split option.split)
  qed
qed

lemma with_new_job_simps [simp]:
  "job_of (with_new_job s fp j q) i = (if i = job_id j then Some j else job_of q i)"
  "request_index (with_new_job s fp j q) = AList.update (sub_owner s, sub_request s) (job_id j, Some fp) (request_index q)"
  "workers (with_new_job s fp j q) = workers q" "disk (with_new_job s fp j q) = put_row (stored_job j) (disk q)"
  by (simp_all add: with_new_job_def)

lemma indexed_step: "indexed q owner req i fp \<Longrightarrow> indexed (jq_step q ev) owner req i fp"
proof (cases "\<exists>s fp rec n now clk bound. ev = Submit s fp rec n now clk bound")
  case True
  assume ix: "indexed q owner req i fp"
  from True obtain s fp' rec n now clk bound where ev: "ev = Submit s fp' rec n now clk bound" by blast
  show ?thesis unfolding ev jq_step.simps
  proof (cases rule: submit_commit_cases [of s fp' rec n now clk bound q])
    case new
    from new(1) ix have "(sub_owner s, sub_request s) \<noteq> (owner, req)"
      by (auto simp: indexed_def known_request_def ensure_def split: if_splits)
    with new(2) ix show "indexed (snd (submit_commit s fp' rec n now clk bound q)) owner req i fp"
      by (auto simp: indexed_def AList.update_conv')
  qed (use ix in \<open>simp_all add: indexed_def\<close>)
next
  case False
  assume "indexed q owner req i fp"
  with False keeps_step [of ev q] show ?thesis by (simp add: keeps_def indexed_def)
qed

lemma indexed_run: "jq_run faults q q' \<Longrightarrow> indexed q owner req i fp \<Longrightarrow> indexed q' owner req i fp"
  by (induction rule: jq_run.induct) (auto intro: indexed_step)

definition index_ok :: "job_queue \<Rightarrow> bool" where
  "index_ok q \<longleftrightarrow> (\<forall>k i fp. map_of (request_index q) k = Some (i, fp) \<longrightarrow> job_of q i \<noteq> None)"

lemma index_ok_step: "index_ok q \<Longrightarrow> index_ok (jq_step q ev)"
proof (cases "\<exists>s fp rec n now clk bound. ev = Submit s fp rec n now clk bound")
  case True
  assume ix: "index_ok q"
  from True obtain s fp rec n now clk bound where ev: "ev = Submit s fp rec n now clk bound" by blast
  show ?thesis unfolding ev jq_step.simps
    by (cases rule: submit_commit_cases [of s fp rec n now clk bound q])
      (use ix in \<open>simp_all add: index_ok_def AList.update_conv'\<close>)
next
  case False
  assume "index_ok q"
  with False keeps_step [of ev q] show ?thesis unfolding keeps_def index_ok_def by (metis (no_types, lifting))
qed

lemma load_files_index: "load_files now fs q = Inr q' \<Longrightarrow> index_ok q \<Longrightarrow> index_ok q'"
proof (induction fs arbitrary: q)
  case (Cons f fs)
  then obtain r where rest: "load_files now fs (case r of None \<Rightarrow> q | Some j \<Rightarrow> load_job now j q) = Inr q'"
    by (auto simp: bind_result_Inr_iff)
  have "index_ok (load_job now j q)" for j
    using Cons.prems(2) by (auto simp: index_ok_def load_job_def Let_def AList.update_conv')
  with Cons.IH rest Cons.prems(2) show ?case by (auto split: option.splits)
qed simp

lemma reach_index: "jq_reach faults q \<Longrightarrow> index_ok q"
proof (induction rule: jq_reach.induct)
  case (reach_open running pending poll startup now files q)
  have "index_ok (empty_queue running pending poll startup)" by (simp add: index_ok_def empty_queue_def)
  with reach_open show ?case unfolding open_queue_def ensure_Inr_iff by (blast intro: load_files_index)
qed (simp add: index_ok_step)

lemma known_request_Some:
  "known_request q owner req fp = Inr (Some i) \<longleftrightarrow>
     \<not> closed q \<and> map_of (request_index q) (owner, req) = Some (i, Some fp)"
  by (auto simp: known_request_def ensure_def split: option.splits prod.splits)

lemma show_job_id: "show_job q i = Inr v \<Longrightarrow> job_id v = i \<and> job_of q i \<noteq> None"
  by (auto simp: show_job_def public_job_def stored_job_def dest: job_of_id split: option.splits)

lemma submit_indexed:
  assumes "submit mac hooks owner request project prin credential authorization reply i now clk bound q = (Inr v, q1)"
    and ok: "index_ok q"
  shows "\<exists>s fp. check_submission hooks owner request project prin credential authorization = Inr s \<and>
    request_mac mac s = Inr fp \<and> indexed q1 (sub_owner s) (sub_request s) (job_id v) fp"
proof -
  let ?c = "check_submission hooks owner request project prin credential authorization"
  from assms(1) obtain s where s: "?c = Inr s" by (cases ?c) (auto simp: submit_def)
  with assms(1) obtain fp where fp: "request_mac mac s = Inr fp" by (cases "request_mac mac s") (auto simp: submit_def)
  with assms(1) s obtain known where k: "known_request q (sub_owner s) (sub_request s) fp = Inr known"
    by (cases "known_request q (sub_owner s) (sub_request s) fp") (auto simp: submit_def)
  have "indexed q1 (sub_owner s) (sub_request s) (job_id v) fp"
  proof (cases known)
    case (Some n)
    with assms(1) s fp k have "show_job q n = Inr v" "q1 = q" by (auto simp: submit_def)
    with Some k show ?thesis by (auto simp: indexed_def known_request_Some dest: show_job_id)
  next
    case None
    with assms(1) s fp k obtain rec where "submit_commit s fp rec i now clk bound q = (Inr v, q1)"
      by (cases "check_recording s reply") (auto simp: submit_def)
    with k None show ?thesis
      by (auto simp: submit_commit_def Let_def indexed_def new_job_def public_job_def stored_job_def
          AList.update_conv' split: if_splits)
  qed
  with s fp show ?thesis by blast
qed

lemma submit_known:
  assumes "check_submission hooks owner request project prin credential authorization = Inr s"
    and "request_mac mac s = Inr fp" "indexed q (sub_owner s) (sub_request s) i fp" "\<not> closed q"
  shows "\<exists>j. job_of q i = Some j \<and>
    submit mac hooks owner request project prin credential authorization reply n now clk bound q = (Inr (public_job j), q)"
proof -
  have "known_request q (sub_owner s) (sub_request s) fp = Inr (Some i)"
    using assms(3,4) by (simp add: known_request_Some indexed_def)
  with assms show ?thesis by (auto simp: submit_def indexed_def show_job_def)
qed

section \<open>Properties\<close>

text \<open>
  C24. Whatever the interleaving, a device is never used by two jobs at once, and no more jobs are
  at work than the queue allows.
\<close>

theorem job_devices_exclusive:
  assumes "jq_reach faults q"
  shows "distinct (map device_id (filter (\<lambda>j. active (jstate j)) (jobs q))) \<and>
    length (filter (\<lambda>j. active (jstate j)) (jobs q)) \<le> max_running q"
proof -
  let ?A = "filter (\<lambda>j. active (jstate j)) (jobs q)"
  from reach_inv [OF assms] have inv: "jq_inv q" by simp
  have own: "map_of (assigned q) (device_id j) = Some (job_id j)" if "j \<in> set ?A" for j
    using that jq_inv_job [OF inv jobs_lookup [OF inv]] by auto
  have "distinct (map job_id ?A)" using jobs_distinct [OF inv] distinct_map_filter by blast
  then have "distinct ?A" "inj_on job_id (set ?A)" by (simp_all add: distinct_map)
  moreover have "inj_on device_id (set ?A)"
  proof (rule inj_onI)
    fix j k assume "j \<in> set ?A" "k \<in> set ?A" "device_id j = device_id k"
    with own [of j] own [of k] have "job_id j = job_id k" by simp
    with \<open>j \<in> set ?A\<close> \<open>k \<in> set ?A\<close> \<open>inj_on job_id (set ?A)\<close> show "j = k" by (simp add: inj_on_def)
  qed
  ultimately have d: "distinct (map device_id ?A)" by (simp add: distinct_map)
  have "set (map device_id ?A) \<subseteq> set (map fst (assigned q))"
    using own by (force dest: map_of_SomeD)
  then have "card (set (map device_id ?A)) \<le> card (set (map fst (assigned q)))" by (rule card_mono [rotated]) simp
  with d have "length ?A \<le> length (assigned q)"
    using distinct_card [OF d] card_length [of "map fst (assigned q)"] by simp
  moreover have "length (assigned q) \<le> max_running q" using inv by (simp add: jq_inv_def)
  ultimately show ?thesis using d by simp
qed

text \<open>
  C25. A final state is final: no later event changes a job that has ended, so an injection whose
  outcome is unknown is never run again, and the variables of an ended job are gone from memory.
\<close>

theorem final_states_stay:
  assumes "jq_reach faults q" "jq_run faults q q'" "job_of q i = Some j" "terminal (jstate j)"
  shows "job_of q' i = Some j \<and> variables j = None"
  using run_terminal [OF assms(2) reach_inv [OF assms(1)] assms(3,4)] jq_inv_job [of q i j] reach_inv [OF assms(1)] assms(3,4)
  by (simp add: job_ok_def)

text \<open>
  Dispatch is first in, first out for each device: a dispatched job was queued, its device is
  available and not assigned, its authorization passed, and every job that is still queued for the
  same device came later.
\<close>

theorem dispatch_oldest_first:
  assumes "jq_reach faults q" and disp: "dispatch available auth clk now q = (Some i, q')"
  shows "\<exists>j. job_id j = i \<and> jstate j = Queued \<and> job_of q i = Some j \<and> device_id j \<in> set available \<and>
    device_id j \<notin> set (map fst (assigned q)) \<and> (project_id j \<noteq> None \<longrightarrow> auth i = Answer ()) \<and>
    list_all (\<lambda>k. jstate k = Queued \<and> device_id k = device_id j \<longrightarrow>
      (job_order j, job_id j) < (job_order k, job_id k)) (jobs q')"
proof -
  let ?q = "expire clk now q"
  from reach_inv [OF assms(1)] have inv0: "jq_inv q" by simp
  then have inv: "jq_inv ?q" by (rule expire_inv)
  have inv': "jq_inv q'" using dispatch_inv [OF inv0, of available auth clk now] disp by simp
  have sc: "scan available auth clk now (queued_jobs ?q) (queued_jobs ?q) ?q = (Some i, q')"
    using disp by (simp add: dispatch_def Let_def split: if_splits)
  have js: "job_of ?q (job_id k) = Some k" if "k \<in> set (queued_jobs ?q)" for k
    using that jobs_lookup [OF inv] by (simp add: set_queued_jobs)
  from scan_some [OF sc js distinct_queued_jobs [OF inv]] obtain j q1 where
    j: "j \<in> set (queued_jobs ?q)" "job_id j = i" "device_id j \<notin> set (map fst (assigned ?q))"
      "device_id j \<in> set available" "oldest_for_device q1 (queued_jobs ?q) j" "project_id j \<noteq> None \<longrightarrow> auth i = Answer ()"
      "q' = start_job now j q1" "\<forall>k. is_queued q1 k \<longrightarrow> job_of q1 k = job_of ?q k" by blast
  have later: "(job_order j, job_id j) < (job_order k, job_id k)"
    if "k \<in> set (jobs q')" "jstate k = Queued" "device_id k = device_id j" for k
  proof -
    from that(1) have "job_of q' (job_id k) = Some k" by (rule jobs_lookup [OF inv'])
    with j(7) that(2) have "job_id k \<noteq> job_id j" "job_of q1 (job_id k) = Some k"
      by (auto simp: start_job_def split: if_splits)
    moreover from this that(2) have "is_queued q1 (job_id k)" by (simp add: is_queued_def)
    ultimately have "job_of ?q (job_id k) = Some k" using j(8) by simp
    then have "k \<in> set (queued_jobs ?q)" using that(2) by (auto simp: set_queued_jobs dest: job_of_in)
    with j(5) that(3) \<open>is_queued q1 (job_id k)\<close> have "\<not> (job_order k, job_id k) < (job_order j, job_id j)"
      by (auto simp: oldest_for_device_def list_ex_iff)
    with \<open>job_id k \<noteq> job_id j\<close> show ?thesis by (metis linorder_less_linear prod.inject)
  qed
  have "job_of ?q i = Some j" "jstate j = Queued" using js [OF j(1)] j(1,2) by (auto simp: set_queued_jobs)
  then have "job_of q i = Some j" by (rule expire_queued)
  with j later \<open>jstate j = Queued\<close> show ?thesis by (intro exI [of _ j]) (simp add: list_all_iff)
qed

text \<open>
  Submitting is idempotent. After a submission was accepted, the same request (its owner, id,
  recording, variables and options) shows the same job again and changes nothing, whatever happened
  to the queue in between, until it is closed.
\<close>

theorem resubmission_idempotent:
  assumes "jq_reach faults q"
    and "submit mac hooks owner request project prin credential authorization reply i now clk bound q = (Inr v, q1)"
    and "jq_run faults q1 q2" "\<not> closed q2"
  shows "\<exists>j. job_of q2 (job_id v) = Some j \<and>
    submit mac hooks owner request project prin credential authorization reply' i' now' clk' bound' q2 =
      (Inr (public_job j), q2)"
proof -
  from submit_indexed [OF assms(2) reach_index [OF assms(1)]] obtain s fp where
    s: "check_submission hooks owner request project prin credential authorization = Inr s" "request_mac mac s = Inr fp"
    and "indexed q1 (sub_owner s) (sub_request s) (job_id v) fp" by blast
  with indexed_run [OF assms(3)] have "indexed q2 (sub_owner s) (sub_request s) (job_id v) fp" by blast
  from submit_known [OF s this assms(4)] show ?thesis .
qed

end
