(* ===== verification/Job_Files.thy ===== *)
theory Job_Files
  imports Job_Queue_Props
begin

text \<open>
  What the job files of \<open>reproof/live/jobs.py\<close> hold: every file the queue writes is accepted again
  by \<open>_load\<close>, the files show exactly the jobs in memory without their private fields, and a job is
  only recorded as succeeded after all of its runs, as long as no write of a worker fails.
\<close>

definition opt_all :: "('a \<Rightarrow> bool) \<Rightarrow> 'a option \<Rightarrow> bool" where
  "opt_all p x = (case x of None \<Rightarrow> True | Some y \<Rightarrow> p y)"

lemma opt_all_simps [simp]: "opt_all p None" "opt_all p (Some y) = p y"
  by (simp_all add: opt_all_def)

definition result_ok :: "int \<Rightarrow> run_result \<Rightarrow> bool" where
  "result_ok n r \<longleftrightarrow> 1 \<le> run_no r \<and> run_no r \<le> n \<and> is_word_id (result_replay r) \<and> list_all valid_receipt (receipts r)"

definition job_wf :: "job \<Rightarrow> bool" where
  "job_wf j \<longleftrightarrow>
     is_word_id (job_id j) \<and> is_word_id (request_id j) \<and> is_word_id (recording_id j) \<and>
     is_hex_digest (recording_digest j) \<and> opt_all is_word_id (session_id j) \<and>
     1 \<le> repeats j \<and> repeats j \<le> 10 \<and> 0 \<le> completed_runs j \<and> completed_runs j \<le> repeats j \<and>
     length (results j) \<le> 10 \<and> list_all (result_ok (repeats j)) (results j) \<and>
     opt_all (\<lambda>c. c \<in> set SAFE_CODES) (error_code j) \<and> 1 \<le> timeout_seconds j \<and> timeout_seconds j \<le> 3600 \<and>
     opt_all is_word_id (project_id j) \<and> opt_all is_word_id (principal_id j) \<and>
     opt_all is_word_id (credential_id j) \<and> opt_all is_word_id (authorization_id j) \<and>
     shared_ids_ok [project_id j, principal_id j, credential_id j] \<and>
     (authorization_id j \<noteq> None \<longrightarrow> project_id j \<noteq> None)"

section \<open>Reading back what was written\<close>

lemma str_field_PStr: "dget d k PNone = PStr s \<Longrightarrow> p s \<Longrightarrow> str_field d k p = Inr s"
  by (simp add: str_field_def)

lemma opt_str_field_doc: "dget d k PNone = opt_doc PStr x \<Longrightarrow> opt_all p x \<Longrightarrow> opt_str_field d k p = Inr x"
  by (cases x) (simp_all add: opt_str_field_def opt_doc_def str_field_def)

lemma int_field_PInt: "dget d k v = PInt n \<Longrightarrow> p n \<Longrightarrow> int_field d k v p = Inr n"
  by (simp add: int_field_def)

lemma opt_int_field_doc: "dget d k PNone = opt_doc PInt x \<Longrightarrow> opt_int_field d k = Inr x"
  by (cases x) (simp_all add: opt_int_field_def opt_doc_def int_field_def)

lemma parse_result_doc: "result_ok n r \<Longrightarrow> parse_result n (result_doc r) = Inr r"
  by (simp add: parse_result_def result_doc_def result_ok_def dget_def same_keys_def)

lemma parse_all_results: "list_all (result_ok n) rs \<Longrightarrow> parse_all (parse_result n) (map result_doc rs) = Inr rs"
  by (induction rs) (simp_all add: parse_result_doc)

lemma state_of_name_doc: "state_of_name (PStr (state_name st)) = Some st"
  by (cases st) (simp_all add: state_of_name_def all_states_def)

lemma job_doc_fields:
  "dget (job_doc j) ''id'' v = PStr (job_id j)" "dget (job_doc j) ''requestId'' v = PStr (request_id j)"
  "dget (job_doc j) ''recordingId'' v = PStr (recording_id j)" "dget (job_doc j) ''recordingDigest'' v = PStr (recording_digest j)"
  "dget (job_doc j) ''deviceId'' v = PStr (device_id j)" "dget (job_doc j) ''state'' v = PStr (state_name (jstate j))"
  "dget (job_doc j) ''createdAt'' v = PInt (created_at j)" "dget (job_doc j) ''startedAt'' v = opt_doc PInt (started_at j)"
  "dget (job_doc j) ''endedAt'' v = opt_doc PInt (ended_at j)" "dget (job_doc j) ''sessionId'' v = opt_doc PStr (session_id j)"
  "dget (job_doc j) ''repeats'' v = PInt (repeats j)" "dget (job_doc j) ''completedRuns'' v = PInt (completed_runs j)"
  "dget (job_doc j) ''results'' v = PList (map result_doc (results j))" "dget (job_doc j) ''errorCode'' v = opt_doc PStr (error_code j)"
  "dget (job_doc j) ''owner'' v = PStr (job_owner j)" "dget (job_doc j) ''timeoutSeconds'' v = PInt (timeout_seconds j)"
  "dget (job_doc j) ''cancelRequested'' v = PBool (cancel_requested j)" "dget (job_doc j) ''projectId'' v = opt_doc PStr (project_id j)"
  "dget (job_doc j) ''principalId'' v = opt_doc PStr (principal_id j)" "dget (job_doc j) ''credentialId'' v = opt_doc PStr (credential_id j)"
  "dget (job_doc j) ''authorizationId'' v = opt_doc PStr (authorization_id j)"
  by (simp_all add: job_doc_def dget_def)

lemma normalise_job_doc: "job_wf j \<Longrightarrow> normalise_loaded (job_doc j) = Inr (stored_job j)"
  unfolding normalise_loaded_def job_wf_def
  by (simp add: str_field_PStr opt_str_field_doc int_field_PInt opt_int_field_doc job_doc_fields state_of_name_doc
      parse_results_def parse_all_results stored_job_def)

lemma str_field_ok: "str_field d k p = Inr s \<Longrightarrow> p s"
  by (auto simp: str_field_def invalid_request_def split: pyval.splits if_splits)

lemma opt_str_field_ok: "opt_str_field d k p = Inr x \<Longrightarrow> opt_all p x"
  by (cases "str_field d k p") (auto simp: opt_str_field_def dest: str_field_ok split: if_splits)

lemma int_field_ok: "int_field d k v p = Inr n \<Longrightarrow> p n"
  by (auto simp: int_field_def invalid_request_def split: pyval.splits if_splits)

lemma parse_result_ok: "parse_result n v = Inr r \<Longrightarrow> result_ok n r"
  by (auto simp: parse_result_def result_ok_def invalid_request_def split: pyval.splits if_splits)

lemma parse_all_ok: "parse_all f xs = Inr ys \<Longrightarrow> (\<And>x y. f x = Inr y \<Longrightarrow> p y) \<Longrightarrow> length ys = length xs \<and> list_all p ys"
  by (induction xs arbitrary: ys) (auto simp: bind_result_Inr_iff)

lemma parse_results_ok: "parse_results n v = Inr rs \<Longrightarrow> length rs \<le> 10 \<and> list_all (result_ok n) rs"
  by (auto simp: parse_results_def invalid_request_def split: pyval.splits if_splits
      dest: parse_all_ok [OF _ parse_result_ok])

lemma normalise_loaded_wf: "normalise_loaded d = Inr j \<Longrightarrow> job_wf j"
  unfolding normalise_loaded_def
  by (drule bind_step, elim exE conjE)+
    (auto simp: invalid_request_def job_wf_def dest: str_field_ok opt_str_field_ok int_field_ok parse_results_ok split: if_splits)

section \<open>Runs, phases and files\<close>

definition job_runs :: "job \<Rightarrow> bool" where
  "job_runs j \<longleftrightarrow>
     (fingerprint j \<noteq> None \<longrightarrow> map run_no (results j) = [1..completed_runs j] \<and>
        (jstate j = Queued \<longrightarrow> completed_runs j = 0) \<and> (jstate j = Succeeded \<longrightarrow> completed_runs j = repeats j)) \<and>
     (jstate j = Queued \<longrightarrow> fingerprint j \<noteq> None)"

fun phase_runs :: "phase \<Rightarrow> job \<Rightarrow> bool" where
  "phase_runs At_start j = (completed_runs j = 0)"
| "phase_runs (Awaiting s t) j = (completed_runs j = 0)"
| "phase_runs (At_run s r) j = (r = completed_runs j + 1)"
| "phase_runs (Replaying s w) j = (wait_run w = completed_runs j + 1 \<and> wait_run w \<le> repeats j \<and> is_word_id (wait_replay w))"
| "phase_runs (Finishing b so oc) j =
     ((b \<longrightarrow> so = None \<and> completed_runs j = 0) \<and> opt_all (\<lambda>c. c \<in> set SAFE_CODES) (snd oc) \<and> fst oc \<noteq> Queued \<and>
      (\<not> b \<and> fst oc = Succeeded \<longrightarrow> completed_runs j = repeats j))"
| "phase_runs (Closing s oc) j =
     (opt_all (\<lambda>c. c \<in> set SAFE_CODES) (snd oc) \<and> fst oc \<noteq> Queued \<and>
      (fst oc = Succeeded \<longrightarrow> completed_runs j = repeats j))"
| "phase_runs (Releasing b) j = (b \<longrightarrow> completed_runs j = 0)"
| "phase_runs Dead j = True"

definition files_inv :: "job_queue \<Rightarrow> bool" where
  "files_inv q \<longleftrightarrow>
     (\<forall>i j. job_of q i = Some j \<longrightarrow> job_wf j \<and> job_runs j) \<and>
     (\<forall>i p j. map_of (workers q) i = Some p \<longrightarrow> job_of q i = Some j \<longrightarrow> fingerprint j \<noteq> None \<and> phase_runs p j) \<and>
     (\<forall>i. tbl_lookup job_id i (disk q) = map_option stored_job (job_of q i)) \<and> distinct_keys job_id (disk q)"

lemma stored_job_simps [simp]: "job_id (stored_job j) = job_id j" "jstate (stored_job j) = jstate j"
  by (simp_all add: stored_job_def)

lemma files_job: "files_inv q \<Longrightarrow> job_of q i = Some j \<Longrightarrow> job_wf j \<and> job_runs j"
  by (simp add: files_inv_def)

lemma files_worker:
  "files_inv q \<Longrightarrow> map_of (workers q) i = Some p \<Longrightarrow> job_of q i = Some j \<Longrightarrow> fingerprint j \<noteq> None \<and> phase_runs p j"
  by (simp add: files_inv_def)

lemma files_cong:
  "jobs q' = jobs q \<Longrightarrow> workers q' = workers q \<Longrightarrow> disk q' = disk q \<Longrightarrow> files_inv q \<Longrightarrow> files_inv q'"
  by (simp add: files_inv_def job_of_def)

lemma files_goto:
  assumes "files_inv q" "job_of q (job_id j) = Some j" "map_of (workers q) (job_id j) = Some p0" "phase_runs p j"
  shows "files_inv (goto (job_id j) p q)"
  using assms files_worker [OF assms(1,3,2)] by (auto simp: files_inv_def)

text \<open>A written change of a job.\<close>

lemma files_save:
  assumes "files_inv q" "job_of q (job_id j) = Some j" "job_id j' = job_id j" "job_wf j'" "job_runs j'"
    and "fingerprint j' = fingerprint j" "\<And>p. map_of (workers q) (job_id j) = Some p \<Longrightarrow> phase_runs p j'"
  shows "files_inv (save_job True j' q)"
  using assms by (auto simp: files_inv_def lookup_put_row distinct_put_row)

lemma files_advance:
  assumes "files_inv q" "job_of q (job_id j) = Some j" "map_of (workers q) (job_id j) = Some p0"
    and "job_id j' = job_id j" "job_wf j'" "job_runs j'" "fingerprint j' = fingerprint j" "phase_runs p j'"
  shows "files_inv (goto (job_id j) p (save_job True j' q))"
  using assms files_worker [OF assms(1,3,2)] by (auto simp: files_inv_def lookup_put_row distinct_put_row)

lemma phase_runs_same: "completed_runs j' = completed_runs j \<Longrightarrow> repeats j' = repeats j \<Longrightarrow> phase_runs p j' = phase_runs p j"
  by (cases p) auto

lemma finish_wf: "job_wf j \<Longrightarrow> opt_all (\<lambda>c. c \<in> set SAFE_CODES) code \<Longrightarrow> job_wf (finish st code now j)"
  by (simp add: job_wf_def finish_def)

lemma finish_runs:
  "job_runs j \<Longrightarrow> st \<noteq> Queued \<Longrightarrow> (st = Succeeded \<Longrightarrow> completed_runs j = repeats j) \<Longrightarrow> job_runs (finish st code now j)"
  by (simp add: job_runs_def finish_def)

lemma finish_more [simp]:
  "completed_runs (finish st code now j) = completed_runs j" "repeats (finish st code now j) = repeats j"
  "fingerprint (finish st code now j) = fingerprint j"
  by (simp_all add: finish_def)

lemma files_terminal:
  assumes "files_inv q" "job_of q (job_id j) = Some j" "opt_all (\<lambda>c. c \<in> set SAFE_CODES) code" "st \<noteq> Queued"
    and "st = Succeeded \<Longrightarrow> completed_runs j = repeats j"
  shows "files_inv (set_terminal True st code now j q)"
proof (cases "terminal (jstate j)")
  case False
  have "files_inv (save_job True (finish st code now j) q)"
    using assms files_job [OF assms(1,2)] files_worker [OF assms(1) _ assms(2)]
    by (intro files_save [OF assms(1,2)]) (auto simp: finish_wf finish_runs phase_runs_same [of "finish st code now j" j])
  with False show ?thesis by (simp add: set_terminal_def)
qed (use assms in \<open>simp add: set_terminal_def\<close>)

lemma files_terminal_goto:
  assumes "files_inv q" "job_of q (job_id j) = Some j" "map_of (workers q) (job_id j) = Some p0"
    and "opt_all (\<lambda>c. c \<in> set SAFE_CODES) code" "st \<noteq> Queued" "st = Succeeded \<Longrightarrow> completed_runs j = repeats j"
  shows "files_inv (goto (job_id j) (Releasing False) (set_terminal True st code now j q))"
proof (cases "terminal (jstate j)")
  case True
  with assms show ?thesis by (simp add: set_terminal_def files_goto)
next
  case False
  with assms files_job [OF assms(1,2)] show ?thesis
    by (simp add: set_terminal_def files_advance [OF assms(1-3)] finish_wf finish_runs)
qed

lemma codes_safe [simp]:
  "''cancelled'' \<in> set SAFE_CODES" "''timeout'' \<in> set SAFE_CODES" "''startup_timeout'' \<in> set SAFE_CODES"
  "''startup_failed'' \<in> set SAFE_CODES" "''controller_lost'' \<in> set SAFE_CODES" "''quarantined'' \<in> set SAFE_CODES"
  "''recording_changed'' \<in> set SAFE_CODES" "''replay_failed'' \<in> set SAFE_CODES" "''cleanup_failed'' \<in> set SAFE_CODES"
  "''authorization_revoked'' \<in> set SAFE_CODES" "''shutdown_timeout'' \<in> set SAFE_CODES" "''interrupted'' \<in> set SAFE_CODES"
  by (simp_all add: SAFE_CODES_def)

lemma safe_code_safe [simp]: "fb \<in> set SAFE_CODES \<Longrightarrow> safe_code r fb \<in> set SAFE_CODES"
  by (simp add: safe_code_def split: reply.split)

lemma phase_runs_stop: "st = Failed \<or> st = Cancelled \<Longrightarrow> code \<in> set SAFE_CODES \<Longrightarrow> phase_runs (stop_with s st code) j"
  by (auto simp: stop_with_def)

lemma startup_reply_answer: "startup_reply j auth rec sess = Answer s \<Longrightarrow> sess = Answer s"
  by (auto simp: startup_reply_def split: reply.splits if_splits)

lemma w_start_files:
  assumes inv: "files_inv q" and job: "job_of q (job_id j) = Some j" and at: "map_of (workers q) (job_id j) = Some At_start"
    and sound: "sound_input (In_start True clk auth rec sess)"
  shows "files_inv (w_start True clk auth rec sess j q)"
proof -
  have j: "completed_runs j = 0" "job_wf j" "job_runs j"
    using files_worker [OF inv at job] files_job [OF inv job] by auto
  have "files_inv (goto (job_id j) (Awaiting s t) (save_job True (j\<lparr>session_id := Some s\<rparr>) q))"
    if "startup_reply j auth rec sess = Answer s" for s t
    using startup_reply_answer [OF that] sound j
    by (intro files_advance [OF inv job at]) (auto simp: sound_input_def job_wf_def job_runs_def)
  then show ?thesis using files_goto [OF inv job at] j
    by (simp add: w_start_def split: reply.split)
qed

lemma w_await_files:
  assumes inv: "files_inv q" and job: "job_of q (job_id j) = Some j" and at: "map_of (workers q) (job_id j) = Some (Awaiting s limit)"
  shows "files_inv (w_await True late clk clk' sess claim s limit j q)"
proof -
  have j: "completed_runs j = 0" "job_wf j" "job_runs j"
    using files_worker [OF inv at job] files_job [OF inv job] by auto
  have "files_inv (goto (job_id j) (At_run s 1) (save_job True (j\<lparr>controller := Some c, jstate := Running\<rparr>) q))" for c
    using j by (intro files_advance [OF inv job at]) (auto simp: job_wf_def job_runs_def)
  then show ?thesis using files_goto [OF inv job at] inv
    by (simp add: w_await_def phase_runs_stop split: reply.split)
qed

lemma w_run_files:
  assumes inv: "files_inv q" and job: "job_of q (job_id j) = Some j" and at: "map_of (workers q) (job_id j) = Some (At_run s run)"
    and sound: "sound_input (In_run late clk rec control replay)"
  shows "files_inv (w_run late clk rec control replay s run j q)"
proof -
  have j: "run = completed_runs j + 1" "job_wf j"
    using files_worker [OF inv at job] files_job [OF inv job] by auto
  then have full: "run > repeats j \<Longrightarrow> completed_runs j = repeats j" by (simp add: job_wf_def)
  show ?thesis unfolding w_run_def Let_def
    using j full sound
    by (intro files_goto [OF inv job at]) (auto simp: phase_runs_stop sound_input_def split: reply.split)
qed

lemma wait_round_same:
  "wait_round c clk clk' sess art w j = (r, w') \<Longrightarrow>
     wait_run w' = wait_run w \<and> wait_replay w' = wait_replay w \<and> expected_receipts w' = expected_receipts w"
  by (auto simp: wait_round_def wait_cancel_def Let_def split: if_splits)

lemma wait_answer_Some:
  "wait_answer clk sess art w j = Some r \<Longrightarrow>
     (\<exists>t. r = failed_unknown t) \<or> (\<exists>a. art = Answer (Some a) \<and> r = read_artifact w j a) \<or>
     (res_receipts r = [] \<and> res_state r \<noteq> None)"
  by (auto simp: wait_answer_def Let_def split: reply.splits option.splits if_splits)

lemma read_artifact_sound:
  "(case art_receipts a of Some xs \<Rightarrow> list_all valid_receipt xs | None \<Rightarrow> True) \<Longrightarrow> art_state a \<noteq> None \<Longrightarrow>
     list_all valid_receipt (res_receipts (read_artifact w j a)) \<and> res_state (read_artifact w j a) \<noteq> None"
  by (auto simp: read_artifact_def Let_def failed_unknown_def split: option.splits)

lemma wait_round_result:
  assumes "wait_round c clk clk' sess art w j = (Some r, w')"
    and sound: "sound_input (In_replay ok late clk0 clk1 sess art)"
    and state: "case art of Answer (Some a) \<Rightarrow> art_state a \<noteq> None | _ \<Rightarrow> True"
  shows "list_all valid_receipt (res_receipts r) \<and> res_state r \<noteq> None"
proof -
  from assms(1) have "wait_answer clk' sess art w' j = Some r" by (auto simp: wait_round_def Let_def)
  from wait_answer_Some [OF this] consider (unknown) t where "r = failed_unknown t"
    | (art) a where "art = Answer (Some a)" "r = read_artifact w' j a"
    | (none) "res_receipts r = []" "res_state r \<noteq> None" by blast
  then show ?thesis
  proof cases
    case unknown
    then show ?thesis by (simp add: failed_unknown_def)
  next
    case art
    with sound state read_artifact_sound [of a w' j] show ?thesis by (simp add: sound_input_def)
  next
    case none
    then show ?thesis by simp
  qed
qed

lemma w_replay_files:
  assumes inv: "files_inv q" and job: "job_of q (job_id j) = Some j" and at: "map_of (workers q) (job_id j) = Some (Replaying s w)"
    and sound: "sound_input (In_replay True late clk clk' sess art)"
    and state: "case art of Answer (Some a) \<Rightarrow> art_state a \<noteq> None | _ \<Rightarrow> True" and jq: "jq_inv q"
  shows "files_inv (w_replay True late clk clk' sess art s w j q)"
proof (cases rule: w_replay_cases [of q j clk clk' sess art w True late s])
  case (wait w')
  from wait(1) files_worker [OF inv at job] have "phase_runs (Replaying s w') j"
    by (auto dest!: wait_round_same)
  with wait(2) files_goto [OF inv job at] show ?thesis by simp
next
  case (run r w')
  have w: "wait_run w = completed_runs j + 1" "wait_run w \<le> repeats j" "is_word_id (wait_replay w)"
    and fp: "fingerprint j \<noteq> None" using files_worker [OF inv at job] by auto
  have j: "job_wf j" "job_runs j" using files_job [OF inv job] by auto
  from wait_round_same [OF run(1)] have w': "wait_run w' = completed_runs j + 1" "wait_replay w' = wait_replay w" using w by auto
  from wait_round_result [OF run(1) sound state] have rc: "list_all valid_receipt (res_receipts r)" by simp
  have nums: "map run_no (results j) = [1..completed_runs j]" using j(2) fp by (simp add: job_runs_def)
  then have "length (results j) = nat (completed_runs j)" by (metis length_map length_upto diff_add_cancel)
  then have "job_wf (add_result j w' r)" using j(1) w w' rc
    by (auto simp: job_wf_def add_result_def result_ok_def)
  moreover have "job_runs (add_result j w' r)"
  proof -
    have "[1..completed_runs j + 1] = [1..completed_runs j] @ [completed_runs j + 1]"
      using j(1) by (simp add: upto_rec2 job_wf_def)
    moreover have "active (jstate j)" using jq_inv_worker [OF jq at _ job] by simp
    ultimately show ?thesis using nums w' by (auto simp: job_runs_def add_result_def active_def)
  qed
  ultimately have "files_inv (goto (job_id j) (At_run s (wait_run w' + 1)) (save_job True (add_result j w' r) q))"
    using w' by (intro files_advance [OF inv job at]) (simp_all add: add_result_def)
  with run(4) show ?thesis by simp
next
  case (escaped r w')
  with wait_round_result [OF escaped(1) sound state] show ?thesis by simp
next
  case (stopped st code)
  with files_goto [OF inv job at] phase_runs_stop show ?thesis by simp
qed

lemma w_finish_files:
  assumes inv: "files_inv q" and job: "job_of q (job_id j) = Some j"
    and at: "map_of (workers q) (job_id j) = Some (Finishing retry sess oc)"
  shows "files_inv (w_finish True now retry sess oc j q)"
proof -
  have j: "job_wf j" "job_runs j" using files_job [OF inv job] by auto
  have p: "retry \<longrightarrow> sess = None \<and> completed_runs j = 0" "opt_all (\<lambda>c. c \<in> set SAFE_CODES) (snd oc)" "fst oc \<noteq> Queued"
    "\<not> retry \<and> fst oc = Succeeded \<longrightarrow> completed_runs j = repeats j"
    using files_worker [OF inv at job] by auto
  have "files_inv (goto (job_id j) (Closing s oc) (save_job True (j\<lparr>jstate := Cleaning\<rparr>) q))" if "sess = Some s" for s
    using j p that by (intro files_advance [OF inv job at]) (auto simp: job_wf_def job_runs_def)
  then show ?thesis using p files_goto [OF inv job at] files_terminal_goto [OF inv job at]
    by (simp add: w_finish_def split: option.split)
qed

lemma w_close_files:
  assumes inv: "files_inv q" and job: "job_of q (job_id j) = Some j"
    and at: "map_of (workers q) (job_id j) = Some (Closing s oc)"
  shows "files_inv (w_close True now b oc j q)"
proof -
  have "files_inv (goto (job_id j) (Releasing False) (set_terminal True (fst oc) (snd oc) now j q))"
    using files_worker [OF inv at job] by (intro files_terminal_goto [OF inv job at]) auto
  moreover have "files_inv (goto (job_id j) (Releasing False) (set_terminal True Failed (Some ''cleanup_failed'') now j q))"
    by (intro files_terminal_goto [OF inv job at]) auto
  ultimately show ?thesis by (simp add: w_close_def)
qed

lemma w_release_files:
  assumes inv: "files_inv q" and job: "job_of q (job_id j) = Some j"
    and at: "map_of (workers q) (job_id j) = Some (Releasing retry)" and jq: "jq_inv q"
  shows "files_inv (w_release clk now retry j q)"
proof -
  have j: "job_wf j" "job_runs j" and fp: "fingerprint j \<noteq> None" "retry \<longrightarrow> completed_runs j = 0"
    using files_job [OF inv job] files_worker [OF inv at job] by auto
  have st: "phase_state (Releasing retry) (jstate j)" using jq_inv_worker [OF jq at _ job] by simp
  define q1 where "q1 = q\<lparr>assigned := AList.delete (device_id j) (assigned q), workers := AList.delete (job_id j) (workers q),
            cancels := AList.delete (job_id j) (cancels q)\<rparr>"
  have look: "job_of q1 i = job_of q i" for i by (simp add: q1_def)
  have inv1: "files_inv (q1\<lparr>retry_after := x\<rparr>)" "files_inv q1" for x
    using inv by (auto simp: files_inv_def q1_def AList.delete_conv' split: if_splits)
  have no: "map_of (workers q1) (job_id j) = None" by (simp add: q1_def AList.delete_conv')
  have q: "w_release clk now retry j q = (if retry then
           (let q2 = q1\<lparr>retry_after := AList.update (device_id j) (clk + poll_interval q) (retry_after q)\<rparr>
            in if cancel_set q (job_id j) \<or> closed q
               then set_terminal True Cancelled (Some ''cancelled'') now j q2
               else save_job True (j\<lparr>jstate := Queued, started_at := None\<rparr>) q2)
         else put_job (j\<lparr>variables := None\<rparr>) q1)"
    by (simp add: w_release_def q1_def Let_def)
  show ?thesis
  proof (cases retry)
    case True
    have "files_inv (save_job True (j\<lparr>jstate := Queued, started_at := None\<rparr>) (q1\<lparr>retry_after := x\<rparr>))" for x
      using j fp True no job look by (intro files_save [OF inv1(1)]) (auto simp: job_wf_def job_runs_def)
    moreover have "files_inv (set_terminal True Cancelled (Some ''cancelled'') now j (q1\<lparr>retry_after := x\<rparr>))" for x
      using job look by (intro files_terminal [OF inv1(1)]) simp_all
    ultimately show ?thesis unfolding q using True by (simp add: Let_def)
  next
    case False
    with st have "terminal (jstate j)" by simp
    then have "j\<lparr>variables := None\<rparr> = j" using jq_inv_job [OF jq job] by (simp add: job_ok_def)
    moreover have "files_inv (put_job j q1)"
      using inv1(2) job look by (auto simp: files_inv_def)
    ultimately show ?thesis unfolding q using False by simp
  qed
qed

lemma worker_step_files:
  assumes inv: "files_inv q" and jq: "jq_inv q" and sound: "sound_input x" and ok: "faultless (Worker i x)"
  shows "files_inv (worker_step i x q)"
proof (cases "job_of q i")
  case (Some j)
  have j: "job_id j = i" "job_of q (job_id j) = Some j" using Some job_of_id by auto
  show ?thesis
  proof (cases "map_of (workers q) i")
    case None
    with inv Some show ?thesis by (simp add: worker_step_def)
  next
    fix p assume p: "map_of (workers q) i = Some p"
    have at: "map_of (workers q) (job_id j) = Some p" using p j by simp
    note w_start_files [OF inv j(2)] w_await_files [OF inv j(2)] w_run_files [OF inv j(2)]
      w_replay_files [OF inv j(2) _ _ _ jq] w_finish_files [OF inv j(2)] w_close_files [OF inv j(2)]
      w_release_files [OF inv j(2) _ jq]
    with at sound ok inv p Some show ?thesis unfolding worker_step_def
      by (auto simp: faultless_def split: phase.split worker_input.split)
  qed
qed (use inv in \<open>simp add: worker_step_def\<close>)

lemma expire_files:
  assumes "files_inv q" "jq_inv q"
  shows "files_inv (expire clk now q)"
  unfolding expire_def
  by (rule fold_jobs [where P = files_inv]) (auto simp: assms jobs_distinct jobs_lookup intro: files_terminal)

lemma start_job_files:
  assumes "files_inv q" "job_of q (job_id j) = Some j" "jstate j = Queued"
  shows "files_inv (start_job now j q)"
proof -
  let ?j = "j\<lparr>jstate := Starting, started_at := Some now\<rparr>"
  have j: "job_wf j" "job_runs j" using files_job [OF assms(1,2)] by auto
  then have "job_wf ?j" "job_runs ?j" "fingerprint j \<noteq> None" "completed_runs j = 0"
    using assms(3) by (auto simp: job_wf_def job_runs_def)
  with assms show ?thesis
    by (auto simp: files_inv_def start_job_def lookup_put_row distinct_put_row AList.update_conv')
qed

lemma scan_files:
  "scan available auth clk now queued js q = (r, q') \<Longrightarrow> files_inv q \<Longrightarrow> distinct (map job_id js) \<Longrightarrow>
     (\<And>j. j \<in> set js \<Longrightarrow> job_of q (job_id j) = Some j \<and> jstate j = Queued) \<Longrightarrow> files_inv q'"
proof (induction js arbitrary: q)
  case (Cons j js)
  have j: "job_of q (job_id j) = Some j" "jstate j = Queued" using Cons.prems(4) [of j] by auto
  let ?t = "set_terminal True Failed (Some ''authorization_revoked'') now j q"
  have "files_inv ?t" using Cons.prems(2) j by (intro files_terminal) auto
  moreover have "job_of ?t (job_id k) = Some k \<and> jstate k = Queued" if "k \<in> set js" for k
    using that Cons.prems(3) Cons.prems(4) [of k] by (auto simp: image_iff)
  ultimately have "scan available auth clk now queued js ?t = (r, q') \<Longrightarrow> files_inv q'"
    using Cons.IH [of ?t] Cons.prems(3) by auto
  moreover have "scan available auth clk now queued js q = (r, q') \<Longrightarrow> files_inv q'"
    using Cons.IH [of q] Cons.prems by auto
  ultimately show ?case using Cons.prems(1) start_job_files [OF Cons.prems(2) j]
    by (auto split: if_splits)
qed auto

lemma dispatch_files:
  assumes "files_inv q" "jq_inv q"
  shows "files_inv (snd (dispatch available auth clk now q))"
proof -
  have inv: "files_inv (expire clk now q)" "jq_inv (expire clk now q)"
    using assms expire_files expire_inv by auto
  let ?s = "scan available auth clk now (queued_jobs (expire clk now q)) (queued_jobs (expire clk now q)) (expire clk now q)"
  have "files_inv (snd ?s)"
    by (rule scan_files [of available auth clk now _ _ _ "fst ?s", OF _ inv(1) distinct_queued_jobs [OF inv(2)]])
      (auto simp: set_queued_jobs jobs_lookup [OF inv(2)])
  with inv show ?thesis by (simp add: dispatch_def Let_def)
qed

lemma close_begin_files: "files_inv q \<Longrightarrow> jq_inv q \<Longrightarrow> files_inv (close_begin now q)"
proof -
  assume inv: "files_inv q" "jq_inv q"
  let ?f = "\<lambda>q' j. if jstate j = Queued then set_terminal True Cancelled (Some ''cancelled'') now j q'
      else if terminal (jstate j) then q' else q'\<lparr>cancels := AList.update (job_id j) True (cancels q')\<rparr>"
  have c: "files_inv (q'\<lparr>cancels := c\<rparr>)" if "files_inv q'" for q' c
    using that by (auto intro: files_cong)
  have "files_inv (q\<lparr>closed := True\<rparr>)" using inv by (auto intro: files_cong)
  then have "files_inv (foldl ?f (q\<lparr>closed := True\<rparr>) (jobs q))"
    by (rule fold_jobs [where P = files_inv])
      (auto simp: jobs_distinct [OF inv(2)] jobs_lookup [OF inv(2)] c intro: files_terminal)
  with inv show ?thesis by (simp add: close_begin_def)
qed

lemma close_end_files: "files_inv q \<Longrightarrow> jq_inv q \<Longrightarrow> files_inv (close_end q)"
proof -
  assume inv: "files_inv q" "jq_inv q"
  have save: "files_inv (save_job True (j\<lparr>jstate := Cleaning, error_code := Some ''shutdown_timeout''\<rparr>) q')"
    if "files_inv q'" "job_of q' (job_id j) = Some j" for q' j
    using files_job [OF that] files_worker [OF that(1) _ that(2)]
    by (intro files_save [OF that])
      (auto simp: job_wf_def job_runs_def phase_runs_same [of "j\<lparr>jstate := Cleaning, error_code := Some ''shutdown_timeout''\<rparr>" j])
  show ?thesis unfolding close_end_def
    by (rule fold_jobs [where P = files_inv]) (auto simp: inv jobs_distinct jobs_lookup save)
qed

lemma cancel_files:
  assumes "files_inv q"
  shows "files_inv (snd (cancel_job c owner now q))"
proof (cases "owned q c owner")
  case (Inr j)
  let ?j = "j\<lparr>cancel_requested := True\<rparr>"
  from owned_Inr [OF Inr] have job: "job_of q (job_id j) = Some j" by simp
  have "files_inv (set_terminal True Cancelled (Some ''cancelled'') now j q)"
    by (rule files_terminal [OF assms job]) simp_all
  moreover have "files_inv (save_job True ?j (q\<lparr>cancels := x\<rparr>))" for x
  proof (rule files_save)
    show "files_inv (q\<lparr>cancels := x\<rparr>)" using assms by (auto intro: files_cong)
    show "job_of (q\<lparr>cancels := x\<rparr>) (job_id j) = Some j" using job by simp
    show "job_wf ?j" "job_runs ?j" using files_job [OF assms job] by (auto simp: job_wf_def job_runs_def)
    show "phase_runs p ?j" if "map_of (workers (q\<lparr>cancels := x\<rparr>)) (job_id j) = Some p" for p
      using files_worker [OF assms _ job, of p] that by (simp add: phase_runs_same [of ?j j])
  qed simp_all
  ultimately show ?thesis using Inr assms by (simp add: cancel_job_def Let_def)
qed (use assms in \<open>simp add: cancel_job_def\<close>)

lemma new_job_wf:
  "sound_submission s \<Longrightarrow> is_hex_digest (rec_digest rec) \<Longrightarrow> is_word_id i \<Longrightarrow>
     job_wf (new_job s fp rec i now clk n) \<and> job_runs (new_job s fp rec i now clk n)"
  by (auto simp: sound_submission_def job_wf_def job_runs_def new_job_def opt_all_def split: option.splits)

lemma submit_files:
  assumes inv: "files_inv q" and sound: "sound_event q (Submit s fp rec i now clk bound)" and jq: "jq_inv q"
  shows "files_inv (snd (submit_commit s fp rec i now clk bound q))"
proof (cases rule: submit_commit_cases [of s fp rec i now clk bound q])
  case (spent n)
  with inv show ?thesis by (auto intro: files_cong)
next
  case new
  let ?j = "new_job s fp rec i now clk (next_order q)"
  have id: "job_id ?j = i" "fingerprint ?j = Some fp" "completed_runs ?j = 0" by (simp_all add: new_job_def)
  have j: "job_wf ?j" "job_runs ?j" using sound new_job_wf by (auto simp: sound_event_def)
  have "job_of q i = None" using sound by (simp add: sound_event_def)
  then have "p = Dead" if "map_of (workers q) i = Some p" for p
    using jq that unfolding jq_inv_def by (metis option.distinct(1))
  then have "phase_runs p ?j" if "map_of (workers q) i = Some p" for p using that by fastforce
  then show ?thesis unfolding new(2) using inv j id
    by (auto simp: files_inv_def lookup_put_row distinct_put_row)
qed (use inv in simp)

lemma jq_step_files:
  assumes "files_inv q" "jq_inv q" "sound_event q ev" "faultless ev"
  shows "files_inv (jq_step q ev)"
proof (cases ev)
  case (Submit s fp rec i now clk bound)
  with assms submit_files show ?thesis by simp
next
  case (Worker i x)
  with assms show ?thesis by (simp add: worker_step_files sound_event_def)
qed (use assms in \<open>simp_all add: cancel_files dispatch_files close_begin_files close_end_files\<close>)

section \<open>Opening the queue on its files\<close>

lemma interrupt_wf: "job_wf j \<Longrightarrow> job_wf (interrupt now j)"
  by (simp add: interrupt_def job_wf_def)

lemma interrupt_stored: "stored_job (interrupt now (j\<lparr>job_order := n\<rparr>)) = interrupt now (stored_job j)"
  by (simp add: interrupt_def stored_job_def)

lemma normalise_loaded_id: "normalise_loaded d = Inr j \<Longrightarrow> \<exists>s. dget d ''id'' PNone = PStr s \<and> job_id j = s"
  unfolding normalise_loaded_def str_field_def [of d "''id''"]
  by (drule bind_step, elim exE conjE)+
    (auto simp: invalid_request_def split: if_splits pyval.splits)

lemma load_file_sound:
  "load_file f = Inr (Some j) \<Longrightarrow> job_wf j \<and> stored_job j = j \<and> job_id j = fst f"
proof -
  assume "load_file f = Inr (Some j)"
  then obtain d where d: "dget d ''id'' PNone = PStr (fst f)" and j: "normalise_loaded d = Inr j"
    by (auto simp: load_file_def split: option.splits pyval.splits if_splits sum.splits)
  from normalise_loaded_id [OF j] d have "job_id j = fst f" by auto
  moreover have "stored_job j = j" using normalise_loaded_memory [OF j] by (simp add: stored_job_def)
  ultimately show ?thesis using normalise_loaded_wf [OF j] by simp
qed

lemma load_job_files:
  assumes "files_inv q" "workers q = []" "job_wf j" "fingerprint j = None"
  shows "files_inv (load_job now j q) \<and> workers (load_job now j q) = []"
proof -
  let ?j = "interrupt now (j\<lparr>job_order := next_order q\<rparr>)"
  have "job_wf ?j" using assms(3) by (intro interrupt_wf) (simp add: job_wf_def)
  moreover have "job_runs ?j" using assms(4) by (auto simp: job_runs_def interrupt_def)
  ultimately show ?thesis using assms(1,2)
    by (auto simp: files_inv_def load_job_def Let_def lookup_put_row distinct_put_row)
qed

lemma load_files_files:
  "load_files now fs q = Inr q' \<Longrightarrow> files_inv q \<Longrightarrow> workers q = [] \<Longrightarrow> files_inv q'"
proof (induction fs arbitrary: q)
  case (Cons f fs)
  then obtain r where r: "load_file f = Inr r"
    and rest: "load_files now fs (case r of None \<Rightarrow> q | Some j \<Rightarrow> load_job now j q) = Inr q'"
    by (auto simp: bind_result_Inr_iff)
  show ?case
  proof (cases r)
    case None
    with Cons rest show ?thesis by simp
  next
    case (Some j)
    with r have "job_wf j" "fingerprint j = None" using load_file_sound load_file_memory by auto
    with load_job_files [OF Cons.prems(2,3)] Cons.IH rest Some show ?thesis by simp
  qed
qed simp

lemma reach_files: "jq_reach False q \<Longrightarrow> jq_inv q \<and> outcomes_inv q \<and> files_inv q"
proof (induction rule: jq_reach.induct)
  case (reach_open running pending poll startup now files q)
  have "files_inv (empty_queue running pending poll startup)"
    by (simp add: files_inv_def empty_queue_def job_of_def distinct_keys_def)
  moreover have "workers (empty_queue running pending poll startup) = []" by (simp add: empty_queue_def)
  ultimately have "files_inv q"
    using reach_open unfolding open_queue_def ensure_Inr_iff by (blast intro: load_files_files)
  with fresh_load_inv [OF open_queue_fresh [OF reach_open]] show ?case by simp
next
  case (reach_event q ev)
  then show ?case using jq_step_inv jq_step_files by blast
qed

lemma load_job_file: "job_wf j \<Longrightarrow> load_file (job_file j) = Inr (Some (stored_job j))"
proof -
  assume "job_wf j"
  then have "normalise_loaded (job_doc j) = Inr (stored_job j)" by (rule normalise_job_doc)
  moreover have "dget [(''job'', PDict (job_doc j))] ''job'' v = PDict (job_doc j)" for v by (simp add: dget_def)
  ultimately show ?thesis by (simp add: load_file_def job_file_def job_doc_fields)
qed

lemma load_job_of:
  "job_of (load_job now j q) i =
     (if i = job_id j then Some (interrupt now (j\<lparr>job_order := next_order q\<rparr>)) else job_of q i)"
  by (simp add: load_job_def Let_def)

lemma load_job_files_all:
  "list_all (\<lambda>j. job_wf j \<and> stored_job j = j) rows \<Longrightarrow> distinct (map job_id rows) \<Longrightarrow>
     \<exists>q0. load_files now (map job_file rows) q = Inr q0 \<and>
       (\<forall>i. map_option stored_job (job_of q0 i) =
          (case tbl_lookup job_id i rows of Some j \<Rightarrow> Some (interrupt now j) | None \<Rightarrow> map_option stored_job (job_of q i)))"
proof (induction rows arbitrary: q)
  case (Cons j rows)
  then have j: "job_wf j" "stored_job j = j" by auto
  from Cons.IH [of "load_job now j q"] Cons.prems obtain q0 where
    q0: "load_files now (map job_file rows) (load_job now j q) = Inr q0"
    and look: "\<And>i. map_option stored_job (job_of q0 i) = (case tbl_lookup job_id i rows of Some j \<Rightarrow> Some (interrupt now j)
      | None \<Rightarrow> map_option stored_job (job_of (load_job now j q) i))" by auto
  have "tbl_lookup job_id (job_id j) rows = None"
    using Cons.prems(2) by (auto simp: tbl_lookup_None_iff)
  with look j have "map_option stored_job (job_of q0 i) = (case tbl_lookup job_id i (j # rows) of
      Some j \<Rightarrow> Some (interrupt now j) | None \<Rightarrow> map_option stored_job (job_of q i))" for i
    by (cases "job_id j = i") (simp_all add: load_job_of interrupt_stored split: option.split)
  with q0 j show ?case by (simp add: load_job_file)
qed simp

lemma insort_key_map: "insort_key f (g x) (map g xs) = map g (insort_key (\<lambda>x. f (g x)) x xs)"
  by (induction xs) auto

lemma sort_key_map: "sort_key f (map g xs) = map g (sort_key (\<lambda>x. f (g x)) xs)"
  by (induction xs) (simp_all add: insort_key_map)

lemma lookup_same_rows:
  "distinct_keys job_id xs \<Longrightarrow> set ys = set xs \<Longrightarrow> distinct_keys job_id ys \<Longrightarrow> tbl_lookup job_id i ys = tbl_lookup job_id i xs"
proof (cases "tbl_lookup job_id i xs")
  case None
  moreover assume "set ys = set xs"
  ultimately have "tbl_lookup job_id i ys = None" by (simp add: tbl_lookup_None_iff)
  with None show ?thesis by simp
next
  case (Some j)
  assume "set ys = set xs" "distinct_keys job_id ys"
  with Some tbl_lookup_Some [OF Some] show ?thesis by (metis tbl_lookup_unique)
qed

lemma distinct_sort_rows: "distinct_keys job_id rows \<Longrightarrow> distinct_keys job_id (sort_key f rows)"
  by (simp add: distinct_keys_def distinct_map)

lemma disk_rows:
  assumes "files_inv q"
  shows "list_all (\<lambda>r. job_wf r \<and> stored_job r = r) (disk q)" "distinct_keys job_id (disk q)"
proof -
  show d: "distinct_keys job_id (disk q)" using assms by (simp add: files_inv_def)
  have "job_wf r \<and> stored_job r = r" if "r \<in> set (disk q)" for r
  proof -
    have "tbl_lookup job_id (job_id r) (disk q) = Some r" using d that by (rule tbl_lookup_unique)
    with assms obtain j where "job_of q (job_id r) = Some j" "r = stored_job j"
      unfolding files_inv_def by (metis (no_types, lifting) map_option_eq_Some)
    with files_job [OF assms] show ?thesis by (auto simp: job_wf_def stored_job_def)
  qed
  then show "list_all (\<lambda>r. job_wf r \<and> stored_job r = r) (disk q)" by (simp add: list_all_iff)
qed

section \<open>Properties\<close>

text \<open>
  C26. A crash loses nothing but the secrets: at any moment of any faultless run, opening a new queue
  on the files finds exactly the jobs that were in memory, without their private fields, and marks
  those that had not ended as interrupted.
\<close>

theorem restart_finds_all_jobs:
  assumes "jq_reach False q"
    and "1 \<le> running \<and> running \<le> 64 \<and> 0 < poll \<and> 0 < startup \<and> 1 \<le> pending \<and> pending \<le> 10000"
  shows "\<exists>q0. open_queue running pending poll startup now (map job_file (disk q)) = Inr q0 \<and>
    (\<forall>i. map_option stored_job (job_of q0 i) = map_option (\<lambda>j. interrupt now (stored_job j)) (job_of q i))"
proof -
  have inv: "files_inv q" using reach_files [OF assms(1)] by simp
  let ?rows = "sort_key (\<lambda>j. fst (job_file j) @ ''.json'') (disk q)"
  have "list_all (\<lambda>r. job_wf r \<and> stored_job r = r) ?rows" "distinct_keys job_id ?rows"
    using disk_rows [OF inv] by (auto simp: list_all_iff intro: distinct_sort_rows)
  from load_job_files_all [OF this(1) this(2) [unfolded distinct_keys_def]]
  obtain q0 where q0: "load_files now (map job_file ?rows) (empty_queue running pending poll startup) = Inr q0"
    and look: "\<And>i. map_option stored_job (job_of q0 i) = (case tbl_lookup job_id i ?rows of Some j \<Rightarrow> Some (interrupt now j)
      | None \<Rightarrow> map_option stored_job (job_of (empty_queue running pending poll startup) i))" by blast
  have "tbl_lookup job_id i ?rows = map_option stored_job (job_of q i)" for i
  proof -
    have "tbl_lookup job_id i ?rows = tbl_lookup job_id i (disk q)"
      using disk_rows(2) [OF inv] by (intro lookup_same_rows distinct_sort_rows) simp_all
    with inv show ?thesis by (simp add: files_inv_def)
  qed
  then have "map_option stored_job (job_of q0 i) = map_option (\<lambda>j. interrupt now (stored_job j)) (job_of q i)" for i
    unfolding look by (cases "job_of q i") (simp_all add: job_of_def empty_queue_def)
  with q0 assms(2) show ?thesis by (simp add: open_queue_def sort_key_map ensure_def)
qed

text \<open>
  C27. A success is complete: in a faultless run, a job of this process that ended as succeeded has
  exactly one successful result for each of its runs, in order.
\<close>

theorem success_is_complete:
  assumes "jq_reach False q" "job_of q i = Some j" "jstate j = Succeeded" "fingerprint j \<noteq> None"
  shows "completed_runs j = repeats j \<and> map run_no (results j) = [1..repeats j]"
  using files_job [of q i j] reach_files [OF assms(1)] assms(2-4) by (auto simp: job_runs_def)

section \<open>Runs of the queue\<close>

text \<open>
  A job with one run on one device, submitted and dispatched; then its worker completes.
\<close>

definition demo_digest :: string where "demo_digest = replicate 64 (CHR ''a'')"

definition demo_submission :: submission where
  "demo_submission = \<lparr>sub_owner = ''me'', sub_recording = ''r'', sub_request = ''q'', sub_variables = [],
     sub_timeout = 900, sub_repeats = 1, sub_project = None, sub_principal = None, sub_credential = None,
     sub_authorization = None\<rparr>"

definition demo_recording :: recording where
  "demo_recording = \<lparr>rec_status = ''complete'', rec_replayable = True, rec_variables = Some [],
     rec_digest = demo_digest, rec_device = ''dev'', rec_events = 0\<rparr>"

definition demo_queue :: job_queue where "demo_queue = empty_queue 2 100 1 95"

definition demo_begin :: "jq_event list" where
  "demo_begin =
     [Submit demo_submission [7] demo_recording ''j1'' 10 0 (Answer ()),
      Dispatch [''dev''] (\<lambda>_. Answer ()) 1 11,
      Worker ''j1'' (In_start True 2 (Answer ()) (Answer demo_recording) (Answer ''s1''))]"

definition demo_complete :: "jq_event list" where
  "demo_complete =
     [Worker ''j1'' (In_await True False 3 3 (Answer (''active'', 1)) (Answer (''c1'', 1))),
      Worker ''j1'' (In_run False 4 (Answer demo_recording) (Answer ''c1'') (Answer ''p1'')),
      Worker ''j1'' (In_replay True False 5 5 (Answer (Some (''p1'', ''actions_replayed'')))
        (Answer (Some \<lparr>art_id = ''p1'', art_recording = ''r'', art_digest = demo_digest,
           art_state = Some ''actions_replayed'', art_receipts = Some []\<rparr>))),
      Worker ''j1'' (In_run False 6 (Answer demo_recording) (Answer ''c1'') (Answer ''p2'')),
      Worker ''j1'' (In_finish True 12), Worker ''j1'' (In_close True 13 True), Worker ''j1'' (In_release 7 14)]"

fun all_sound :: "bool \<Rightarrow> job_queue \<Rightarrow> jq_event list \<Rightarrow> bool" where
  "all_sound faults q [] = True"
| "all_sound faults q (e # es) = (sound_event q e \<and> (faults \<or> faultless e) \<and> all_sound faults (jq_step q e) es)"

lemma all_sound_reach: "all_sound faults q es \<Longrightarrow> jq_reach faults q \<Longrightarrow> jq_reach faults (foldl jq_step q es)"
  by (induction es arbitrary: q) (auto intro: reach_event)

lemma demo_reach: "jq_reach faults demo_queue"
  by (rule reach_open [of 2 100 1 95 0 "[]"]) (simp add: open_queue_def demo_queue_def ensure_def)

lemma demo_begin_sound: "all_sound False demo_queue demo_begin"
  by code_simp

lemma demo_complete_sound: "all_sound False (foldl jq_step demo_queue demo_begin) demo_complete"
  by code_simp

lemma demo_complete_result:
  "map_option (\<lambda>j. (jstate j, fingerprint j, completed_runs j, repeats j, variables j))
     (job_of (foldl jq_step (foldl jq_step demo_queue demo_begin) demo_complete) ''j1'') =
   Some (Succeeded, Some [7], 1, 1, None)"
  by code_simp

text \<open>
  C28. Without the assumption on writes a success can be empty. Take any job of a faultless run whose
  session has become active and whose device was claimed in time. If the write of the state
  \<open>running\<close> then raises, no handler of \<open>_run\<close> catches it, the outcome still has its initial value, and
  the clean-up, which goes through, records the job as succeeded, in memory and on disk, without a
  code, although not one of its runs was made. With the write done, the worker goes on to the first run.
\<close>

lemma reach_with_faults: "jq_reach False q \<Longrightarrow> jq_reach True q"
  by (induction rule: jq_reach.induct) (auto intro: jq_reach.intros)

theorem failed_running_write_records_success:
  assumes "jq_reach False q" and "job_of q i = Some j" and "map_of (workers q) i = Some (Awaiting s limit)"
    and "\<not> cancel_set q i" and "clk < limit"
    and "q1 = jq_step q (Worker i (In_await False late clk clk' (Answer (''active'', n)) (Answer c)))"
    and "q2 = foldl jq_step q1 [Worker i (In_finish True now), Worker i (In_close True now' True)]"
  shows "jq_reach True q2 \<and> map_option jstate (job_of q1 i) = Some Running \<and> disk q1 = disk q \<and>
    (\<exists>j2. job_of q2 i = Some j2 \<and> tbl_lookup job_id i (disk q2) = Some (stored_job j2) \<and>
       jstate j2 = Succeeded \<and> error_code j2 = None \<and> completed_runs j2 = 0 \<and> results j2 = [] \<and> 1 \<le> repeats j2) \<and>
    map_of (workers (jq_step q (Worker i (In_await True late clk clk' (Answer (''active'', n)) (Answer c))))) i =
      Some (At_run s 1)"
proof -
  have id: "job_id j = i" using assms(2) by (rule job_of_id)
  from reach_files [OF assms(1)] have files: "files_inv q" and inv: "jq_inv q" by simp_all
  have "fingerprint j \<noteq> None \<and> completed_runs j = 0" using files_worker [OF files assms(3,2)] by simp
  moreover from files_job [OF files assms(2)] have "job_runs j" "1 \<le> repeats j" by (simp_all add: job_wf_def)
  ultimately have runs: "completed_runs j = 0" "results j = []" "1 \<le> repeats j" by (auto simp: job_runs_def)
  let ?j1 = "j\<lparr>controller := Some c, jstate := Running\<rparr>"
  have q1: "q1 = goto i (escape_to s) (save_job False ?j1 q)"
    unfolding assms(6) using assms(2-5) id by (simp add: worker_step_def w_await_def)
  let ?q1 = "goto i (Closing s (Succeeded, None)) (save_job True (?j1\<lparr>jstate := Cleaning\<rparr>) q1)"
  have f1: "job_of q1 i = Some ?j1" "map_of (workers q1) i = Some (escape_to s)" using id by (simp_all add: q1)
  have s1: "jq_step q1 (Worker i (In_finish True now)) = ?q1"
    using f1 id by (simp add: worker_step_def escape_to_def w_finish_def)
  have f2: "job_of ?q1 i = Some (?j1\<lparr>jstate := Cleaning\<rparr>)" "map_of (workers ?q1) i = Some (Closing s (Succeeded, None))"
    using id by simp_all
  have q2: "q2 = goto i (Releasing False) (save_job True (finish Succeeded None now' (?j1\<lparr>jstate := Cleaning\<rparr>)) ?q1)"
    unfolding assms(7) using f2 id s1 by (simp add: worker_step_def w_close_def set_terminal_def)
  have "jq_reach True q1" unfolding assms(6)
    by (rule reach_event [OF reach_with_faults [OF assms(1)]]) (simp_all add: sound_event_def sound_input_def)
  then have "jq_reach True (jq_step q1 (Worker i (In_finish True now)))"
    by (rule reach_event) (simp_all add: sound_event_def sound_input_def)
  then have "jq_reach True (jq_step (jq_step q1 (Worker i (In_finish True now))) (Worker i (In_close True now' True)))"
    by (rule reach_event) (simp_all add: sound_event_def sound_input_def)
  then have "jq_reach True q2" unfolding assms(7) by simp
  moreover have "map_of (workers (jq_step q (Worker i (In_await True late clk clk' (Answer (''active'', n)) (Answer c))))) i =
      Some (At_run s 1)"
    using assms(2-5) id by (simp add: worker_step_def w_await_def)
  moreover have "\<exists>j2. job_of q2 i = Some j2 \<and> tbl_lookup job_id i (disk q2) = Some (stored_job j2) \<and>
       jstate j2 = Succeeded \<and> error_code j2 = None \<and> completed_runs j2 = 0 \<and> results j2 = [] \<and> 1 \<le> repeats j2"
    using id runs by (simp add: q2 lookup_put_row finish_def stored_job_def)
  ultimately show ?thesis using id by (simp add: q1)
qed

lemma load_file_error: "load_file f = Inl e \<longleftrightarrow> e = AttributeError \<and> (\<exists>v. snd f = Some v \<and> as_dict v = None)"
  by (auto simp: load_file_def as_dict_def split: option.splits pyval.splits sum.splits)

lemma load_files_error:
  "(s, Some v) \<in> set fs \<Longrightarrow> as_dict v = None \<Longrightarrow> load_files now fs q = Inl AttributeError"
proof (induction fs arbitrary: q)
  case (Cons f fs)
  show ?case
  proof (cases "load_file f")
    case (Inl e)
    then show ?thesis using load_file_error [of f e] by simp
  next
    case (Inr r)
    then have "f \<noteq> (s, Some v)" using Cons.prems(2) load_file_error [of f AttributeError] by force
    with Cons Inr show ?thesis by auto
  qed
qed simp

text \<open>
  One job file whose JSON is not an object stops the whole queue from opening, although every
  other kind of malformed file is skipped.
\<close>

theorem non_object_file_stops_load:
  assumes "(stem, Some v) \<in> set files" "as_dict v = None"
    and "1 \<le> running \<and> running \<le> 64 \<and> 0 < poll \<and> 0 < startup \<and> 1 \<le> pending \<and> pending \<le> 10000"
  shows "open_queue running pending poll startup now files = Inl AttributeError"
  using assms by (auto simp: open_queue_def ensure_def intro!: load_files_error)

section \<open>Witnesses\<close>

definition demo_started :: job_queue where "demo_started = foldl jq_step demo_queue demo_begin"
definition demo_ended :: job_queue where "demo_ended = foldl jq_step demo_started demo_complete"

lemma demo_started_reach: "jq_reach False demo_started"
  unfolding demo_started_def by (rule all_sound_reach [OF demo_begin_sound demo_reach])

lemma demo_started_worker:
  "map_of (workers demo_started) ''j1'' = Some (Awaiting ''s1'' 97)" "\<not> cancel_set demo_started ''j1''"
  "job_of demo_started ''j1'' \<noteq> None"
  by code_simp+

theorem failed_running_write_witness:
  "\<exists>q2. q2 = foldl jq_step demo_started
      [Worker ''j1'' (In_await False False 3 3 (Answer (''active'', 1)) (Answer (''c1'', 1))),
       Worker ''j1'' (In_finish True 12), Worker ''j1'' (In_close True 13 True)] \<and>
    jq_reach True q2 \<and> (\<exists>j. job_of q2 ''j1'' = Some j \<and> jstate j = Succeeded \<and> completed_runs j = 0 \<and> 1 \<le> repeats j)"
proof -
  obtain j where "job_of demo_started ''j1'' = Some j" using demo_started_worker(3) by auto
  from failed_running_write_records_success [OF demo_started_reach this demo_started_worker(1,2) _ refl refl,
      of 3 False 3 1 "(''c1'', 1)" 12 13]
  show ?thesis by auto
qed

lemma demo_ended_reach: "jq_reach False demo_ended"
  unfolding demo_ended_def
  using demo_complete_sound demo_started_reach by (simp add: all_sound_reach demo_started_def)

lemma demo_ended_job:
  "\<exists>j. job_of demo_ended ''j1'' = Some j \<and> jstate j = Succeeded \<and> fingerprint j \<noteq> None \<and> repeats j = 1"
  using demo_complete_result by (auto simp: demo_ended_def demo_started_def map_option_eq_Some)

theorem job_devices_exclusive_witness:
  "map device_id (filter (\<lambda>j. active (jstate j)) (jobs demo_started)) = [''dev''] \<and>
   distinct (map device_id (filter (\<lambda>j. active (jstate j)) (jobs demo_started)))"
proof -
  have "map device_id (filter (\<lambda>j. active (jstate j)) (jobs demo_started)) = [''dev'']" by code_simp
  then show ?thesis using job_devices_exclusive [OF demo_started_reach] by blast
qed

theorem final_states_stay_witness:
  "\<exists>j. job_of (jq_step demo_ended (Cancel (PStr ''j1'') ''me'' 20)) ''j1'' = Some j \<and> jstate j = Succeeded \<and> variables j = None"
proof -
  obtain j where j: "job_of demo_ended ''j1'' = Some j" "jstate j = Succeeded" using demo_ended_job by blast
  have "jq_run False demo_ended (jq_step demo_ended (Cancel (PStr ''j1'') ''me'' 20))"
    by (rule run_event [OF run_here]) (simp_all add: sound_event_def faultless_def)
  from final_states_stay [OF demo_ended_reach this j(1)] j(2) show ?thesis by auto
qed

definition demo_queued :: job_queue where "demo_queued = foldl jq_step demo_queue (take 1 demo_begin)"

lemma demo_queued_reach: "jq_reach False demo_queued"
proof -
  have "all_sound False demo_queue (take 1 demo_begin)" by code_simp
  then show ?thesis unfolding demo_queued_def using demo_reach by (rule all_sound_reach)
qed

theorem dispatch_oldest_first_witness:
  "\<exists>j. job_id j = ''j1'' \<and> job_of demo_queued ''j1'' = Some j \<and> jstate j = Queued \<and>
     fst (dispatch [''dev''] (\<lambda>_. Answer ()) 1 11 demo_queued) = Some ''j1''"
proof -
  have d: "fst (dispatch [''dev''] (\<lambda>_. Answer ()) 1 11 demo_queued) = Some ''j1''" by code_simp
  then have "dispatch [''dev''] (\<lambda>_. Answer ()) 1 11 demo_queued =
      (Some ''j1'', snd (dispatch [''dev''] (\<lambda>_. Answer ()) 1 11 demo_queued))"
    by (metis prod.collapse)
  from dispatch_oldest_first [OF demo_queued_reach this] d show ?thesis by blast
qed

definition demo_request :: pyval where
  "demo_request = PDict [(''recordingId'', PStr ''r''), (''variables'', PDict []), (''requestId'', PStr ''q'')]"

definition demo_submit :: "int \<Rightarrow> job_queue \<Rightarrow> job result \<times> job_queue" where
  "demo_submit now = submit (map of_char) False (PStr ''me'') demo_request PNone PNone PNone PNone
     (Answer demo_recording) ''j1'' now 0 (Answer ())"

theorem resubmission_idempotent_witness:
  "\<exists>v j. fst (demo_submit 10 demo_queue) = Inr v \<and> job_of (snd (demo_submit 10 demo_queue)) (job_id v) = Some j \<and>
     demo_submit 99 (snd (demo_submit 10 demo_queue)) = (Inr (public_job j), snd (demo_submit 10 demo_queue))"
proof -
  have "map_sum id job_id (fst (demo_submit 10 demo_queue)) = Inr ''j1''" by code_simp
  then obtain v where v: "fst (demo_submit 10 demo_queue) = Inr v" by (cases "fst (demo_submit 10 demo_queue)") auto
  then have s: "demo_submit 10 demo_queue = (Inr v, snd (demo_submit 10 demo_queue))" by (metis prod.collapse)
  have "\<not> closed (snd (demo_submit 10 demo_queue))" by code_simp
  from resubmission_idempotent [OF demo_reach s [unfolded demo_submit_def] run_here this [unfolded demo_submit_def]] v
  show ?thesis unfolding demo_submit_def by blast
qed

theorem restart_finds_all_jobs_witness:
  "\<exists>q0. open_queue 2 100 1 95 50 (map job_file (disk demo_started)) = Inr q0 \<and>
     map_option jstate (job_of q0 ''j1'') = Some Interrupted"
proof -
  from restart_finds_all_jobs [OF demo_started_reach, of 2 1 95 100 50]
  obtain q0 where q0: "open_queue 2 100 1 95 50 (map job_file (disk demo_started)) = Inr q0"
    and all: "\<And>i. map_option stored_job (job_of q0 i) = map_option (\<lambda>j. interrupt 50 (stored_job j)) (job_of demo_started i)"
    by auto
  have "map_option jstate (job_of demo_started ''j1'') = Some Starting" by code_simp
  then obtain k where "job_of demo_started ''j1'' = Some k" "jstate k = Starting" by auto
  then have "map_option jstate (map_option stored_job (job_of q0 ''j1'')) = Some Interrupted"
    unfolding all by (simp add: interrupt_def)
  with q0 show ?thesis by (auto simp: map_option_eq_Some)
qed

theorem success_is_complete_witness:
  "\<exists>j. job_of demo_ended ''j1'' = Some j \<and> map run_no (results j) = [1]"
proof -
  obtain j where j: "job_of demo_ended ''j1'' = Some j" "jstate j = Succeeded" "fingerprint j \<noteq> None" "repeats j = 1"
    using demo_ended_job by blast
  from success_is_complete [OF demo_ended_reach j(1-3)] j(1,4) show ?thesis by (auto simp: upto.simps)
qed

theorem non_object_file_stops_load_witness:
  "open_queue 2 100 1 95 0 [(''j1'', None), (''x'', Some (PList []))] = Inl AttributeError"
  by (rule non_object_file_stops_load [of "''x''" "PList []"]) (simp_all add: as_dict_def)

end
