(* ===== verification/Inventory.thy ===== *)
theory Inventory
  imports Wire
begin

text \<open>
  \<open>InventoryRegistry\<close> of \<open>reproof/live/inventory.py\<close>: the coordinator's journal of which physical
  devices the enrolled hosts report and which of them may be scheduled. A device that was reported in
  use, or whose host was replaced, is held until its authority shows a release of a late enough
  generation. \<open>refresh\<close> is one transaction; it can commit and raise afterwards, which its value says
  (\<open>Inl\<close>). The clock and the generations are taken to fit the 64 bits of a column. \<open>fp\<close> is the digest of a list of fields; \<open>LiveError\<close> carries the code of the error.
\<close>

definition INVENTORY_VERSION :: int where "INVENTORY_VERSION = 2"

definition inventory_kinds :: "string list" where
  "inventory_kinds = [''android'', ''ios-physical'', ''ios-simulator'']"

definition inventory_states :: "string list" where
  "inventory_states = [''available'', ''reserved'', ''busy'', ''uncertain'', ''quarantined'',
     ''recovering'', ''repairing'']"

record ownership =
  ow_digest :: string
  ow_root :: string
  ow_generation :: int
  ow_status :: string
  ow_host :: string
  ow_helper :: "string option"
  ow_receipt :: "string option"

record inventory_row =
  iv_digest :: string
  iv_id :: string
  iv_host :: string
  iv_generation :: int
  iv_incarnation :: string
  iv_alias :: string
  iv_kind :: string
  iv_profile :: "string option"
  iv_state :: string
  iv_sequence :: int
  iv_updated_ms :: int
  iv_ownership :: "ownership option"
  iv_root :: "string option"
  iv_watermark :: int
  iv_floor :: int
  iv_held :: bool

record host_row =
  hr_id :: string
  hr_generation :: int
  hr_incarnation :: string
  hr_sequence :: int
  hr_updated_ms :: int

record inventory =
  inv_devices :: "inventory_row list"
  inv_hosts :: "host_row list"

record host_context =
  hc_id :: string
  hc_generation :: int
  hc_incarnation :: string

record reported_device =
  rd_digest :: string
  rd_alias :: string
  rd_kind :: string
  rd_profile :: "string option"
  rd_state :: string
  rd_ownership :: "ownership option"

definition new_inventory :: inventory where
  "new_inventory = \<lparr>inv_devices = [], inv_hosts = []\<rparr>"

section \<open>Reading an update\<close>

definition invalid_argument :: py_error where
  "invalid_argument = LiveError ''invalid_argument''"

definition inventory_identifier :: "pyval \<Rightarrow> string result" where
  "inventory_identifier v =
     (case as_str v of
        Some s \<Rightarrow> ensure (is_word_id s) invalid_argument (Inr s)
      | None \<Rightarrow> Inl invalid_argument)"

definition optional_str :: "string option \<Rightarrow> pyval" where
  "optional_str v = (case v of None \<Rightarrow> PNone | Some s \<Rightarrow> PStr s)"

definition ownership_items :: "ownership \<Rightarrow> (string \<times> pyval) list" where
  "ownership_items w =
     [(''physicalDigest'', PStr (ow_digest w)), (''authorityRootDigest'', PStr (ow_root w)),
      (''generation'', PInt (ow_generation w)), (''status'', PStr (ow_status w)),
      (''hostIncarnation'', PStr (ow_host w)), (''helperIncarnation'', optional_str (ow_helper w))]"

definition OWNERSHIP_STATUSES :: "string list" where
  "OWNERSHIP_STATUSES = [''unused'', ''owned'', ''released'', ''expired'', ''quarantined'']"

definition ownership_of :: "((string \<times> pyval) list \<Rightarrow> string) \<Rightarrow> pyval \<Rightarrow> string \<Rightarrow> ownership option result" where
  "ownership_of fp value digest =
     (case value of
        PNone \<Rightarrow> Inr None
      | PDict d \<Rightarrow>
          ensure (same_keys d [''physicalDigest'', ''authorityRootDigest'', ''generation'', ''status'',
              ''hostIncarnation'', ''helperIncarnation'', ''releaseReceiptDigest'']) invalid_argument
          (case (as_str (field_of d ''authorityRootDigest''), int_in_range 0 (2 ^ 53 - 1) (field_of d ''generation''),
                 as_str (field_of d ''status'')) of
             (Some root, Some gen, Some st) \<Rightarrow>
               ensure (field_of d ''physicalDigest'' = PStr digest \<and> is_hex_digest root \<and>
                   st \<in> set OWNERSHIP_STATUSES \<and> ((gen = 0) = (st = ''unused''))) invalid_argument
               (bind_result (inventory_identifier (field_of d ''hostIncarnation'')) (\<lambda>host.
                bind_result
                  (if st = ''unused''
                   then ensure (field_of d ''helperIncarnation'' = PNone) invalid_argument (Inr None)
                   else bind_result (inventory_identifier (field_of d ''helperIncarnation'')) (\<lambda>h. Inr (Some h)))
                  (\<lambda>helper.
                let w = \<lparr>ow_digest = digest, ow_root = root, ow_generation = gen, ow_status = st,
                         ow_host = host, ow_helper = helper, ow_receipt = None\<rparr>;
                    expected = (if st = ''released'' then Some (fp (ownership_items w)) else None)
                in ensure (field_of d ''releaseReceiptDigest'' = optional_str expected) invalid_argument
                     (Inr (Some (w\<lparr>ow_receipt := expected\<rparr>))))))
           | _ \<Rightarrow> Inl invalid_argument)
      | _ \<Rightarrow> Inl invalid_argument)"

definition profile_of :: "pyval \<Rightarrow> string option option" where
  "profile_of v = (case v of PNone \<Rightarrow> Some None
     | PStr s \<Rightarrow> (if is_hex_digest s then Some (Some s) else None) | _ \<Rightarrow> None)"

fun parse_devices :: "((string \<times> pyval) list \<Rightarrow> string) \<Rightarrow> string list \<Rightarrow> string list \<Rightarrow> pyval list \<Rightarrow>
    reported_device list result" where
  "parse_devices fp aliases digests [] = Inr []"
| "parse_devices fp aliases digests (item # rest) =
     (case item of
        PDict d \<Rightarrow>
          ensure (same_keys d [''alias'', ''deviceKind'', ''physicalDigest'', ''profileDigest'', ''state'',
              ''ownership'']) invalid_argument
          (bind_result (inventory_identifier (field_of d ''alias'')) (\<lambda>alias.
           (case (as_str (field_of d ''deviceKind''), as_str (field_of d ''physicalDigest''),
                  profile_of (field_of d ''profileDigest''), as_str (field_of d ''state'')) of
              (Some kind, Some digest, Some profile, Some state) \<Rightarrow>
                ensure (kind \<in> set inventory_kinds \<and> is_hex_digest digest \<and> state \<in> set inventory_states)
                  invalid_argument
                (ensure (alias \<notin> set aliases \<and> digest \<notin> set digests) (LiveError ''duplicate_device'')
                (bind_result (ownership_of fp (field_of d ''ownership'') digest) (\<lambda>own.
                 bind_result (parse_devices fp (alias # aliases) (digest # digests) rest) (\<lambda>ds.
                 Inr (\<lparr>rd_digest = digest, rd_alias = alias, rd_kind = kind, rd_profile = profile,
                       rd_state = state, rd_ownership = own\<rparr> # ds)))))
            | _ \<Rightarrow> Inl invalid_argument)))
      | _ \<Rightarrow> Inl invalid_argument)"

definition parse_update :: "((string \<times> pyval) list \<Rightarrow> string) \<Rightarrow> host_context \<Rightarrow> pyval \<Rightarrow> reported_device list result" where
  "parse_update fp host document =
     (case document of
        PDict d \<Rightarrow>
          ensure (same_keys d [''schemaVersion'', ''generation'', ''incarnation'', ''devices'']) invalid_argument
          (case field_of d ''devices'' of
             PList items \<Rightarrow>
               ensure (field_of d ''schemaVersion'' = PInt INVENTORY_VERSION \<and>
                   field_of d ''generation'' = PInt (hc_generation host) \<and>
                   field_of d ''incarnation'' = PStr (hc_incarnation host) \<and> length items \<le> 128)
                 (LiveError ''stale_host'') (parse_devices fp [] [] items)
           | _ \<Rightarrow> Inl (LiveError ''stale_host''))
      | _ \<Rightarrow> Inl invalid_argument)"

section \<open>One reported device\<close>

definition suspect_states :: "string list" where
  "suspect_states = [''quarantined'', ''uncertain'', ''recovering'', ''repairing'']"

text \<open>
  What a report makes of a known row: its root, watermark, floor, hold, state and whether the
  ownership is taken over; and whether the host must be told to reconcile.
\<close>

definition compatible_ownership :: "inventory_row \<Rightarrow> ownership option \<Rightarrow> bool" where
  "compatible_ownership row own =
     (case own of
        None \<Rightarrow> False
      | Some w \<Rightarrow> iv_root row = Some (ow_root w) \<and> iv_watermark row \<le> ow_generation w \<or>
          iv_root row = None \<and> \<not> iv_held row)"

definition reported_floor :: "reported_device \<Rightarrow> int \<Rightarrow> int \<Rightarrow> int" where
  "reported_floor r watermark floor =
     (let floor1 = (if rd_state r \<noteq> ''available''
           then max floor (watermark +
             (if rd_state r \<in> set suspect_states \<or> (case rd_ownership r of None \<Rightarrow> True
                | Some w \<Rightarrow> ow_status w \<in> {''released'', ''unused''}) then 1 else 0))
           else floor)
      in (case rd_ownership r of
            None \<Rightarrow> floor1
          | Some w \<Rightarrow> (if ow_status w \<notin> {''unused'', ''released''}
              then max floor1 (watermark + (if ow_status w \<in> {''quarantined'', ''expired''} then 1 else 0))
              else floor1)))"

definition apply_known :: "host_context \<Rightarrow> int \<Rightarrow> int \<Rightarrow> reported_device \<Rightarrow> inventory_row \<Rightarrow> inventory_row \<times> bool" where
  "apply_known host sequence now r row =
     (let own = rd_ownership r;
          compatible = compatible_ownership row own;
          root = (case own of Some w \<Rightarrow> (if iv_root row = None \<and> \<not> iv_held row then Some (ow_root w) else iv_root row)
                  | None \<Rightarrow> iv_root row);
          held1 = (iv_held row \<or> own \<noteq> None \<and> \<not> compatible);
          watermark = (case own of Some w \<Rightarrow> (if compatible then ow_generation w else iv_watermark row)
                       | None \<Rightarrow> iv_watermark row);
          can_release = (compatible \<and> (case own of None \<Rightarrow> False
            | Some w \<Rightarrow> ow_status w = ''released'' \<and> iv_floor row \<le> ow_generation w));
          held2 = (if rd_state r = ''available'' \<and> held1 \<and> can_release then False else held1);
          held3 = (held2 \<or> rd_state r \<noteq> ''available'');
          held = (held3 \<or> (case own of None \<Rightarrow> False | Some w \<Rightarrow> ow_status w \<notin> {''unused'', ''released''}));
          effective = (if held \<and> rd_state r = ''available'' then ''uncertain'' else rd_state r)
      in (row\<lparr>iv_generation := hc_generation host, iv_incarnation := hc_incarnation host,
             iv_profile := rd_profile r, iv_state := effective, iv_sequence := sequence,
             iv_updated_ms := now, iv_ownership := (if compatible then own else iv_ownership row),
             iv_root := root, iv_watermark := watermark,
             iv_floor := reported_floor r watermark (iv_floor row), iv_held := held\<rparr>,
          held \<and> rd_state r = ''available''))"

definition first_report :: "host_context \<Rightarrow> int \<Rightarrow> int \<Rightarrow> reported_device \<Rightarrow> inventory_row" where
  "first_report host sequence now r =
     (let own = rd_ownership r;
          watermark = (case own of None \<Rightarrow> 0 | Some w \<Rightarrow> ow_generation w);
          held = (rd_state r \<noteq> ''available'' \<or>
            (case own of None \<Rightarrow> False | Some w \<Rightarrow> ow_status w \<notin> {''unused'', ''released''}));
          floor = watermark + (if held \<and> (rd_state r \<in> set suspect_states \<or> (case own of None \<Rightarrow> True
            | Some w \<Rightarrow> ow_status w \<in> {''unused'', ''released'', ''quarantined'', ''expired''})) then 1 else 0)
      in \<lparr>iv_digest = rd_digest r, iv_id = ''device_'' @ take 24 (rd_digest r), iv_host = hc_id host,
          iv_generation = hc_generation host, iv_incarnation = hc_incarnation host, iv_alias = rd_alias r,
          iv_kind = rd_kind r, iv_profile = rd_profile r,
          iv_state = (if held \<and> rd_state r = ''available'' then ''uncertain'' else rd_state r),
          iv_sequence = sequence, iv_updated_ms = now, iv_ownership = own,
          iv_root = map_option ow_root own, iv_watermark = watermark, iv_floor = floor, iv_held = held\<rparr>)"

definition apply_report :: "host_context \<Rightarrow> int \<Rightarrow> int \<Rightarrow> reported_device \<Rightarrow> inventory_row list \<Rightarrow>
    (bool \<times> inventory_row list) result" where
  "apply_report host sequence now r rows =
     (case filter (\<lambda>x. iv_digest x = rd_digest r \<or> iv_host x = hc_id host \<and> iv_alias x = rd_alias r) rows of
        [] \<Rightarrow>
          (let row = first_report host sequence now r
           in ensure (list_all (\<lambda>x. iv_id x \<noteq> iv_id row) rows) IntegrityError (Inr (False, rows @ [row])))
      | [row] \<Rightarrow>
          ensure (iv_digest row = rd_digest r) (LiveError ''duplicate_device'')
          (ensure (iv_host row = hc_id host) (LiveError ''duplicate_device'')
          (ensure (iv_alias row = rd_alias r) (LiveError ''duplicate_device'')
            (Inr (snd (apply_known host sequence now r row),
                  tbl_update (\<lambda>x. iv_digest x = rd_digest r) (\<lambda>x. fst (apply_known host sequence now r x)) rows))))
      | _ \<Rightarrow> Inl (LiveError ''duplicate_device''))"

fun apply_reports :: "host_context \<Rightarrow> int \<Rightarrow> int \<Rightarrow> reported_device list \<Rightarrow> inventory_row list \<Rightarrow>
    (bool \<times> inventory_row list) result" where
  "apply_reports host sequence now [] rows = Inr (False, rows)"
| "apply_reports host sequence now (r # rs) rows =
     bind_result (apply_report host sequence now r rows) (\<lambda>(a, rows1).
     bind_result (apply_reports host sequence now rs rows1) (\<lambda>(b, rows2). Inr (a \<or> b, rows2)))"

section \<open>An update\<close>

definition hold_replaced :: "host_context \<Rightarrow> int \<Rightarrow> inventory_row list \<Rightarrow> inventory_row list" where
  "hold_replaced host now = tbl_update
     (\<lambda>x. iv_host x = hc_id host \<and> (iv_held x \<or> 0 < iv_watermark x \<or> iv_root x = None))
     (\<lambda>x. x\<lparr>iv_state := ''uncertain'', iv_held := True, iv_updated_ms := now\<rparr>)"

definition mark_missing :: "host_context \<Rightarrow> int \<Rightarrow> int \<Rightarrow> inventory_row list \<Rightarrow> inventory_row list" where
  "mark_missing host sequence now = tbl_update
     (\<lambda>x. iv_host x = hc_id host \<and> iv_generation x = hc_generation host \<and>
          iv_incarnation x = hc_incarnation host \<and> iv_sequence x < sequence)
     (\<lambda>x. x\<lparr>iv_state := (if iv_held x then ''uncertain'' else ''missing''), iv_updated_ms := now\<rparr>)"

definition record_host :: "host_row \<Rightarrow> host_row list \<Rightarrow> host_row list" where
  "record_host h rows =
     (if tbl_lookup hr_id (hr_id h) rows = None then rows @ [h]
      else tbl_update (\<lambda>x. hr_id x = hr_id h) (\<lambda>_. h) rows)"

definition list_host :: "pyval \<Rightarrow> inventory \<Rightarrow> (string \<times> string \<times> string \<times> string option \<times> string) list result" where
  "list_host host_id s =
     bind_result (inventory_identifier host_id) (\<lambda>h.
     Inr (map (\<lambda>x. (iv_id x, iv_alias x, iv_kind x, iv_profile x, iv_state x))
       (sort_key iv_alias (filter (\<lambda>x. iv_host x = h) (inv_devices s)))))"

definition commit_update :: "host_context \<Rightarrow> int \<Rightarrow> reported_device list \<Rightarrow> inventory \<Rightarrow>
    ((bool \<times> int) \<times> inventory) result" where
  "commit_update host now reports s =
     (let prior = tbl_lookup hr_id (hc_id host) (inv_hosts s);
          replaced = (case prior of None \<Rightarrow> False
            | Some p \<Rightarrow> (hr_generation p, hr_incarnation p) \<noteq> (hc_generation host, hc_incarnation host));
          rows = (if replaced then hold_replaced host now (inv_devices s) else inv_devices s);
          sequence = (case prior of None \<Rightarrow> 1 | Some p \<Rightarrow> hr_sequence p + 1)
      in bind_result (apply_reports host sequence now reports rows) (\<lambda>(required, rows1).
         Inr ((required, sequence),
              \<lparr>inv_devices = mark_missing host sequence now rows1,
               inv_hosts = record_host \<lparr>hr_id = hc_id host, hr_generation = hc_generation host,
                 hr_incarnation = hc_incarnation host, hr_sequence = sequence, hr_updated_ms = now\<rparr>
                 (inv_hosts s)\<rparr>)))"

definition refresh :: "((string \<times> pyval) list \<Rightarrow> string) \<Rightarrow> host_context option \<Rightarrow> pyval \<Rightarrow> pyval \<Rightarrow> inventory \<Rightarrow>
    ((int \<times> (string \<times> string \<times> string \<times> string option \<times> string) list) result \<times> inventory) result" where
  "refresh fp context document clock s =
     (case context of
        None \<Rightarrow> Inl (LiveError ''unauthorized'')
      | Some host \<Rightarrow>
          bind_result (parse_update fp host document) (\<lambda>reports.
          (case clock of
             PInt now \<Rightarrow>
               ensure (0 \<le> now) (ContractError ''Invalid inventory clock'')
               (bind_result (commit_update host now reports s) (\<lambda>((required, sequence), s').
                Inr (if required then Inl (LiveError ''device_reconciliation_required'')
                     else bind_result (list_host (PStr (hc_id host)) s') (\<lambda>ds. Inr (sequence, ds)), s')))
           | _ \<Rightarrow> Inl (ContractError ''Invalid inventory clock''))))"

section \<open>Scheduling\<close>

text \<open>\<open>v == n\<close> for an integer of the table: a \<open>bool\<close> equals 0 or 1.\<close>

fun equals_int :: "pyval \<Rightarrow> int \<Rightarrow> bool" where
  "equals_int (PInt m) n = (m = n)"
| "equals_int (PBool b) n = (n = (if b then 1 else 0))"
| "equals_int _ n = False"

text \<open>
  A value bound to a parameter that is compared with a \<open>TEXT\<close> column: numbers become their text,
  \<open>NULL\<close> equals nothing, containers and integers of more than 64 bits raise.
\<close>

fun bound_text :: "pyval \<Rightarrow> string option result" where
  "bound_text PNone = Inr None"
| "bound_text (PStr s) = Inr (Some s)"
| "bound_text (PBool b) = Inr (Some (if b then ''1'' else ''0''))"
| "bound_text (PInt n) = ensure (- (2 ^ 63) \<le> n \<and> n < 2 ^ 63) OtherError (Inr (Some (int_text n)))"
| "bound_text _ = Inl OtherError"

definition unavailable :: py_error where
  "unavailable = LiveError ''inventory_unavailable''"

definition require_available :: "pyval \<Rightarrow> int \<Rightarrow> int \<Rightarrow> inventory \<Rightarrow> string result" where
  "require_available binding max_age_ms now s =
     (case binding of
        PDict d \<Rightarrow>
          ensure (same_keys d [''hostId'', ''generation'', ''incarnation'', ''alias'', ''profileDigest'']) unavailable
          (bind_result (bound_text (field_of d ''hostId'')) (\<lambda>host.
           bind_result (bound_text (field_of d ''alias'')) (\<lambda>alias.
          (case find (\<lambda>x. Some (iv_host x) = host \<and> Some (iv_alias x) = alias) (inv_devices s) of
             None \<Rightarrow> Inl unavailable
           | Some row \<Rightarrow>
               ensure (iv_state row = ''available'' \<and> \<not> iv_held row \<and>
                   equals_int (field_of d ''generation'') (iv_generation row) \<and>
                   field_of d ''incarnation'' = PStr (iv_incarnation row) \<and>
                   field_of d ''profileDigest'' = optional_str (iv_profile row) \<and>
                   0 \<le> now - iv_updated_ms row \<and> now - iv_updated_ms row \<le> max_age_ms) unavailable
               (case iv_ownership row of
                  None \<Rightarrow> Inl unavailable
                | Some w \<Rightarrow> ensure (ow_status w \<in> {''unused'', ''released''}) unavailable (Inr (iv_id row)))))))
      | _ \<Rightarrow> Inl unavailable)"

end
