(* ===== verification/Inventory_Props.thy ===== *)
theory Inventory_Props
  imports Inventory
begin

text \<open>
  What the inventory of \<open>Inventory\<close> keeps in every sequence of host reports: a row that may be
  scheduled has a resolved ownership (\<open>inventory_row_ok\<close>), and a held row is freed by nothing but a release
  receipt of its own authority that is recent enough (\<open>row_leads\<close>, \<open>frees\<close>).
\<close>

section \<open>The invariant of a row\<close>

definition resolved :: "inventory_row \<Rightarrow> bool" where
  "resolved row \<longleftrightarrow> iv_floor row \<le> iv_watermark row \<and>
     (\<forall>w. iv_ownership row = Some w \<longrightarrow> ow_status w \<in> {''unused'', ''released''})"

definition inventory_row_ok :: "inventory_row \<Rightarrow> bool" where
  "inventory_row_ok row \<longleftrightarrow>
     iv_root row = map_option ow_root (iv_ownership row) \<and>
     iv_watermark row = (case iv_ownership row of None \<Rightarrow> 0 | Some w \<Rightarrow> ow_generation w) \<and>
     0 \<le> iv_watermark row \<and>
     (\<forall>w. iv_ownership row = Some w \<longrightarrow> ow_digest w = iv_digest row) \<and>
     (if iv_held row then iv_state row \<noteq> ''available''
      else iv_state row \<in> {''available'', ''missing''} \<and> resolved row)"

definition report_ok :: "reported_device \<Rightarrow> bool" where
  "report_ok r \<longleftrightarrow> (\<forall>w. rd_ownership r = Some w \<longrightarrow> 0 \<le> ow_generation w \<and> ow_digest w = rd_digest r)"

lemma first_report_ok: "report_ok r \<Longrightarrow> inventory_row_ok (first_report host sequence now r)"
  by (cases "rd_ownership r") (auto simp: inventory_row_ok_def first_report_def Let_def report_ok_def resolved_def)

lemma known_report_ok:
  assumes "inventory_row_ok row" and "report_ok r" and "iv_digest row = rd_digest r"
  shows "inventory_row_ok (fst (apply_known host sequence now r row))"
proof (cases "rd_ownership r")
  case None
  with assms show ?thesis
    by (cases "iv_held row")
      (auto simp: inventory_row_ok_def apply_known_def Let_def resolved_def compatible_ownership_def reported_floor_def)
next
  case (Some w)
  with assms have "0 \<le> ow_generation w" "ow_digest w = rd_digest r" by (simp_all add: report_ok_def)
  with Some assms show ?thesis
    by (cases "compatible_ownership row (Some w)"; cases "iv_held row"; cases "rd_state r = ''available''")
      (auto simp: inventory_row_ok_def apply_known_def Let_def resolved_def compatible_ownership_def reported_floor_def
        split: option.splits)
qed

section \<open>How a row may change\<close>

definition row_leads :: "inventory_row \<Rightarrow> inventory_row \<Rightarrow> bool" where
  "row_leads r r' \<longleftrightarrow>
     iv_digest r' = iv_digest r \<and> iv_id r' = iv_id r \<and> iv_host r' = iv_host r \<and> iv_alias r' = iv_alias r \<and>
     iv_watermark r \<le> iv_watermark r' \<and> iv_floor r \<le> iv_floor r' \<and>
     (iv_root r \<noteq> None \<longrightarrow> iv_root r' = iv_root r) \<and>
     (iv_held r \<and> iv_root r = None \<longrightarrow> iv_held r' \<and> iv_root r' = None)"

interpretation rows: growing_table iv_digest row_leads
  by unfold_locales (auto simp: row_leads_def)

text \<open>A report that frees a held row.\<close>

definition frees :: "reported_device \<Rightarrow> inventory_row \<Rightarrow> bool" where
  "frees r row \<longleftrightarrow> rd_digest r = iv_digest row \<and> rd_state r = ''available'' \<and>
     (\<exists>w. rd_ownership r = Some w \<and> ow_status w = ''released'' \<and> iv_root row = Some (ow_root w) \<and>
        max (iv_floor row) (iv_watermark row) \<le> ow_generation w)"

lemma frees_back: "iv_held row \<Longrightarrow> row_leads row row1 \<Longrightarrow> frees r row1 \<Longrightarrow> frees r row"
  by (cases "iv_root row") (auto simp: frees_def row_leads_def)

lemma first_report_digest [simp]: "iv_digest (first_report host sequence now r) = rd_digest r"
  by (simp add: first_report_def Let_def)

lemma reported_floor_mono: "floor \<le> reported_floor r watermark floor"
  by (auto simp: reported_floor_def Let_def split: option.splits)

lemma known_report_leads:
  assumes "inventory_row_ok row" and "report_ok r"
  shows "row_leads row (fst (apply_known host sequence now r row))"
proof (cases "rd_ownership r")
  case None
  then show ?thesis
    by (auto simp: row_leads_def apply_known_def Let_def compatible_ownership_def reported_floor_mono)
next
  case (Some w)
  with assms have "0 \<le> ow_generation w" by (simp add: report_ok_def)
  with Some assms(1) show ?thesis
    by (cases "iv_ownership row"; cases "iv_held row")
      (auto simp: inventory_row_ok_def row_leads_def apply_known_def Let_def compatible_ownership_def reported_floor_mono)
qed

lemma known_report_frees:
  assumes "iv_held row" and "\<not> iv_held (fst (apply_known host sequence now r row))"
    and "iv_digest row = rd_digest r"
  shows "frees r row"
  using assms
  by (cases "rd_ownership r")
    (auto simp: frees_def apply_known_def Let_def compatible_ownership_def split: if_splits)

section \<open>One report on the table\<close>

lemma apply_report_cases:
  assumes "apply_report host sequence now r rows = Inr (b, rows')"
  obtains (first) "rd_digest r \<notin> iv_digest ` set rows" and "rows' = rows @ [first_report host sequence now r]"
  | (known) "rows' = tbl_update (\<lambda>x. iv_digest x = rd_digest r) (\<lambda>x. fst (apply_known host sequence now r x)) rows"
proof (cases "filter (\<lambda>x. iv_digest x = rd_digest r \<or> iv_host x = hc_id host \<and> iv_alias x = rd_alias r) rows")
  case Nil
  then have "rd_digest r \<notin> iv_digest ` set rows" by (fastforce simp: filter_empty_conv)
  moreover from Nil assms have "rows' = rows @ [first_report host sequence now r]"
    by (simp add: apply_report_def Let_def result_iff)
  ultimately show thesis by (rule first)
next
  case (Cons row rest)
  with assms show thesis
    by (cases rest) (auto simp: apply_report_def Let_def result_iff intro: known)
qed

lemma same_row:
  "distinct_keys iv_digest rows \<Longrightarrow> x \<in> set rows \<Longrightarrow> y \<in> set rows \<Longrightarrow> iv_digest x = iv_digest y \<Longrightarrow> x = y"
  by (auto simp: distinct_keys_def distinct_map dest: inj_onD)

lemma apply_known_digest: "iv_digest (fst (apply_known host sequence now r x)) = iv_digest x"
  by (simp add: apply_known_def Let_def)

lemma apply_report_digests:
  assumes "apply_report host sequence now r rows = Inr (b, rows')" and "distinct_keys iv_digest rows"
  shows "distinct_keys iv_digest rows'"
  using assms(1)
proof (cases rule: apply_report_cases)
  case first
  then show ?thesis using assms(2) by (simp add: distinct_keys_def)
next
  case known
  then have "map iv_digest rows' = map iv_digest rows"
    by (simp add: tbl_update_def comp_def if_distrib apply_known_digest cong: if_cong)
  then show ?thesis using assms(2) by (simp add: distinct_keys_def)
qed

lemma apply_report_ok:
  assumes "apply_report host sequence now r rows = Inr (b, rows')"
    and "\<forall>row \<in> set rows. inventory_row_ok row" and "report_ok r"
  shows "(\<forall>row \<in> set rows'. inventory_row_ok row) \<and> grows row_leads rows rows'"
  using assms(1)
proof (cases rule: apply_report_cases)
  case first
  then show ?thesis using assms(2,3) first_report_ok by auto
next
  case known
  then show ?thesis using assms(2,3)
    by (auto simp: set_tbl_update intro!: rows.grows_update known_report_ok known_report_leads)
qed

lemma apply_report_frees:
  assumes "apply_report host sequence now r rows = Inr (b, rows')" and "distinct_keys iv_digest rows'"
    and "row \<in> set rows" and "iv_held row"
    and "row' \<in> set rows'" and "iv_digest row' = iv_digest row" and "\<not> iv_held row'"
  shows "frees r row"
  using assms(1)
proof (cases rule: apply_report_cases)
  case first
  then have "row' = row"
    using assms(2-6) by (intro same_row [of rows']) auto
  then show ?thesis using assms(4,7) by simp
next
  case known
  define upd where "upd x = (if iv_digest x = rd_digest r then fst (apply_known host sequence now r x) else x)" for x
  have "upd row \<in> set rows'" "iv_digest (upd row) = iv_digest row"
    using known assms(3) by (auto simp: set_tbl_update upd_def apply_known_digest)
  then have "row' = upd row"
    using assms(2,5,6) by (intro same_row [of rows']) auto
  then show ?thesis
    using known_report_frees [OF assms(4)] assms(4,7) by (auto simp: upd_def split: if_splits)
qed

section \<open>An update on the table\<close>

definition table_ok :: "inventory_row list \<Rightarrow> bool" where
  "table_ok rows \<longleftrightarrow> (\<forall>row \<in> set rows. inventory_row_ok row) \<and> distinct_keys iv_digest rows"

text \<open>Every row that an update frees is freed by one of its reports.\<close>

definition frees_only :: "reported_device list \<Rightarrow> inventory_row list \<Rightarrow> inventory_row list \<Rightarrow> bool" where
  "frees_only rs rows rows' \<longleftrightarrow>
     (\<forall>row \<in> set rows. \<forall>row' \<in> set rows'. iv_digest row' = iv_digest row \<longrightarrow> iv_held row \<longrightarrow>
        iv_held row' \<or> (\<exists>r \<in> set rs. frees r row))"

lemma apply_reports_ok:
  assumes "apply_reports host sequence now rs rows = Inr (b, rows')"
    and "table_ok rows" and "\<forall>r \<in> set rs. report_ok r"
  shows "table_ok rows' \<and> grows row_leads rows rows' \<and> frees_only rs rows rows'"
  using assms
proof (induction rs arbitrary: rows b)
  case Nil
  then show ?case
    by (auto simp: frees_only_def table_ok_def dest: same_row)
next
  case (Cons r rs)
  from Cons.prems(1) obtain b1 rows1 b2 where
    one: "apply_report host sequence now r rows = Inr (b1, rows1)"
    and more: "apply_reports host sequence now rs rows1 = Inr (b2, rows')"
    by (auto simp: result_iff)
  have ok1: "table_ok rows1" and leads1: "grows row_leads rows rows1"
    using apply_report_ok [OF one] apply_report_digests [OF one] Cons.prems(2,3) by (auto simp: table_ok_def)
  note rest = Cons.IH [OF more ok1]
  then have ok': "table_ok rows'" and leads': "grows row_leads rows1 rows'" and free': "frees_only rs rows1 rows'"
    using Cons.prems(3) by auto
  have "frees_only (r # rs) rows rows'"
    unfolding frees_only_def
  proof (intro ballI impI)
    fix row row'
    assume row: "row \<in> set rows" "iv_held row" and row': "row' \<in> set rows'" "iv_digest row' = iv_digest row"
    obtain row1 where row1: "row1 \<in> set rows1" "row_leads row row1"
      using grows_member [OF leads1 row(1)] by blast
    then have dig: "iv_digest row1 = iv_digest row" by (simp add: row_leads_def)
    show "iv_held row' \<or> (\<exists>r' \<in> set (r # rs). frees r' row)"
    proof (cases "iv_held row1")
      case False
      with apply_report_frees [OF one _ row row1(1) dig] ok1 show ?thesis by (auto simp: table_ok_def)
    next
      case True
      with free' row1(1) row' dig have "iv_held row' \<or> (\<exists>r' \<in> set rs. frees r' row1)"
        by (auto simp: frees_only_def)
      then show ?thesis using frees_back [OF row(2) row1(2)] by auto
    qed
  qed
  with ok' rows.grows_trans [OF leads1 leads'] show ?case by blast
qed

lemma hold_replaced_ok:
  assumes "table_ok rows"
  shows "table_ok (hold_replaced host now rows) \<and> grows row_leads rows (hold_replaced host now rows)"
proof -
  have "map iv_digest (hold_replaced host now rows) = map iv_digest rows"
    by (simp add: hold_replaced_def tbl_update_def comp_def if_distrib cong: if_cong)
  moreover have "\<forall>row \<in> set (hold_replaced host now rows). inventory_row_ok row"
    using assms by (auto simp: hold_replaced_def set_tbl_update table_ok_def inventory_row_ok_def)
  ultimately show ?thesis
    using assms unfolding hold_replaced_def
    by (auto simp: table_ok_def distinct_keys_def row_leads_def intro!: rows.grows_update)
qed

lemma mark_missing_ok:
  assumes "table_ok rows"
  shows "table_ok (mark_missing host sequence now rows) \<and> grows row_leads rows (mark_missing host sequence now rows)"
proof -
  have "map iv_digest (mark_missing host sequence now rows) = map iv_digest rows"
    by (simp add: mark_missing_def tbl_update_def comp_def if_distrib cong: if_cong)
  moreover have "\<forall>row \<in> set (mark_missing host sequence now rows). inventory_row_ok row"
    using assms by (auto simp: mark_missing_def set_tbl_update table_ok_def inventory_row_ok_def resolved_def)
  ultimately show ?thesis
    using assms unfolding mark_missing_def
    by (auto simp: table_ok_def distinct_keys_def row_leads_def intro!: rows.grows_update)
qed

lemma keeps_held:
  "iv_held row \<Longrightarrow> row \<in> set rows \<Longrightarrow> \<exists>row' \<in> set (hold_replaced host now rows). iv_held row' \<and> row_leads row row'"
  unfolding hold_replaced_def set_tbl_update
  by (intro bexI [of _ "if iv_host row = hc_id host \<and> (iv_held row \<or> 0 < iv_watermark row \<or> iv_root row = None)
        then row\<lparr>iv_state := ''uncertain'', iv_held := True, iv_updated_ms := now\<rparr> else row"])
    (auto simp: row_leads_def)

lemma mark_missing_held:
  "row' \<in> set (mark_missing host sequence now rows) \<Longrightarrow>
     \<exists>row \<in> set rows. iv_digest row = iv_digest row' \<and> iv_held row = iv_held row'"
  by (force simp: mark_missing_def set_tbl_update split: if_splits)

lemma commit_update_ok:
  assumes run: "commit_update host now rs s = Inr (v, s')"
    and ok: "table_ok (inv_devices s)" and reports: "\<forall>r \<in> set rs. report_ok r"
  shows "table_ok (inv_devices s') \<and> grows row_leads (inv_devices s) (inv_devices s') \<and>
         frees_only rs (inv_devices s) (inv_devices s')"
proof -
  define prior where "prior = tbl_lookup hr_id (hc_id host) (inv_hosts s)"
  define sequence where "sequence = (case prior of None \<Rightarrow> 1 | Some p \<Rightarrow> hr_sequence p + 1)"
  define rows where "rows = (if case prior of None \<Rightarrow> False
       | Some p \<Rightarrow> (hr_generation p, hr_incarnation p) \<noteq> (hc_generation host, hc_incarnation host)
     then hold_replaced host now (inv_devices s) else inv_devices s)"
  obtain b rows1 where reps: "apply_reports host sequence now rs rows = Inr (b, rows1)"
    and devs: "inv_devices s' = mark_missing host sequence now rows1"
    using run by (auto simp: commit_update_def Let_def result_iff prior_def sequence_def rows_def split: prod.splits)
  have rows: "table_ok rows" "grows row_leads (inv_devices s) rows"
    using ok hold_replaced_ok [OF ok] rows.grows_refl by (auto simp: rows_def)
  note reps = apply_reports_ok [OF reps rows(1) reports]
  note marked = mark_missing_ok [of rows1 host sequence now, folded devs]
  have "frees_only rs (inv_devices s) (inv_devices s')"
    unfolding frees_only_def
  proof (intro ballI impI)
    fix row row'
    assume row: "row \<in> set (inv_devices s)" "iv_held row"
      and row': "row' \<in> set (inv_devices s')" "iv_digest row' = iv_digest row"
    have "\<exists>row0 \<in> set rows. iv_held row0 \<and> row_leads row row0"
      using keeps_held [OF row(2,1)] row rows.leads_refl by (auto simp: rows_def)
    then obtain row0 where row0: "row0 \<in> set rows" "iv_held row0" "row_leads row row0" by blast
    obtain row1 where row1: "row1 \<in> set rows1" "iv_digest row1 = iv_digest row'" "iv_held row1 = iv_held row'"
      using mark_missing_held [of row' host sequence now rows1] row'(1) devs by auto
    have "iv_digest row1 = iv_digest row0"
      using row1(2) row'(2) row0(3) by (simp add: row_leads_def)
    with reps row0 row1 have "iv_held row1 \<or> (\<exists>r \<in> set rs. frees r row0)"
      by (auto simp: frees_only_def)
    then show "iv_held row' \<or> (\<exists>r \<in> set rs. frees r row)"
      using row1(3) frees_back [OF row(2) row0(3)] by auto
  qed
  with rows reps marked show ?thesis using rows.grows_trans by blast
qed

section \<open>What a report document says\<close>

text \<open>A device entry that shows a release of generation \<open>g\<close> by the authority \<open>root\<close>, with its receipt.\<close>

definition shows_release :: "((string \<times> pyval) list \<Rightarrow> string) \<Rightarrow> pyval \<Rightarrow> string \<Rightarrow> string \<Rightarrow> int \<Rightarrow> bool" where
  "shows_release fp item digest root g \<longleftrightarrow>
     (\<exists>d w host. item = PDict d \<and> field_of d ''physicalDigest'' = PStr digest \<and>
        field_of d ''state'' = PStr ''available'' \<and> field_of d ''ownership'' = PDict w \<and>
        field_of w ''status'' = PStr ''released'' \<and> field_of w ''authorityRootDigest'' = PStr root \<and>
        field_of w ''generation'' = PInt g \<and>
        field_of w ''hostIncarnation'' = PStr host \<and>
        (\<exists>helper. field_of w ''helperIncarnation'' = PStr helper \<and>
        field_of w ''releaseReceiptDigest'' = PStr (fp
          [(''physicalDigest'', PStr digest), (''authorityRootDigest'', PStr root), (''generation'', PInt g),
           (''status'', PStr ''released''), (''hostIncarnation'', PStr host),
           (''helperIncarnation'', PStr helper)])))"

lemma inventory_identifier_iff: "inventory_identifier v = Inr t \<longleftrightarrow> v = PStr t \<and> is_word_id t"
  by (cases v) (auto simp: inventory_identifier_def ensure_Inr_iff)

lemma ownership_of_cases:
  assumes "ownership_of fp v digest = Inr (Some w)"
  shows "\<exists>d. v = PDict d \<and> 0 \<le> ow_generation w \<and> ow_digest w = digest \<and>
    field_of d ''physicalDigest'' = PStr digest \<and>
    field_of d ''status'' = PStr (ow_status w) \<and> field_of d ''authorityRootDigest'' = PStr (ow_root w) \<and>
    field_of d ''generation'' = PInt (ow_generation w) \<and> field_of d ''hostIncarnation'' = PStr (ow_host w) \<and>
    field_of d ''helperIncarnation'' = optional_str (ow_helper w) \<and>
    (ow_status w \<noteq> ''unused'' \<longrightarrow> ow_helper w \<noteq> None) \<and>
    field_of d ''releaseReceiptDigest'' =
      (if ow_status w = ''released'' then PStr (fp (ownership_items w)) else PNone)"
proof (cases v)
  case (PDict d)
  with assms show ?thesis
    by (auto simp: ownership_of_def result_iff Let_def inventory_identifier_iff as_str_Some_iff
        int_in_range_Some_iff optional_str_def ownership_items_def split: option.splits if_splits)
qed (use assms in \<open>simp_all add: ownership_of_def\<close>)

lemma parse_devices_Cons:
  assumes "parse_devices fp aliases digests (item # rest) = Inr rs"
  obtains d k dg p st al ow ds where "item = PDict d"
    and "field_of d ''physicalDigest'' = PStr dg" and "field_of d ''state'' = PStr st"
    and "ownership_of fp (field_of d ''ownership'') dg = Inr ow"
    and "al \<notin> set aliases" and "dg \<notin> set digests"
    and "parse_devices fp (al # aliases) (dg # digests) rest = Inr ds"
    and "rs = \<lparr>rd_digest = dg, rd_alias = al, rd_kind = k, rd_profile = p, rd_state = st, rd_ownership = ow\<rparr> # ds"
proof (cases item)
  case (PDict d)
  show thesis
    using assms that [OF PDict]
    by (cases "as_str (field_of d ''deviceKind'')"; cases "as_str (field_of d ''physicalDigest'')";
        cases "profile_of (field_of d ''profileDigest'')"; cases "as_str (field_of d ''state'')")
      (auto simp: PDict result_iff as_str_Some_iff)
qed (use assms in simp_all)

lemma parse_devices_member:
  assumes "parse_devices fp aliases digests items = Inr rs" and "r \<in> set rs"
  shows "\<exists>d. PDict d \<in> set items \<and> field_of d ''physicalDigest'' = PStr (rd_digest r) \<and>
    field_of d ''state'' = PStr (rd_state r) \<and>
    ownership_of fp (field_of d ''ownership'') (rd_digest r) = Inr (rd_ownership r)"
  using assms
proof (induction items arbitrary: aliases digests rs)
  case (Cons item rest)
  from Cons.prems(1) show ?case
  proof (cases rule: parse_devices_Cons)
    case (1 d k dg p st al ow ds)
    show ?thesis
    proof (cases "r \<in> set ds")
      case True
      with Cons.IH [OF 1(7)] show ?thesis by auto
    next
      case False
      with 1 Cons.prems(2) show ?thesis by auto
    qed
  qed
qed simp

lemma parse_update_cases:
  assumes "parse_update fp host document = Inr rs"
  obtains d items where "document = PDict d" and "field_of d ''devices'' = PList items"
    and "parse_devices fp [] [] items = Inr rs"
proof (cases document)
  case (PDict d)
  with assms that show thesis
    by (cases "field_of d ''devices''") (auto simp: parse_update_def result_iff)
qed (use assms in \<open>simp_all add: parse_update_def\<close>)

definition released_in :: "((string \<times> pyval) list \<Rightarrow> string) \<Rightarrow> pyval \<Rightarrow> inventory_row \<Rightarrow> bool" where
  "released_in fp document row \<longleftrightarrow>
     (\<exists>d items root g. document = PDict d \<and> field_of d ''devices'' = PList items \<and>
        iv_root row = Some root \<and> max (iv_floor row) (iv_watermark row) \<le> g \<and>
        (\<exists>item \<in> set items. shows_release fp item (iv_digest row) root g))"

lemma parsed_report_ok:
  "parse_update fp host document = Inr rs \<Longrightarrow> r \<in> set rs \<Longrightarrow> report_ok r"
  by (auto simp: report_ok_def elim!: parse_update_cases dest!: parse_devices_member ownership_of_cases)

lemma parsed_release:
  assumes "parse_update fp host document = Inr rs" and "r \<in> set rs" and "frees r row"
  shows "released_in fp document row"
  using assms(1)
proof (cases rule: parse_update_cases)
  case (1 d items)
  obtain w where own: "rd_ownership r = Some w" and st: "ow_status w = ''released''"
    and root: "iv_root row = Some (ow_root w)" and late: "max (iv_floor row) (iv_watermark row) \<le> ow_generation w"
    and avail: "rd_state r = ''available''" and dig: "rd_digest r = iv_digest row"
    using assms(3) by (auto simp: frees_def)
  obtain e where e: "PDict e \<in> set items" "field_of e ''physicalDigest'' = PStr (rd_digest r)"
      "field_of e ''state'' = PStr (rd_state r)"
      "ownership_of fp (field_of e ''ownership'') (rd_digest r) = Inr (Some w)"
    using parse_devices_member [OF 1(3) assms(2)] own by auto
  obtain v where v: "field_of e ''ownership'' = PDict v" "ow_digest w = rd_digest r"
      "field_of v ''status'' = PStr (ow_status w)" "field_of v ''authorityRootDigest'' = PStr (ow_root w)"
      "field_of v ''generation'' = PInt (ow_generation w)" "field_of v ''hostIncarnation'' = PStr (ow_host w)"
      "field_of v ''helperIncarnation'' = optional_str (ow_helper w)" "ow_helper w \<noteq> None"
      "field_of v ''releaseReceiptDigest'' = PStr (fp (ownership_items w))"
    using ownership_of_cases [OF e(4)] st by auto
  then obtain helper where helper: "ow_helper w = Some helper" by auto
  have "shows_release fp (PDict e) (iv_digest row) (ow_root w) (ow_generation w)"
    using e v st avail dig helper
    by (simp add: shows_release_def ownership_items_def optional_str_def)
  with 1 root late e(1) show ?thesis
    unfolding released_in_def by blast
qed

lemma refresh_cases:
  assumes "refresh fp context document clock s = Inr (v, s')"
  obtains host rs now u where "context = Some host" and "parse_update fp host document = Inr rs"
    and "commit_update host now rs s = Inr (u, s')"
proof (cases "context")
  case (Some host)
  with assms that show thesis
    by (cases clock) (auto simp: refresh_def result_iff)
qed (use assms in \<open>simp_all add: refresh_def\<close>)

lemma refresh_ok:
  assumes "refresh fp context document clock s = Inr (v, s')" and "table_ok (inv_devices s)"
  shows "table_ok (inv_devices s')" and "grows row_leads (inv_devices s) (inv_devices s')"
    and "row \<in> set (inv_devices s) \<Longrightarrow> row' \<in> set (inv_devices s') \<Longrightarrow> iv_digest row' = iv_digest row \<Longrightarrow>
      iv_held row \<Longrightarrow> \<not> iv_held row' \<Longrightarrow> released_in fp document row"
proof -
  from assms(1) obtain host rs now u where parsed: "parse_update fp host document = Inr rs"
    and commit: "commit_update host now rs s = Inr (u, s')"
    by (rule refresh_cases)
  note all = commit_update_ok [OF commit assms(2)] parsed_report_ok [OF parsed]
  then show "table_ok (inv_devices s')" and "grows row_leads (inv_devices s) (inv_devices s')" by auto
  assume "row \<in> set (inv_devices s)" "row' \<in> set (inv_devices s')" "iv_digest row' = iv_digest row"
    "iv_held row" "\<not> iv_held row'"
  with all obtain r where "r \<in> set rs" "frees r row" by (fastforce simp: frees_only_def)
  with parsed show "released_in fp document row" by (rule parsed_release)
qed

section \<open>Every run of reports\<close>

type_synonym report_op = "host_context option \<times> pyval \<times> pyval"

definition inventory_step :: "((string \<times> pyval) list \<Rightarrow> string) \<Rightarrow> inventory \<Rightarrow> report_op \<Rightarrow>
    ((int \<times> (string \<times> string \<times> string \<times> string option \<times> string) list) result \<times> inventory) result" where
  "inventory_step fp s x = (case x of (context, document, clock) \<Rightarrow> refresh fp context document clock s)"

definition inventory_after :: "((string \<times> pyval) list \<Rightarrow> string) \<Rightarrow> report_op list \<Rightarrow> inventory" where
  "inventory_after fp xs = run_ops (inventory_step fp) new_inventory xs"

definition row_floor :: "inventory \<Rightarrow> string \<Rightarrow> int" where
  "row_floor s k = (case tbl_lookup iv_digest k (inv_devices s) of
     None \<Rightarrow> 0 | Some row \<Rightarrow> max (iv_floor row) (iv_watermark row))"

lemma inventory_step_ok:
  assumes "inventory_step fp s x = Inr (v, s')" and "table_ok (inv_devices s)"
  shows "table_ok (inv_devices s')" and "grows row_leads (inv_devices s) (inv_devices s')"
  using assms refresh_ok(1,2) by (auto simp: inventory_step_def split: prod.splits)

interpretation reports: fenced_ops "inventory_step fp" "\<lambda>s. table_ok (inv_devices s)" row_floor for fp
proof unfold_locales
  fix s x v s' k
  assume ok: "table_ok (inv_devices s)" and run: "inventory_step fp s x = Inr (v, s')"
  show "table_ok (inv_devices s')" using inventory_step_ok(1) [OF run ok] .
  note leads = inventory_step_ok(2) [OF run ok]
  show "row_floor s k \<le> row_floor s' k"
  proof (cases "tbl_lookup iv_digest k (inv_devices s)")
    case None
    have "0 \<le> row_floor s' k"
      using inventory_step_ok(1) [OF run ok]
      by (auto simp: row_floor_def table_ok_def inventory_row_ok_def le_max_iff_disj dest!: tbl_lookup_Some split: option.splits)
    with None show ?thesis by (simp add: row_floor_def)
  next
    case (Some row)
    with rows.grows_lookup [OF leads this] show ?thesis
      by (auto simp: row_floor_def row_leads_def)
  qed
qed

lemma table_ok_new [simp]: "table_ok (inv_devices new_inventory)"
  by (simp add: table_ok_def new_inventory_def distinct_keys_def)

lemma table_ok_after: "table_ok (inv_devices (inventory_after fp xs))"
  unfolding inventory_after_def by (rule reports.run_preserves) simp

lemma released_in_back:
  "iv_held row \<Longrightarrow> row_leads row row1 \<Longrightarrow> released_in fp document row1 \<Longrightarrow> released_in fp document row"
  by (cases "iv_root row") (auto simp: released_in_def row_leads_def intro: order_trans)

lemma run_frees:
  assumes "table_ok (inv_devices s)" and "row \<in> set (inv_devices s)" and "iv_held row"
    and "row' \<in> set (inv_devices (run_ops (inventory_step fp) s ys))" and "iv_digest row' = iv_digest row"
    and "\<not> iv_held row'"
  shows "\<exists>n host document clock v s'. n < length ys \<and> ys ! n = (Some host, document, clock) \<and>
    refresh fp (Some host) document clock (run_ops (inventory_step fp) s (take n ys)) = Inr (v, s') \<and>
    released_in fp document row"
  using assms
proof (induction ys arbitrary: s row)
  case Nil
  then show ?case by (auto simp: table_ok_def dest: same_row)
next
  case (Cons y ys)
  show ?case
  proof (cases "inventory_step fp s y")
    case (Inl e)
    with Cons.prems(4) have "row' \<in> set (inv_devices (run_ops (inventory_step fp) s ys))" by simp
    from Cons.IH [OF Cons.prems(1-3) this Cons.prems(5,6)]
    obtain n host document clock v s' where found: "n < length ys" "ys ! n = (Some host, document, clock)"
      "refresh fp (Some host) document clock (run_ops (inventory_step fp) s (take n ys)) = Inr (v, s')"
      "released_in fp document row"
      by auto
    then show ?thesis by (intro exI [of _ "Suc n"]) (auto simp: Inl)
  next
    case (Inr p)
    obtain v1 s1 where one: "inventory_step fp s y = Inr (v1, s1)" using Inr by (cases p) simp
    have ok1: "table_ok (inv_devices s1)" and leads1: "grows row_leads (inv_devices s) (inv_devices s1)"
      using inventory_step_ok [OF one Cons.prems(1)] .
    obtain ctx document clock where y: "y = (ctx, document, clock)" by (cases y)
    obtain row1 where row1: "row1 \<in> set (inv_devices s1)" "row_leads row row1"
      using grows_member [OF leads1 Cons.prems(2)] by blast
    then have dig: "iv_digest row1 = iv_digest row" by (simp add: row_leads_def)
    have run: "refresh fp ctx document clock s = Inr (v1, s1)" using one by (simp add: inventory_step_def y)
    show ?thesis
    proof (cases "iv_held row1")
      case True
      from Cons.prems(4) one have "row' \<in> set (inv_devices (run_ops (inventory_step fp) s1 ys))" by simp
      from Cons.IH [OF ok1 row1(1) True this _ Cons.prems(6)] Cons.prems(5) dig
      obtain n host document clock v s' where found: "n < length ys" "ys ! n = (Some host, document, clock)"
        "refresh fp (Some host) document clock (run_ops (inventory_step fp) s1 (take n ys)) = Inr (v, s')"
        "released_in fp document row1"
        by auto
      then show ?thesis
        using released_in_back [OF Cons.prems(3) row1(2)] by (intro exI [of _ "Suc n"]) (auto simp: one)
    next
      case False
      with refresh_ok(3) [OF run Cons.prems(1,2) row1(1) dig Cons.prems(3)]
      have "released_in fp document row" .
      moreover obtain host where "ctx = Some host" by (rule refresh_cases [OF run])
      ultimately show ?thesis using run y by (intro exI [of _ 0]) auto
    qed
  qed
qed

lemma require_available_cases:
  assumes "require_available (PDict binding) age now s = Inr inventory_id"
  obtains row where "row \<in> set (inv_devices s)" and "iv_state row = ''available''" and "\<not> iv_held row"
    and "iv_id row = inventory_id"
    and "equals_int (field_of binding ''generation'') (iv_generation row)"
    and "field_of binding ''incarnation'' = PStr (iv_incarnation row)"
    and "0 \<le> now - iv_updated_ms row" and "now - iv_updated_ms row \<le> age" and "iv_ownership row \<noteq> None"
proof -
  obtain h a where "(case find (\<lambda>x. Some (iv_host x) = h \<and> Some (iv_alias x) = a) (inv_devices s) of
      None \<Rightarrow> False
    | Some row \<Rightarrow> iv_state row = ''available'' \<and> \<not> iv_held row \<and> iv_id row = inventory_id \<and>
        equals_int (field_of binding ''generation'') (iv_generation row) \<and>
        field_of binding ''incarnation'' = PStr (iv_incarnation row) \<and>
        0 \<le> now - iv_updated_ms row \<and> now - iv_updated_ms row \<le> age \<and> iv_ownership row \<noteq> None)"
    using assms
    by (fastforce simp: require_available_def result_iff split: option.split_asm)
  then show thesis
    using that by (auto simp: find_Some_iff simp del: not_None_eq split: option.split_asm intro: nth_mem)
qed

text \<open>
  C39. In every sequence of host reports: a device held by the inventory becomes free again only
  through an accepted report in which its own authority root shows, with the receipt digest, a release
  of a generation that is at least the release floor and the watermark the row had when it was held.
\<close>

theorem held_until_released:
  assumes "row \<in> set (inv_devices (inventory_after fp xs))" and "iv_held row"
    and "row' \<in> set (inv_devices (inventory_after fp (xs @ ys)))"
    and "iv_digest row' = iv_digest row" and "\<not> iv_held row'"
  shows "\<exists>n host document clock v s'. n < length ys \<and> ys ! n = (Some host, document, clock) \<and>
    refresh fp (Some host) document clock (inventory_after fp (xs @ take n ys)) = Inr (v, s') \<and>
    released_in fp document row"
  using run_frees [OF table_ok_after assms(1,2) _ assms(4,5), where ys = ys] assms(3)
  by (simp add: inventory_after_def run_ops_append)

text \<open>
  In every sequence of host reports: what passes the scheduling fence is a row of the reporting
  host, generation and incarnation named in the binding that is not held, whose stored ownership
  speaks of this device and of its authority root, is unused or released, and is not older than the
  release floor.
\<close>

theorem scheduled_device_resolved:
  assumes "require_available (PDict binding) age now (inventory_after fp xs) = Inr inventory_id"
  shows "\<exists>row \<in> set (inv_devices (inventory_after fp xs)). \<exists>w. iv_id row = inventory_id \<and> \<not> iv_held row \<and>
    equals_int (field_of binding ''generation'') (iv_generation row) \<and>
    field_of binding ''incarnation'' = PStr (iv_incarnation row) \<and>
    0 \<le> now - iv_updated_ms row \<and> now - iv_updated_ms row \<le> age \<and>
    iv_ownership row = Some w \<and> ow_digest w = iv_digest row \<and> iv_root row = Some (ow_root w) \<and>
    ow_status w \<in> {''unused'', ''released''} \<and> iv_floor row \<le> ow_generation w"
  using assms
proof (cases rule: require_available_cases)
  case (1 row)
  note row = 1(1)
  from row table_ok_after have "inventory_row_ok row" by (auto simp: table_ok_def)
  with 1 show ?thesis by (auto simp: inventory_row_ok_def resolved_def intro!: bexI [OF _ row])
qed

end
