(* ===== verification/Inventory_Demo.thy ===== *)
theory Inventory_Demo
  imports Inventory_Props
begin

text \<open>
  A run of host reports on which the properties of \<open>Inventory_Props\<close> are instantiated, and a run in
  which a replaced host leaves an unreported device available.
\<close>

definition phone_digest :: string where
  "phone_digest = replicate 64 CHR ''a''"

definition demo_stamp :: "(string \<times> pyval) list \<Rightarrow> string" where
  "demo_stamp d = ''receipt''"

definition demo_ownership :: "string \<Rightarrow> int \<Rightarrow> pyval \<Rightarrow> pyval \<Rightarrow> pyval" where
  "demo_ownership status gen helper receipt =
     PDict [(''physicalDigest'', PStr phone_digest), (''authorityRootDigest'', PStr phone_digest),
       (''generation'', PInt gen), (''status'', PStr status), (''hostIncarnation'', PStr ''auth''),
       (''helperIncarnation'', helper), (''releaseReceiptDigest'', receipt)]"

definition phone_entry :: "string \<Rightarrow> pyval \<Rightarrow> pyval" where
  "phone_entry state own =
     PDict [(''alias'', PStr ''phone''), (''deviceKind'', PStr ''android''),
       (''physicalDigest'', PStr phone_digest), (''profileDigest'', PNone), (''state'', PStr state),
       (''ownership'', own)]"

definition demo_report :: "int \<Rightarrow> string \<Rightarrow> pyval list \<Rightarrow> int \<Rightarrow> report_op" where
  "demo_report gen incarnation ds now =
     (Some \<lparr>hc_id = ''host'', hc_generation = gen, hc_incarnation = incarnation\<rparr>,
      PDict [(''schemaVersion'', PInt 2), (''generation'', PInt gen), (''incarnation'', PStr incarnation),
        (''devices'', PList ds)], PInt now)"

definition demo_busy :: report_op where
  "demo_busy = demo_report 1 ''first''
     [phone_entry ''busy'' (demo_ownership ''owned'' 3 (PStr ''helper'') PNone)] 10"

definition demo_released :: report_op where
  "demo_released = demo_report 1 ''first''
     [phone_entry ''available'' (demo_ownership ''released'' 3 (PStr ''helper'') (PStr ''receipt''))] 20"

definition demo_unused :: report_op where
  "demo_unused = demo_report 1 ''first'' [phone_entry ''available'' (demo_ownership ''unused'' 0 PNone PNone)] 10"

definition demo_replaced :: report_op where
  "demo_replaced = demo_report 2 ''second'' [] 20"

definition demo_row :: "string \<Rightarrow> int \<Rightarrow> int \<Rightarrow> ownership \<Rightarrow> bool \<Rightarrow> inventory_row" where
  "demo_row state sequence now own held =
     \<lparr>iv_digest = phone_digest, iv_id = ''device_'' @ replicate 24 CHR ''a'', iv_host = ''host'',
      iv_generation = 1, iv_incarnation = ''first'', iv_alias = ''phone'', iv_kind = ''android'',
      iv_profile = None, iv_state = state, iv_sequence = sequence, iv_updated_ms = now,
      iv_ownership = Some own, iv_root = Some phone_digest, iv_watermark = ow_generation own,
      iv_floor = ow_generation own, iv_held = held\<rparr>"

definition demo_own :: "string \<Rightarrow> int \<Rightarrow> string option \<Rightarrow> string option \<Rightarrow> ownership" where
  "demo_own status gen helper receipt =
     \<lparr>ow_digest = phone_digest, ow_root = phone_digest, ow_generation = gen, ow_status = status,
      ow_host = ''auth'', ow_helper = helper, ow_receipt = receipt\<rparr>"

lemma demo_after_busy:
  "inv_devices (inventory_after demo_stamp [demo_busy]) =
     [demo_row ''busy'' 1 10 (demo_own ''owned'' 3 (Some ''helper'') None) True]"
  by code_simp

lemma demo_after_release:
  "inv_devices (inventory_after demo_stamp [demo_busy, demo_released]) =
     [demo_row ''available'' 2 20 (demo_own ''released'' 3 (Some ''helper'') (Some ''receipt'')) False]"
  by code_simp

abbreviation demo_held :: inventory_row where
  "demo_held \<equiv> demo_row ''busy'' 1 10 (demo_own ''owned'' 3 (Some ''helper'') None) True"

theorem held_until_released_witness:
  "\<exists>n host document clock v s'. n < length [demo_released] \<and>
     [demo_released] ! n = (Some host, document, clock) \<and>
     refresh demo_stamp (Some host) document clock
       (inventory_after demo_stamp ([demo_busy] @ take n [demo_released])) = Inr (v, s') \<and>
     released_in demo_stamp document demo_held"
  by (rule held_until_released [of demo_held demo_stamp "[demo_busy]"
        "demo_row ''available'' 2 20 (demo_own ''released'' 3 (Some ''helper'') (Some ''receipt'')) False"
        "[demo_released]"])
    (simp_all add: demo_after_busy demo_after_release, simp_all add: demo_row_def)

definition demo_binding :: "(string \<times> pyval) list" where
  "demo_binding = [(''hostId'', PStr ''host''), (''generation'', PInt 1), (''incarnation'', PStr ''first''),
     (''alias'', PStr ''phone''), (''profileDigest'', PNone)]"

lemma demo_scheduled:
  "require_available (PDict demo_binding) 15000 30 (inventory_after demo_stamp [demo_busy, demo_released]) =
     Inr (''device_'' @ replicate 24 CHR ''a'')"
  by code_simp

theorem scheduled_device_resolved_witness:
  "\<exists>row \<in> set (inv_devices (inventory_after demo_stamp [demo_busy, demo_released])). \<exists>w.
    iv_id row = ''device_'' @ replicate 24 CHR ''a'' \<and> \<not> iv_held row \<and>
    equals_int (field_of demo_binding ''generation'') (iv_generation row) \<and>
    field_of demo_binding ''incarnation'' = PStr (iv_incarnation row) \<and>
    0 \<le> 30 - iv_updated_ms row \<and> 30 - iv_updated_ms row \<le> 15000 \<and>
    iv_ownership row = Some w \<and> ow_digest w = iv_digest row \<and> iv_root row = Some (ow_root w) \<and>
    ow_status w \<in> {''unused'', ''released''} \<and> iv_floor row \<le> ow_generation w"
  by (rule scheduled_device_resolved [OF demo_scheduled])

section \<open>A replaced host\<close>

text \<open>
  A device that was never owned stays listed as available when its host is replaced and the new
  registration does not report it: the hold of replaced hosts leaves it out, and marking
  unreported devices looks only at rows of the present registration.
\<close>

theorem replaced_host_leaves_available:
  "list_host (PStr ''host'') (inventory_after demo_stamp [demo_unused, demo_replaced]) =
     Inr [(''device_'' @ replicate 24 CHR ''a'', ''phone'', ''android'', None, ''available'')] \<and>
   list_host (PStr ''host'') (inventory_after demo_stamp [demo_unused, demo_report 1 ''first'' [] 20]) =
     Inr [(''device_'' @ replicate 24 CHR ''a'', ''phone'', ''android'', None, ''missing'')]"
  by code_simp

end
