(* ===== verification/State_Store.thy ===== *)
theory State_Store
  imports Prelude "HOL-Library.AList"
begin

text \<open>
  \<open>reproof/live/state_store.py\<close>: the durable journal of device authority. Each table is a list
  of rows in a \<open>store\<close>; the columns keep their order and the statuses of the \<open>CHECK\<close>
  constraints are datatypes. Every operation is one transaction, so it either raises and leaves
  the store as it was, or returns its value and the new store. \<open>renew_device\<close> and nothing else
  commits a change and raises afterwards; its value says so (\<open>Inl\<close>).

  A \<open>CHECK\<close> or \<open>UNIQUE\<close> violation is an \<open>sqlite3.Error\<close>, which the transaction turns into
  \<open>store_failed\<close>. Numbers are taken to fit SQLite's 64 bits; the authority checks its arguments
  against that bound before it calls the store.
\<close>

section \<open>Rows\<close>

definition MAX_DEVICES :: nat where "MAX_DEVICES = 4096"
definition MAX_OPERATIONS_PER_DEVICE :: nat where "MAX_OPERATIONS_PER_DEVICE = 100000"
definition MAX_RECEIPTS_PER_OPERATION :: nat where "MAX_RECEIPTS_PER_OPERATION = 16"
definition MAX_RECONCILIATIONS_PER_DEVICE :: nat where "MAX_RECONCILIATIONS_PER_DEVICE = 1024"
definition MAX_LEGACY_ADOPTIONS :: nat where "MAX_LEGACY_ADOPTIONS = 4096"

datatype device_status = Owned | Released | Expired | Quarantined

datatype operation_status = Queued | Uncertain | Succeeded | Rejected | Op_Expired | Recovered

datatype receipt_status = R_Succeeded | R_Rejected | R_Unknown

datatype receipt_binding = Current | Late

datatype disposition_status = D_Not_Dispatched | D_Succeeded | D_Rejected | D_Recovered

datatype adoption_semantics = Lock_Only | Unverified_History

record device =
  dev_fingerprint :: string
  dev_kind :: string
  dev_generation :: int
  dev_status :: device_status
  dev_host :: string
  dev_helper :: string
  dev_grant :: string
  dev_project :: string
  dev_controller :: string
  dev_renewal_sequence :: int
  dev_deadline_ns :: int
  dev_mapping :: string
  dev_reason :: "string option"
  dev_updated_ns :: int

record operation_request =
  op_id :: string
  op_fingerprint :: string
  op_device :: string
  op_protocol :: int
  op_generation :: int
  op_project :: string
  op_session :: string
  op_controller :: string
  op_sequence :: int
  op_payload_digest :: string
  op_host :: string
  op_helper :: string
  op_deadline_ns :: int
  op_admitted_ns :: int

record operation = operation_request +
  op_status :: operation_status
  op_provider :: "string option"
  op_result :: "string option"
  op_terminal_ns :: "int option"

record receipt =
  rcp_id :: string
  rcp_fingerprint :: string
  rcp_operation :: string
  rcp_generation :: int
  rcp_provider :: string
  rcp_status :: receipt_status
  rcp_result :: string
  rcp_observed_ns :: int
  rcp_binding :: receipt_binding

record reconciliation =
  rec_id :: string
  rec_fingerprint :: string
  rec_device :: string
  rec_prior_generation :: int
  rec_prior_host :: string
  rec_prior_helper :: string
  rec_fresh_helper :: string
  rec_exit_digest :: string
  rec_cleanup_digest :: string
  rec_handshake_digest :: string
  rec_observed_ns :: int

record disposition =
  dsp_status :: disposition_status
  dsp_result :: string
  dsp_evidence :: string
  dsp_fingerprint :: string

record adoption =
  adp_id :: string
  adp_artifact :: string
  adp_semantics :: adoption_semantics
  adp_fingerprint :: string

text \<open>What an authority passes on of a parent grant (\<open>HostAuthority._grant_values\<close>).\<close>

record grant_values =
  gv_grant :: string
  gv_project :: string
  gv_controller :: string
  gv_renewal_sequence :: int
  gv_deadline_ns :: int
  gv_mapping :: string

type_synonym watermark_key = "string \<times> int \<times> string"

record store =
  devices :: "device list"
  watermarks :: "(watermark_key \<times> int) list"
  operations :: "operation list"
  receipts :: "receipt list"
  reconciliations :: "reconciliation list"
  dispositions :: "((string \<times> string) \<times> disposition) list"
  adoptions :: "adoption list"
  store_closed :: bool

definition new_store :: store where
  "new_store = \<lparr>devices = [], watermarks = [], operations = [], receipts = [],
     reconciliations = [], dispositions = [], adoptions = [], store_closed = False\<rparr>"

section \<open>Constraints and lookups\<close>

definition store_failed :: py_error where
  "store_failed = ContractError ''Authority state operation failed''"

definition require_store :: "bool \<Rightarrow> string \<Rightarrow> 'a result \<Rightarrow> 'a result" where
  "require_store c msg k = ensure c (ContractError msg) k"

definition transaction :: "store \<Rightarrow> 'a result \<Rightarrow> 'a result" where
  "transaction s body = require_store (\<not> store_closed s) ''Authority state store is closed'' body"

definition device_checks :: "device \<Rightarrow> bool" where
  "device_checks d \<longleftrightarrow> 1 \<le> dev_generation d \<and> 1 \<le> dev_renewal_sequence d \<and>
     0 \<le> dev_deadline_ns d \<and> 0 \<le> dev_updated_ns d"

definition operation_checks :: "operation \<Rightarrow> bool" where
  "operation_checks p \<longleftrightarrow> op_protocol p = 1 \<and> 1 \<le> op_generation p \<and> 1 \<le> op_sequence p \<and>
     0 \<le> op_deadline_ns p \<and> 0 \<le> op_admitted_ns p"

definition operation_slot :: "operation \<Rightarrow> string \<times> int \<times> string \<times> int" where
  "operation_slot p = (op_device p, op_generation p, op_controller p, op_sequence p)"

definition operation_unique :: "operation list \<Rightarrow> operation \<Rightarrow> bool" where
  "operation_unique rows p \<longleftrightarrow> list_all (\<lambda>r. op_id r \<noteq> op_id p \<and>
     op_fingerprint r \<noteq> op_fingerprint p \<and> operation_slot r \<noteq> operation_slot p) rows"

definition receipt_unique :: "receipt list \<Rightarrow> receipt \<Rightarrow> bool" where
  "receipt_unique rows p \<longleftrightarrow>
     list_all (\<lambda>r. rcp_id r \<noteq> rcp_id p \<and> rcp_fingerprint r \<noteq> rcp_fingerprint p) rows"

definition reconciliation_unique :: "reconciliation list \<Rightarrow> reconciliation \<Rightarrow> bool" where
  "reconciliation_unique rows p \<longleftrightarrow>
     list_all (\<lambda>r. rec_id r \<noteq> rec_id p \<and> rec_fingerprint r \<noteq> rec_fingerprint p) rows"

definition find_device :: "store \<Rightarrow> string \<Rightarrow> device option" where
  "find_device s f = tbl_lookup dev_fingerprint f (devices s)"

definition find_operation :: "store \<Rightarrow> string \<Rightarrow> operation option" where
  "find_operation s i = tbl_lookup op_id i (operations s)"

definition find_receipt :: "store \<Rightarrow> string \<Rightarrow> receipt option" where
  "find_receipt s i = tbl_lookup rcp_id i (receipts s)"

definition find_reconciliation :: "store \<Rightarrow> string \<Rightarrow> reconciliation option" where
  "find_reconciliation s i = tbl_lookup rec_id i (reconciliations s)"

definition read_device :: "store \<Rightarrow> string \<Rightarrow> device option result" where
  "read_device s f = transaction s (Inr (find_device s f))"

definition read_operation :: "store \<Rightarrow> string \<Rightarrow> operation option result" where
  "read_operation s i = transaction s (Inr (find_operation s i))"

definition read_reconciliation :: "store \<Rightarrow> string \<Rightarrow> reconciliation option result" where
  "read_reconciliation s i = transaction s (Inr (find_reconciliation s i))"

definition unfinished :: "operation \<Rightarrow> bool" where
  "unfinished p \<longleftrightarrow> op_status p = Queued \<or> op_status p = Uncertain"

text \<open>\<open>UPDATE devices SET \<dots> WHERE device_fingerprint = ?\<close>, and with a condition on the status.\<close>

definition update_device :: "string \<Rightarrow> (device \<Rightarrow> bool) \<Rightarrow> (device \<Rightarrow> device) \<Rightarrow> store \<Rightarrow> store result" where
  "update_device f p g s =
     (let hit = (\<lambda>d. dev_fingerprint d = f \<and> p d)
      in ensure (list_all (\<lambda>d. hit d \<longrightarrow> device_checks (g d)) (devices s)) store_failed
           (Inr (s\<lparr>devices := tbl_update hit g (devices s)\<rparr>)))"

definition with_status :: "device_status \<Rightarrow> string option \<Rightarrow> int \<Rightarrow> device \<Rightarrow> device" where
  "with_status st reason now d = d\<lparr>dev_status := st, dev_reason := reason, dev_updated_ns := now\<rparr>"

definition take_over :: "int \<Rightarrow> device_status \<Rightarrow> string option \<Rightarrow> string \<Rightarrow> string \<Rightarrow> grant_values \<Rightarrow> int \<Rightarrow>
    device \<Rightarrow> device" where
  "take_over gen st reason host helper g now d =
     d\<lparr>dev_generation := gen, dev_status := st, dev_host := host, dev_helper := helper,
       dev_grant := gv_grant g, dev_project := gv_project g, dev_controller := gv_controller g,
       dev_renewal_sequence := gv_renewal_sequence g, dev_deadline_ns := gv_deadline_ns g,
       dev_mapping := gv_mapping g, dev_reason := reason, dev_updated_ns := now\<rparr>"

definition first_row :: "string \<Rightarrow> string \<Rightarrow> string \<Rightarrow> string \<Rightarrow> grant_values \<Rightarrow> int \<Rightarrow> device" where
  "first_row f kind host helper g now =
     \<lparr>dev_fingerprint = f, dev_kind = kind, dev_generation = 1, dev_status = Owned,
      dev_host = host, dev_helper = helper, dev_grant = gv_grant g, dev_project = gv_project g,
      dev_controller = gv_controller g, dev_renewal_sequence = gv_renewal_sequence g,
      dev_deadline_ns = gv_deadline_ns g, dev_mapping = gv_mapping g, dev_reason = None,
      dev_updated_ns = now\<rparr>"

section \<open>Ownership\<close>

definition claim_device :: "string \<Rightarrow> string \<Rightarrow> string \<Rightarrow> string \<Rightarrow> grant_values \<Rightarrow> int \<Rightarrow> store \<Rightarrow>
    (device option \<times> store) result" where
  "claim_device f kind host helper g now s = transaction s
     (case find_device s f of
        None \<Rightarrow>
          require_store (length (devices s) < MAX_DEVICES) ''Authority device limit reached''
            (let row = first_row f kind host helper g now; s' = s\<lparr>devices := devices s @ [row]\<rparr>
             in ensure (device_checks row) store_failed (Inr (find_device s' f, s')))
      | Some d \<Rightarrow>
          require_store (dev_kind d = kind) ''Canonical device identity conflict''
            (bind_result
              (if dev_status d = Released
               then update_device f (\<lambda>_. True)
                      (take_over (dev_generation d + 1) Owned None host helper g now) s
               else update_device f (\<lambda>_. True)
                      (with_status Quarantined
                        (Some (case dev_reason d of
                                 None \<Rightarrow> ''restart-ownership-unresolved''
                               | Some r \<Rightarrow> (if r = '''' then ''restart-ownership-unresolved'' else r)))
                        now) s)
              (\<lambda>s'. Inr (find_device s' f, s'))))"

text \<open>An expired grant is journalled, and the denial that follows does not roll it back.\<close>

definition renew_device :: "string \<Rightarrow> int \<Rightarrow> string \<Rightarrow> grant_values \<Rightarrow> int \<Rightarrow> store \<Rightarrow>
    (device option result \<times> store) result" where
  "renew_device f gen host g now s = transaction s
     (case find_device s f of
        None \<Rightarrow> Inl (ContractError ''Device authority is unavailable'')
      | Some d \<Rightarrow>
          require_store (dev_generation d = gen \<and> dev_host d = host)
            ''Device authority incarnation mismatch''
          (if dev_status d = Expired \<or> dev_deadline_ns d \<le> now
           then bind_result
                  (update_device f (\<lambda>d. dev_status d = Owned \<or> dev_status d = Expired)
                    (with_status Expired (Some ''parent-expired'') now) s)
                  (\<lambda>s'. Inr (Inl (ContractError ''Expired authority cannot be renewed''), s'))
           else
             require_store (dev_status d = Owned) ''Device requires reconciliation''
             (require_store (gv_grant g = dev_grant d \<and> gv_project g = dev_project d \<and>
                 gv_controller g = dev_controller d) ''Parent grant binding mismatch''
             (require_store (dev_renewal_sequence d < gv_renewal_sequence g)
                ''Renewal sequence is stale''
             (bind_result
               (update_device f (\<lambda>_. True)
                 (\<lambda>d. d\<lparr>dev_renewal_sequence := gv_renewal_sequence g,
                        dev_deadline_ns := gv_deadline_ns g, dev_mapping := gv_mapping g,
                        dev_updated_ns := now\<rparr>) s)
               (\<lambda>s'. Inr (Inr (find_device s' f), s')))))))"

definition quarantine_reason :: "string \<Rightarrow> device \<Rightarrow> string option" where
  "quarantine_reason r d =
     (if dev_reason d = Some ''recovery-cleanup-pending'' then dev_reason d else Some r)"

definition coalesce :: "int option \<Rightarrow> int \<Rightarrow> int" where
  "coalesce t u = (case t of None \<Rightarrow> u | Some n \<Rightarrow> n)"

definition quarantine :: "string \<Rightarrow> int option \<Rightarrow> device \<Rightarrow> device" where
  "quarantine r now d =
     with_status Quarantined (quarantine_reason r d) (coalesce now (dev_updated_ns d)) d"

definition quarantine_clock :: "string \<Rightarrow> int \<Rightarrow> string \<Rightarrow> int option \<Rightarrow> store \<Rightarrow> (unit \<times> store) result" where
  "quarantine_clock f gen host now s = transaction s
     (let hit = (\<lambda>d. dev_generation d = gen \<and> dev_host d = host);
          changed = length (filter (\<lambda>d. dev_fingerprint d = f \<and> hit d) (devices s))
      in bind_result (update_device f hit (quarantine ''clock-incompatible'' now) s) (\<lambda>s'.
         require_store (changed = 1) ''Device authority incarnation mismatch'' (Inr ((), s'))))"

definition revoke_dispatches :: "string \<Rightarrow> int \<Rightarrow> string \<Rightarrow> int option \<Rightarrow> store \<Rightarrow> (unit \<times> store) result" where
  "revoke_dispatches f gen host now s = transaction s
     (case find_device s f of
        None \<Rightarrow> Inl (ContractError ''Device authority incarnation mismatch'')
      | Some d \<Rightarrow>
          require_store (dev_generation d = gen \<and> dev_host d = host)
            ''Device authority incarnation mismatch''
          (if dev_status d \<in> {Owned, Expired, Quarantined}
           then bind_result
                  (update_device f (\<lambda>_. True) (quarantine ''host-session-revoked'' now) s)
                  (\<lambda>s'. Inr ((), s'))
           else Inr ((), s)))"

definition fence_native_recovery :: "string \<Rightarrow> int \<Rightarrow> string \<Rightarrow> string \<Rightarrow> int \<Rightarrow> store \<Rightarrow>
    (unit \<times> store) result" where
  "fence_native_recovery f gen host helper now s = transaction s
     (case find_device s f of
        None \<Rightarrow> Inl (ContractError ''Current device recovery snapshot required'')
      | Some d \<Rightarrow>
          require_store (dev_generation d = gen \<and> dev_host d = host \<and> dev_helper d = helper \<and>
              dev_status d = Quarantined) ''Current device recovery snapshot required''
          (if dev_reason d = Some ''provider-outcome-unconfirmed''
           then bind_result
                  (update_device f (\<lambda>_. True)
                    (\<lambda>d. d\<lparr>dev_reason := Some ''host-recovery-started'', dev_updated_ns := now\<rparr>) s)
                  (\<lambda>s'. Inr ((), s'))
           else Inr ((), s)))"

definition RELEASED_RESULT_DIGEST :: "(string \<Rightarrow> string) \<Rightarrow> string" where
  "RELEASED_RESULT_DIGEST sha = sha ''reproof-authority-release-before-dispatch-v1''"

definition release_device :: "(string \<Rightarrow> string) \<Rightarrow> string \<Rightarrow> int \<Rightarrow> string \<Rightarrow> int \<Rightarrow> store \<Rightarrow>
    (unit \<times> store) result" where
  "release_device sha f gen host now s = transaction s
     (case find_device s f of
        None \<Rightarrow> Inr ((), s)
      | Some d \<Rightarrow>
          (if dev_generation d \<noteq> gen \<or> dev_host d \<noteq> host \<or> dev_status d = Quarantined
           then Inr ((), s)
           else bind_result
             (update_device f (\<lambda>_. True) (with_status Released None now)
               (s\<lparr>operations := tbl_update
                   (\<lambda>p. op_device p = f \<and> op_generation p = gen \<and> op_status p = Queued)
                   (\<lambda>p. p\<lparr>op_status := Rejected, op_result := Some (RELEASED_RESULT_DIGEST sha),
                          op_terminal_ns := Some now\<rparr>) (operations s)\<rparr>))
             (\<lambda>s'. Inr ((), s'))))"

section \<open>Operations and receipts\<close>

definition queued_row :: "operation_request \<Rightarrow> operation" where
  "queued_row r = operation_request.extend r (operation.fields Queued None None None)"

definition watermark :: "store \<Rightarrow> watermark_key \<Rightarrow> int" where
  "watermark s k = (case map_of (watermarks s) k of None \<Rightarrow> 0 | Some n \<Rightarrow> n)"

definition request_key :: "('a) operation_request_scheme \<Rightarrow> watermark_key" where
  "request_key r = (op_device r, op_generation r, op_controller r)"

definition admit_operation :: "operation_request \<Rightarrow> store \<Rightarrow>
    ((operation option \<times> bool) \<times> store) result" where
  "admit_operation r s = transaction s
     (case find_operation s (op_id r) of
        Some p \<Rightarrow>
          require_store (op_fingerprint p = op_fingerprint r) ''Operation identity conflict''
            (Inr ((Some p, False), s))
      | None \<Rightarrow>
          (case find_device s (op_device r) of
             None \<Rightarrow> Inl (ContractError ''Device authority is unavailable'')
           | Some d \<Rightarrow>
               require_store (dev_status d = Owned \<and> dev_generation d = op_generation r \<and>
                   dev_host d = op_host r) ''Device requires reconciliation''
               (require_store (op_admitted_ns r < dev_deadline_ns d) ''Operation authority expired''
               (require_store (op_deadline_ns r \<le> dev_deadline_ns d)
                  ''Operation exceeds parent grant''
               (let highest = watermark s (request_key r) in
                require_store (highest < op_sequence r) ''Operation sequence was already consumed''
               (require_store (op_sequence r = highest + 1)
                  ''Operation sequence is not contiguous''
               (require_store (length (filter (\<lambda>p. op_device p = op_device r) (operations s))
                    < MAX_OPERATIONS_PER_DEVICE) ''Authority operation limit reached''
               (let row = queued_row r;
                    s' = s\<lparr>operations := operations s @ [row],
                           watermarks := AList.update (request_key r) (op_sequence r) (watermarks s)\<rparr>
                in ensure (operation_checks row \<and> operation_unique (operations s) row) store_failed
                     (Inr ((find_operation s' (op_id r), True), s'))))))))))"

definition expire_row :: "int \<Rightarrow> operation \<Rightarrow> operation" where
  "expire_row now p = p\<lparr>op_status := Op_Expired, op_terminal_ns := Some now\<rparr>"

definition expire_queued_operation :: "string \<Rightarrow> int \<Rightarrow> string \<Rightarrow> string \<Rightarrow> int \<Rightarrow> store \<Rightarrow>
    (unit \<times> store) result" where
  "expire_queued_operation f gen host oid now s = transaction s
     (case find_device s f of
        None \<Rightarrow> Inl (ContractError ''Device authority is unavailable'')
      | Some d \<Rightarrow>
          require_store (dev_generation d = gen \<and> dev_host d = host)
            ''Device authority incarnation mismatch''
          (let s1 = s\<lparr>operations := tbl_update
                 (\<lambda>p. op_id p = oid \<and> op_device p = f \<and> op_generation p = gen \<and>
                      op_host p = host \<and> op_status p = Queued) (expire_row now) (operations s)\<rparr>
           in bind_result
                (if dev_deadline_ns d \<le> now
                 then update_device f (\<lambda>d. dev_status d = Owned \<or> dev_status d = Expired)
                        (with_status Expired (Some ''parent-expired'') now) s1
                 else Inr s1)
                (\<lambda>s'. Inr ((), s'))))"

definition prepare_dispatch :: "string \<Rightarrow> string \<Rightarrow> string \<Rightarrow> int \<Rightarrow> string \<Rightarrow> string \<Rightarrow> int \<Rightarrow> store \<Rightarrow>
    (operation option \<times> store) result" where
  "prepare_dispatch oid ofp f gen host provider now s = transaction s
     (case (find_device s f, find_operation s oid) of
        (Some d, Some p) \<Rightarrow>
          require_store (dev_status d = Owned \<and> dev_generation d = gen \<and> dev_host d = host)
            ''Device requires reconciliation''
          (require_store (op_fingerprint p = ofp \<and> op_device p = f \<and> op_protocol p = 1 \<and>
              op_generation p = gen \<and> op_host p = host) ''Operation authority mismatch''
          (require_store (op_status p = Queued) ''Operation is not dispatchable''
          (require_store (\<not> list_ex (\<lambda>r. op_device r = f \<and> op_generation r = gen \<and>
              op_sequence r < op_sequence p \<and> unfinished r) (operations s))
             ''Earlier operation is not terminal''
          (require_store (now < op_deadline_ns p \<and> now < dev_deadline_ns d)
             ''Operation authority expired''
          (bind_result
            (update_device f (\<lambda>_. True)
              (with_status Quarantined (Some ''provider-outcome-unconfirmed'') now)
              (s\<lparr>operations := tbl_update (\<lambda>p. op_id p = oid)
                  (\<lambda>p. p\<lparr>op_status := Uncertain, op_provider := Some provider\<rparr>) (operations s)\<rparr>))
            (\<lambda>s'. Inr (find_operation s' oid, s')))))))
      | _ \<Rightarrow> Inl (ContractError ''Operation authority is unavailable''))"

fun confirmed_status :: "receipt_status \<Rightarrow> operation_status option" where
  "confirmed_status R_Succeeded = Some Succeeded"
| "confirmed_status R_Rejected = Some Rejected"
| "confirmed_status R_Unknown = None"

definition receipt_is_current :: "operation \<Rightarrow> device option \<Rightarrow> int \<Rightarrow> string \<Rightarrow> string \<Rightarrow> bool" where
  "receipt_is_current p d gen host provider \<longleftrightarrow>
     op_status p = Uncertain \<and> op_generation p = gen \<and> op_host p = host \<and>
     op_provider p = Some provider \<and>
     (case d of None \<Rightarrow> False
      | Some d \<Rightarrow> dev_generation d = gen \<and> dev_host d = host \<and> dev_status d = Quarantined \<and>
          dev_reason d = Some ''provider-outcome-unconfirmed'')"

definition acknowledge_result :: "string \<Rightarrow> string \<Rightarrow> string \<Rightarrow> int \<Rightarrow> string \<Rightarrow> string \<Rightarrow>
    receipt_status \<Rightarrow> string \<Rightarrow> int \<Rightarrow> store \<Rightarrow> (receipt option \<times> store) result" where
  "acknowledge_result rid rfp oid gen host provider st digest observed s = transaction s
     (case find_receipt s rid of
        Some r \<Rightarrow>
          require_store (rcp_fingerprint r = rfp) ''Provider receipt identity conflict''
            (Inr (Some r, s))
      | None \<Rightarrow>
          (case find_operation s oid of
             None \<Rightarrow> Inl (ContractError ''Unknown operation receipt'')
           | Some p \<Rightarrow>
               require_store (length (filter (\<lambda>r. rcp_operation r = oid) (receipts s))
                   < MAX_RECEIPTS_PER_OPERATION) ''Provider receipt limit reached''
               (let d = find_device s (op_device p);
                    current = receipt_is_current p d gen host provider;
                    row = \<lparr>rcp_id = rid, rcp_fingerprint = rfp, rcp_operation = oid,
                           rcp_generation = gen, rcp_provider = provider, rcp_status = st,
                           rcp_result = digest, rcp_observed_ns = observed,
                           rcp_binding = (if current then Current else Late)\<rparr>;
                    s1 = s\<lparr>receipts := receipts s @ [row]\<rparr>
                in ensure (0 \<le> observed \<and> receipt_unique (receipts s) row) store_failed
                  (bind_result
                    (case (current, confirmed_status st, d) of
                       (True, Some done_status, Some d) \<Rightarrow>
                         (let alive = observed < dev_deadline_ns d
                          in update_device (op_device p) (\<lambda>_. True)
                               (with_status (if alive then Owned else Expired)
                                 (if alive then None else Some ''parent-expired'') observed)
                               (s1\<lparr>operations := tbl_update (\<lambda>p. op_id p = oid)
                                   (\<lambda>p. p\<lparr>op_status := done_status, op_result := Some digest,
                                          op_terminal_ns := Some observed\<rparr>) (operations s1)\<rparr>))
                     | _ \<Rightarrow> Inr s1)
                    (\<lambda>s'. Inr (find_receipt s' rid, s'))))))"

section \<open>Recovery\<close>

record reconciliation_request =
  rq_id :: string
  rq_fingerprint :: string
  rq_device :: string
  rq_prior_generation :: int
  rq_prior_host :: string
  rq_prior_helper :: string
  rq_exit_digest :: string
  rq_cleanup_digest :: string
  rq_handshake_digest :: string

definition unfinished_of :: "store \<Rightarrow> device \<Rightarrow> operation list" where
  "unfinished_of s d = filter (\<lambda>p. op_device p = dev_fingerprint d \<and>
     op_generation p = dev_generation d \<and> unfinished p) (operations s)"

definition recovery_state :: "string \<Rightarrow> store \<Rightarrow> (device \<times> operation list) result" where
  "recovery_state f s = transaction s
     (case find_device s f of
        None \<Rightarrow> Inl (ContractError ''Device does not require reconciliation'')
      | Some d \<Rightarrow>
          require_store (dev_status d = Quarantined) ''Device does not require reconciliation''
            (Inr (d, sort_key op_sequence (unfinished_of s d))))"

definition disposed_status :: "operation_status \<Rightarrow> disposition_status \<Rightarrow> operation_status result" where
  "disposed_status st d =
     (if st = Queued
      then require_store (d = D_Not_Dispatched) ''Queued operation disposition is invalid''
             (Inr Rejected)
      else (case d of
              D_Succeeded \<Rightarrow> Inr Succeeded
            | D_Rejected \<Rightarrow> Inr Rejected
            | D_Recovered \<Rightarrow> Inr Recovered
            | D_Not_Dispatched \<Rightarrow>
                Inl (ContractError ''Uncertain operation needs a terminal disposition'')))"

text \<open>\<open>recovered\<close> keeps the result of the operation; every other disposition sets it.\<close>

definition dispose :: "operation_status \<Rightarrow> disposition \<Rightarrow> int \<Rightarrow> operation \<Rightarrow> operation" where
  "dispose st d now p = p\<lparr>op_status := st,
     op_result := (if st = Recovered then op_result p else Some (dsp_result d)),
     op_terminal_ns := Some now\<rparr>"

text \<open>The statuses are those read before the loop.\<close>

fun dispose_all :: "operation list \<Rightarrow> int \<Rightarrow> (string \<times> disposition) list \<Rightarrow> operation list \<Rightarrow>
    operation list result" where
  "dispose_all pending now [] ops = Inr ops"
| "dispose_all pending now ((i, d) # ds) ops =
     (case tbl_lookup op_id i pending of
        None \<Rightarrow> Inl OtherError
      | Some p \<Rightarrow> bind_result (disposed_status (op_status p) (dsp_status d)) (\<lambda>st.
          dispose_all pending now ds (tbl_update (\<lambda>p. op_id p = i) (dispose st d now) ops)))"

definition add_dispositions :: "string \<Rightarrow> (string \<times> disposition) list \<Rightarrow>
    ((string \<times> string) \<times> disposition) list \<Rightarrow> ((string \<times> string) \<times> disposition) list result" where
  "add_dispositions rid ds rows =
     (let rows' = rows @ map (\<lambda>(i, d). ((rid, i), d)) ds
      in ensure (distinct (map fst rows')) store_failed (Inr rows'))"

definition reconciliation_row :: "reconciliation_request \<Rightarrow> device \<Rightarrow> string \<Rightarrow> int \<Rightarrow> reconciliation" where
  "reconciliation_row rq d fresh_helper now =
     \<lparr>rec_id = rq_id rq, rec_fingerprint = rq_fingerprint rq, rec_device = dev_fingerprint d,
      rec_prior_generation = dev_generation d, rec_prior_host = dev_host d,
      rec_prior_helper = dev_helper d, rec_fresh_helper = fresh_helper,
      rec_exit_digest = rq_exit_digest rq, rec_cleanup_digest = rq_cleanup_digest rq,
      rec_handshake_digest = rq_handshake_digest rq, rec_observed_ns = now\<rparr>"

definition reconcile_device :: "reconciliation_request \<Rightarrow> (string \<times> disposition) list \<Rightarrow> string \<Rightarrow> string \<Rightarrow>
    grant_values \<Rightarrow> int \<Rightarrow> pyval \<Rightarrow> store \<Rightarrow> (device option \<times> store) result" where
  "reconcile_device rq ds host fresh_helper g now cleanup s = transaction s
     (case find_device s (rq_device rq) of
        None \<Rightarrow> Inl (ContractError ''Device authority is unavailable'')
      | Some d \<Rightarrow>
          (case cleanup of
             PBool pending \<Rightarrow>
               require_store (dev_reason d \<noteq> Some ''recovery-cleanup-pending'')
                 ''Recovery cleanup is still pending''
               (require_store (dev_status d = Quarantined \<and>
                   dev_generation d = rq_prior_generation rq \<and> dev_host d = rq_prior_host rq \<and>
                   dev_helper d = rq_prior_helper rq) ''Reconciliation binding mismatch''
               (require_store (gv_grant g \<noteq> dev_grant d) ''Recovery requires a fresh parent grant''
               (require_store (now < gv_deadline_ns g) ''Operation authority expired''
               (require_store (set (map op_id (unfinished_of s d)) = set (map fst ds))
                  ''Reconciliation does not cover unfinished operations''
               (bind_result (dispose_all (unfinished_of s d) now ds (operations s)) (\<lambda>ops.
                require_store (length (filter (\<lambda>r. rec_device r = dev_fingerprint d)
                    (reconciliations s)) < MAX_RECONCILIATIONS_PER_DEVICE)
                  ''Authority reconciliation limit reached''
               (let row = reconciliation_row rq d fresh_helper now in
                ensure (0 \<le> now \<and> reconciliation_unique (reconciliations s) row) store_failed
               (bind_result (add_dispositions (rq_id rq) ds (dispositions s)) (\<lambda>dsps.
                bind_result
                  (update_device (dev_fingerprint d) (\<lambda>_. True)
                    (take_over (dev_generation d + 1) (if pending then Quarantined else Owned)
                      (if pending then Some ''recovery-cleanup-pending'' else None)
                      host fresh_helper g now)
                    (s\<lparr>operations := ops, reconciliations := reconciliations s @ [row],
                       dispositions := dsps\<rparr>))
                  (\<lambda>s'. Inr (find_device s' (rq_device rq), s')))))))))))
           | _ \<Rightarrow> Inl (ContractError ''Invalid reconciliation cleanup state'')))"

definition finish_reconciliation_cleanup :: "string \<Rightarrow> string \<Rightarrow> string \<Rightarrow> int \<Rightarrow> string \<Rightarrow> string \<Rightarrow>
    int \<Rightarrow> store \<Rightarrow> (device option \<times> store) result" where
  "finish_reconciliation_cleanup rid rfp f gen host helper now s = transaction s
     (case (find_reconciliation s rid, find_device s f) of
        (Some r, Some d) \<Rightarrow>
          require_store (rec_fingerprint r = rfp \<and> rec_device r = f \<and>
              rec_prior_generation r + 1 = gen \<and> rec_fresh_helper r = helper \<and>
              dev_generation d = gen \<and> dev_host d = host \<and> dev_helper d = helper \<and>
              dev_status d = Quarantined \<and> dev_reason d = Some ''recovery-cleanup-pending'')
            ''Reconciliation cleanup binding mismatch''
            (bind_result (update_device f (\<lambda>_. True) (with_status Released None now) s)
              (\<lambda>s'. Inr (find_device s' f, s')))
      | _ \<Rightarrow> Inl (ContractError ''Reconciliation cleanup binding mismatch''))"

section \<open>Legacy adoptions\<close>

fun semantics_text :: "adoption_semantics \<Rightarrow> string" where
  "semantics_text Lock_Only = ''lock-only''"
| "semantics_text Unverified_History = ''unverified-history''"

definition adoption_fields :: "string \<Rightarrow> string \<Rightarrow> adoption_semantics \<Rightarrow> (string \<times> pyval) list" where
  "adoption_fields i artifact sem =
     [(''adoption_id'', PStr i), (''artifact_digest'', PStr artifact),
      (''semantics'', PStr (semantics_text sem))]"

definition record_legacy_adoption :: "((string \<times> pyval) list \<Rightarrow> string) \<Rightarrow> string \<Rightarrow> string \<Rightarrow>
    adoption_semantics \<Rightarrow> store \<Rightarrow> (adoption option \<times> store) result" where
  "record_legacy_adoption canonical_digest i artifact sem s =
     (let fp = canonical_digest (adoption_fields i artifact sem) in transaction s
     (case tbl_lookup adp_id i (adoptions s) of
        Some a \<Rightarrow>
          require_store (adp_fingerprint a = fp) ''Legacy adoption identity conflict''
            (Inr (Some a, s))
      | None \<Rightarrow>
          require_store (length (adoptions s) < MAX_LEGACY_ADOPTIONS)
            ''Legacy adoption limit reached''
          (let row = \<lparr>adp_id = i, adp_artifact = artifact, adp_semantics = sem,
                      adp_fingerprint = fp\<rparr>
           in ensure (list_all (\<lambda>a. adp_fingerprint a \<noteq> fp) (adoptions s)) store_failed
                (Inr (Some row, s\<lparr>adoptions := adoptions s @ [row]\<rparr>)))))"

definition close_store :: "store \<Rightarrow> store" where
  "close_store s = s\<lparr>store_closed := True\<rparr>"

section \<open>The operations of a store\<close>

datatype store_op =
    Claim_Device string string string string grant_values int
  | Renew_Device string int string grant_values int
  | Admit_Operation operation_request
  | Expire_Queued string int string string int
  | Quarantine_Clock string int string "int option"
  | Revoke_Dispatches string int string "int option"
  | Fence_Native_Recovery string int string string int
  | Prepare_Dispatch string string string int string string int
  | Acknowledge_Result string string string int string string receipt_status string int
  | Reconcile_Device reconciliation_request "(string \<times> disposition) list" string string grant_values int pyval
  | Finish_Cleanup string string string int string string int
  | Release_Device string int string int
  | Record_Legacy_Adoption string string adoption_semantics
  | Close_Store

definition drop_value :: "('a \<times> store) result \<Rightarrow> (unit \<times> store) result" where
  "drop_value r = bind_result r (\<lambda>(v, s). Inr ((), s))"

fun store_step :: "(string \<Rightarrow> string) \<Rightarrow> ((string \<times> pyval) list \<Rightarrow> string) \<Rightarrow> store \<Rightarrow> store_op \<Rightarrow>
    (unit \<times> store) result" where
  "store_step sha cd s (Claim_Device f k h hp g n) = drop_value (claim_device f k h hp g n s)"
| "store_step sha cd s (Renew_Device f gen h g n) = drop_value (renew_device f gen h g n s)"
| "store_step sha cd s (Admit_Operation r) = drop_value (admit_operation r s)"
| "store_step sha cd s (Expire_Queued f gen h i n) = expire_queued_operation f gen h i n s"
| "store_step sha cd s (Quarantine_Clock f gen h n) = quarantine_clock f gen h n s"
| "store_step sha cd s (Revoke_Dispatches f gen h n) = revoke_dispatches f gen h n s"
| "store_step sha cd s (Fence_Native_Recovery f gen h hp n) = fence_native_recovery f gen h hp n s"
| "store_step sha cd s (Prepare_Dispatch i ofp f gen h pr n) =
     drop_value (prepare_dispatch i ofp f gen h pr n s)"
| "store_step sha cd s (Acknowledge_Result i rfp oid gen h pr st dg n) =
     drop_value (acknowledge_result i rfp oid gen h pr st dg n s)"
| "store_step sha cd s (Reconcile_Device rq ds h hp g n c) =
     drop_value (reconcile_device rq ds h hp g n c s)"
| "store_step sha cd s (Finish_Cleanup i rfp f gen h hp n) =
     drop_value (finish_reconciliation_cleanup i rfp f gen h hp n s)"
| "store_step sha cd s (Release_Device f gen h n) = release_device sha f gen h n s"
| "store_step sha cd s (Record_Legacy_Adoption i a sem) =
     drop_value (record_legacy_adoption cd i a sem s)"
| "store_step sha cd s Close_Store = Inr ((), close_store s)"

end
