(* ===== verification/Authority.thy ===== *)
theory Authority
  imports Clock_Sync State_Store Contracts
begin

text \<open>
  \<open>reproof/live/authority.py\<close>: the host authority and the device authority (a handle) it gives out
  for one claimed device, over the clock of \<open>Clock_Sync\<close> and the journal of \<open>State_Store\<close>.

  \<open>world\<close> is a host with one of its handles. What the platform clock returns and whether a lease
  operation succeeds are scripts the world carries, one entry for each call. A method can change the
  world and still raise, so it is an \<open>act\<close>: it returns its outcome together with the new world.
  Object identity (\<open>_issuer\<close>) is a number; \<open>fp\<close> is the digest (SHA-256 of the canonical JSON) of
  a list of fields, \<open>sha\<close> the SHA-256 of a text. An argument whose type the code checks first is
  \<open>None\<close> when it is not of that type.
\<close>

section \<open>Capabilities\<close>

definition PROTOCOL_VERSION :: int where "PROTOCOL_VERSION = 1"
definition NATIVE_PROTOCOL_VERSION :: int where "NATIVE_PROTOCOL_VERSION = 2"
definition HELPER_VERSION :: int where "HELPER_VERSION = 2"
definition MAX_SEQUENCE :: int where "MAX_SEQUENCE = 2 ^ 31 - 1"

record parent_grant =
  pg_id :: string
  pg_project :: string
  pg_controller :: string
  pg_renewal_sequence :: int
  pg_coordinator_clock :: string
  pg_coordinator_deadline_ns :: int
  pg_deadline_ns :: int
  pg_deadline_latest_ns :: int
  pg_mapping_id :: string
  pg_host_clock :: string
  pg_host_boot :: string
  pg_fingerprint :: string
  pg_mapping :: clock_mapping
  pg_issuer :: nat

record admission =
  adm_protocol :: int
  adm_operation :: string
  adm_fingerprint :: string
  adm_payload_digest :: string
  adm_project :: string
  adm_session :: string
  adm_controller :: string
  adm_sequence :: int
  adm_generation :: int
  adm_host :: string
  adm_helper :: string
  adm_deadline_ns :: int
  adm_status :: operation_status
  adm_result :: "string option"
  adm_new :: bool
  adm_device :: string
  adm_issuer :: nat

record dispatch_permit =
  pm_protocol :: int
  pm_operation :: string
  pm_fingerprint :: string
  pm_payload_digest :: string
  pm_project :: string
  pm_session :: string
  pm_controller :: string
  pm_sequence :: int
  pm_generation :: int
  pm_host :: string
  pm_helper :: string
  pm_provider :: string
  pm_deadline_ns :: int
  pm_device :: string
  pm_issuer :: nat

record native_handshake =
  nh_protocol :: int
  nh_helper_version :: int
  nh_helper :: string
  nh_provider :: string
  nh_native :: string
  nh_clock :: string
  nh_time_ms :: int
  nh_received_ns :: int
  nh_rate_error_ppm :: int
  nh_uncertainty_ms :: int
  nh_device :: string
  nh_issuer :: nat

record native_grant =
  ng_protocol :: int
  ng_operation :: string
  ng_fingerprint :: string
  ng_payload_digest :: string
  ng_project :: string
  ng_session :: string
  ng_controller :: string
  ng_sequence :: int
  ng_generation :: int
  ng_host :: string
  ng_helper :: string
  ng_provider :: string
  ng_native :: string
  ng_clock :: string
  ng_deadline_ms :: int
  ng_issuer :: nat

record provider_result =
  pr_receipt :: string
  pr_status :: receipt_status
  pr_digest :: string

record recovery_snapshot =
  rs_device :: string
  rs_generation :: int
  rs_host :: string
  rs_helper :: string
  rs_reason :: "string option"
  rs_operations :: "(string \<times> operation_status) list"
  rs_issuer :: nat

record trusted_disposition =
  td_device :: string
  td_generation :: int
  td_operation :: string
  td_status :: disposition_status
  td_result :: string
  td_evidence :: string
  td_fingerprint :: string
  td_issuer :: nat

record trusted_reconciliation =
  tr_id :: string
  tr_fingerprint :: string
  tr_device :: string
  tr_generation :: int
  tr_host :: string
  tr_helper :: string
  tr_exit_digest :: string
  tr_cleanup_digest :: string
  tr_fresh_helper :: string
  tr_handshake_digest :: string
  tr_dispositions :: "trusted_disposition list"
  tr_issuer :: nat

section \<open>A host and a handle\<close>

record handle_state =
  hd_kind :: string
  hd_device :: string
  hd_generation :: int
  hd_helper :: string
  hd_grant :: "parent_grant option"
  hd_issuer :: nat
  hd_cache :: "admission list"
  hd_lease_open :: bool
  hd_closed :: bool
  hd_revoked :: bool
  hd_native_attached :: bool
  hd_cleanup_confirmed :: bool
  hd_released :: bool
  hd_recovery_borrows :: nat

record world =
  clock :: synchronizer
  readings :: "clock_reading option list"
  lease_script :: "bool list"
  journal :: store
  host_incarnation :: string
  root_digest :: string
  max_uncertainty_ns :: int
  cache_size :: nat
  host_issuer :: nat
  next_issuer :: nat
  host_closed :: bool
  handle :: handle_state

type_synonym 'a act = "world \<Rightarrow> 'a result \<times> world"

definition act_return :: "'a \<Rightarrow> 'a act" where
  "act_return x w = (Inr x, w)"

definition act_raise :: "string \<Rightarrow> 'a act" where
  "act_raise msg w = (Inl (ContractError msg), w)"

definition act_bind :: "'a act \<Rightarrow> ('a \<Rightarrow> 'b act) \<Rightarrow> 'b act" where
  "act_bind m k w = (case m w of (Inl e, w') \<Rightarrow> (Inl e, w') | (Inr x, w') \<Rightarrow> k x w')"

definition act_require :: "bool \<Rightarrow> string \<Rightarrow> 'a act \<Rightarrow> 'a act" where
  "act_require c msg k = (if c then k else act_raise msg)"

text \<open>\<open>try: m except: fallback\<close>, with \<open>k\<close> as the \<open>else\<close> branch.\<close>

definition act_handle :: "'a act \<Rightarrow> ('a \<Rightarrow> 'b act) \<Rightarrow> 'b act \<Rightarrow> 'b act" where
  "act_handle m k fallback w =
     (case m w of (Inl _, w') \<Rightarrow> fallback w' | (Inr x, w') \<Rightarrow> k x w')"

definition act_lift :: "'a result \<Rightarrow> 'a act" where
  "act_lift r w = (r, w)"

definition act_get :: "(world \<Rightarrow> 'a) \<Rightarrow> 'a act" where
  "act_get f w = (Inr (f w), w)"

definition act_modify :: "(world \<Rightarrow> world) \<Rightarrow> unit act" where
  "act_modify f w = (Inr (), f w)"

definition set_handle :: "(handle_state \<Rightarrow> handle_state) \<Rightarrow> unit act" where
  "set_handle f = act_modify (\<lambda>w. w\<lparr>handle := f (handle w)\<rparr>)"

text \<open>A call of the journal, and a call of the clock.\<close>

definition act_journal :: "(store \<Rightarrow> ('a \<times> store) result) \<Rightarrow> 'a act" where
  "act_journal f w =
     (case f (journal w) of Inl e \<Rightarrow> (Inl e, w) | Inr (v, s) \<Rightarrow> (Inr v, w\<lparr>journal := s\<rparr>))"

definition act_read :: "(store \<Rightarrow> 'a result) \<Rightarrow> 'a act" where
  "act_read f w = (f (journal w), w)"

definition next_reading :: "world \<Rightarrow> clock_reading option" where
  "next_reading w = (case readings w of [] \<Rightarrow> None | r # _ \<Rightarrow> r)"

definition act_sample :: "trusted_sample act" where
  "act_sample w = (case sample (next_reading w) (clock w) of
     (r, c) \<Rightarrow> (r, w\<lparr>clock := c, readings := tl (readings w)\<rparr>))"

definition act_require_mapping :: "((string \<times> pyval) list \<Rightarrow> string) \<Rightarrow> clock_mapping option \<Rightarrow> trusted_sample act" where
  "act_require_mapping fp m w = (case require_mapping fp (next_reading w) m (clock w) of
     (r, c) \<Rightarrow> (r, w\<lparr>clock := c, readings := tl (readings w)\<rparr>))"

definition act_lease :: "unit act" where
  "act_lease w = (case lease_script w of
     [] \<Rightarrow> (Inr (), w)
   | ok # rest \<Rightarrow> (if ok then Inr () else Inl (ContractError ''Canonical device lease unavailable''),
       w\<lparr>lease_script := rest\<rparr>))"

definition now_of :: "trusted_sample \<Rightarrow> int" where
  "now_of x = nanoseconds (reading x) + uncertainty_ns (reading x)"

text \<open>A time for the journal when the clock may have failed (\<open>except ContractError: pass\<close>).\<close>

definition act_journal_time :: "int option act" where
  "act_journal_time w = (case act_sample w of
     (Inl _, w') \<Rightarrow> (Inr None, w') | (Inr x, w') \<Rightarrow> (Inr (Some (now_of x)), w'))"

section \<open>Devices\<close>

definition DEVICE_KINDS :: "string list" where
  "DEVICE_KINDS = [''android'', ''ios-physical'', ''ios-simulator'']"

definition bounded_alias :: "pyval \<Rightarrow> unit result" where
  "bounded_alias v =
     (if v = PNone then Inr ()
      else case as_str v of
        Some s \<Rightarrow> (if 0 < utf8_len s \<and> utf8_len s \<le> 80 \<and> \<not> list_ex is_control s then Inr ()
                  else Inl (ContractError ''Invalid device display alias''))
      | None \<Rightarrow> Inl (ContractError ''Invalid device display alias''))"

text \<open>The lease identity of a device and its fingerprint.\<close>

definition canonical_device :: "(string \<Rightarrow> string) \<Rightarrow> pyval \<Rightarrow> pyval \<Rightarrow> (string \<times> string \<times> string) result" where
  "canonical_device sha kind physical =
     bind_result (py_in_strs kind DEVICE_KINDS) (\<lambda>known.
     ensure known (ContractError ''Unsupported device kind'')
       (case (as_str kind, as_str physical) of
          (Some k, Some s) \<Rightarrow>
            ensure (0 < utf8_len s \<and> utf8_len s \<le> 256 \<and>
                \<not> list_ex (\<lambda>c. (of_char c :: nat) < 33 \<or> (of_char c :: nat) = 127) s)
              (ContractError ''Invalid physical device identity'')
              (let identity = (if k = ''android'' then s
                 else if k = ''ios-physical'' then ''ios-device:'' @ s else ''ios-simulator:'' @ s)
               in Inr (k, identity, sha identity))
        | _ \<Rightarrow> Inl (ContractError ''Invalid physical device identity'')))"

section \<open>Parent grants\<close>

definition ha_open :: "unit act" where
  "ha_open w = (if host_closed w then act_raise ''Host authority is closed'' w else (Inr (), w))"

definition grant_fields :: "parent_grant \<Rightarrow> (string \<times> pyval) list" where
  "grant_fields g =
     [(''grantId'', PStr (pg_id g)), (''projectId'', PStr (pg_project g)),
      (''controllerId'', PStr (pg_controller g)), (''renewalSequence'', PInt (pg_renewal_sequence g)),
      (''coordinatorClockId'', PStr (pg_coordinator_clock g)),
      (''coordinatorDeadlineNs'', PInt (pg_coordinator_deadline_ns g)),
      (''localDeadlineNs'', PInt (pg_deadline_ns g)),
      (''localDeadlineLatestNs'', PInt (pg_deadline_latest_ns g)),
      (''mappingId'', PStr (pg_mapping_id g)), (''hostClockId'', PStr (pg_host_clock g)),
      (''hostBootDigest'', PStr (pg_host_boot g))]"

definition ha_require_parent_grant ::
  "((string \<times> pyval) list \<Rightarrow> string) \<Rightarrow> parent_grant option \<Rightarrow> int act" where
  "ha_require_parent_grant fp grant =
     (case grant of
        None \<Rightarrow> act_raise ''Trusted parent grant required''
      | Some g \<Rightarrow>
          act_bind (act_get host_issuer) (\<lambda>i.
          act_require (pg_issuer g = i \<and> pg_fingerprint g = fp (grant_fields g))
            ''Trusted parent grant required''
          (act_bind (act_require_mapping fp (Some (pg_mapping g))) (\<lambda>x.
           act_bind (act_lift (translate (pg_mapping g) (PInt (pg_coordinator_deadline_ns g)))) (\<lambda>iv.
           act_require (pg_host_clock g = clock_id (reading x) \<and> pg_host_boot g = boot_digest (reading x) \<and>
               pg_mapping_id g = mapping_id (pg_mapping g) \<and> pg_deadline_ns g = earliest_ns iv \<and>
               pg_deadline_latest_ns g = latest_ns iv) ''Clock mapping is incompatible''
           (act_require (now_of x < pg_deadline_ns g) ''Operation authority expired''
              (act_return (now_of x))))))))"

definition ha_issue_parent_grant ::
  "((string \<times> pyval) list \<Rightarrow> string) \<Rightarrow> clock_mapping option \<Rightarrow> pyval \<Rightarrow> pyval \<Rightarrow> pyval \<Rightarrow> pyval \<Rightarrow> pyval \<Rightarrow>
     parent_grant act" where
  "ha_issue_parent_grant fp mapping grant_id project controller renewal coordinator_deadline =
     act_bind ha_open (\<lambda>_.
     act_bind (act_lift (clock_identifier grant_id ''parent grant identity'')) (\<lambda>gi.
     act_bind (act_lift (clock_identifier project ''project identity'')) (\<lambda>pj.
     act_bind (act_lift (clock_identifier controller ''controller identity'')) (\<lambda>ct.
     act_bind (act_lift (clock_integer renewal ''renewal sequence'' 1 MAX_SEQUENCE)) (\<lambda>sq.
     act_bind (act_lift (clock_integer coordinator_deadline ''coordinator deadline'' 0 MAX_NS)) (\<lambda>dl.
     (case mapping of
        None \<Rightarrow> act_raise ''Trusted clock mapping required''
      | Some m \<Rightarrow>
          act_bind (act_require_mapping fp (Some m)) (\<lambda>x.
          act_require (coordinator_receive_ns m \<le> dl) ''Coordinator deadline predates its clock exchange''
          (act_bind (act_lift (translate m (PInt dl))) (\<lambda>iv.
           act_bind (act_get max_uncertainty_ns) (\<lambda>limit.
           act_require (interval_uncertainty iv \<le> limit) ''Clock mapping uncertainty is excessive''
           (act_require (now_of x < earliest_ns iv) ''Operation authority expired''
           (act_bind (act_get host_issuer) (\<lambda>i.
            let g = \<lparr>pg_id = gi, pg_project = pj, pg_controller = ct, pg_renewal_sequence = sq,
                     pg_coordinator_clock = coordinator_clock_id m, pg_coordinator_deadline_ns = dl,
                     pg_deadline_ns = earliest_ns iv, pg_deadline_latest_ns = latest_ns iv,
                     pg_mapping_id = mapping_id m, pg_host_clock = host_clock_id m,
                     pg_host_boot = host_boot_digest m, pg_fingerprint = '''', pg_mapping = m,
                     pg_issuer = i\<rparr>
            in act_return (g\<lparr>pg_fingerprint := fp (grant_fields g)\<rparr>)))))))))))))))"

definition issue_local_parent_grant ::
  "((string \<times> pyval) list \<Rightarrow> string) \<Rightarrow> pyval \<Rightarrow> pyval \<Rightarrow> parent_grant act" where
  "issue_local_parent_grant fp lifetime grant_id =
     act_bind (act_lift (clock_integer lifetime ''local grant lifetime'' 1 7200000000000)) (\<lambda>life.
     act_bind act_sample (\<lambda>received.
     act_bind act_sample (\<lambda>sent.
     act_bind (act_get clock) (\<lambda>c.
     act_bind (act_lift (record_exchange fp c (PStr ''local-coordinator'')
         (PInt (nanoseconds (reading received))) (Some received) (Some sent)
         (PInt (nanoseconds (reading sent))) (PInt 0) (PInt 0))) (\<lambda>m.
     ha_issue_parent_grant fp (Some m) grant_id (PStr ''legacy-local'') (PStr ''local-service'') (PInt 1)
       (PInt (nanoseconds (reading sent) + life)))))))"

definition grant_row :: "parent_grant \<Rightarrow> grant_values" where
  "grant_row g = \<lparr>gv_grant = pg_id g, gv_project = pg_project g, gv_controller = pg_controller g,
     gv_renewal_sequence = pg_renewal_sequence g, gv_deadline_ns = pg_deadline_ns g,
     gv_mapping = pg_mapping_id g\<rparr>"

section \<open>Claiming a device\<close>

definition fresh_handle :: "string \<Rightarrow> string \<Rightarrow> int \<Rightarrow> string \<Rightarrow> parent_grant option \<Rightarrow> nat \<Rightarrow> handle_state" where
  "fresh_handle kind device gen helper grant i =
     \<lparr>hd_kind = kind, hd_device = device, hd_generation = gen, hd_helper = helper, hd_grant = grant,
      hd_issuer = i, hd_cache = [], hd_lease_open = True, hd_closed = False, hd_revoked = False,
      hd_native_attached = False, hd_cleanup_confirmed = False, hd_released = False,
      hd_recovery_borrows = 0\<rparr>"

text \<open>The new handle becomes the handle of the world.\<close>

definition ha_claim_device ::
  "((string \<times> pyval) list \<Rightarrow> string) \<Rightarrow> (string \<Rightarrow> string) \<Rightarrow> pyval \<Rightarrow> pyval \<Rightarrow> pyval \<Rightarrow>
     parent_grant option \<Rightarrow> pyval \<Rightarrow> unit act" where
  "ha_claim_device fp sha kind physical helper grant alias =
     act_bind ha_open (\<lambda>_.
     act_bind (act_lift (clock_identifier helper ''helper incarnation'')) (\<lambda>hp.
     act_bind (act_lift (bounded_alias alias)) (\<lambda>_.
     act_bind (ha_require_parent_grant fp grant) (\<lambda>now.
     act_bind (act_lift (canonical_device sha kind physical)) (\<lambda>(k, _, device).
     act_bind act_lease (\<lambda>_.
     act_bind act_lease (\<lambda>_.
     act_bind (act_get host_incarnation) (\<lambda>host.
     (case grant of
        None \<Rightarrow> act_raise ''Trusted parent grant required''
      | Some g \<Rightarrow>
          act_bind (act_journal (claim_device device k host hp (grant_row g) now)) (\<lambda>row.
          (case row of
             None \<Rightarrow> act_lift (Inl TypeError)
           | Some d \<Rightarrow>
               act_bind act_lease (\<lambda>_.
               act_bind (act_get next_issuer) (\<lambda>i.
               act_modify (\<lambda>w. w\<lparr>next_issuer := Suc i,
                 handle := fresh_handle k device (dev_generation d) (dev_helper d)
                   (if dev_status d = Owned then Some g else None) i\<rparr>))))))))))))))"

section \<open>Evidence\<close>

definition disposition_of :: "pyval \<Rightarrow> disposition_status option" where
  "disposition_of v =
     (if v = PStr ''not-dispatched'' then Some D_Not_Dispatched
      else if v = PStr ''succeeded'' then Some D_Succeeded
      else if v = PStr ''rejected'' then Some D_Rejected
      else if v = PStr ''recovered'' then Some D_Recovered else None)"

fun disposition_text :: "disposition_status \<Rightarrow> string" where
  "disposition_text D_Not_Dispatched = ''not-dispatched''"
| "disposition_text D_Succeeded = ''succeeded''"
| "disposition_text D_Rejected = ''rejected''"
| "disposition_text D_Recovered = ''recovered''"

definition disposition_fields :: "trusted_disposition \<Rightarrow> (string \<times> pyval) list" where
  "disposition_fields t =
     [(''deviceFingerprint'', PStr (td_device t)), (''priorGeneration'', PInt (td_generation t)),
      (''operationId'', PStr (td_operation t)), (''terminalStatus'', PStr (disposition_text (td_status t))),
      (''resultDigest'', PStr (td_result t)), (''evidenceDigest'', PStr (td_evidence t))]"

definition ha_record_operation_disposition ::
  "((string \<times> pyval) list \<Rightarrow> string) \<Rightarrow> recovery_snapshot option \<Rightarrow> pyval \<Rightarrow> pyval \<Rightarrow> pyval \<Rightarrow> pyval \<Rightarrow>
     trusted_disposition act" where
  "ha_record_operation_disposition fp snapshot operation status digest evidence =
     act_bind ha_open (\<lambda>_.
     act_bind (act_get host_issuer) (\<lambda>i.
     (case snapshot of
        None \<Rightarrow> act_raise ''Trusted recovery snapshot required''
      | Some rs \<Rightarrow>
          act_require (rs_issuer rs = i) ''Trusted recovery snapshot required''
          (act_bind (act_lift (clock_identifier operation ''operation identity'')) (\<lambda>oid.
          (case disposition_of status of
             None \<Rightarrow> act_raise ''Invalid operation disposition''
           | Some st \<Rightarrow>
               act_bind (act_lift (clock_digest digest ''reconciled result digest'')) (\<lambda>dg.
               act_bind (act_lift (clock_digest evidence ''operation disposition evidence digest'')) (\<lambda>ev.
               (case map_of (rs_operations rs) oid of
                  None \<Rightarrow> act_raise ''Unknown recovery operation''
                | Some current \<Rightarrow>
                    (if current = Queued
                     then act_require (st = D_Not_Dispatched) ''Queued operation disposition is invalid''
                     else act_require (st \<noteq> D_Not_Dispatched) ''Uncertain operation needs a terminal disposition'')
                    (let t = \<lparr>td_device = rs_device rs, td_generation = rs_generation rs, td_operation = oid,
                              td_status = st, td_result = dg, td_evidence = ev, td_fingerprint = '''',
                              td_issuer = i\<rparr>
                     in act_return (t\<lparr>td_fingerprint := fp (disposition_fields t)\<rparr>)))))))))))"

definition reconciliation_fields :: "trusted_reconciliation \<Rightarrow> (string \<times> pyval) list" where
  "reconciliation_fields t =
     [(''reconciliationId'', PStr (tr_id t)), (''deviceFingerprint'', PStr (tr_device t)),
      (''priorGeneration'', PInt (tr_generation t)), (''priorHostIncarnation'', PStr (tr_host t)),
      (''priorHelperIncarnation'', PStr (tr_helper t)), (''priorHelperExitDigest'', PStr (tr_exit_digest t)),
      (''pointerCleanupDigest'', PStr (tr_cleanup_digest t)),
      (''freshHelperIncarnation'', PStr (tr_fresh_helper t)),
      (''freshHandshakeDigest'', PStr (tr_handshake_digest t)),
      (''dispositions'', PList (map (\<lambda>d. PStr (td_fingerprint d)) (tr_dispositions t)))]"

text \<open>\<open>uid\<close> is \<open>uuid.uuid4().hex\<close>; the dispositions are \<open>None\<close> unless all are of their type.\<close>

definition ha_record_reconciliation ::
  "((string \<times> pyval) list \<Rightarrow> string) \<Rightarrow> string \<Rightarrow> recovery_snapshot option \<Rightarrow> trusted_disposition list option \<Rightarrow>
     pyval \<Rightarrow> pyval \<Rightarrow> pyval \<Rightarrow> pyval \<Rightarrow> trusted_reconciliation act" where
  "ha_record_reconciliation fp uid snapshot given exit cleanup fresh_helper handshake =
     act_bind ha_open (\<lambda>_.
     act_bind (act_get host_issuer) (\<lambda>i.
     (case snapshot of
        None \<Rightarrow> act_raise ''Trusted recovery snapshot required''
      | Some rs \<Rightarrow>
          act_require (rs_issuer rs = i) ''Trusted recovery snapshot required''
          (case given of
             None \<Rightarrow> act_raise ''Trusted operation dispositions required''
           | Some ds \<Rightarrow>
               act_require (list_all (\<lambda>d. td_issuer d = i \<and> td_device d = rs_device rs \<and>
                   td_generation d = rs_generation rs) ds) ''Trusted operation dispositions required''
               (act_require (list_all (\<lambda>d. td_fingerprint d = fp (disposition_fields d)) ds)
                  ''Trusted operation dispositions required''
               (act_require (distinct (map td_operation ds)) ''Duplicate operation disposition''
               (act_bind (act_lift (clock_digest exit ''prior helper exit evidence digest'')) (\<lambda>ex.
                act_bind (act_lift (clock_digest cleanup ''pointer cleanup evidence digest'')) (\<lambda>cl.
                act_bind (act_lift (clock_identifier fresh_helper ''fresh helper incarnation'')) (\<lambda>fh.
                act_require (fh \<noteq> rs_helper rs) ''Fresh helper handshake required''
                (act_bind (act_lift (clock_digest handshake ''fresh helper handshake evidence digest'')) (\<lambda>hs.
                 let t = \<lparr>tr_id = ''reconciliation_'' @ uid, tr_fingerprint = '''', tr_device = rs_device rs,
                          tr_generation = rs_generation rs, tr_host = rs_host rs, tr_helper = rs_helper rs,
                          tr_exit_digest = ex, tr_cleanup_digest = cl, tr_fresh_helper = fh,
                          tr_handshake_digest = hs, tr_dispositions = ds, tr_issuer = i\<rparr>
                 in act_return (t\<lparr>tr_fingerprint := fp (reconciliation_fields t)\<rparr>)))))))))))))"

fun receipt_text :: "receipt_status \<Rightarrow> string" where
  "receipt_text R_Succeeded = ''succeeded''"
| "receipt_text R_Rejected = ''rejected''"
| "receipt_text R_Unknown = ''unknown''"

definition make_provider_result :: "pyval \<Rightarrow> pyval \<Rightarrow> pyval \<Rightarrow> provider_result result" where
  "make_provider_result receipt status digest =
     bind_result (clock_identifier receipt ''provider receipt identity'') (\<lambda>r.
     (case (if status = PStr ''succeeded'' then Some R_Succeeded
            else if status = PStr ''rejected'' then Some R_Rejected
            else if status = PStr ''unknown'' then Some R_Unknown else None) of
        None \<Rightarrow> Inl (ContractError ''Invalid provider result status'')
      | Some st \<Rightarrow>
          bind_result (clock_digest digest ''provider result digest'') (\<lambda>d.
          Inr \<lparr>pr_receipt = r, pr_status = st, pr_digest = d\<rparr>)))"

definition receipt_fields :: "provider_result \<Rightarrow> string \<Rightarrow> int \<Rightarrow> string \<Rightarrow> string \<Rightarrow> (string \<times> pyval) list" where
  "receipt_fields r oid gen host provider =
     [(''receiptId'', PStr (pr_receipt r)), (''operationId'', PStr oid), (''generation'', PInt gen),
      (''hostIncarnation'', PStr host), (''providerIncarnation'', PStr provider),
      (''status'', PStr (receipt_text (pr_status r))), (''resultDigest'', PStr (pr_digest r))]"

definition ha_record_provider_result ::
  "((string \<times> pyval) list \<Rightarrow> string) \<Rightarrow> pyval \<Rightarrow> pyval \<Rightarrow> pyval \<Rightarrow> pyval \<Rightarrow> provider_result option \<Rightarrow>
     receipt option act" where
  "ha_record_provider_result fp operation generation host provider res =
     act_bind ha_open (\<lambda>_.
     act_bind (act_lift (clock_identifier operation ''operation identity'')) (\<lambda>oid.
     act_bind (act_lift (clock_integer generation ''ownership generation'' 1 MAX_SEQUENCE)) (\<lambda>gen.
     act_bind (act_lift (clock_identifier host ''host incarnation'')) (\<lambda>h.
     act_bind (act_lift (clock_identifier provider ''provider incarnation'')) (\<lambda>pr.
     (case res of
        None \<Rightarrow> act_raise ''Bounded provider result required''
      | Some r \<Rightarrow>
          act_bind act_sample (\<lambda>x.
          act_journal (acknowledge_result (pr_receipt r) (fp (receipt_fields r oid gen h pr)) oid gen h pr
            (pr_status r) (pr_digest r) (now_of x)))))))))"

definition ha_record_legacy_adoption ::
  "((string \<times> pyval) list \<Rightarrow> string) \<Rightarrow> pyval \<Rightarrow> pyval \<Rightarrow> pyval \<Rightarrow> adoption option act" where
  "ha_record_legacy_adoption fp identity artifact sem =
     act_bind ha_open (\<lambda>_.
     act_bind (act_lift (clock_identifier identity ''legacy adoption identity'')) (\<lambda>i.
     act_bind (act_lift (clock_digest artifact ''legacy artifact digest'')) (\<lambda>a.
     (if sem = PStr ''lock-only'' then act_journal (record_legacy_adoption fp i a Lock_Only)
      else if sem = PStr ''unverified-history'' then act_journal (record_legacy_adoption fp i a Unverified_History)
      else act_raise ''Invalid legacy adoption semantics''))))"

text \<open>What the journal attests of a device to the coordinator.\<close>

definition ownership_fields :: "string \<Rightarrow> string \<Rightarrow> string \<Rightarrow> device option \<Rightarrow> (string \<times> pyval) list" where
  "ownership_fields dv rt host row =
     (''physicalDigest'', PStr dv) # (''authorityRootDigest'', PStr rt) #
     (case row of
        None \<Rightarrow> [(''generation'', PInt 0), (''status'', PStr ''unused''), (''hostIncarnation'', PStr host),
                 (''helperIncarnation'', PNone)]
      | Some d \<Rightarrow> [(''generation'', PInt (dev_generation d)),
                   (''status'', PStr (case dev_status d of Owned \<Rightarrow> ''owned'' | Released \<Rightarrow> ''released''
                      | Expired \<Rightarrow> ''expired'' | Quarantined \<Rightarrow> ''quarantined'')),
                   (''hostIncarnation'', PStr (dev_host d)), (''helperIncarnation'', PStr (dev_helper d))])"

definition ha_inventory_ownership ::
  "((string \<times> pyval) list \<Rightarrow> string) \<Rightarrow> (string \<Rightarrow> string) \<Rightarrow> pyval \<Rightarrow> pyval \<Rightarrow> (string \<times> pyval) list act" where
  "ha_inventory_ownership fp sha kind physical =
     act_bind ha_open (\<lambda>_.
     act_bind (act_lift (canonical_device sha kind physical)) (\<lambda>(_, _, dv).
     act_bind (act_read (\<lambda>s. read_device s dv)) (\<lambda>row.
     act_bind (act_get root_digest) (\<lambda>rt.
     act_bind (act_get host_incarnation) (\<lambda>host.
     let value = ownership_fields dv rt host row
     in act_return (value @ [(''releaseReceiptDigest'',
          if map_of value ''status'' = Some (PStr ''released'') then PStr (fp value) else PNone)]))))))"

section \<open>A device authority\<close>

definition da_open :: "unit act" where
  "da_open w =
     (if hd_closed (handle w) \<or> \<not> hd_lease_open (handle w) then act_raise ''Device authority is closed'' w
      else ha_open w)"

definition da_row :: "device option act" where
  "da_row = act_bind (act_get handle) (\<lambda>h. act_read (\<lambda>s. read_device s (hd_device h)))"

definition da_status :: "device_status act" where
  "da_status = act_bind da_open (\<lambda>_. act_bind da_row (\<lambda>row.
     (case row of None \<Rightarrow> act_raise ''Device authority is unavailable''
      | Some d \<Rightarrow> act_return (dev_status d))))"

text \<open>
  The present host time under the grant of the handle; a mapping that no longer holds quarantines
  the device.
\<close>

definition da_now :: "((string \<times> pyval) list \<Rightarrow> string) \<Rightarrow> int act" where
  "da_now fp =
     act_bind da_open (\<lambda>_.
     act_bind (act_get handle) (\<lambda>h.
     (case hd_grant h of
        None \<Rightarrow> act_raise ''Device requires reconciliation''
      | Some g \<Rightarrow>
          act_handle (act_require_mapping fp (Some (pg_mapping g))) (\<lambda>x. act_return (now_of x))
            (act_bind act_journal_time (\<lambda>now.
             act_bind (act_get host_incarnation) (\<lambda>host.
             act_bind (act_journal (quarantine_clock (hd_device h) (hd_generation h) host now)) (\<lambda>_.
             act_raise ''Clock mapping is incompatible'')))))))"

text \<open>The operation cache: an ordered dictionary, oldest first.\<close>

function evict_oldest :: "nat \<Rightarrow> 'a list \<Rightarrow> 'a list" where
  "evict_oldest n c = (if n < length c then evict_oldest n (tl c) else c)"
  by auto
termination
  by (relation "measure (\<lambda>(n, c). length c)") auto

declare evict_oldest.simps [simp del]

definition remember :: "nat \<Rightarrow> admission \<Rightarrow> admission list \<Rightarrow> admission list" where
  "remember n a c =
     evict_oldest n (filter (\<lambda>x. adm_operation x \<noteq> adm_operation a) c @ [a])"

definition da_remember :: "admission \<Rightarrow> unit act" where
  "da_remember a = act_bind (act_get cache_size) (\<lambda>n.
     set_handle (\<lambda>h. h\<lparr>hd_cache := remember n a (hd_cache h)\<rparr>))"

definition admission_from_row :: "handle_state \<Rightarrow> operation \<Rightarrow> bool \<Rightarrow> admission" where
  "admission_from_row h p new =
     \<lparr>adm_protocol = op_protocol p, adm_operation = op_id p, adm_fingerprint = op_fingerprint p,
      adm_payload_digest = op_payload_digest p, adm_project = op_project p, adm_session = op_session p,
      adm_controller = op_controller p, adm_sequence = op_sequence p, adm_generation = op_generation p,
      adm_host = op_host p, adm_helper = op_helper p, adm_deadline_ns = op_deadline_ns p,
      adm_status = op_status p, adm_result = op_result p, adm_new = new, adm_device = hd_device h,
      adm_issuer = hd_issuer h\<rparr>"

definition admission_fields :: "operation_request \<Rightarrow> (string \<times> pyval) list" where
  "admission_fields r =
     [(''protocolVersion'', PInt (op_protocol r)), (''deviceFingerprint'', PStr (op_device r)),
      (''operationId'', PStr (op_id r)), (''payloadDigest'', PStr (op_payload_digest r)),
      (''projectId'', PStr (op_project r)), (''sessionId'', PStr (op_session r)),
      (''controllerId'', PStr (op_controller r)), (''ownershipGeneration'', PInt (op_generation r)),
      (''hostIncarnation'', PStr (op_host r)), (''helperIncarnation'', PStr (op_helper r)),
      (''deadlineNs'', PInt (op_deadline_ns r)), (''sequence'', PInt (op_sequence r))]"

definition da_admit_operation ::
  "((string \<times> pyval) list \<Rightarrow> string) \<Rightarrow> pyval \<Rightarrow> pyval \<Rightarrow> pyval \<Rightarrow> pyval \<Rightarrow> pyval \<Rightarrow> admission act" where
  "da_admit_operation fp operation payload session sequence deadline =
     act_bind da_open (\<lambda>_.
     act_bind (act_lift (clock_identifier operation ''operation identity'')) (\<lambda>oid.
     act_bind (act_lift (clock_digest payload ''operation payload digest'')) (\<lambda>pd.
     act_bind (act_lift (clock_identifier session ''session identity'')) (\<lambda>ses.
     act_bind (act_lift (clock_integer sequence ''operation sequence'' 1 MAX_SEQUENCE)) (\<lambda>sq.
     act_bind (act_get handle) (\<lambda>h.
     act_bind (act_get host_incarnation) (\<lambda>host.
     (case hd_grant h of
        None \<Rightarrow> act_raise ''Device requires reconciliation''
      | Some g \<Rightarrow>
          act_bind (act_read (\<lambda>s. read_operation s oid)) (\<lambda>existing.
          (case existing of
             Some p \<Rightarrow>
               act_require (op_device p = hd_device h \<and> op_protocol p = PROTOCOL_VERSION \<and>
                   op_generation p = hd_generation h \<and> op_project p = pg_project g \<and>
                   op_session p = ses \<and> op_controller p = pg_controller g \<and> op_sequence p = sq \<and>
                   op_payload_digest p = pd \<and> op_host p = host \<and> op_helper p = hd_helper h)
                 ''Operation identity conflict''
               (let a = admission_from_row h p False in
                act_bind (da_remember a) (\<lambda>_. act_return a))
           | None \<Rightarrow>
               act_bind da_status (\<lambda>st.
               act_require (st = Owned) ''Device requires reconciliation''
               (act_bind (da_now fp) (\<lambda>now.
                act_bind (act_lift (if deadline = PNone then Inr (pg_deadline_ns g)
                    else clock_integer deadline ''operation deadline'' 0 MAX_NS)) (\<lambda>requested.
                let local = min requested (pg_deadline_ns g) in
                act_require (now < local) ''Operation authority expired''
                (let r = \<lparr>op_id = oid, op_fingerprint = '''', op_device = hd_device h,
                          op_protocol = PROTOCOL_VERSION, op_generation = hd_generation h,
                          op_project = pg_project g, op_session = ses, op_controller = pg_controller g,
                          op_sequence = sq, op_payload_digest = pd, op_host = host,
                          op_helper = hd_helper h, op_deadline_ns = local, op_admitted_ns = now\<rparr>
                 in act_bind (act_journal (admit_operation (r\<lparr>op_fingerprint := fp (admission_fields r)\<rparr>)))
                   (\<lambda>(row, new). (case row of
                      None \<Rightarrow> act_lift (Inl TypeError)
                    | Some p \<Rightarrow> (let a = admission_from_row h p new in
                        act_bind (da_remember a) (\<lambda>_. act_return a)))))))))))))))))))"

definition da_prepare_dispatch ::
  "((string \<times> pyval) list \<Rightarrow> string) \<Rightarrow> admission option \<Rightarrow> pyval \<Rightarrow> dispatch_permit act" where
  "da_prepare_dispatch fp given provider =
     act_bind da_open (\<lambda>_.
     act_bind (act_get handle) (\<lambda>h.
     act_bind (act_get host_incarnation) (\<lambda>host.
     (case given of
        None \<Rightarrow> act_raise ''Trusted operation admission required''
      | Some a \<Rightarrow>
          act_require (adm_issuer a = hd_issuer h \<and> adm_device a = hd_device h \<and>
              adm_generation a = hd_generation h \<and> adm_host a = host) ''Trusted operation admission required''
          (act_bind (act_lift (clock_identifier provider ''provider incarnation'')) (\<lambda>pr.
           act_bind (da_now fp) (\<lambda>now.
           (case hd_grant h of
              None \<Rightarrow> act_raise ''Device requires reconciliation''
            | Some g \<Rightarrow>
                (if adm_deadline_ns a \<le> now \<or> pg_deadline_ns g \<le> now
                 then act_bind (act_journal (expire_queued_operation (hd_device h) (hd_generation h) host
                          (adm_operation a) now)) (\<lambda>_. act_raise ''Operation authority expired'')
                 else act_bind (act_journal (prepare_dispatch (adm_operation a) (adm_fingerprint a)
                          (hd_device h) (hd_generation h) host pr now)) (\<lambda>row.
                   (case row of
                      None \<Rightarrow> act_lift (Inl TypeError)
                    | Some p \<Rightarrow> act_return
                        \<lparr>pm_protocol = PROTOCOL_VERSION, pm_operation = op_id p,
                         pm_fingerprint = op_fingerprint p, pm_payload_digest = op_payload_digest p,
                         pm_project = op_project p, pm_session = op_session p,
                         pm_controller = op_controller p, pm_sequence = op_sequence p,
                         pm_generation = op_generation p, pm_host = op_host p,
                         pm_helper = hd_helper h, pm_provider = pr,
                         pm_deadline_ns = min (op_deadline_ns p) (pg_deadline_ns g),
                         pm_device = hd_device h, pm_issuer = hd_issuer h\<rparr>)))))))))))"

definition permit_of_handle :: "handle_state \<Rightarrow> string \<Rightarrow> dispatch_permit \<Rightarrow> bool" where
  "permit_of_handle h host p \<longleftrightarrow> pm_issuer p = hd_issuer h \<and> pm_device p = hd_device h \<and>
     pm_generation p = hd_generation h \<and> pm_host p = host \<and> pm_helper p = hd_helper h"

definition da_check_dispatch_permit ::
  "((string \<times> pyval) list \<Rightarrow> string) \<Rightarrow> dispatch_permit option \<Rightarrow> int act" where
  "da_check_dispatch_permit fp given =
     act_bind da_open (\<lambda>_.
     act_bind (act_get handle) (\<lambda>h.
     act_bind (act_get host_incarnation) (\<lambda>host.
     act_require (\<not> hd_revoked h) ''Dispatch authority was revoked''
     (case given of
        None \<Rightarrow> act_raise ''Trusted dispatch permit required''
      | Some p \<Rightarrow>
          act_require (permit_of_handle h host p) ''Trusted dispatch permit required''
          (act_bind (da_now fp) (\<lambda>now.
           act_bind (act_read (\<lambda>s. read_operation s (pm_operation p))) (\<lambda>row.
           act_require (case row of None \<Rightarrow> False
               | Some r \<Rightarrow> op_fingerprint r = pm_fingerprint p \<and> op_status r = Uncertain \<and>
                   op_provider r = Some (pm_provider p)) ''Dispatch permit is not current''
           (case hd_grant h of
              None \<Rightarrow> act_raise ''Device requires reconciliation''
            | Some g \<Rightarrow> act_require (now < pm_deadline_ns p \<and> now < pg_deadline_ns g)
                ''Operation authority expired'' (act_return now)))))))))"

definition da_revoke_dispatches :: "unit act" where
  "da_revoke_dispatches =
     act_bind da_open (\<lambda>_.
     act_bind (set_handle (\<lambda>h. h\<lparr>hd_revoked := True\<rparr>)) (\<lambda>_.
     act_bind act_journal_time (\<lambda>now.
     act_bind (act_get handle) (\<lambda>h.
     act_bind (act_get host_incarnation) (\<lambda>host.
     act_journal (revoke_dispatches (hd_device h) (hd_generation h) host now))))))"

section \<open>Native helpers\<close>

definition QUALIFIED_NATIVE_CLOCKS :: "((string \<times> string) \<times> (int \<times> int)) list" where
  "QUALIFIED_NATIVE_CLOCKS =
     [((''android'', ''android-elapsed-realtime''), (1000, 1)),
      ((''ios-physical'', ''ios-mach-continuous''), (1000, 1)),
      ((''ios-simulator'', ''ios-mach-continuous''), (0, 1))]"

definition da_bind_native_handshake ::
  "((string \<times> pyval) list \<Rightarrow> string) \<Rightarrow> dispatch_permit option \<Rightarrow> pyval \<Rightarrow> pyval \<Rightarrow> pyval \<Rightarrow> pyval \<Rightarrow> pyval \<Rightarrow>
     pyval \<Rightarrow> pyval \<Rightarrow> native_handshake act" where
  "da_bind_native_handshake fp given protocol version helper provider native clock_name time =
     act_bind (da_check_dispatch_permit fp given) (\<lambda>received.
     (case given of
        None \<Rightarrow> act_raise ''Trusted dispatch permit required''
      | Some p \<Rightarrow>
          act_require (protocol = PInt NATIVE_PROTOCOL_VERSION \<and> version = PInt HELPER_VERSION)
            ''Native helper protocol is incompatible''
          (act_require (helper = PStr (pm_helper p) \<and> provider = PStr (pm_provider p))
             ''Native helper incarnation is incompatible''
          (act_bind (act_lift (clock_identifier native ''native incarnation'')) (\<lambda>nat_inc.
           act_bind (act_lift (clock_identifier clock_name ''native clock identity'')) (\<lambda>cn.
           act_bind (act_lift (clock_integer time ''native clock value'' 0 (MAX_NS div 1000000))) (\<lambda>t.
           act_bind (act_get handle) (\<lambda>h.
           (case map_of QUALIFIED_NATIVE_CLOCKS (hd_kind h, cn) of
              None \<Rightarrow> act_raise ''Native clock is not qualified''
            | Some (ppm, unc) \<Rightarrow>
                act_bind (da_check_dispatch_permit fp given) (\<lambda>_.
                act_bind (set_handle (\<lambda>h. h\<lparr>hd_native_attached := True, hd_cleanup_confirmed := False\<rparr>)) (\<lambda>_.
                act_return
                  \<lparr>nh_protocol = NATIVE_PROTOCOL_VERSION, nh_helper_version = HELPER_VERSION,
                   nh_helper = pm_helper p, nh_provider = pm_provider p, nh_native = nat_inc,
                   nh_clock = cn, nh_time_ms = t, nh_received_ns = received, nh_rate_error_ppm = ppm,
                   nh_uncertainty_ms = unc, nh_device = hd_device h, nh_issuer = hd_issuer h\<rparr>)))))))))))"

text \<open>The deadline on the native clock, from what the permit leaves after the handshake.\<close>

definition native_duration :: "dispatch_permit \<Rightarrow> native_handshake \<Rightarrow> int" where
  "native_duration p n =
     (let remaining_ms = max 0 (pm_deadline_ns p - nh_received_ns n) div 1000000
      in remaining_ms * (1000000 - nh_rate_error_ppm n) div 1000000)"

definition da_native_grant ::
  "((string \<times> pyval) list \<Rightarrow> string) \<Rightarrow> dispatch_permit option \<Rightarrow> native_handshake option \<Rightarrow> native_grant act" where
  "da_native_grant fp given shake =
     act_bind (da_check_dispatch_permit fp given) (\<lambda>_.
     act_bind (act_get handle) (\<lambda>h.
     (case (given, shake) of
        (Some p, Some n) \<Rightarrow>
          act_require (nh_issuer n = hd_issuer h \<and> nh_device n = hd_device h \<and>
              nh_protocol n = NATIVE_PROTOCOL_VERSION \<and> nh_helper_version n = HELPER_VERSION \<and>
              nh_helper n = pm_helper p \<and> nh_provider n = pm_provider p) ''Trusted native handshake required''
          (act_require (nh_uncertainty_ms n < native_duration p n) ''Native clock mapping is too uncertain''
          (act_bind (act_lift (clock_integer
              (PInt (nh_time_ms n + native_duration p n - nh_uncertainty_ms n)) ''native deadline'' 0
              (MAX_NS div 1000000))) (\<lambda>deadline.
           act_return
             \<lparr>ng_protocol = NATIVE_PROTOCOL_VERSION, ng_operation = pm_operation p,
              ng_fingerprint = pm_fingerprint p, ng_payload_digest = pm_payload_digest p,
              ng_project = pm_project p, ng_session = pm_session p, ng_controller = pm_controller p,
              ng_sequence = pm_sequence p, ng_generation = pm_generation p, ng_host = pm_host p,
              ng_helper = pm_helper p, ng_provider = pm_provider p, ng_native = nh_native n,
              ng_clock = nh_clock n, ng_deadline_ms = deadline, ng_issuer = hd_issuer h\<rparr>)))
      | _ \<Rightarrow> act_raise ''Trusted native handshake required'')))"

definition native_grant_wire :: "native_grant \<Rightarrow> (string \<times> pyval) list" where
  "native_grant_wire g =
     [(''protocolVersion'', PInt (ng_protocol g)), (''operationId'', PStr (ng_operation g)),
      (''operationFingerprint'', PStr (ng_fingerprint g)), (''payloadDigest'', PStr (ng_payload_digest g)),
      (''projectId'', PStr (ng_project g)), (''sessionId'', PStr (ng_session g)),
      (''controllerId'', PStr (ng_controller g)), (''sequence'', PInt (ng_sequence g)),
      (''ownershipGeneration'', PInt (ng_generation g)), (''hostIncarnation'', PStr (ng_host g)),
      (''helperIncarnation'', PStr (ng_helper g)), (''providerIncarnation'', PStr (ng_provider g)),
      (''nativeIncarnation'', PStr (ng_native g)), (''nativeClockId'', PStr (ng_clock g)),
      (''nativeDeadlineMs'', PInt (ng_deadline_ms g))]"

section \<open>Results and cleanup\<close>

definition da_confirm_operation ::
  "((string \<times> pyval) list \<Rightarrow> string) \<Rightarrow> dispatch_permit option \<Rightarrow> provider_result option \<Rightarrow> provider_result act" where
  "da_confirm_operation fp given res =
     act_bind da_open (\<lambda>_.
     act_bind (act_get handle) (\<lambda>h.
     (case given of
        None \<Rightarrow> act_raise ''Trusted dispatch permit required''
      | Some p \<Rightarrow>
          act_require (pm_issuer p = hd_issuer h \<and> pm_device p = hd_device h) ''Trusted dispatch permit required''
          (act_require (res \<noteq> None) ''Bounded provider result required''
          (act_bind (da_now fp) (\<lambda>_.
           act_bind (ha_record_provider_result fp (PStr (pm_operation p)) (PInt (pm_generation p))
             (PStr (pm_host p)) (PStr (pm_provider p)) res) (\<lambda>row.
           (case row of
              None \<Rightarrow> act_lift (Inl TypeError)
            | Some r \<Rightarrow> act_lift (make_provider_result (PStr (rcp_id r)) (PStr (receipt_text (rcp_status r)))
                (PStr (rcp_result r)))))))))))"

definition cleanup_payload :: "(string \<times> pyval) list" where
  "cleanup_payload = [(''kind'', PStr ''cleanup''),
     (''payload'', PDict [(''scope'', PStr ''native-helper-and-pointers'')])]"

definition da_confirm_native_cleanup ::
  "((string \<times> pyval) list \<Rightarrow> string) \<Rightarrow> dispatch_permit option \<Rightarrow> unit act" where
  "da_confirm_native_cleanup fp given =
     act_bind da_open (\<lambda>_.
     act_bind (act_get handle) (\<lambda>h.
     act_bind (act_get host_incarnation) (\<lambda>host.
     act_require (\<not> hd_revoked h) ''Revoked native ownership requires reconciliation''
     (case given of
        None \<Rightarrow> act_raise ''Trusted native cleanup permit required''
      | Some p \<Rightarrow>
          act_require (permit_of_handle h host p \<and> pm_payload_digest p = fp cleanup_payload)
            ''Trusted native cleanup permit required''
          (act_bind (act_read (\<lambda>s. read_operation s (pm_operation p))) (\<lambda>row.
           act_require (case row of None \<Rightarrow> False
               | Some r \<Rightarrow> op_fingerprint r = pm_fingerprint p \<and> op_provider r = Some (pm_provider p) \<and>
                   op_status r = Succeeded) ''Native cleanup is not confirmed''
           (act_bind da_status (\<lambda>st.
            act_require (st = Owned \<or> st = Expired) ''Native cleanup is not confirmed''
              (set_handle (\<lambda>h. h\<lparr>hd_cleanup_confirmed := True\<rparr>))))))))))"

text \<open>The provider runs between the two, on its own: \<open>callback\<close> is any action.\<close>

definition da_dispatch_operation ::
  "((string \<times> pyval) list \<Rightarrow> string) \<Rightarrow> (dispatch_permit \<Rightarrow> provider_result option act) \<Rightarrow> admission option \<Rightarrow>
     pyval \<Rightarrow> provider_result act" where
  "da_dispatch_operation fp callback given provider =
     act_bind (da_prepare_dispatch fp given provider) (\<lambda>p.
     act_handle (callback p)
       (\<lambda>res. (case res of
          None \<Rightarrow> act_raise ''Provider outcome is uncertain''
        | Some r \<Rightarrow> da_confirm_operation fp (Some p) (Some r)))
       (act_raise ''Provider outcome is uncertain''))"

section \<open>Checks, renewal, recovery and closing\<close>

definition owned_by_handle :: "handle_state \<Rightarrow> string \<Rightarrow> int \<Rightarrow> device \<Rightarrow> bool" where
  "owned_by_handle h host now d \<longleftrightarrow> dev_generation d = hd_generation h \<and> dev_host d = host \<and>
     dev_helper d = hd_helper h \<and> now < dev_deadline_ns d"

definition da_check_ownership :: "((string \<times> pyval) list \<Rightarrow> string) \<Rightarrow> unit act" where
  "da_check_ownership fp =
     act_bind da_open (\<lambda>_.
     act_bind (act_get handle) (\<lambda>h.
     act_bind (ha_require_parent_grant fp (hd_grant h)) (\<lambda>now.
     act_bind (act_get host_incarnation) (\<lambda>host.
     act_bind da_row (\<lambda>row.
     act_require (case row of None \<Rightarrow> False
         | Some d \<Rightarrow> dev_status d = Owned \<and> owned_by_handle h host now d)
       ''Device ownership is unavailable'' (act_return ()))))))"

definition da_check_observation_authority :: "((string \<times> pyval) list \<Rightarrow> string) \<Rightarrow> unit act" where
  "da_check_observation_authority fp =
     act_bind da_open (\<lambda>_.
     act_bind (act_get handle) (\<lambda>h.
     act_require (\<not> hd_revoked h) ''Observation authority was revoked''
     (act_bind (ha_require_parent_grant fp (hd_grant h)) (\<lambda>now.
      act_bind (act_get host_incarnation) (\<lambda>host.
      act_bind da_row (\<lambda>row.
      act_require (case row of None \<Rightarrow> False
          | Some d \<Rightarrow> (dev_status d = Owned \<or> dev_status d = Quarantined \<and>
                dev_reason d = Some ''provider-outcome-unconfirmed'') \<and> owned_by_handle h host now d)
        ''Observation authority is unavailable'' (act_return ())))))))"

definition da_renew :: "((string \<times> pyval) list \<Rightarrow> string) \<Rightarrow> parent_grant option \<Rightarrow> int act" where
  "da_renew fp grant =
     act_bind da_open (\<lambda>_.
     act_bind (act_get host_issuer) (\<lambda>i.
     (case grant of
        None \<Rightarrow> act_raise ''Trusted parent grant required''
      | Some g \<Rightarrow>
          act_require (pg_issuer g = i) ''Trusted parent grant required''
          (act_bind (da_now fp) (\<lambda>_.
           act_bind (ha_require_parent_grant fp (Some g)) (\<lambda>now.
           act_bind (act_get handle) (\<lambda>h.
           act_bind (act_get host_incarnation) (\<lambda>host.
           act_bind (act_journal (renew_device (hd_device h) (hd_generation h) host (grant_row g) now)) (\<lambda>res.
           act_bind (act_lift res) (\<lambda>row.
           (case row of
              None \<Rightarrow> act_lift (Inl TypeError)
            | Some d \<Rightarrow> act_bind (set_handle (\<lambda>h. h\<lparr>hd_grant := Some g\<rparr>)) (\<lambda>_.
                act_return (dev_deadline_ns d)))))))))))))"

definition da_recovery_snapshot :: "recovery_snapshot act" where
  "da_recovery_snapshot =
     act_bind da_open (\<lambda>_.
     act_bind (act_get handle) (\<lambda>h.
     act_bind (act_read (recovery_state (hd_device h))) (\<lambda>(d, ps).
     act_bind (act_get host_issuer) (\<lambda>i.
     act_return \<lparr>rs_device = hd_device h, rs_generation = dev_generation d, rs_host = dev_host d,
       rs_helper = dev_helper d, rs_reason = dev_reason d,
       rs_operations = map (\<lambda>p. (op_id p, op_status p)) ps, rs_issuer = i\<rparr>))))"

definition same_snapshot :: "recovery_snapshot \<Rightarrow> recovery_snapshot \<Rightarrow> bool" where
  "same_snapshot a b \<longleftrightarrow> rs_device a = rs_device b \<and> rs_generation a = rs_generation b \<and>
     rs_host a = rs_host b \<and> rs_helper a = rs_helper b \<and> rs_reason a = rs_reason b \<and>
     rs_operations a = rs_operations b"

definition da_require_recovery_snapshot ::
  "((string \<times> pyval) list \<Rightarrow> string) \<Rightarrow> recovery_snapshot option \<Rightarrow> parent_grant option \<Rightarrow> unit act" where
  "da_require_recovery_snapshot fp snapshot grant =
     act_bind da_open (\<lambda>_.
     act_bind (ha_require_parent_grant fp grant) (\<lambda>_.
     act_bind (act_get handle) (\<lambda>h.
     act_bind (act_get host_issuer) (\<lambda>i.
     (case snapshot of
        None \<Rightarrow> act_raise ''Current device recovery snapshot required''
      | Some rs \<Rightarrow>
          act_require (rs_issuer rs = i \<and> rs_device rs = hd_device h \<and> rs_generation rs = hd_generation h)
            ''Current device recovery snapshot required''
          (act_bind da_status (\<lambda>st.
           act_require (st = Quarantined) ''Current device recovery snapshot required''
           (act_bind da_recovery_snapshot (\<lambda>now.
            act_require (same_snapshot rs now) ''Current device recovery snapshot required''
              (act_return ()))))))))))"

text \<open>Entering and leaving \<open>borrow_native_recovery_lease\<close>.\<close>

definition da_borrow_recovery ::
  "((string \<times> pyval) list \<Rightarrow> string) \<Rightarrow> recovery_snapshot option \<Rightarrow> parent_grant option \<Rightarrow> recovery_snapshot act" where
  "da_borrow_recovery fp snapshot grant =
     act_bind (da_require_recovery_snapshot fp snapshot grant) (\<lambda>_.
     act_bind (act_get handle) (\<lambda>h.
     act_require (hd_recovery_borrows h = 0) ''Device recovery owner is already active''
     (act_bind act_lease (\<lambda>_.
      act_bind (ha_require_parent_grant fp grant) (\<lambda>now.
      (case snapshot of
         None \<Rightarrow> act_raise ''Current device recovery snapshot required''
       | Some rs \<Rightarrow>
           act_bind (act_journal (fence_native_recovery (hd_device h) (rs_generation rs) (rs_host rs)
             (rs_helper rs) now)) (\<lambda>_.
           act_bind (set_handle (\<lambda>h. h\<lparr>hd_revoked := True\<rparr>)) (\<lambda>_.
           act_bind da_recovery_snapshot (\<lambda>fresh.
           act_bind (da_require_recovery_snapshot fp (Some fresh) grant) (\<lambda>_.
           act_bind (set_handle (\<lambda>h. h\<lparr>hd_recovery_borrows := 1\<rparr>)) (\<lambda>_.
           act_return fresh)))))))))))"

definition da_return_recovery :: "unit act" where
  "da_return_recovery = set_handle (\<lambda>h. h\<lparr>hd_recovery_borrows := 0\<rparr>)"

definition disposition_rows :: "trusted_disposition list \<Rightarrow> (string \<times> disposition) list" where
  "disposition_rows ds = foldl (\<lambda>m d. AList.update (td_operation d)
     \<lparr>dsp_status = td_status d, dsp_result = td_result d, dsp_evidence = td_evidence d,
      dsp_fingerprint = td_fingerprint d\<rparr> m) [] ds"

definition da_reconcile ::
  "((string \<times> pyval) list \<Rightarrow> string) \<Rightarrow> trusted_reconciliation option \<Rightarrow> parent_grant option \<Rightarrow> pyval \<Rightarrow> unit act" where
  "da_reconcile fp given grant cleanup =
     act_bind da_open (\<lambda>_.
     act_bind (act_get handle) (\<lambda>h.
     act_bind (act_get host_issuer) (\<lambda>i.
     act_require (case cleanup of PBool _ \<Rightarrow> True | _ \<Rightarrow> False) ''Invalid reconciliation cleanup state''
     (act_require (hd_recovery_borrows h = 0) ''Collect the native recovery owner before reconciliation''
     (case given of
        None \<Rightarrow> act_raise ''Trusted reconciliation required''
      | Some t \<Rightarrow>
          act_require (tr_issuer t = i \<and> tr_device t = hd_device h \<and> tr_generation t = hd_generation h)
            ''Trusted reconciliation required''
          (act_require (list_all (\<lambda>d. td_issuer d = i \<and> td_device d = hd_device h \<and>
              td_generation d = hd_generation h \<and> td_fingerprint d = fp (disposition_fields d))
              (tr_dispositions t)) ''Trusted reconciliation required''
          (act_require (tr_fingerprint t = fp (reconciliation_fields t)) ''Trusted reconciliation required''
          (act_bind (ha_require_parent_grant fp grant) (\<lambda>now.
           act_bind (act_get host_incarnation) (\<lambda>host.
           (case grant of
              None \<Rightarrow> act_raise ''Trusted parent grant required''
            | Some g \<Rightarrow>
                act_bind (act_journal (reconcile_device
                  \<lparr>rq_id = tr_id t, rq_fingerprint = tr_fingerprint t, rq_device = tr_device t,
                   rq_prior_generation = tr_generation t, rq_prior_host = tr_host t,
                   rq_prior_helper = tr_helper t, rq_exit_digest = tr_exit_digest t,
                   rq_cleanup_digest = tr_cleanup_digest t, rq_handshake_digest = tr_handshake_digest t\<rparr>
                  (disposition_rows (tr_dispositions t)) host (tr_fresh_helper t) (grant_row g) now cleanup))
                (\<lambda>row. (case row of
                   None \<Rightarrow> act_lift (Inl TypeError)
                 | Some d \<Rightarrow>
                     act_bind (set_handle (\<lambda>h. h\<lparr>hd_generation := dev_generation d, hd_helper := dev_helper d,
                       hd_grant := Some g, hd_cache := [], hd_revoked := (cleanup = PBool True),
                       hd_native_attached := False, hd_cleanup_confirmed := False\<rparr>)) (\<lambda>_.
                     act_lease))))))))))))))"

definition act_try :: "'a \<Rightarrow> 'a act \<Rightarrow> 'a act" where
  "act_try fallback m w =
     (case m w of (Inl (ContractError _), w') \<Rightarrow> (Inr fallback, w') | r \<Rightarrow> r)"

definition da_close :: "(string \<Rightarrow> string) \<Rightarrow> bool act" where
  "da_close sha =
     act_bind (act_get handle) (\<lambda>h.
     if hd_closed h then act_return (hd_released h)
     else
       act_bind act_journal_time (\<lambda>now.
       act_bind (act_get host_incarnation) (\<lambda>host.
       act_bind (act_try False
         (act_bind
           (if hd_native_attached h \<and> \<not> hd_cleanup_confirmed h
            then act_bind (set_handle (\<lambda>h. h\<lparr>hd_revoked := True\<rparr>)) (\<lambda>_.
              act_journal (revoke_dispatches (hd_device h) (hd_generation h) host now))
            else (case now of
                None \<Rightarrow> act_return ()
              | Some n \<Rightarrow> act_journal (release_device sha (hd_device h) (hd_generation h) host n)))
           (\<lambda>_. act_bind da_row (\<lambda>row.
              act_return (case row of None \<Rightarrow> False | Some d \<Rightarrow> dev_status d = Released))))) (\<lambda>released.
       act_bind (act_try False (act_bind act_lease (\<lambda>_. act_return released))) (\<lambda>released.
       act_bind (set_handle (\<lambda>h. h\<lparr>hd_lease_open := False, hd_closed := True, hd_released := released\<rparr>)) (\<lambda>_.
       act_return released))))))"

section \<open>Using a handle\<close>

datatype handle_op =
    H_Admit pyval pyval pyval pyval pyval
  | H_Prepare "admission option" pyval
  | H_Check "dispatch_permit option"
  | H_Revoke
  | H_Handshake "dispatch_permit option" pyval pyval pyval pyval pyval pyval pyval
  | H_Native_Grant "dispatch_permit option" "native_handshake option"
  | H_Confirm "dispatch_permit option" "provider_result option"
  | H_Confirm_Cleanup "dispatch_permit option"
  | H_Check_Ownership
  | H_Check_Observation
  | H_Renew "parent_grant option"
  | H_Snapshot
  | H_Borrow "recovery_snapshot option" "parent_grant option"
  | H_Return
  | H_Reconcile "trusted_reconciliation option" "parent_grant option" pyval
  | H_Close

text \<open>The world after an operation, whether it returned or raised.\<close>

fun handle_step :: "((string \<times> pyval) list \<Rightarrow> string) \<Rightarrow> (string \<Rightarrow> string) \<Rightarrow> world \<Rightarrow> handle_op \<Rightarrow> world" where
  "handle_step fp sha w (H_Admit a b c d e) = snd (da_admit_operation fp a b c d e w)"
| "handle_step fp sha w (H_Prepare a b) = snd (da_prepare_dispatch fp a b w)"
| "handle_step fp sha w (H_Check p) = snd (da_check_dispatch_permit fp p w)"
| "handle_step fp sha w H_Revoke = snd (da_revoke_dispatches w)"
| "handle_step fp sha w (H_Handshake p a b c d e f g) = snd (da_bind_native_handshake fp p a b c d e f g w)"
| "handle_step fp sha w (H_Native_Grant p n) = snd (da_native_grant fp p n w)"
| "handle_step fp sha w (H_Confirm p r) = snd (da_confirm_operation fp p r w)"
| "handle_step fp sha w (H_Confirm_Cleanup p) = snd (da_confirm_native_cleanup fp p w)"
| "handle_step fp sha w H_Check_Ownership = snd (da_check_ownership fp w)"
| "handle_step fp sha w H_Check_Observation = snd (da_check_observation_authority fp w)"
| "handle_step fp sha w (H_Renew g) = snd (da_renew fp g w)"
| "handle_step fp sha w H_Snapshot = snd (da_recovery_snapshot w)"
| "handle_step fp sha w (H_Borrow rs g) = snd (da_borrow_recovery fp rs g w)"
| "handle_step fp sha w H_Return = snd (da_return_recovery w)"
| "handle_step fp sha w (H_Reconcile t g c) = snd (da_reconcile fp t g c w)"
| "handle_step fp sha w H_Close = snd (da_close sha w)"

definition handle_run :: "((string \<times> pyval) list \<Rightarrow> string) \<Rightarrow> (string \<Rightarrow> string) \<Rightarrow> world \<Rightarrow> handle_op list \<Rightarrow> world" where
  "handle_run fp sha w xs = foldl (handle_step fp sha) w xs"

fun is_reconcile :: "handle_op \<Rightarrow> bool" where
  "is_reconcile (H_Reconcile t g c) = True"
| "is_reconcile _ = False"

end
