(* ===== verification/State_Store_Props.thy ===== *)
theory State_Store_Props
  imports State_Store
begin

text \<open>
  What every operation of the authority store guarantees: how a device row and an operation row
  may change (\<open>device_leads\<close>, \<open>operation_leads\<close>), that no row is ever lost (\<open>store_leads\<close>), the
  invariants of the tables, and the properties of any run of the store's operations.
\<close>

section \<open>Results of the operations\<close>

definition put_device :: "string \<Rightarrow> (device \<Rightarrow> bool) \<Rightarrow> (device \<Rightarrow> device) \<Rightarrow> store \<Rightarrow> store" where
  "put_device f p g s = s\<lparr>devices := tbl_update (\<lambda>d. dev_fingerprint d = f \<and> p d) g (devices s)\<rparr>"

lemma update_device_Inr:
  "update_device f p g s = Inr s' \<longleftrightarrow> s' = put_device f p g s \<and>
     (\<forall>d \<in> set (devices s). dev_fingerprint d = f \<and> p d \<longrightarrow> device_checks (g d))"
  by (auto simp: update_device_def put_device_def Let_def list_all_iff result_iff)

lemma require_store_Inr: "require_store c m k = Inr y \<longleftrightarrow> c \<and> k = Inr y"
  by (simp add: require_store_def result_iff)

lemma transaction_Inr: "transaction s k = Inr y \<longleftrightarrow> \<not> store_closed s \<and> k = Inr y"
  by (simp add: transaction_def require_store_Inr)

lemmas store_iff = result_iff require_store_Inr transaction_Inr update_device_Inr

lemma put_device_simps [simp]:
  "operations (put_device f p g s) = operations s" "watermarks (put_device f p g s) = watermarks s"
  "receipts (put_device f p g s) = receipts s" "dispositions (put_device f p g s) = dispositions s"
  "reconciliations (put_device f p g s) = reconciliations s"
  "adoptions (put_device f p g s) = adoptions s" "store_closed (put_device f p g s) = store_closed s"
  "find_operation (put_device f p g s) = find_operation s"
  "find_receipt (put_device f p g s) = find_receipt s"
  "devices (put_device f p g s) = tbl_update (\<lambda>d. dev_fingerprint d = f \<and> p d) g (devices s)"
  by (simp_all add: put_device_def find_operation_def find_receipt_def fun_eq_iff)

lemma find_device_Some: "find_device s f = Some d \<Longrightarrow> d \<in> set (devices s) \<and> dev_fingerprint d = f"
  unfolding find_device_def by (rule tbl_lookup_Some)

lemma find_operation_Some: "find_operation s i = Some p \<Longrightarrow> p \<in> set (operations s) \<and> op_id p = i"
  unfolding find_operation_def by (rule tbl_lookup_Some)

lemma find_receipt_Some: "find_receipt s i = Some r \<Longrightarrow> r \<in> set (receipts s) \<and> rcp_id r = i"
  unfolding find_receipt_def by (rule tbl_lookup_Some)

lemmas find_Some = find_device_Some find_operation_Some find_receipt_Some

definition unresolved_reason :: "device \<Rightarrow> string" where
  "unresolved_reason d = (case dev_reason d of None \<Rightarrow> ''restart-ownership-unresolved''
     | Some r \<Rightarrow> (if r = '''' then ''restart-ownership-unresolved'' else r))"

lemma claim_cases:
  assumes "claim_device f k h hp g n s = Inr (v, s')"
  obtains (fresh) "find_device s f = None" "length (devices s) < MAX_DEVICES"
      "device_checks (first_row f k h hp g n)" "s' = s\<lparr>devices := devices s @ [first_row f k h hp g n]\<rparr>"
  | (again) d where "find_device s f = Some d" "dev_status d = Released" "dev_kind d = k"
      "device_checks (take_over (dev_generation d + 1) Owned None h hp g n d)"
      "s' = put_device f (\<lambda>_. True) (take_over (dev_generation d + 1) Owned None h hp g n) s"
  | (held) d where "find_device s f = Some d" "dev_status d \<noteq> Released" "dev_kind d = k"
      "device_checks (with_status Quarantined (Some (unresolved_reason d)) n d)"
      "s' = put_device f (\<lambda>_. True) (with_status Quarantined (Some (unresolved_reason d)) n) s"
proof (cases "find_device s f")
  case None
  with assms show thesis by (intro fresh) (auto simp: claim_device_def store_iff Let_def)
next
  case (Some d)
  note d = find_device_Some [OF Some]
  show thesis
  proof (cases "dev_status d = Released")
    case True
    with assms Some d show thesis
      by (intro again [OF Some]) (auto simp: claim_device_def store_iff)
  next
    case False
    with assms Some d show thesis
      by (intro held [OF Some]) (auto simp: claim_device_def store_iff unresolved_reason_def)
  qed
qed

definition renew_row :: "grant_values \<Rightarrow> int \<Rightarrow> device \<Rightarrow> device" where
  "renew_row g n d = d\<lparr>dev_renewal_sequence := gv_renewal_sequence g,
     dev_deadline_ns := gv_deadline_ns g, dev_mapping := gv_mapping g, dev_updated_ns := n\<rparr>"

definition expirable :: "device \<Rightarrow> bool" where
  "expirable d \<longleftrightarrow> dev_status d = Owned \<or> dev_status d = Expired"

lemma renew_cases:
  assumes "renew_device f gen h g n s = Inr (v, s')"
  obtains (expired) d where "find_device s f = Some d"
      "\<forall>d \<in> set (devices s). dev_fingerprint d = f \<and> expirable d \<longrightarrow>
         device_checks (with_status Expired (Some ''parent-expired'') n d)"
      "v = Inl (ContractError ''Expired authority cannot be renewed'')"
      "s' = put_device f expirable (with_status Expired (Some ''parent-expired'') n) s"
  | (renewed) d where "find_device s f = Some d" "dev_status d = Owned" "dev_generation d = gen"
      "dev_host d = h" "gv_grant g = dev_grant d" "gv_project g = dev_project d" "gv_controller g = dev_controller d"
      "dev_renewal_sequence d < gv_renewal_sequence g" "n < dev_deadline_ns d"
      "device_checks (renew_row g n d)" "s' = put_device f (\<lambda>_. True) (renew_row g n) s"
proof (cases "find_device s f")
  case (Some d)
  note d = find_device_Some [OF Some]
  show thesis
  proof (cases "dev_status d = Expired \<or> dev_deadline_ns d \<le> n")
    case True
    with assms Some show thesis
      by (intro expired [OF Some]) (auto simp: renew_device_def store_iff expirable_def)
  next
    case False
    with assms Some d show thesis
      by (intro renewed [OF Some]) (auto simp: renew_device_def store_iff renew_row_def [abs_def])
  qed
qed (use assms in \<open>simp add: renew_device_def transaction_Inr\<close>)

lemma admit_cases:
  assumes "admit_operation r s = Inr (v, s')"
  obtains (known) p where "find_operation s (op_id r) = Some p" "op_fingerprint p = op_fingerprint r"
      "v = (Some p, False)" "s' = s"
  | (admitted) d where "find_operation s (op_id r) = None" "find_device s (op_device r) = Some d"
      "dev_status d = Owned" "dev_generation d = op_generation r" "dev_host d = op_host r"
      "op_admitted_ns r < dev_deadline_ns d" "op_deadline_ns r \<le> dev_deadline_ns d"
      "op_sequence r = watermark s (request_key r) + 1"
      "length (filter (\<lambda>p. op_device p = op_device r) (operations s)) < MAX_OPERATIONS_PER_DEVICE"
      "operation_checks (queued_row r)" "operation_unique (operations s) (queued_row r)"
      "s' = s\<lparr>operations := operations s @ [queued_row r],
        watermarks := AList.update (request_key r) (op_sequence r) (watermarks s)\<rparr>"
      "v = (find_operation s' (op_id r), True)"
proof (cases "find_operation s (op_id r)")
  case None
  with assms obtain d where d: "find_device s (op_device r) = Some d"
    by (auto simp: admit_operation_def transaction_Inr split: option.splits)
  with assms None show thesis
    by (intro admitted [OF None d]) (auto simp: admit_operation_def store_iff Let_def)
next
  case (Some p)
  with assms show thesis by (intro known [OF Some]) (auto simp: admit_operation_def store_iff)
qed

lemma expire_queued_cases:
  assumes "expire_queued_operation f gen h i n s = Inr (v, s')"
  obtains d q where "find_device s f = Some d" "dev_generation d = gen"
    "\<And>d. q d \<Longrightarrow> expirable d"
    "\<forall>d \<in> set (devices s). dev_fingerprint d = f \<and> q d \<longrightarrow>
       device_checks (with_status Expired (Some ''parent-expired'') n d)"
    "s' = put_device f q (with_status Expired (Some ''parent-expired'') n)
       (s\<lparr>operations := tbl_update (\<lambda>p. op_id p = i \<and> op_device p = f \<and> op_generation p = gen \<and>
          op_host p = h \<and> op_status p = Queued) (expire_row n) (operations s)\<rparr>)"
proof (cases "find_device s f")
  case (Some d)
  show thesis
  proof (cases "dev_deadline_ns d \<le> n")
    case True
    with assms Some show thesis
      by (intro that [OF Some, of expirable])
        (auto simp: expire_queued_operation_def store_iff Let_def expirable_def)
  next
    case False
    with assms Some show thesis
      by (intro that [OF Some, of "\<lambda>_. False"])
        (auto simp: expire_queued_operation_def store_iff Let_def put_device_def tbl_update_def)
  qed
qed (use assms in \<open>simp add: expire_queued_operation_def transaction_Inr\<close>)

lemma quarantine_clock_cases:
  assumes "quarantine_clock f gen h n s = Inr (v, s')"
  obtains "s' = put_device f (\<lambda>d. dev_generation d = gen \<and> dev_host d = h)
      (quarantine ''clock-incompatible'' n) s"
    "\<forall>d \<in> set (devices s). dev_fingerprint d = f \<and> dev_generation d = gen \<and> dev_host d = h \<longrightarrow>
       device_checks (quarantine ''clock-incompatible'' n d)"
  using assms by (auto simp: quarantine_clock_def store_iff Let_def)

lemma revoke_cases:
  assumes "revoke_dispatches f gen h n s = Inr (v, s')"
  obtains (revoked) d where "find_device s f = Some d" "dev_generation d = gen" "dev_host d = h"
      "dev_status d \<noteq> Released" "device_checks (quarantine ''host-session-revoked'' n d)"
      "s' = put_device f (\<lambda>_. True) (quarantine ''host-session-revoked'' n) s"
  | (released) d where "find_device s f = Some d" "dev_status d = Released" "s' = s"
proof (cases "find_device s f")
  case (Some d)
  note d = find_device_Some [OF Some]
  show thesis
  proof (cases "dev_status d = Released")
    case True
    with assms Some show thesis by (intro released [OF Some]) (auto simp: revoke_dispatches_def store_iff)
  next
    case False
    then have "dev_status d \<in> {Owned, Expired, Quarantined}" by (cases "dev_status d") auto
    with False assms Some d show thesis
      by (intro revoked [OF Some]) (auto simp: revoke_dispatches_def store_iff)
  qed
qed (use assms in \<open>simp add: revoke_dispatches_def transaction_Inr\<close>)

definition fence_row :: "int \<Rightarrow> device \<Rightarrow> device" where
  "fence_row n d = d\<lparr>dev_reason := Some ''host-recovery-started'', dev_updated_ns := n\<rparr>"

lemma fence_cases:
  assumes "fence_native_recovery f gen h hp n s = Inr (v, s')"
  obtains (fenced) d where "find_device s f = Some d" "dev_status d = Quarantined"
      "dev_reason d = Some ''provider-outcome-unconfirmed''" "device_checks (fence_row n d)"
      "s' = put_device f (\<lambda>_. True) (fence_row n) s"
  | (unchanged) d where "find_device s f = Some d" "dev_status d = Quarantined" "s' = s"
      "dev_reason d \<noteq> Some ''provider-outcome-unconfirmed''"
proof (cases "find_device s f")
  case (Some d)
  note d = find_device_Some [OF Some]
  show thesis
  proof (cases "dev_reason d = Some ''provider-outcome-unconfirmed''")
    case True
    with assms Some d show thesis
      by (intro fenced [OF Some]) (auto simp: fence_native_recovery_def store_iff fence_row_def [abs_def])
  next
    case False
    with assms Some show thesis
      by (intro unchanged [OF Some]) (auto simp: fence_native_recovery_def store_iff)
  qed
qed (use assms in \<open>simp add: fence_native_recovery_def transaction_Inr\<close>)

definition dispatch_row :: "string \<Rightarrow> operation \<Rightarrow> operation" where
  "dispatch_row pr p = p\<lparr>op_status := Uncertain, op_provider := Some pr\<rparr>"

abbreviation unconfirmed :: "int \<Rightarrow> device \<Rightarrow> device" where
  "unconfirmed \<equiv> with_status Quarantined (Some ''provider-outcome-unconfirmed'')"

lemma prepare_cases:
  assumes "prepare_dispatch i ofp f gen h pr n s = Inr (v, s')"
  obtains d p where "find_device s f = Some d" "find_operation s i = Some p"
    "dev_status d = Owned" "dev_generation d = gen" "dev_host d = h" "op_fingerprint p = ofp"
    "op_device p = f" "op_generation p = gen" "op_host p = h" "op_status p = Queued"
    "\<forall>r \<in> set (operations s). op_device r = f \<and> op_generation r = gen \<and>
       op_sequence r < op_sequence p \<longrightarrow> \<not> unfinished r"
    "n < op_deadline_ns p" "n < dev_deadline_ns d" "device_checks (unconfirmed n d)"
    "s' = put_device f (\<lambda>_. True) (unconfirmed n)
       (s\<lparr>operations := tbl_update (\<lambda>p. op_id p = i) (dispatch_row pr) (operations s)\<rparr>)"
    "v = find_operation s' i"
proof (cases "find_device s f")
  case (Some d)
  note d = find_device_Some [OF Some]
  from assms Some obtain p where p: "find_operation s i = Some p"
    by (cases "find_operation s i") (auto simp: prepare_dispatch_def transaction_Inr)
  from assms Some p d show thesis
    by (intro that [OF Some p])
      (auto simp: prepare_dispatch_def store_iff list_ex_iff dispatch_row_def [abs_def])
qed (use assms in \<open>simp add: prepare_dispatch_def transaction_Inr\<close>)

definition confirm_row :: "operation_status \<Rightarrow> string \<Rightarrow> int \<Rightarrow> operation \<Rightarrow> operation" where
  "confirm_row st digest n p =
     p\<lparr>op_status := st, op_result := Some digest, op_terminal_ns := Some n\<rparr>"

definition confirm_device :: "int \<Rightarrow> int \<Rightarrow> device \<Rightarrow> device" where
  "confirm_device deadline n =
     with_status (if n < deadline then Owned else Expired)
       (if n < deadline then None else Some ''parent-expired'') n"

definition receipt_row :: "string \<Rightarrow> string \<Rightarrow> string \<Rightarrow> int \<Rightarrow> string \<Rightarrow> receipt_status \<Rightarrow> string \<Rightarrow> int \<Rightarrow>
    bool \<Rightarrow> receipt" where
  "receipt_row rid rfp oid gen pr st digest n current =
     \<lparr>rcp_id = rid, rcp_fingerprint = rfp, rcp_operation = oid, rcp_generation = gen,
      rcp_provider = pr, rcp_status = st, rcp_result = digest, rcp_observed_ns = n,
      rcp_binding = (if current then Current else Late)\<rparr>"

lemma acknowledge_cases:
  assumes "acknowledge_result rid rfp oid gen h pr st digest n s = Inr (v, s')"
  obtains (known) r where "find_receipt s rid = Some r" "rcp_fingerprint r = rfp" "v = Some r" "s' = s"
  | (noted) p where "find_receipt s rid = None" "find_operation s oid = Some p"
      "length (filter (\<lambda>r. rcp_operation r = oid) (receipts s)) < MAX_RECEIPTS_PER_OPERATION" "0 \<le> n"
      "receipt_unique (receipts s) (receipt_row rid rfp oid gen pr st digest n
         (receipt_is_current p (find_device s (op_device p)) gen h pr))"
      "\<not> receipt_is_current p (find_device s (op_device p)) gen h pr \<or> confirmed_status st = None"
      "s' = s\<lparr>receipts := receipts s @ [receipt_row rid rfp oid gen pr st digest n
         (receipt_is_current p (find_device s (op_device p)) gen h pr)]\<rparr>" "v = find_receipt s' rid"
  | (confirmed) p d st' where "find_receipt s rid = None" "find_operation s oid = Some p"
      "find_device s (op_device p) = Some d" "receipt_is_current p (Some d) gen h pr"
      "confirmed_status st = Some st'" "0 \<le> n"
      "length (filter (\<lambda>r. rcp_operation r = oid) (receipts s)) < MAX_RECEIPTS_PER_OPERATION"
      "receipt_unique (receipts s) (receipt_row rid rfp oid gen pr st digest n True)"
      "device_checks (confirm_device (dev_deadline_ns d) n d)"
      "s' = put_device (op_device p) (\<lambda>_. True) (confirm_device (dev_deadline_ns d) n)
         (s\<lparr>receipts := receipts s @ [receipt_row rid rfp oid gen pr st digest n True],
            operations := tbl_update (\<lambda>p. op_id p = oid) (confirm_row st' digest n) (operations s)\<rparr>)"
      "v = find_receipt s' rid"
proof (cases "find_receipt s rid")
  case None
  from assms None obtain p where p: "find_operation s oid = Some p"
    by (cases "find_operation s oid") (auto simp: acknowledge_result_def transaction_Inr)
  let ?c = "receipt_is_current p (find_device s (op_device p)) gen h pr"
  show thesis
  proof (cases "?c \<and> confirmed_status st \<noteq> None")
    case False
    with assms None p show thesis
      by (intro noted [OF None p])
        (auto simp: acknowledge_result_def store_iff Let_def receipt_row_def split: option.splits)
  next
    case True
    then obtain d st' where d: "find_device s (op_device p) = Some d" and st: "confirmed_status st = Some st'"
      by (auto simp: receipt_is_current_def split: option.splits)
    note dd = find_device_Some [OF d]
    from assms None p d dd True st show thesis
      by (intro confirmed [OF None p d _ st])
        (auto simp: acknowledge_result_def store_iff Let_def receipt_row_def confirm_device_def
          confirm_row_def [abs_def])
  qed
next
  case (Some r)
  with assms show thesis by (intro known [OF Some]) (auto simp: acknowledge_result_def store_iff)
qed

lemma finish_cases:
  assumes "finish_reconciliation_cleanup rid rfp f gen h hp n s = Inr (v, s')"
  obtains d r where "find_device s f = Some d" "find_reconciliation s rid = Some r"
    "rec_device r = f" "rec_prior_generation r + 1 = gen" "dev_generation d = gen"
    "dev_host d = h" "dev_helper d = hp" "dev_status d = Quarantined"
    "dev_reason d = Some ''recovery-cleanup-pending''" "device_checks (with_status Released None n d)"
    "s' = put_device f (\<lambda>_. True) (with_status Released None n) s"
proof (cases "find_device s f")
  case (Some d)
  note d = find_device_Some [OF Some]
  from assms Some obtain r where r: "find_reconciliation s rid = Some r"
    by (cases "find_reconciliation s rid") (auto simp: finish_reconciliation_cleanup_def transaction_Inr)
  from assms Some r d show thesis
    by (intro that [OF Some r]) (auto simp: finish_reconciliation_cleanup_def store_iff)
qed (use assms in \<open>auto simp: finish_reconciliation_cleanup_def transaction_Inr split: option.splits\<close>)

definition reject_row :: "string \<Rightarrow> int \<Rightarrow> operation \<Rightarrow> operation" where
  "reject_row digest n p =
     p\<lparr>op_status := Rejected, op_result := Some digest, op_terminal_ns := Some n\<rparr>"

lemma release_cases:
  assumes "release_device sha f gen h n s = Inr (v, s')"
  obtains (released) d where "find_device s f = Some d" "dev_generation d = gen" "dev_host d = h"
      "dev_status d \<noteq> Quarantined" "device_checks (with_status Released None n d)"
      "s' = put_device f (\<lambda>_. True) (with_status Released None n)
         (s\<lparr>operations := tbl_update
            (\<lambda>p. op_device p = f \<and> op_generation p = gen \<and> op_status p = Queued)
            (reject_row (RELEASED_RESULT_DIGEST sha) n) (operations s)\<rparr>)"
  | (unchanged) "s' = s"
proof (cases "\<exists>d. find_device s f = Some d \<and> dev_generation d = gen \<and> dev_host d = h \<and>
    dev_status d \<noteq> Quarantined")
  case True
  then obtain d where d: "find_device s f = Some d" "dev_generation d = gen" "dev_host d = h"
    "dev_status d \<noteq> Quarantined" by blast
  note dd = find_device_Some [OF d(1)]
  from assms d dd show thesis
    by (intro released [OF d(1)]) (auto simp: release_device_def store_iff reject_row_def [abs_def])
next
  case False
  with assms show thesis
    by (intro unchanged) (auto simp: release_device_def transaction_Inr split: option.splits if_splits)
qed

lemma adoption_cases:
  assumes "record_legacy_adoption cd i a sem s = Inr (v, s')"
  obtains (known) "s' = s"
  | (adopted) row where "tbl_lookup adp_id i (adoptions s) = None" "adp_id row = i"
      "length (adoptions s) < MAX_LEGACY_ADOPTIONS" "s' = s\<lparr>adoptions := adoptions s @ [row]\<rparr>"
proof (cases "tbl_lookup adp_id i (adoptions s)")
  case None
  with assms show thesis
    by (intro adopted [OF None]) (auto simp: record_legacy_adoption_def store_iff Let_def)
next
  case (Some r)
  with assms show thesis by (intro known) (auto simp: record_legacy_adoption_def store_iff Let_def)
qed

subsection \<open>Reconciliation\<close>

text \<open>The loop over the dispositions, as one pass over the operations.\<close>

fun final_status :: "operation_status \<Rightarrow> disposition_status \<Rightarrow> operation_status" where
  "final_status Queued d = Rejected"
| "final_status st D_Succeeded = Succeeded"
| "final_status st D_Recovered = Recovered"
| "final_status st d = Rejected"

definition fits :: "operation_status \<Rightarrow> disposition_status \<Rightarrow> bool" where
  "fits st d \<longleftrightarrow> (st = Queued \<longleftrightarrow> d = D_Not_Dispatched)"

definition disposed :: "(string \<times> disposition) list \<Rightarrow> int \<Rightarrow> operation \<Rightarrow> operation" where
  "disposed ds n p = (case map_of ds (op_id p) of None \<Rightarrow> p
     | Some d \<Rightarrow> dispose (final_status (op_status p) (dsp_status d)) d n p)"

lemma disposed_status_Inr: "disposed_status st d = Inr st' \<longleftrightarrow> fits st d \<and> st' = final_status st d"
  by (cases st; cases d) (auto simp: disposed_status_def fits_def require_store_def)

lemma dispose_simps [simp]:
  "operation_request.truncate (dispose st d n p) = operation_request.truncate p"
  "op_id (dispose st d n p) = op_id p" "op_status (dispose st d n p) = st"
  "op_provider (dispose st d n p) = op_provider p" "op_terminal_ns (dispose st d n p) = Some n"
  by (simp_all add: dispose_def operation_request.defs)

lemma dispose_all_map:
  assumes "dispose_all pending n ds ops = Inr ops'" and "distinct (map fst ds)"
    and "\<forall>p \<in> set ops. op_id p \<in> fst ` set ds \<longrightarrow>
      map_option op_status (tbl_lookup op_id (op_id p) pending) = Some (op_status p)"
  shows "ops' = map (disposed ds n) ops"
  using assms
proof (induction ds arbitrary: ops)
  case Nil
  then show ?case by (simp add: disposed_def)
next
  case (Cons x ds)
  obtain i d where x: "x = (i, d)" by (cases x)
  from Cons.prems(1) obtain q where q: "tbl_lookup op_id i pending = Some q" "fits (op_status q) (dsp_status d)"
    and rest: "dispose_all pending n ds (tbl_update (\<lambda>p. op_id p = i)
      (dispose (final_status (op_status q) (dsp_status d)) d n) ops) = Inr ops'"
    by (auto simp: x bind_result_Inr_iff disposed_status_Inr split: option.splits)
  let ?u = "tbl_update (\<lambda>p. op_id p = i) (dispose (final_status (op_status q) (dsp_status d)) d n) ops"
  from Cons.prems(2) have i: "i \<notin> fst ` set ds" "\<And>e. (i, e) \<notin> set ds" by (force simp: x)+
  have "ops' = map (disposed ds n) ?u"
    by (rule Cons.IH [OF rest]) (use Cons.prems(2,3) i in \<open>auto simp: x tbl_update_def\<close>)
  also have "\<dots> = map (disposed (x # ds) n) ops"
    using Cons.prems(3) q(1) i
    by (auto simp: x disposed_def tbl_update_def map_of_eq_None_iff split: option.splits dest: map_of_SomeD)
  finally show ?case .
qed

lemma dispose_all_fits:
  assumes "dispose_all pending n ds ops = Inr ops'" and "(i, d) \<in> set ds"
    and "tbl_lookup op_id i pending = Some q"
  shows "fits (op_status q) (dsp_status d)"
  using assms
  by (induction ds arbitrary: ops)
    (auto simp: bind_result_Inr_iff disposed_status_Inr split: option.splits)

lemma lookup_filter:
  "distinct_keys key rows \<Longrightarrow>
     tbl_lookup key k (filter p rows) =
       (case tbl_lookup key k rows of None \<Rightarrow> None | Some r \<Rightarrow> if p r then Some r else None)"
proof (induction rows)
  case (Cons r rows)
  then have "tbl_lookup key (key r) rows = None" by (simp add: distinct_keys_def tbl_lookup_None_iff)
  with Cons show ?case by (auto simp: distinct_keys_def split: option.splits)
qed simp

lemma reconcile_cases:
  assumes run: "reconcile_device rq ds h hp g n c s = Inr (v, s')"
    and keys: "distinct_keys op_id (operations s)"
  obtains d b st where "find_device s (rq_device rq) = Some d" "c = PBool b"
    "st = (if b then Quarantined else Owned)"
    "dev_reason d \<noteq> Some ''recovery-cleanup-pending''" "dev_status d = Quarantined"
    "dev_generation d = rq_prior_generation rq" "dev_host d = rq_prior_host rq"
    "dev_helper d = rq_prior_helper rq" "gv_grant g \<noteq> dev_grant d" "n < gv_deadline_ns g" "0 \<le> n"
    "op_id ` set (unfinished_of s d) = fst ` set ds" "distinct (map fst ds)"
    "\<And>p e. p \<in> set (unfinished_of s d) \<Longrightarrow> (op_id p, e) \<in> set ds \<Longrightarrow> fits (op_status p) (dsp_status e)"
    "length (filter (\<lambda>r. rec_device r = rq_device rq) (reconciliations s)) < MAX_RECONCILIATIONS_PER_DEVICE"
    "reconciliation_unique (reconciliations s) (reconciliation_row rq d hp n)"
    "distinct (map fst (dispositions s @ map (\<lambda>(i, e). ((rq_id rq, i), e)) ds))"
    "device_checks (take_over (dev_generation d + 1) st
       (if b then Some ''recovery-cleanup-pending'' else None) h hp g n d)"
    "s' = put_device (rq_device rq) (\<lambda>_. True)
       (take_over (dev_generation d + 1) st (if b then Some ''recovery-cleanup-pending'' else None) h hp g n)
       (s\<lparr>operations := map (disposed ds n) (operations s),
          reconciliations := reconciliations s @ [reconciliation_row rq d hp n],
          dispositions := dispositions s @ map (\<lambda>(i, e). ((rq_id rq, i), e)) ds\<rparr>)"
    "v = find_device s' (rq_device rq)"
proof -
  obtain d where d: "find_device s (rq_device rq) = Some d"
    using run by (cases "find_device s (rq_device rq)") (auto simp: reconcile_device_def transaction_Inr)
  note dd = find_device_Some [OF d]
  obtain b where c: "c = PBool b"
    using run d by (cases c) (auto simp: reconcile_device_def transaction_Inr)
  obtain ops where loop: "dispose_all (unfinished_of s d) n ds (operations s) = Inr ops"
    and cover: "op_id ` set (unfinished_of s d) = fst ` set ds"
    and ids: "distinct (map fst (dispositions s @ map (\<lambda>(i, e). ((rq_id rq, i), e)) ds))"
    using run d c by (auto simp: reconcile_device_def store_iff Let_def add_dispositions_def)
  have fst: "map fst (map (\<lambda>(i, e). ((rq_id rq, i), e)) ds) = map (Pair (rq_id rq)) (map fst ds)"
    by (auto simp: comp_def case_prod_unfold)
  from ids have "distinct (map (Pair (rq_id rq)) (map fst ds))"
    unfolding map_append fst distinct_append by blast
  then have dist: "distinct (map fst ds)" by (simp only: distinct_map)
  have member: "tbl_lookup op_id (op_id p) (unfinished_of s d) = Some p" if "p \<in> set (unfinished_of s d)" for p
    using that keys tbl_lookup_unique [OF keys, of p] by (auto simp: unfinished_of_def lookup_filter)
  have "op_id p \<in> fst ` set ds \<longrightarrow>
      map_option op_status (tbl_lookup op_id (op_id p) (unfinished_of s d)) = Some (op_status p)"
    if p: "p \<in> set (operations s)" for p
  proof
    assume "op_id p \<in> fst ` set ds"
    with cover obtain q where q: "q \<in> set (unfinished_of s d)" "op_id q = op_id p" by (auto simp flip: cover)
    moreover from q(1) have "q \<in> set (operations s)" by (simp add: unfinished_of_def)
    ultimately have "q = p"
      using p keys tbl_lookup_unique [OF keys] by (metis option.inject)
    with member q show "map_option op_status (tbl_lookup op_id (op_id p) (unfinished_of s d)) = Some (op_status p)"
      by simp
  qed
  then have ops: "ops = map (disposed ds n) (operations s)"
    by (intro dispose_all_map [OF loop dist]) blast
  have fits: "fits (op_status p) (dsp_status e)" if "p \<in> set (unfinished_of s d)" "(op_id p, e) \<in> set ds" for p e
    using dispose_all_fits [OF loop that(2) member [OF that(1)]] .
  show thesis
    by (rule that [OF d c refl]) (use run d dd c loop ops fits ids dist in
      \<open>auto simp: reconcile_device_def store_iff Let_def add_dispositions_def\<close>)
qed

section \<open>How rows change\<close>

fun operation_rank :: "operation_status \<Rightarrow> nat" where
  "operation_rank Queued = 0"
| "operation_rank Uncertain = 1"
| "operation_rank _ = 2"

text \<open>
  The bound fields of an operation never change; it is dispatched at most once, under one provider
  incarnation; a terminal operation never changes, and only a queued one expires.
\<close>

definition operation_leads :: "operation \<Rightarrow> operation \<Rightarrow> bool" where
  "operation_leads p p' \<longleftrightarrow>
     operation_request.truncate p' = operation_request.truncate p \<and>
     (p' = p \<or> operation_rank (op_status p) < operation_rank (op_status p')) \<and>
     (op_status p = Uncertain \<longrightarrow> op_provider p' = op_provider p \<and> op_status p' \<noteq> Op_Expired)"

text \<open>
  Nobody may act on a fenced device under its present generation: it is released, or it is
  quarantined for another reason than an effect whose receipt is awaited.
\<close>

definition fenced :: "device \<Rightarrow> bool" where
  "fenced d \<longleftrightarrow> dev_status d = Released \<or>
     dev_status d = Quarantined \<and> dev_reason d \<noteq> Some ''provider-outcome-unconfirmed''"

definition device_leads :: "device \<Rightarrow> device \<Rightarrow> bool" where
  "device_leads d d' \<longleftrightarrow>
     dev_fingerprint d' = dev_fingerprint d \<and> dev_kind d' = dev_kind d \<and>
     dev_generation d \<le> dev_generation d' \<and>
     (dev_generation d' = dev_generation d \<longrightarrow>
        dev_host d' = dev_host d \<and> dev_helper d' = dev_helper d \<and> dev_grant d' = dev_grant d \<and>
        dev_project d' = dev_project d \<and> dev_controller d' = dev_controller d \<and>
        dev_renewal_sequence d \<le> dev_renewal_sequence d' \<and> (fenced d \<longrightarrow> fenced d'))"

lemma truncate_op_eq:
  "operation_request.truncate p' = operation_request.truncate (p::operation) \<longleftrightarrow>
     op_id p' = op_id p \<and> op_fingerprint p' = op_fingerprint p \<and> op_device p' = op_device p \<and>
     op_protocol p' = op_protocol p \<and> op_generation p' = op_generation p \<and>
     op_project p' = op_project p \<and> op_session p' = op_session p \<and>
     op_controller p' = op_controller p \<and> op_sequence p' = op_sequence p \<and>
     op_payload_digest p' = op_payload_digest p \<and> op_host p' = op_host p \<and>
     op_helper p' = op_helper p \<and> op_deadline_ns p' = op_deadline_ns p \<and>
     op_admitted_ns p' = op_admitted_ns p"
  by (auto simp: operation_request.defs)

interpretation ops: growing_table op_id operation_leads
proof unfold_locales
  fix p p' :: operation
  assume "operation_leads p p'"
  then show "op_id p' = op_id p" by (auto simp: operation_leads_def truncate_op_eq)
next
  fix p :: operation
  show "operation_leads p p" 
    by (cases "op_status p") (auto simp: operation_leads_def)
next
  fix p p' p'' :: operation
  assume 1: "operation_leads p p'" and 2: "operation_leads p' p''"
  then show "operation_leads p p''"
    by (cases "op_status p"; cases "op_status p'"; cases "op_status p''") (auto simp: operation_leads_def)
qed

interpretation devs: growing_table dev_fingerprint device_leads
  by unfold_locales (auto simp: device_leads_def)

interpretation rcps: growing_table rcp_id "(=)"
  by unfold_locales auto

interpretation recs: growing_table rec_id "(=)"
  by unfold_locales auto

interpretation dsps: growing_table fst "(=)"
  by unfold_locales auto

interpretation adps: growing_table adp_id "(=)"
  by unfold_locales auto

definition store_leads :: "store \<Rightarrow> store \<Rightarrow> bool" where
  "store_leads s s' \<longleftrightarrow>
     grows device_leads (devices s) (devices s') \<and>
     grows operation_leads (operations s) (operations s') \<and>
     grows (=) (receipts s) (receipts s') \<and>
     grows (=) (reconciliations s) (reconciliations s') \<and>
     grows (=) (dispositions s) (dispositions s') \<and>
     grows (=) (adoptions s) (adoptions s') \<and>
     (\<forall>k. watermark s k \<le> watermark s' k) \<and> (store_closed s \<longrightarrow> store_closed s')"

lemma store_leads_refl [simp]: "store_leads s s"
  by (auto simp: store_leads_def)

lemma store_leads_trans: "store_leads s s' \<Longrightarrow> store_leads s' s'' \<Longrightarrow> store_leads s s''"
  unfolding store_leads_def
  by (blast intro: devs.grows_trans ops.grows_trans rcps.grows_trans recs.grows_trans
      dsps.grows_trans adps.grows_trans order_trans)

section \<open>The invariant\<close>

text \<open>The shape of a row in each status.\<close>

definition device_ok :: "device \<Rightarrow> bool" where
  "device_ok d \<longleftrightarrow> device_checks d \<and>
     (case dev_status d of
        Owned \<Rightarrow> dev_reason d = None
      | Released \<Rightarrow> dev_reason d = None
      | Expired \<Rightarrow> dev_reason d = Some ''parent-expired''
      | Quarantined \<Rightarrow> dev_reason d \<in> Some ` {''provider-outcome-unconfirmed'', ''clock-incompatible'',
          ''host-session-revoked'', ''host-recovery-started'', ''recovery-cleanup-pending'',
          ''parent-expired'', ''restart-ownership-unresolved''})"

definition operation_ok :: "operation \<Rightarrow> bool" where
  "operation_ok p \<longleftrightarrow> operation_checks p \<and>
     (case op_status p of
        Queued \<Rightarrow> op_provider p = None \<and> op_result p = None \<and> op_terminal_ns p = None
      | Uncertain \<Rightarrow> op_provider p \<noteq> None \<and> op_result p = None \<and> op_terminal_ns p = None
      | Succeeded \<Rightarrow> op_provider p \<noteq> None \<and> op_result p \<noteq> None \<and> op_terminal_ns p \<noteq> None
      | Rejected \<Rightarrow> op_result p \<noteq> None \<and> op_terminal_ns p \<noteq> None
      | Op_Expired \<Rightarrow> op_provider p = None \<and> op_result p = None \<and> op_terminal_ns p \<noteq> None
      | Recovered \<Rightarrow> op_provider p \<noteq> None \<and> op_result p = None \<and> op_terminal_ns p \<noteq> None)"

text \<open>An operation and its device.\<close>

definition linked :: "device \<Rightarrow> operation \<Rightarrow> bool" where
  "linked d p \<longleftrightarrow> op_generation p \<le> dev_generation d \<and>
     (unfinished p \<longrightarrow> op_generation p = dev_generation d \<and> dev_status d \<noteq> Released) \<and>
     (op_status p = Uncertain \<longrightarrow> dev_status d = Quarantined) \<and>
     (dev_reason d = Some ''recovery-cleanup-pending'' \<longrightarrow> op_generation p < dev_generation d)"

definition own_inv :: "store \<Rightarrow> bool" where
  "own_inv s \<longleftrightarrow>
     distinct_keys dev_fingerprint (devices s) \<and> distinct_keys op_id (operations s) \<and>
     (\<forall>d \<in> set (devices s). device_ok d) \<and> (\<forall>p \<in> set (operations s). operation_ok p) \<and>
     (\<forall>p \<in> set (operations s). \<exists>d \<in> set (devices s). dev_fingerprint d = op_device p \<and> linked d p) \<and>
     (\<forall>p \<in> set (operations s). \<forall>q \<in> set (operations s).
        op_status p = Uncertain \<and> op_status q = Uncertain \<and> op_device p = op_device q \<longrightarrow> p = q)"

lemma own_inv_new [simp]: "own_inv new_store"
  by (simp add: own_inv_def new_store_def distinct_keys_def)

lemma own_inv_device: "own_inv s \<Longrightarrow> find_device s f = Some d \<Longrightarrow> device_ok d"
  by (auto simp: own_inv_def dest: find_device_Some)

lemma own_inv_operation: "own_inv s \<Longrightarrow> find_operation s i = Some p \<Longrightarrow> operation_ok p"
  by (auto simp: own_inv_def dest: find_operation_Some)

lemma own_inv_linked:
  assumes "own_inv s" and "p \<in> set (operations s)" and "find_device s (op_device p) = Some d"
  shows "linked d p"
proof -
  obtain d' where d': "d' \<in> set (devices s)" "dev_fingerprint d' = op_device p" "linked d' p"
    using assms(1,2) by (auto simp: own_inv_def)
  with assms(1) have "find_device s (op_device p) = Some d'"
    unfolding find_device_def by (metis own_inv_def tbl_lookup_unique)
  with assms(3) d' show ?thesis by simp
qed

lemma own_inv_find:
  assumes "own_inv s" and "p \<in> set (operations s)"
  shows "find_operation s (op_id p) = Some p"
  using assms unfolding own_inv_def find_operation_def by (blast intro: tbl_lookup_unique)

text \<open>An update of one device, with a change of its operations.\<close>

lemma own_inv_put:
  assumes inv: "own_inv s" and d: "find_device s f = Some d"
    and devs: "devices s' = tbl_update (\<lambda>d. dev_fingerprint d = f \<and> q d) g (devices s)"
    and ops: "operations s' = map G (operations s)"
    and F: "q d \<Longrightarrow> dev_fingerprint (g d) = f \<and> device_ok (g d)"
    and G: "\<And>p. p \<in> set (operations s) \<Longrightarrow>
      operation_request.truncate (G p) = operation_request.truncate p \<and> operation_ok (G p)"
    and other: "\<And>p. p \<in> set (operations s) \<Longrightarrow> op_device p \<noteq> f \<Longrightarrow> G p = p"
    and L: "\<And>p. p \<in> set (operations s) \<Longrightarrow> op_device p = f \<Longrightarrow> linked d p \<Longrightarrow>
      linked (if q d then g d else d) (G p)"
    and U: "\<And>p p'. p \<in> set (operations s) \<Longrightarrow> p' \<in> set (operations s) \<Longrightarrow> op_device p = f \<Longrightarrow>
      op_device p' = f \<Longrightarrow> op_status (G p) = Uncertain \<Longrightarrow> op_status (G p') = Uncertain \<Longrightarrow> p = p'"
  shows "own_inv s'"
proof -
  let ?F = "\<lambda>e. if dev_fingerprint e = f \<and> q e then g e else e"
  have the_d: "e = d" if "e \<in> set (devices s)" "dev_fingerprint e = f" for e
    using that inv d tbl_lookup_unique [of dev_fingerprint "devices s" e]
    by (auto simp: own_inv_def find_device_def)
  have keep: "dev_fingerprint (?F e) = dev_fingerprint e" if "e \<in> set (devices s)" for e
    using that the_d F by (metis (full_types))
  then have keys: "map dev_fingerprint (devices s') = map dev_fingerprint (devices s)"
    by (simp add: devs tbl_update_def)
  have ids: "map op_id (operations s') = map op_id (operations s)"
    using G by (simp add: ops truncate_op_eq)
  have dev_rows: "\<forall>e \<in> set (devices s'). device_ok e"
    using inv F the_d by (auto simp: devs set_tbl_update own_inv_def)
  have op_rows: "\<forall>p \<in> set (operations s'). operation_ok p" using G by (auto simp: ops)
  have links: "\<exists>e \<in> set (devices s'). dev_fingerprint e = op_device (G p) \<and> linked e (G p)"
    if p: "p \<in> set (operations s)" for p
  proof -
    obtain e where e: "e \<in> set (devices s)" "dev_fingerprint e = op_device p" "linked e p"
      using inv p by (auto simp: own_inv_def)
    have "op_device (G p) = op_device p" using G [OF p] by (simp add: truncate_op_eq)
    moreover have "linked (?F e) (G p)"
      using e p the_d [of e] L [OF p] other [OF p] by (cases "op_device p = f") auto
    moreover have "?F e \<in> set (devices s')" using e(1) by (simp only: devs set_tbl_update image_eqI)
    ultimately show ?thesis using e(2) keep [OF e(1)] by (intro bexI [of _ "?F e"]) simp_all
  qed
  have one: "p = p'" if "p \<in> set (operations s)" "p' \<in> set (operations s)"
    "op_status (G p) = Uncertain" "op_status (G p') = Uncertain" "op_device (G p) = op_device (G p')" for p p'
  proof -
    have eq: "op_device p = op_device p'" using that(1,2,5) G by (simp add: truncate_op_eq)
    show ?thesis
    proof (cases "op_device p = f")
      case True
      with eq that show ?thesis by (intro U) auto
    next
      case False
      with eq that other [of p] other [of p'] inv show ?thesis by (auto simp: own_inv_def)
    qed
  qed
  have "distinct_keys dev_fingerprint (devices s') \<and> distinct_keys op_id (operations s')"
    using inv keys ids by (simp only: own_inv_def distinct_keys_def)
  moreover have "\<forall>p \<in> set (operations s'). \<exists>e \<in> set (devices s'). dev_fingerprint e = op_device p \<and> linked e p"
    unfolding ops set_map ball_simps using links by blast
  moreover have "\<forall>p \<in> set (operations s'). \<forall>q \<in> set (operations s').
      op_status p = Uncertain \<and> op_status q = Uncertain \<and> op_device p = op_device q \<longrightarrow> p = q"
    unfolding ops set_map ball_simps using one by blast
  ultimately show ?thesis using dev_rows op_rows unfolding own_inv_def by blast
qed

lemma map_tbl_update: "tbl_update p g xs = map (\<lambda>x. if p x then g x else x) xs"
  by (simp add: tbl_update_def)

lemma own_inv_put_only:
  assumes "own_inv s" and "find_device s f = Some d"
    and "q d \<Longrightarrow> dev_fingerprint (g d) = f \<and> device_ok (g d)"
    and "\<And>p. p \<in> set (operations s) \<Longrightarrow> op_device p = f \<Longrightarrow> linked d p \<Longrightarrow> q d \<Longrightarrow> linked (g d) p"
  shows "own_inv (put_device f q g s)"
proof (rule own_inv_put [OF assms(1,2), where G = "\<lambda>p. p"])
  fix p assume p: "p \<in> set (operations s)"
  with assms(1) show "operation_request.truncate p = operation_request.truncate p \<and> operation_ok p"
    by (auto simp: own_inv_def)
  assume "op_device p = f" "linked d p"
  with assms(4) p show "linked (if q d then g d else d) p" by auto
next
  fix p p' assume "p \<in> set (operations s)" "p' \<in> set (operations s)" "op_device p = f" "op_device p' = f"
    "op_status p = Uncertain" "op_status p' = Uncertain"
  with assms(1) show "p = p'" by (auto simp: own_inv_def)
qed (use assms(3) in auto)

section \<open>Every operation keeps the invariant\<close>

lemma device_ok_simps [simp]:
  "dev_fingerprint (with_status st r n d) = dev_fingerprint d"
  "dev_status (with_status st r n d) = st" "dev_reason (with_status st r n d) = r"
  "dev_generation (with_status st r n d) = dev_generation d" "dev_kind (with_status st r n d) = dev_kind d"
  "dev_host (with_status st r n d) = dev_host d" "dev_helper (with_status st r n d) = dev_helper d"
  "dev_grant (with_status st r n d) = dev_grant d" "dev_project (with_status st r n d) = dev_project d"
  "dev_controller (with_status st r n d) = dev_controller d"
  "dev_renewal_sequence (with_status st r n d) = dev_renewal_sequence d"
  "dev_deadline_ns (with_status st r n d) = dev_deadline_ns d"
  by (simp_all add: with_status_def)

lemma take_over_simps [simp]:
  "dev_fingerprint (take_over gen st r h hp g n d) = dev_fingerprint d"
  "dev_kind (take_over gen st r h hp g n d) = dev_kind d"
  "dev_generation (take_over gen st r h hp g n d) = gen"
  "dev_status (take_over gen st r h hp g n d) = st" "dev_reason (take_over gen st r h hp g n d) = r"
  "dev_host (take_over gen st r h hp g n d) = h" "dev_helper (take_over gen st r h hp g n d) = hp"
  "dev_deadline_ns (take_over gen st r h hp g n d) = gv_deadline_ns g"
  by (simp_all add: take_over_def)

lemma renew_row_simps [simp]:
  "dev_fingerprint (renew_row g n d) = dev_fingerprint d" "dev_kind (renew_row g n d) = dev_kind d"
  "dev_generation (renew_row g n d) = dev_generation d" "dev_status (renew_row g n d) = dev_status d"
  "dev_reason (renew_row g n d) = dev_reason d" "dev_host (renew_row g n d) = dev_host d"
  "dev_helper (renew_row g n d) = dev_helper d" "dev_grant (renew_row g n d) = dev_grant d"
  "dev_project (renew_row g n d) = dev_project d" "dev_controller (renew_row g n d) = dev_controller d"
  "dev_renewal_sequence (renew_row g n d) = gv_renewal_sequence g"
  by (simp_all add: renew_row_def)

lemma fence_row_simps [simp]:
  "dev_fingerprint (fence_row n d) = dev_fingerprint d" "dev_kind (fence_row n d) = dev_kind d"
  "dev_generation (fence_row n d) = dev_generation d" "dev_status (fence_row n d) = dev_status d"
  "dev_reason (fence_row n d) = Some ''host-recovery-started''" "dev_host (fence_row n d) = dev_host d"
  "dev_helper (fence_row n d) = dev_helper d" "dev_grant (fence_row n d) = dev_grant d"
  "dev_project (fence_row n d) = dev_project d" "dev_controller (fence_row n d) = dev_controller d"
  "dev_renewal_sequence (fence_row n d) = dev_renewal_sequence d"
  by (simp_all add: fence_row_def)

lemma own_inv_claim:
  assumes inv: "own_inv s" and run: "claim_device f k h hp g n s = Inr (v, s')"
  shows "own_inv s'"
  using run
proof (cases rule: claim_cases)
  case fresh
  have "device_ok (first_row f k h hp g n)" using fresh(3) by (simp add: device_ok_def first_row_def)
  moreover have "dev_fingerprint (first_row f k h hp g n) = f" by (simp add: first_row_def)
  ultimately show ?thesis
    using inv fresh(1) unfolding own_inv_def fresh(4) find_device_def
    by (simp add: distinct_keys_snoc)
next
  case (again d)
  show ?thesis unfolding again(5)
    by (rule own_inv_put_only [OF inv again(1)])
      (use again own_inv_device [OF inv again(1)] find_device_Some [OF again(1)] in
        \<open>auto simp: device_ok_def linked_def unfinished_def\<close>)
next
  case (held d)
  show ?thesis unfolding held(5)
    by (rule own_inv_put_only [OF inv held(1)])
      (use held own_inv_device [OF inv held(1)] find_device_Some [OF held(1)] in
        \<open>auto simp: device_ok_def linked_def unresolved_reason_def
          split: device_status.splits option.splits\<close>)
qed

lemma own_inv_renew:
  assumes inv: "own_inv s" and run: "renew_device f gen h g n s = Inr (v, s')"
  shows "own_inv s'"
  using run
proof (cases rule: renew_cases)
  case (expired d)
  show ?thesis unfolding expired(4)
    by (rule own_inv_put_only [OF inv expired(1)])
      (use expired own_inv_device [OF inv expired(1)] find_device_Some [OF expired(1)] in
        \<open>auto simp: device_ok_def linked_def expirable_def\<close>)
next
  case (renewed d)
  show ?thesis unfolding renewed(11)
    by (rule own_inv_put_only [OF inv renewed(1)])
      (use renewed own_inv_device [OF inv renewed(1)] find_device_Some [OF renewed(1)] in
        \<open>auto simp: device_ok_def linked_def\<close>)
qed

lemma queued_row_simps [simp]:
  "operation_request.truncate (queued_row r) = r" "op_id (queued_row r) = op_id r"
  "op_fingerprint (queued_row r) = op_fingerprint r" "op_device (queued_row r) = op_device r"
  "op_generation (queued_row r) = op_generation r" "op_controller (queued_row r) = op_controller r"
  "op_sequence (queued_row r) = op_sequence r" "op_status (queued_row r) = Queued"
  "op_provider (queued_row r) = None" "op_result (queued_row r) = None"
  "op_terminal_ns (queued_row r) = None" "op_host (queued_row r) = op_host r"
  by (simp_all add: queued_row_def operation_request.defs operation.defs)

lemma own_inv_admit:
  assumes inv: "own_inv s" and run: "admit_operation r s = Inr (v, s')"
  shows "own_inv s'"
  using run
proof (cases rule: admit_cases)
  case (admitted d)
  note d = find_device_Some [OF admitted(2)]
  have "linked d (queued_row r)"
    using admitted(3,4) own_inv_device [OF inv admitted(2)]
    by (auto simp: linked_def device_ok_def)
  moreover have "operation_ok (queued_row r)" using admitted(10) by (simp add: operation_ok_def)
  ultimately show ?thesis
    using inv d admitted(1) unfolding own_inv_def admitted(12) find_operation_def
    by (auto simp: distinct_keys_snoc)
qed (use inv in simp)

lemma expire_row_simps [simp]:
  "operation_request.truncate (expire_row n p) = operation_request.truncate p"
  "op_generation (expire_row n p) = op_generation p" "op_status (expire_row n p) = Op_Expired"
  by (simp_all add: expire_row_def operation_request.defs)

lemma operation_checks_cong:
  "operation_request.truncate p' = operation_request.truncate p \<Longrightarrow> operation_checks p' = operation_checks p"
  unfolding truncate_op_eq by (simp add: operation_checks_def)

lemma own_inv_expire_queued:
  assumes inv: "own_inv s" and run: "expire_queued_operation f gen h i n s = Inr (v, s')"
  shows "own_inv s'"
  using run
proof (cases rule: expire_queued_cases)
  case (1 d q)
  let ?hit = "\<lambda>p. op_id p = i \<and> op_device p = f \<and> op_generation p = gen \<and> op_host p = h \<and> op_status p = Queued"
  show ?thesis
  proof (rule own_inv_put [OF inv 1(1), where q = q
        and g = "with_status Expired (Some ''parent-expired'') n" and G = "\<lambda>p. if ?hit p then expire_row n p else p"])
    fix p assume p: "p \<in> set (operations s)"
    then have "operation_ok p" using inv by (simp add: own_inv_def)
    then show "operation_request.truncate (if ?hit p then expire_row n p else p) = operation_request.truncate p \<and>
        operation_ok (if ?hit p then expire_row n p else p)"
      by (auto simp: operation_ok_def operation_checks_def expire_row_def operation_request.defs)
    assume "op_device p = f" "linked d p"
    then show "linked (if q d then with_status Expired (Some ''parent-expired'') n d else d)
        (if ?hit p then expire_row n p else p)"
      using 1(3) [of d] by (auto simp: linked_def unfinished_def expirable_def)
  next
    fix p p' assume "p \<in> set (operations s)" "p' \<in> set (operations s)" "op_device p = f" "op_device p' = f"
      "op_status (if ?hit p then expire_row n p else p) = Uncertain"
      "op_status (if ?hit p' then expire_row n p' else p') = Uncertain"
    then show "p = p'" using inv by (auto simp: own_inv_def split: if_splits)
  qed (use 1 find_device_Some [OF 1(1)] own_inv_device [OF inv 1(1)] in
      \<open>auto simp: map_tbl_update device_ok_def\<close>)
qed

lemma quarantine_simps [simp]:
  "dev_fingerprint (quarantine r n d) = dev_fingerprint d" "dev_kind (quarantine r n d) = dev_kind d"
  "dev_generation (quarantine r n d) = dev_generation d"
  "dev_status (quarantine r n d) = Quarantined" "dev_reason (quarantine r n d) = quarantine_reason r d"
  "dev_host (quarantine r n d) = dev_host d" "dev_helper (quarantine r n d) = dev_helper d"
  "dev_grant (quarantine r n d) = dev_grant d" "dev_project (quarantine r n d) = dev_project d"
  "dev_controller (quarantine r n d) = dev_controller d"
  "dev_renewal_sequence (quarantine r n d) = dev_renewal_sequence d"
  by (simp_all add: quarantine_def)

lemma put_device_missing: "find_device s f = None \<Longrightarrow> put_device f q g s = s"
  unfolding put_device_def find_device_def tbl_lookup_None_iff
  by (rule store.equality) (auto simp: tbl_update_def intro!: map_idI)

lemma own_inv_quarantine:
  assumes inv: "own_inv s"
    and checks: "\<forall>d \<in> set (devices s). dev_fingerprint d = f \<and> q d \<longrightarrow> device_checks (quarantine r n d)"
    and r: "r = ''clock-incompatible'' \<or> r = ''host-session-revoked''"
  shows "own_inv (put_device f q (quarantine r n) s)"
proof (cases "find_device s f")
  case None
  with inv show ?thesis by (simp add: put_device_missing)
next
  case (Some d)
  show ?thesis
    by (rule own_inv_put_only [OF inv Some])
      (use checks r find_device_Some [OF Some] in
        \<open>auto simp: device_ok_def linked_def quarantine_reason_def split: if_splits\<close>)
qed

lemma own_inv_quarantine_clock:
  assumes inv: "own_inv s" and run: "quarantine_clock f gen h n s = Inr (v, s')"
  shows "own_inv s'"
  using run by (cases rule: quarantine_clock_cases) (auto intro!: own_inv_quarantine [OF inv])

lemma own_inv_revoke:
  assumes inv: "own_inv s" and run: "revoke_dispatches f gen h n s = Inr (v, s')"
  shows "own_inv s'"
  using run
proof (cases rule: revoke_cases)
  case (revoked d)
  have "e = d" if "e \<in> set (devices s)" "dev_fingerprint e = f" for e
    using that inv revoked(1) tbl_lookup_unique [of dev_fingerprint "devices s" e]
    by (auto simp: own_inv_def find_device_def)
  with revoked(5) show ?thesis unfolding revoked(6) by (intro own_inv_quarantine [OF inv]) auto
qed (use inv in simp)

lemma own_inv_fence:
  assumes inv: "own_inv s" and run: "fence_native_recovery f gen h hp n s = Inr (v, s')"
  shows "own_inv s'"
  using run
proof (cases rule: fence_cases)
  case (fenced d)
  show ?thesis unfolding fenced(5)
    by (rule own_inv_put_only [OF inv fenced(1)])
      (use fenced find_device_Some [OF fenced(1)] in \<open>auto simp: device_ok_def linked_def\<close>)
qed (use inv in simp)

lemma dispatch_row_simps [simp]:
  "operation_request.truncate (dispatch_row pr p) = operation_request.truncate p"
  "op_generation (dispatch_row pr p) = op_generation p" "op_status (dispatch_row pr p) = Uncertain"
  "op_device (dispatch_row pr p) = op_device p" "op_id (dispatch_row pr p) = op_id p"
  "op_provider (dispatch_row pr p) = Some pr"
  by (simp_all add: dispatch_row_def operation_request.defs)

lemma own_inv_prepare:
  assumes inv: "own_inv s" and run: "prepare_dispatch i ofp f gen h pr n s = Inr (v, s')"
  shows "own_inv s'"
  using run
proof (cases rule: prepare_cases)
  case (1 d p)
  note p = find_operation_Some [OF 1(2)]
  have the_p: "r = p" if "r \<in> set (operations s)" "op_id r = i" for r
    using that 1(2) own_inv_find [OF inv that(1)] by simp
  have none: "op_status r \<noteq> Uncertain" if "r \<in> set (operations s)" "op_device r = f" for r
    using own_inv_linked [OF inv that(1)] that(2) 1(1,3) by (auto simp: linked_def)
  show ?thesis
  proof (rule own_inv_put [OF inv 1(1), where q = "\<lambda>_. True" and g = "unconfirmed n"
        and G = "\<lambda>p. if op_id p = i then dispatch_row pr p else p"])
    fix r assume r: "r \<in> set (operations s)"
    then have "operation_ok r" using inv by (simp add: own_inv_def)
    then show "operation_request.truncate (if op_id r = i then dispatch_row pr r else r) =
        operation_request.truncate r \<and> operation_ok (if op_id r = i then dispatch_row pr r else r)"
      using the_p [OF r] 1(10)
      by (auto simp: operation_ok_def operation_checks_def dispatch_row_def operation_request.defs)
    show "op_device r \<noteq> f \<Longrightarrow> (if op_id r = i then dispatch_row pr r else r) = r"
      using the_p [OF r] 1(7) by auto
    assume "op_device r = f" "linked d r"
    then show "linked (if True then unconfirmed n d else d) (if op_id r = i then dispatch_row pr r else r)"
      using the_p [OF r] 1 by (auto simp: linked_def unfinished_def)
  next
    fix r r' assume "r \<in> set (operations s)" "r' \<in> set (operations s)" "op_device r = f" "op_device r' = f"
      "op_status (if op_id r = i then dispatch_row pr r else r) = Uncertain"
      "op_status (if op_id r' = i then dispatch_row pr r' else r') = Uncertain"
    then show "r = r'" using the_p none by (auto split: if_splits)
  qed (use 1 find_device_Some [OF 1(1)] in \<open>auto simp: map_tbl_update device_ok_def\<close>)
qed

lemma confirm_row_simps [simp]:
  "operation_request.truncate (confirm_row st dg n p) = operation_request.truncate p"
  "op_generation (confirm_row st dg n p) = op_generation p" "op_status (confirm_row st dg n p) = st"
  "op_device (confirm_row st dg n p) = op_device p" "op_id (confirm_row st dg n p) = op_id p"
  "op_provider (confirm_row st dg n p) = op_provider p" "op_result (confirm_row st dg n p) = Some dg"
  by (simp_all add: confirm_row_def operation_request.defs)

lemma confirmed_status_terminal: "confirmed_status st = Some st' \<Longrightarrow> st' = Succeeded \<or> st' = Rejected"
  by (cases st) auto

lemma own_inv_acknowledge:
  assumes inv: "own_inv s" and run: "acknowledge_result rid rfp oid gen h pr st dg n s = Inr (v, s')"
  shows "own_inv s'"
  using run
proof (cases rule: acknowledge_cases)
  case (confirmed p d st')
  note p = find_operation_Some [OF confirmed(2)]
  have the_p: "r = p" if "r \<in> set (operations s)" "op_id r = oid" for r
    using that confirmed(2) own_inv_find [OF inv that(1)] by simp
  have cur: "op_status p = Uncertain" "dev_reason d = Some ''provider-outcome-unconfirmed''"
    using confirmed(4) by (simp_all add: receipt_is_current_def)
  note st' = confirmed_status_terminal [OF confirmed(5)]
  have one: "r = p" if "r \<in> set (operations s)" "op_device r = op_device p" "op_status r = Uncertain" for r
    using inv that p cur(1) by (auto simp: own_inv_def)
  show ?thesis
  proof (rule own_inv_put [OF inv confirmed(3), where q = "\<lambda>_. True"
        and g = "confirm_device (dev_deadline_ns d) n"
        and G = "\<lambda>p. if op_id p = oid then confirm_row st' dg n p else p"])
    fix r assume r: "r \<in> set (operations s)"
    then have "operation_ok r" using inv by (simp add: own_inv_def)
    then show "operation_request.truncate (if op_id r = oid then confirm_row st' dg n r else r) =
        operation_request.truncate r \<and> operation_ok (if op_id r = oid then confirm_row st' dg n r else r)"
      using the_p [OF r] cur st'
      by (auto simp: operation_ok_def operation_checks_def confirm_row_def operation_request.defs)
    show "op_device r \<noteq> op_device p \<Longrightarrow> (if op_id r = oid then confirm_row st' dg n r else r) = r"
      using the_p [OF r] by auto
    assume "op_device r = op_device p" "linked d r"
    then show "linked (if True then confirm_device (dev_deadline_ns d) n d else d)
        (if op_id r = oid then confirm_row st' dg n r else r)"
      using the_p [OF r] one [OF r] p st'
      by (auto simp: linked_def unfinished_def confirm_device_def)
  next
    fix r r' assume "r \<in> set (operations s)" "r' \<in> set (operations s)" "op_device r = op_device p"
      "op_device r' = op_device p"
      "op_status (if op_id r = oid then confirm_row st' dg n r else r) = Uncertain"
      "op_status (if op_id r' = oid then confirm_row st' dg n r' else r') = Uncertain"
    then show "r = r'" using one p st' by (auto split: if_splits)
  qed (use confirmed find_device_Some [OF confirmed(3)] in
      \<open>auto simp: map_tbl_update device_ok_def confirm_device_def\<close>)
next
  case (noted p)
  with inv show ?thesis by (simp add: own_inv_def)
qed (use inv in simp)

lemma own_inv_finish:
  assumes inv: "own_inv s" and run: "finish_reconciliation_cleanup rid rfp f gen h hp n s = Inr (v, s')"
  shows "own_inv s'"
  using run
proof (cases rule: finish_cases)
  case (1 d r)
  show ?thesis unfolding 1(11)
    by (rule own_inv_put_only [OF inv 1(1)])
      (use 1 find_device_Some [OF 1(1)] in \<open>auto simp: device_ok_def linked_def unfinished_def\<close>)
qed

lemma reject_row_simps [simp]:
  "operation_request.truncate (reject_row dg n p) = operation_request.truncate p"
  "op_generation (reject_row dg n p) = op_generation p" "op_status (reject_row dg n p) = Rejected"
  by (simp_all add: reject_row_def operation_request.defs)

lemma own_inv_release:
  assumes inv: "own_inv s" and run: "release_device sha f gen h n s = Inr (v, s')"
  shows "own_inv s'"
  using run
proof (cases rule: release_cases)
  case (released d)
  let ?hit = "\<lambda>p. op_device p = f \<and> op_generation p = gen \<and> op_status p = Queued"
  let ?G = "\<lambda>p. if ?hit p then reject_row (RELEASED_RESULT_DIGEST sha) n p else p"
  show ?thesis
  proof (rule own_inv_put [OF inv released(1), where q = "\<lambda>_. True" and g = "with_status Released None n"
        and G = ?G])
    fix p assume p: "p \<in> set (operations s)"
    then have "operation_ok p" using inv by (simp add: own_inv_def)
    then show "operation_request.truncate (?G p) = operation_request.truncate p \<and> operation_ok (?G p)"
      by (auto simp: operation_ok_def operation_checks_def reject_row_def operation_request.defs)
    assume "op_device p = f" "linked d p"
    then show "linked (if True then with_status Released None n d else d) (?G p)"
      using released(2,4) by (auto simp: linked_def unfinished_def)
  next
    fix p p' assume "p \<in> set (operations s)" "p' \<in> set (operations s)" "op_device p = f" "op_device p' = f"
      "op_status (?G p) = Uncertain" "op_status (?G p') = Uncertain"
    then show "p = p'" using inv by (auto simp: own_inv_def split: if_splits)
  qed (use released find_device_Some [OF released(1)] in \<open>auto simp: map_tbl_update device_ok_def\<close>)
qed (use inv in simp)

lemma final_status_terminal: "fits st d \<Longrightarrow> final_status st d \<notin> {Queued, Uncertain, Op_Expired}"
  by (cases st; cases d) (auto simp: fits_def)

lemma unfinished_of_iff:
  "p \<in> set (unfinished_of s d) \<longleftrightarrow> p \<in> set (operations s) \<and> op_device p = dev_fingerprint d \<and>
     op_generation p = dev_generation d \<and> unfinished p"
  by (auto simp: unfinished_of_def)

text \<open>The loop touches exactly the unfinished operations of the device, and finishes each.\<close>

lemma disposed_cases:
  assumes inv: "own_inv s" and cover: "op_id ` set (unfinished_of s d) = fst ` set ds"
    and p: "p \<in> set (operations s)"
  obtains (kept) "p \<notin> set (unfinished_of s d)" "disposed ds n p = p"
  | (settled) e where "p \<in> set (unfinished_of s d)" "(op_id p, e) \<in> set ds"
      "disposed ds n p = dispose (final_status (op_status p) (dsp_status e)) e n p"
proof (cases "map_of ds (op_id p)")
  case None
  then have "op_id p \<notin> fst ` set ds" by (simp add: map_of_eq_None_iff)
  then have "p \<notin> set (unfinished_of s d)" by (auto simp flip: cover)
  with None show thesis by (intro kept) (simp_all add: disposed_def)
next
  case (Some e)
  then have e: "(op_id p, e) \<in> set ds" by (rule map_of_SomeD)
  then have "op_id p \<in> op_id ` set (unfinished_of s d)" unfolding cover by force
  then obtain q where q: "q \<in> set (unfinished_of s d)" "op_id q = op_id p" by auto
  with own_inv_find [OF inv p] own_inv_find [OF inv, of q] have "q = p" by (simp add: unfinished_of_iff)
  with q e Some show thesis by (intro settled) (simp_all add: disposed_def)
qed

lemma own_inv_reconcile:
  assumes inv: "own_inv s" and run: "reconcile_device rq ds h hp g n c s = Inr (v, s')"
  shows "own_inv s'"
proof -
  have keys: "distinct_keys op_id (operations s)" using inv by (simp add: own_inv_def)
  from run keys show ?thesis
  proof (cases rule: reconcile_cases)
    case (1 d b st)
    note d = find_device_Some [OF 1(1)]
    have facts: "operation_request.truncate (disposed ds n p) = operation_request.truncate p \<and>
        operation_ok (disposed ds n p) \<and> (op_device p \<noteq> rq_device rq \<longrightarrow> disposed ds n p = p) \<and>
        (op_device p = rq_device rq \<longrightarrow> \<not> unfinished (disposed ds n p))"
      if p: "p \<in> set (operations s)" for p
    proof -
      have ok: "operation_ok p" using inv p by (simp add: own_inv_def)
      show ?thesis
        using inv 1(12) p
      proof (cases rule: disposed_cases [where n = n])
        case kept
        then show ?thesis
          using ok own_inv_linked [OF inv p, of d] 1(1) d p by (auto simp: linked_def unfinished_of_iff)
      next
        case (settled e)
        note fit = 1(14) [OF settled(1,2)]
        from settled(1) have "op_status p = Queued \<or> op_status p = Uncertain"
          by (simp add: unfinished_of_iff unfinished_def)
        then show ?thesis
          using fit settled(1) ok d unfolding settled(3)
          by (cases "dsp_status e") (auto simp: fits_def operation_ok_def operation_checks_def dispose_def
              operation_request.defs unfinished_of_iff unfinished_def)
      qed
    qed
    show ?thesis
    proof (rule own_inv_put [OF inv 1(1), where q = "\<lambda>_. True" and G = "disposed ds n"
          and g = "take_over (dev_generation d + 1) st
            (if b then Some ''recovery-cleanup-pending'' else None) h hp g n"])
      fix p assume p: "p \<in> set (operations s)"
      from facts [OF p] show "operation_request.truncate (disposed ds n p) = operation_request.truncate p \<and>
        operation_ok (disposed ds n p)" by simp
      from facts [OF p] show "op_device p \<noteq> rq_device rq \<Longrightarrow> disposed ds n p = p" by simp
      assume "op_device p = rq_device rq" "linked d p"
      then show "linked (if True then take_over (dev_generation d + 1) st
            (if b then Some ''recovery-cleanup-pending'' else None) h hp g n d else d) (disposed ds n p)"
        using facts [OF p] by (auto simp: linked_def unfinished_def truncate_op_eq)
    next
      fix p p' assume "p \<in> set (operations s)" "op_device p = rq_device rq" "op_status (disposed ds n p) = Uncertain"
      then show "p = p'" using facts [of p] by (simp add: unfinished_def)
    next
      show "dev_fingerprint (take_over (dev_generation d + 1) st
            (if b then Some ''recovery-cleanup-pending'' else None) h hp g n d) = rq_device rq \<and>
          device_ok (take_over (dev_generation d + 1) st
            (if b then Some ''recovery-cleanup-pending'' else None) h hp g n d)"
        using 1(3,18) d by (auto simp: device_ok_def)
    qed (simp_all add: 1(19))
  qed
qed

lemma drop_value_Inr: "drop_value r = Inr (u, s') \<longleftrightarrow> (\<exists>v. r = Inr (v, s'))"
  by (auto simp: drop_value_def bind_result_Inr_iff)

lemma own_inv_step: "own_inv s \<Longrightarrow> store_step sha cd s x = Inr (u, s') \<Longrightarrow> own_inv s'"
proof (cases x)
  case (Record_Legacy_Adoption i a sem)
  assume "own_inv s" "store_step sha cd s x = Inr (u, s')"
  with Record_Legacy_Adoption show ?thesis
    by (auto simp: drop_value_Inr own_inv_def elim!: adoption_cases)
qed (auto simp: drop_value_Inr close_store_def own_inv_def [of "s\<lparr>store_closed := True\<rparr>"]
    intro: own_inv_claim own_inv_renew own_inv_admit own_inv_expire_queued own_inv_quarantine_clock
      own_inv_revoke own_inv_fence own_inv_prepare own_inv_acknowledge own_inv_reconcile own_inv_finish
      own_inv_release, simp_all add: own_inv_def)

interpretation owned: guarded_ops "store_step sha cd" own_inv
  by unfold_locales (rule own_inv_step)

section \<open>Every operation changes rows as it should\<close>

lemma own_inv_the_device:
  "own_inv s \<Longrightarrow> find_device s f = Some d \<Longrightarrow> e \<in> set (devices s) \<Longrightarrow> dev_fingerprint e = f \<Longrightarrow> e = d"
  using tbl_lookup_unique [of dev_fingerprint "devices s" e] by (auto simp: own_inv_def find_device_def)

lemma grows_put:
  assumes "own_inv s" and "find_device s f = Some d" and "q d \<Longrightarrow> device_leads d (g d)"
  shows "grows device_leads (devices s) (tbl_update (\<lambda>d. dev_fingerprint d = f \<and> q d) g (devices s))"
  using assms own_inv_the_device [OF assms(1,2)] by (intro devs.grows_update) auto

lemma grows_one_operation:
  assumes "own_inv s" and "find_operation s i = Some p" and "operation_leads p (g p)"
  shows "grows operation_leads (operations s) (tbl_update (\<lambda>p. op_id p = i) g (operations s))"
  using assms own_inv_find [OF assms(1)] by (intro ops.grows_update) auto

lemmas leads_intros = devs.grows_refl ops.grows_refl rcps.grows_refl recs.grows_refl dsps.grows_refl
  adps.grows_refl devs.grows_snoc ops.grows_snoc rcps.grows_snoc recs.grows_snoc dsps.grows_snoc
  adps.grows_snoc

lemma store_leads_put:
  assumes "own_inv s" and "find_device s f = Some d" and "q d \<Longrightarrow> device_leads d (g d)"
    and "devices s' = devices s" and "grows operation_leads (operations s) (operations s')"
    and "grows (=) (receipts s) (receipts s')" and "grows (=) (reconciliations s) (reconciliations s')"
    and "grows (=) (dispositions s) (dispositions s')" and "adoptions s' = adoptions s"
    and "watermarks s' = watermarks s" and "store_closed s' = store_closed s"
  shows "store_leads s (put_device f q g s')"
  using assms grows_put [where q = q and g = g, OF assms(1-3)] by (auto simp: store_leads_def watermark_def intro: leads_intros)

lemma leads_claim:
  assumes inv: "own_inv s" and run: "claim_device f k h hp g n s = Inr (v, s')"
  shows "store_leads s s'"
  using run
proof (cases rule: claim_cases)
  case (again d)
  show ?thesis unfolding again(5)
    by (rule store_leads_put [OF inv again(1)]) (auto simp: device_leads_def intro: leads_intros)
next
  case (held d)
  show ?thesis unfolding held(5)
    by (rule store_leads_put [OF inv held(1)])
      (use held(2) own_inv_device [OF inv held(1)] in
        \<open>auto simp: device_leads_def fenced_def device_ok_def unresolved_reason_def intro: leads_intros
          split: option.splits\<close>)
qed (auto simp: store_leads_def watermark_def intro: leads_intros)

lemma leads_renew:
  assumes inv: "own_inv s" and run: "renew_device f gen h g n s = Inr (v, s')"
  shows "store_leads s s'"
  using run
proof (cases rule: renew_cases)
  case (expired d)
  show ?thesis unfolding expired(4)
    by (rule store_leads_put [OF inv expired(1)])
      (auto simp: device_leads_def fenced_def expirable_def intro: leads_intros)
next
  case (renewed d)
  show ?thesis unfolding renewed(11)
    by (rule store_leads_put [OF inv renewed(1)])
      (use renewed in \<open>auto simp: device_leads_def fenced_def intro: leads_intros\<close>)
qed

lemma watermark_update:
  "watermark (s\<lparr>operations := os, watermarks := AList.update k n (watermarks s)\<rparr>) k' =
     (if k' = k then n else watermark s k')"
  by (simp add: watermark_def AList.update_conv')

lemma leads_admit:
  assumes inv: "own_inv s" and run: "admit_operation r s = Inr (v, s')"
  shows "store_leads s s'"
  using run
proof (cases rule: admit_cases)
  case (admitted d)
  then show ?thesis by (auto simp: store_leads_def watermark_update intro: leads_intros)
qed simp

lemma leads_expire_queued:
  assumes inv: "own_inv s" and run: "expire_queued_operation f gen h i n s = Inr (v, s')"
  shows "store_leads s s'"
  using run
proof (cases rule: expire_queued_cases)
  case (1 d q)
  show ?thesis unfolding 1(5)
    by (rule store_leads_put [OF inv 1(1)])
      (use 1(3) [of d] in \<open>auto simp: device_leads_def fenced_def expirable_def operation_leads_def
        intro!: ops.grows_update intro: leads_intros\<close>)
qed

lemma leads_quarantine:
  assumes inv: "own_inv s" and r: "r \<noteq> ''provider-outcome-unconfirmed''"
  shows "store_leads s (put_device f q (quarantine r n) s)"
proof (cases "find_device s f")
  case (Some d)
  show ?thesis
    by (rule store_leads_put [OF inv Some])
      (use r in \<open>auto simp: device_leads_def fenced_def quarantine_reason_def intro: leads_intros\<close>)
qed (simp add: put_device_missing)

lemma leads_fence:
  assumes inv: "own_inv s" and run: "fence_native_recovery f gen h hp n s = Inr (v, s')"
  shows "store_leads s s'"
  using run
proof (cases rule: fence_cases)
  case (fenced d)
  show ?thesis unfolding fenced(5)
    by (rule store_leads_put [OF inv fenced(1)])
      (use fenced(2) in \<open>auto simp: device_leads_def fenced_def intro: leads_intros\<close>)
qed simp

lemma leads_prepare:
  assumes inv: "own_inv s" and run: "prepare_dispatch i ofp f gen h pr n s = Inr (v, s')"
  shows "store_leads s s'"
  using run
proof (cases rule: prepare_cases)
  case (1 d p)
  show ?thesis unfolding 1(15)
    by (rule store_leads_put [OF inv 1(1)])
      (use 1(3,10) in \<open>auto simp: device_leads_def fenced_def operation_leads_def
        intro!: grows_one_operation [OF inv 1(2)] intro: leads_intros\<close>)
qed

lemma leads_acknowledge:
  assumes inv: "own_inv s" and run: "acknowledge_result rid rfp oid gen h pr st dg n s = Inr (v, s')"
  shows "store_leads s s'"
  using run
proof (cases rule: acknowledge_cases)
  case (noted p)
  then show ?thesis by (auto simp: store_leads_def watermark_def intro: leads_intros)
next
  case (confirmed p d st')
  have cur: "op_status p = Uncertain" "dev_status d = Quarantined"
    "dev_reason d = Some ''provider-outcome-unconfirmed''"
    using confirmed(4) by (simp_all add: receipt_is_current_def)
  show ?thesis unfolding confirmed(10)
    by (rule store_leads_put [OF inv confirmed(3)])
      (use cur confirmed_status_terminal [OF confirmed(5)] in
        \<open>auto simp: device_leads_def fenced_def operation_leads_def confirm_device_def
          intro!: grows_one_operation [OF inv confirmed(2)] intro: leads_intros\<close>)
qed simp

lemma leads_reconcile:
  assumes inv: "own_inv s" and run: "reconcile_device rq ds h hp g n c s = Inr (v, s')"
  shows "store_leads s s'"
proof -
  have keys: "distinct_keys op_id (operations s)" using inv by (simp add: own_inv_def)
  from run keys show ?thesis
  proof (cases rule: reconcile_cases)
    case (1 d b st)
    have "operation_leads p (disposed ds n p)" if p: "p \<in> set (operations s)" for p
      using inv 1(12) p
    proof (cases rule: disposed_cases [where n = n])
      case kept
      then show ?thesis by (simp add: operation_leads_def)
    next
      case (settled e)
      from settled(1) have "op_status p = Queued \<or> op_status p = Uncertain"
        by (simp add: unfinished_of_iff unfinished_def)
      then show ?thesis
        using 1(14) [OF settled(1,2)] unfolding settled(3)
        by (cases "dsp_status e") (auto simp: operation_leads_def fits_def)
    qed
    then have "grows operation_leads (operations s) (map (disposed ds n) (operations s))"
      using ops.grows_update [of "operations s" "\<lambda>_. True" "disposed ds n"] by (simp add: tbl_update_def)
    then show ?thesis unfolding 1(19)
      by (intro store_leads_put [OF inv 1(1)]) (auto simp: device_leads_def intro: leads_intros)
  qed
qed

lemma leads_finish:
  assumes inv: "own_inv s" and run: "finish_reconciliation_cleanup rid rfp f gen h hp n s = Inr (v, s')"
  shows "store_leads s s'"
  using run
proof (cases rule: finish_cases)
  case (1 d r)
  show ?thesis unfolding 1(11)
    by (rule store_leads_put [OF inv 1(1)]) (auto simp: device_leads_def fenced_def intro: leads_intros)
qed

lemma leads_release:
  assumes inv: "own_inv s" and run: "release_device sha f gen h n s = Inr (v, s')"
  shows "store_leads s s'"
  using run
proof (cases rule: release_cases)
  case (released d)
  show ?thesis unfolding released(6)
    by (rule store_leads_put [OF inv released(1)])
      (auto simp: device_leads_def fenced_def operation_leads_def
        intro!: ops.grows_update intro: leads_intros)
qed simp

lemma leads_quarantine_clock:
  assumes inv: "own_inv s" and run: "quarantine_clock f gen h n s = Inr (v, s')"
  shows "store_leads s s'"
  using run by (cases rule: quarantine_clock_cases) (auto intro!: leads_quarantine [OF inv])

lemma leads_revoke:
  assumes inv: "own_inv s" and run: "revoke_dispatches f gen h n s = Inr (v, s')"
  shows "store_leads s s'"
  using run by (cases rule: revoke_cases) (auto intro!: leads_quarantine [OF inv])

lemma store_step_leads:
  assumes inv: "own_inv s" and run: "store_step sha cd s x = Inr (u, s')"
  shows "store_leads s s'"
proof (cases x)
  case (Record_Legacy_Adoption i a sem)
  with run show ?thesis
    by (auto simp: drop_value_Inr store_leads_def watermark_def intro: leads_intros elim!: adoption_cases)
next
  case Close_Store
  with run show ?thesis by (auto simp: close_store_def store_leads_def watermark_def intro: leads_intros)
qed (use run in \<open>auto simp: drop_value_Inr intro: leads_claim [OF inv] leads_renew [OF inv]
    leads_admit [OF inv] leads_expire_queued [OF inv] leads_quarantine_clock [OF inv]
    leads_revoke [OF inv] leads_fence [OF inv] leads_prepare [OF inv] leads_acknowledge [OF inv]
    leads_reconcile [OF inv] leads_finish [OF inv] leads_release [OF inv]\<close>)

lemma store_run_leads: "own_inv s \<Longrightarrow> store_leads s (run_ops (store_step sha cd) s xs)"
proof (induction xs arbitrary: s)
  case (Cons x xs)
  show ?case
  proof (cases "store_step sha cd s x")
    case (Inl e)
    with Cons show ?thesis by simp
  next
    case (Inr p)
    obtain u s' where p: "p = (u, s')" by (cases p)
    with Inr Cons.prems have "own_inv s'" "store_leads s s'"
      by (auto intro: own_inv_step store_step_leads)
    with Cons.IH p Inr show ?thesis by (auto intro: store_leads_trans)
  qed
qed simp

section \<open>Generations, watermarks and sequences\<close>

definition device_generation :: "store \<Rightarrow> string \<Rightarrow> int" where
  "device_generation s f = (case find_device s f of None \<Rightarrow> 0 | Some d \<Rightarrow> dev_generation d)"

lemma leads_device:
  "store_leads s s' \<Longrightarrow> find_device s f = Some d \<Longrightarrow> \<exists>d'. find_device s' f = Some d' \<and> device_leads d d'"
  unfolding store_leads_def find_device_def by (blast intro: devs.grows_lookup)

lemma leads_operation:
  "store_leads s s' \<Longrightarrow> find_operation s i = Some p \<Longrightarrow>
     \<exists>p'. find_operation s' i = Some p' \<and> operation_leads p p'"
  unfolding store_leads_def find_operation_def by (blast intro: ops.grows_lookup)

lemma leads_receipt:
  "store_leads s s' \<Longrightarrow> find_receipt s i = Some r \<Longrightarrow> find_receipt s' i = Some r"
  unfolding store_leads_def find_receipt_def using rcps.grows_lookup by blast

interpretation generations: fenced_ops "store_step sha cd" own_inv device_generation
proof unfold_locales
  fix s x u s' f
  assume inv: "own_inv s" and run: "store_step sha cd s x = Inr (u, s')"
  note leads = store_step_leads [OF this]
  show "device_generation s f \<le> device_generation s' f"
  proof (cases "find_device s f")
    case (Some d)
    from leads_device [OF leads this] obtain d' where "find_device s' f = Some d'" "device_leads d d'"
      by blast
    with Some show ?thesis by (simp add: device_generation_def device_leads_def)
  next
    case None
    have "own_inv s'" using inv run by (rule own_inv_step)
    with None show ?thesis
      using own_inv_device [of s' f]
      by (auto simp: device_generation_def device_ok_def device_checks_def split: option.splits)
  qed
qed

interpretation sequences: fenced_ops "store_step sha cd" own_inv watermark
  by unfold_locales (use store_step_leads in \<open>auto simp: store_leads_def\<close>)

text \<open>The operations of one controller under one generation are numbered 1, 2, \<open>\<dots>\<close>, watermark.\<close>

definition seq_inv :: "store \<Rightarrow> bool" where
  "seq_inv s \<longleftrightarrow>
     (\<forall>k. map op_sequence (filter (\<lambda>p. request_key p = k) (operations s)) = [1..watermark s k])"

lemma not_admit:
  assumes inv: "own_inv s" and run: "store_step sha cd s x = Inr (u, s')"
    and x: "\<And>r. x \<noteq> Admit_Operation r"
  shows "length (operations s') = length (operations s) \<and> watermarks s' = watermarks s"
proof (cases x)
  case (Reconcile_Device rq ds h hp g n c)
  have "distinct_keys op_id (operations s)" using inv by (simp add: own_inv_def)
  with Reconcile_Device run show ?thesis by (auto simp: drop_value_Inr elim!: reconcile_cases)
next
  case Close_Store
  with run show ?thesis by (auto simp: close_store_def)
qed (use run x in \<open>auto simp: drop_value_Inr elim!: claim_cases renew_cases expire_queued_cases
    quarantine_clock_cases revoke_cases fence_cases prepare_cases acknowledge_cases finish_cases
    release_cases adoption_cases\<close>)

lemma map_filter_cong_keys:
  assumes "list_all2 (\<lambda>x y. key y = key x \<and> val y = val x) xs ys"
  shows "map val (filter (\<lambda>x. key x = k) ys) = map val (filter (\<lambda>x. key x = k) xs)"
  using assms by (induction rule: list_all2_induct) auto

lemma seq_inv_step:
  assumes inv: "own_inv s" and seq: "seq_inv s" and run: "store_step sha cd s x = Inr (u, s')"
  shows "seq_inv s'"
proof (cases "\<exists>r. x = Admit_Operation r")
  case True
  then obtain r where x: "x = Admit_Operation r" by blast
  with run obtain v where "admit_operation r s = Inr (v, s')" by (auto simp: drop_value_Inr)
  then show ?thesis
  proof (cases rule: admit_cases)
    case (admitted d)
    have "1 \<le> op_sequence r" using admitted(10) by (simp add: operation_checks_def)
    with admitted(8) have "0 \<le> watermark s (request_key r)" by simp
    then have "[1..watermark s (request_key r) + 1] = [1..watermark s (request_key r)] @ [watermark s (request_key r) + 1]"
      using upto_rec2 [of 1 "watermark s (request_key r) + 1"] by simp
    moreover have "request_key (queued_row r) = request_key r" by (simp add: request_key_def)
    ultimately show ?thesis
      using seq admitted(8) unfolding seq_inv_def admitted(12) watermark_update by auto
  qed (use seq in simp)
next
  case False
  then have same: "length (operations s') = length (operations s)" "watermarks s' = watermarks s"
    using not_admit [OF inv run] by blast+
  have "grows operation_leads (operations s) (operations s')"
    using store_step_leads [OF inv run] by (simp add: store_leads_def)
  with same(1) have "list_all2 operation_leads (operations s) (operations s')" by (simp add: grows_def)
  then have rows: "list_all2 (\<lambda>p p'. request_key p' = request_key p \<and> op_sequence p' = op_sequence p)
      (operations s) (operations s')"
    by (rule list_all2_mono) (auto simp: operation_leads_def truncate_op_eq request_key_def)
  have "watermark s' k = watermark s k" for k by (simp add: watermark_def same(2))
  with seq map_filter_cong_keys [OF rows] show ?thesis by (simp add: seq_inv_def)
qed

interpretation sequenced: guarded_ops "store_step sha cd" "\<lambda>s. own_inv s \<and> seq_inv s"
  by unfold_locales (use own_inv_step seq_inv_step in blast)

lemma seq_inv_new [simp]: "seq_inv new_store"
  by (simp add: seq_inv_def new_store_def watermark_def)

end
