(* ===== verification/Store_Runs.thy ===== *)
theory Store_Runs
  imports State_Store_Props
begin

text \<open>
  Properties of every run of the authority store, whatever hosts, helpers and providers call it
  and in whatever order: \<open>store_after xs\<close> is the store a list of operations leaves, where those
  that raise change nothing. The runs at the end are the inputs the properties are evaluated on.
\<close>

abbreviation store_run :: "(string \<Rightarrow> string) \<Rightarrow> ((string \<times> pyval) list \<Rightarrow> string) \<Rightarrow> store \<Rightarrow> store_op list \<Rightarrow> store"
  where "store_run sha cd \<equiv> run_ops (store_step sha cd)"

definition store_after :: "(string \<Rightarrow> string) \<Rightarrow> ((string \<times> pyval) list \<Rightarrow> string) \<Rightarrow> store_op list \<Rightarrow> store" where
  "store_after sha cd xs = store_run sha cd new_store xs"

lemma store_after_inv: "own_inv (store_after sha cd xs)"
  unfolding store_after_def by (rule owned.run_preserves) simp

lemma store_after_seq: "seq_inv (store_after sha cd xs)"
  unfolding store_after_def by (rule sequenced.run_preserves [THEN conjunct2]) simp

lemma later_inv: "own_inv s \<Longrightarrow> own_inv (store_run sha cd s ys)"
  by (rule owned.run_preserves)

section \<open>Rows after an operation\<close>

interpretation dispatch_rows: row_update op_id "dispatch_row pr"
  by unfold_locales simp

interpretation confirm_rows: row_update op_id "confirm_row st dg n"
  by unfold_locales simp

interpretation taken_rows: row_update dev_fingerprint "take_over gen st r h hp g n"
  by unfold_locales simp

lemma find_dispatched:
  "find_operation (s\<lparr>operations := tbl_update (\<lambda>p. op_id p = i) (dispatch_row pr) (operations s)\<rparr>) i =
     map_option (dispatch_row pr) (find_operation s i)"
  by (simp add: find_operation_def dispatch_rows.lookup_update_same)

lemma prepared_operation:
  assumes "prepare_dispatch i ofp f gen h pr n s = Inr (v, s')"
  obtains p where "find_operation s i = Some p" "op_status p = Queued"
    "v = Some (dispatch_row pr p)" "find_operation s' i = Some (dispatch_row pr p)"
  using assms by (cases rule: prepare_cases) (auto simp: find_dispatched intro: that)

section \<open>Well-formed rows\<close>

text \<open>
  C29. Every row the store ever holds has the shape its status calls for: a device is quarantined
  with one of the known reasons and has none while owned; an operation has a provider exactly once
  it was dispatched, a terminal time exactly once it is terminal, and a result when it has one.
\<close>

theorem store_rows_well_formed:
  "list_all device_ok (devices (store_after sha cd xs)) \<and>
   list_all operation_ok (operations (store_after sha cd xs))"
  using store_after_inv [of sha cd xs] by (simp add: own_inv_def list_all_iff)

text \<open>
  The operations one controller was admitted under one generation of a device are numbered
  1, 2, 3 and so on up to the replay watermark, in the order they were admitted: none is skipped and
  none is consumed twice.
\<close>

theorem sequences_contiguous:
  "map op_sequence (filter (\<lambda>p. request_key p = k) (operations (store_after sha cd xs))) =
     [1..watermark (store_after sha cd xs) k]"
  using store_after_seq [of sha cd xs] unfolding seq_inv_def by (rule spec)

section \<open>Ownership\<close>

lemma at_most_one:
  assumes "\<And>x y. x \<in> set xs \<Longrightarrow> y \<in> set xs \<Longrightarrow> P x \<Longrightarrow> P y \<Longrightarrow> x = y" and "distinct xs"
  shows "length (filter P xs) \<le> 1"
proof (rule ccontr)
  assume "\<not> length (filter P xs) \<le> 1"
  then obtain a b rest where f: "filter P xs = a # b # rest"
    by (metis One_nat_def Suc_le_mono le0 list.exhaust list.size(3,4) add.right_neutral add_Suc_right not_less_eq_eq)
  then have "a \<in> set (filter P xs)" "b \<in> set (filter P xs)" by simp_all
  with assms(1) have "a = b" by auto
  moreover have "distinct (filter P xs)" using assms(2) by (rule distinct_filter)
  ultimately show False by (simp add: f)
qed

text \<open>
  C30. An unfinished operation always belongs to the present generation of its device, which is not
  released; while the outcome of a dispatched one is unknown the device is quarantined, and a device
  never has two of those.
\<close>

theorem no_effect_left_open:
  assumes "find_device (store_after sha cd xs) f = Some d"
  shows "(\<forall>p \<in> set (operations (store_after sha cd xs)). op_device p = f \<and> unfinished p \<longrightarrow>
      op_generation p = dev_generation d \<and> dev_status d \<noteq> Released \<and>
      (op_status p = Uncertain \<longrightarrow> dev_status d = Quarantined)) \<and>
    length (filter (\<lambda>p. op_device p = f \<and> op_status p = Uncertain)
      (operations (store_after sha cd xs))) \<le> 1"
proof -
  note inv = store_after_inv [of sha cd xs]
  have "distinct (operations (store_after sha cd xs))"
    using inv by (simp add: own_inv_def distinct_keys_def distinct_map)
  then have "length (filter (\<lambda>p. op_device p = f \<and> op_status p = Uncertain)
      (operations (store_after sha cd xs))) \<le> 1"
    using inv by (intro at_most_one) (auto simp: own_inv_def)
  then show ?thesis using own_inv_linked [OF inv] assms by (auto simp: linked_def)
qed

text \<open>
  C31. An operation is dispatched at most once: after a dispatch was prepared, no later call
  prepares one for the same operation, whatever happens in between.
\<close>

theorem dispatched_at_most_once:
  assumes "prepare_dispatch i ofp f gen h pr n (store_after sha cd xs) = Inr (v, s)"
  shows "prepare_dispatch i ofp' f' gen' h' pr' n' (store_run sha cd s ys) \<noteq> Inr w"
proof
  assume again: "prepare_dispatch i ofp' f' gen' h' pr' n' (store_run sha cd s ys) = Inr w"
  obtain w1 w2 where w: "w = (w1, w2)" by (cases w)
  have inv: "own_inv s" using store_after_inv assms by (rule own_inv_prepare)
  from assms obtain p where p: "find_operation s i = Some p" "op_status p = Uncertain"
    by (rule prepared_operation) simp
  from leads_operation [OF store_run_leads [OF inv] p(1)] obtain p'
    where "find_operation (store_run sha cd s ys) i = Some p'" "operation_leads p p'" by blast
  with p(2) again show False
    unfolding w by (auto simp: operation_leads_def elim!: prepare_cases)
qed

lemma expired_or_same:
  assumes "expire_queued_operation f gen h i n t = Inr (u, t')" and "find_operation t j = Some p"
  shows "find_operation t' j = Some p \<or>
    op_status p = Queued \<and> map_option op_status (find_operation t' j) = Some Op_Expired"
proof -
  let ?hit = "\<lambda>q. op_id q = i \<and> op_device q = f \<and> op_generation q = gen \<and> op_host q = h \<and> op_status q = Queued"
  have ops: "operations t' = tbl_update ?hit (expire_row n) (operations t)"
    using assms(1) by (cases rule: expire_queued_cases) (auto simp: put_device_def)
  have "tbl_lookup op_id j (tbl_update ?hit (expire_row n) rows) =
      map_option (\<lambda>q. if ?hit q then expire_row n q else q) (tbl_lookup op_id j rows)" for rows
    by (induction rows) (auto simp: tbl_update_def expire_row_def)
  then show ?thesis using assms(2) by (auto simp: find_operation_def ops expire_row_def)
qed

text \<open>
  C32. A fenced generation stays fenced. Once a device is released, or quarantined for another
  reason than an awaited receipt, or taken over by a later generation, then at any later time no
  dispatch is prepared under the earlier generation, no new operation admitted under it and no lease
  of it renewed, a receipt under it changes neither a device nor an operation, and the device is not
  owned, expired or awaiting a receipt under it again. What the store still accepts under it can only
  restrict: marking the clock leaves it fenced and touches no operation, and expiring an operation
  changes none in another way than from queued to expired.
\<close>

theorem fenced_generation_stays_fenced:
  assumes "find_device (store_after sha cd xs) f = Some d"
    and "gen < dev_generation d \<or> gen = dev_generation d \<and> fenced d"
    and "t = store_run sha cd (store_after sha cd xs) ys"
  shows "prepare_dispatch i ofp f gen h pr n t \<noteq> Inr (v, t') \<and>
    (admit_operation r t = Inr ((po, new), t') \<and> op_device r = f \<and> op_generation r = gen \<longrightarrow>
       \<not> new \<and> t' = t) \<and>
    renew_device f gen h g n t \<noteq> Inr (Inr row, t') \<and>
    (acknowledge_result rid rfp i gen h pr st dg n t = Inr (w, t') \<and>
       map_option op_device (find_operation t i) = Some f \<longrightarrow>
       devices t' = devices t \<and> operations t' = operations t) \<and>
    (find_device t f = Some e \<and> dev_generation e = gen \<longrightarrow> dev_status e = Released \<or>
       dev_status e = Quarantined \<and> dev_reason e \<noteq> Some ''provider-outcome-unconfirmed'') \<and>
    (quarantine_clock f gen h now t = Inr (u, t') \<longrightarrow> operations t' = operations t) \<and>
    (expire_queued_operation f gen h i n t = Inr (u, t') \<and> find_operation t j = Some p \<longrightarrow>
       find_operation t' j = Some p \<or>
       op_status p = Queued \<and> map_option op_status (find_operation t' j) = Some Op_Expired)"
proof -
  note inv = store_after_inv [of sha cd xs]
  obtain b where b: "find_device t f = Some b" and lead: "device_leads d b"
    using leads_device [OF store_run_leads [OF inv] assms(1)] assms(3) by blast
  have no: "\<not> (dev_generation b = gen \<and> dev_status b = Owned)"
    using lead assms(2) by (auto simp: device_leads_def fenced_def)
  have quiet: "\<not> receipt_is_current q (Some b) gen h pr" for q
    using lead assms(2) by (auto simp: device_leads_def fenced_def receipt_is_current_def)
  have "prepare_dispatch i ofp f gen h pr n t \<noteq> Inr (v, t')"
    using no b by (auto elim!: prepare_cases)
  moreover have "\<not> new \<and> t' = t"
    if "admit_operation r t = Inr ((po, new), t')" "op_device r = f" "op_generation r = gen"
    using that(1) by (cases rule: admit_cases) (use that no b in auto)
  moreover have "renew_device f gen h g n t \<noteq> Inr (Inr row, t')"
    using no b by (auto elim!: renew_cases)
  moreover have "devices t' = devices t \<and> operations t' = operations t"
    if "acknowledge_result rid rfp i gen h pr st dg n t = Inr (w, t')"
      "map_option op_device (find_operation t i) = Some f"
    using that(1) by (cases rule: acknowledge_cases) (use that(2) quiet b in auto)
  moreover have "dev_status e = Released \<or>
      dev_status e = Quarantined \<and> dev_reason e \<noteq> Some ''provider-outcome-unconfirmed''"
    if "find_device t f = Some e" "dev_generation e = gen"
    using that b lead assms(2) by (auto simp: device_leads_def fenced_def)
  moreover have "operations t' = operations t" if "quarantine_clock f gen h now t = Inr (u, t')"
    using that by (cases rule: quarantine_clock_cases) (simp add: put_device_def)
  moreover have "find_operation t' j = Some p \<or>
      op_status p = Queued \<and> map_option op_status (find_operation t' j) = Some Op_Expired"
    if "expire_queued_operation f gen h i n t = Inr (u, t')" "find_operation t j = Some p"
    using that by (rule expired_or_same)
  ultimately show ?thesis by blast
qed

text \<open>
  C33. What is settled stays: a terminal operation is never changed again and no receipt is ever
  changed or lost.
\<close>

theorem settled_rows_stay:
  assumes "find_operation (store_after sha cd xs) i = Some p" and "\<not> unfinished p"
    and "find_receipt (store_after sha cd xs) j = Some r"
  shows "find_operation (store_run sha cd (store_after sha cd xs) ys) i = Some p \<and>
    find_receipt (store_run sha cd (store_after sha cd xs) ys) j = Some r"
proof -
  note leads = store_run_leads [OF store_after_inv, of sha cd xs sha cd ys]
  from leads_operation [OF leads assms(1)] obtain p'
    where p': "find_operation (store_run sha cd (store_after sha cd xs) ys) i = Some p'" "operation_leads p p'"
    by blast
  with assms(2) have "p' = p"
    by (cases "op_status p"; cases "op_status p'") (auto simp: operation_leads_def unfinished_def)
  with p'(1) leads_receipt [OF leads assms(3)] show ?thesis by simp
qed

text \<open>
  Acknowledging the same provider result again, at any later time, returns the receipt the
  first call made and changes nothing.
\<close>

theorem acknowledgement_idempotent:
  assumes "acknowledge_result rid rfp i gen h pr st dg n (store_after sha cd xs) = Inr (v, s)"
    and "t = store_run sha cd s ys" and "\<not> store_closed t"
  shows "v \<noteq> None \<and> acknowledge_result rid rfp i gen' h' pr' st' dg' n' t = Inr (v, t)"
proof -
  have inv: "own_inv s" using store_after_inv assms(1) by (rule own_inv_acknowledge)
  have new: "find_receipt s rid = Some row \<and> rcp_fingerprint row = rfp"
    if "find_receipt s0 rid = None" "receipts s = receipts s0 @ [row]" "rcp_id row = rid"
      "rcp_fingerprint row = rfp" for row s0
    using that by (simp add: find_receipt_def tbl_lookup_append)
  from assms(1) obtain r where r: "v = Some r" "find_receipt s rid = Some r" "rcp_fingerprint r = rfp"
  proof (cases rule: acknowledge_cases)
    case (noted p)
    with that new [OF noted(1)] show thesis by (simp add: receipt_row_def)
  next
    case (confirmed p d st')
    with that new [OF confirmed(1)] show thesis by (simp add: receipt_row_def)
  qed (use that in auto)
  have "find_receipt t rid = Some r"
    unfolding assms(2) by (rule leads_receipt [OF store_run_leads [OF inv] r(2)])
  with r assms(3) show ?thesis by (simp add: acknowledge_result_def transaction_def require_store_def)
qed

lemma lookup_disposed:
  "tbl_lookup op_id i (map (disposed ds n) rows) = map_option (disposed ds n) (tbl_lookup op_id i rows)"
  by (induction rows) (auto simp: disposed_def split: option.splits)

lemma settled_quiet:
  assumes inv: "own_inv s" "own_inv t" and ops: "operations t = map (disposed ds n) (operations s)"
    and dev: "find_device s k = Some d" "find_device t k = Some b" "dev_generation b = dev_generation d + 1"
    and q: "q \<in> set (operations t)" "op_device q = k"
  shows "\<not> unfinished q"
proof
  assume "unfinished q"
  from q(1) obtain p where p: "p \<in> set (operations s)" "q = disposed ds n p" by (auto simp: ops)
  have same: "op_device q = op_device p \<and> op_generation q = op_generation p"
    unfolding p(2) by (auto simp: disposed_def dispose_def split: option.splits)
  with q(2) own_inv_linked [OF inv(1) p(1), of d] dev(1) have "op_generation q \<le> dev_generation d"
    by (simp add: linked_def)
  moreover have "op_generation q = dev_generation d + 1"
    using own_inv_linked [OF inv(2) q(1)] dev(2,3) q(2) \<open>unfinished q\<close> by (simp add: linked_def)
  ultimately show False by simp
qed

text \<open>
  C34. A reconciliation settles the generation it ends: each unfinished operation of the device has
  a disposition that fits its state and becomes terminal by it, no other operation changes, the
  dispositions are recorded, nothing unfinished is left on the device, and its generation is the
  next one.
\<close>

theorem reconciliation_settles:
  assumes "reconcile_device rq ds h hp g n c (store_after sha cd xs) = Inr (v, s)"
    and "find_device (store_after sha cd xs) (rq_device rq) = Some d"
    and "find_operation (store_after sha cd xs) i = Some p"
  shows "(if p \<in> set (unfinished_of (store_after sha cd xs) d)
     then \<exists>e. (i, e) \<in> set ds \<and> fits (op_status p) (dsp_status e) \<and>
       find_operation s i = Some (dispose (final_status (op_status p) (dsp_status e)) e n p) \<and>
       tbl_lookup fst (rq_id rq, i) (dispositions s) = Some ((rq_id rq, i), e)
     else find_operation s i = Some p) \<and>
    map_option dev_generation v = Some (dev_generation d + 1) \<and>
    list_all (\<lambda>q. op_device q = rq_device rq \<longrightarrow> \<not> unfinished q) (operations s)"
proof -
  let ?s = "store_after sha cd xs"
  note inv = store_after_inv [of sha cd xs]
  have inv': "own_inv s" using inv assms(1) by (rule own_inv_reconcile)
  have keys: "distinct_keys op_id (operations ?s)" using inv by (simp add: own_inv_def)
  note p = find_operation_Some [OF assms(3), THEN conjunct1] find_operation_Some [OF assms(3), THEN conjunct2]
  from assms(1) keys show ?thesis
  proof (cases rule: reconcile_cases)
    case (1 d' b st)
    with assms(2) have d': "d' = d" by simp
    note d = find_device_Some [OF assms(2)]
    have now: "find_operation s i = Some (disposed ds n p)"
      using assms(3) by (simp add: 1(19) find_operation_def lookup_disposed)
    have v: "v = Some (take_over (dev_generation d + 1) st
        (if b then Some ''recovery-cleanup-pending'' else None) h hp g n d)"
      using assms(2) unfolding 1(20) 1(19) d' find_device_def by (simp add: taken_rows.lookup_update_same)
    have ops: "operations s = map (disposed ds n) (operations ?s)" by (simp add: 1(19))
    have after: "find_device s (rq_device rq) = v" by (simp add: 1(20))
    have quiet: "\<not> unfinished q" if q: "q \<in> set (operations s)" "op_device q = rq_device rq" for q
      using settled_quiet [OF inv inv' ops assms(2) after [unfolded v] _ q] by (simp add: take_over_def)
    have recorded: "tbl_lookup fst (rq_id rq, j) (dispositions s) = Some ((rq_id rq, j), e)"
      if "(j, e) \<in> set ds" for j e
      using tbl_lookup_unique [of fst "dispositions s" "((rq_id rq, j), e)"] that 1(17)
      by (force simp: distinct_keys_def 1(19))
    show ?thesis
      using inv 1(12) p(1) unfolding d'
    proof (cases rule: disposed_cases [where n = n])
      case kept
      with now v quiet show ?thesis by (simp add: list_all_iff)
    next
      case (settled e)
      then have "(i, e) \<in> set ds" using p(2) by simp
      with settled now v quiet recorded 1(14) [of p e] p(2) show ?thesis
        by (auto simp: list_all_iff d')
    qed
  qed
qed

section \<open>Progress\<close>

lemma find_device_put:
  "(\<And>d. dev_fingerprint (g d) = dev_fingerprint d) \<Longrightarrow>
     find_device (put_device f (\<lambda>_. True) g s) f = map_option g (find_device s f)"
proof -
  assume key: "\<And>d. dev_fingerprint (g d) = dev_fingerprint d"
  have "tbl_lookup dev_fingerprint f (tbl_update (\<lambda>d. dev_fingerprint d = f) g rows) =
      map_option g (tbl_lookup dev_fingerprint f rows)" for rows
    by (induction rows) (auto simp: tbl_update_def key)
  then show ?thesis by (simp add: find_device_def)
qed

lemma find_operation_snoc:
  "find_operation s i = None \<Longrightarrow> op_id p = i \<Longrightarrow>
     find_operation (s\<lparr>operations := operations s @ [p], watermarks := w\<rparr>) i = Some p"
  by (simp add: find_operation_def tbl_lookup_append)

text \<open>A request that the owner of a device may make next, and the moments of its life.\<close>

definition admissible :: "store \<Rightarrow> device \<Rightarrow> operation_request \<Rightarrow> bool" where
  "admissible s d r \<longleftrightarrow>
     op_device r = dev_fingerprint d \<and> op_generation r = dev_generation d \<and> op_host r = dev_host d \<and>
     op_sequence r = watermark s (request_key r) + 1 \<and> find_operation s (op_id r) = None \<and>
     operation_checks (queued_row r) \<and> operation_unique (operations s) (queued_row r) \<and>
     op_admitted_ns r < dev_deadline_ns d \<and> op_deadline_ns r \<le> dev_deadline_ns d \<and>
     length (filter (\<lambda>p. op_device p = op_device r) (operations s)) < MAX_OPERATIONS_PER_DEVICE"

text \<open>
  The owner of a device whose earlier operations are all terminal always gets the next operation
  through: it is admitted, its dispatch is prepared, and acknowledging success before the deadline
  records the result and gives the device back, ready for the next one.
\<close>

theorem owned_device_makes_progress:
  assumes "s = store_after sha cd xs" and "\<not> store_closed s"
    and "find_device s f = Some d" and "dev_status d = Owned" and "admissible s d r"
    and "list_all (\<lambda>p. op_device p = f \<longrightarrow> \<not> unfinished p) (operations s)"
    and "0 \<le> n" and "n < op_deadline_ns r" and "n \<le> m" and "m < dev_deadline_ns d"
    and "list_all (\<lambda>x. rcp_id x \<noteq> rid \<and> rcp_fingerprint x \<noteq> rfp \<and> rcp_operation x \<noteq> op_id r) (receipts s)"
  shows "\<exists>s1 s2 s3 v w. admit_operation r s = Inr ((Some (queued_row r), True), s1) \<and>
    prepare_dispatch (op_id r) (op_fingerprint r) f (dev_generation d) (dev_host d) pr n s1 = Inr (v, s2) \<and>
    acknowledge_result rid rfp (op_id r) (dev_generation d) (dev_host d) pr R_Succeeded dg m s2 = Inr (w, s3) \<and>
    map_option dev_status (find_device s3 f) = Some Owned \<and>
    map_option op_status (find_operation s3 (op_id r)) = Some Succeeded \<and>
    map_option op_result (find_operation s3 (op_id r)) = Some (Some dg)"
proof -
  have inv: "own_inv s" unfolding assms(1) by (rule store_after_inv)
  note dk = find_device_Some [OF assms(3)]
  note ok = own_inv_device [OF inv assms(3)]
  have adm: "op_device r = f" "op_generation r = dev_generation d" "op_host r = dev_host d"
    "op_sequence r = watermark s (request_key r) + 1" "find_operation s (op_id r) = None"
    "operation_checks (queued_row r)" "operation_unique (operations s) (queued_row r)"
    "op_admitted_ns r < dev_deadline_ns d" "op_deadline_ns r \<le> dev_deadline_ns d"
    "length (filter (\<lambda>p. op_device p = f) (operations s)) < MAX_OPERATIONS_PER_DEVICE"
    using assms(5) dk by (auto simp: admissible_def)
  let ?q = "queued_row r" let ?i = "op_id r"
  let ?s1 = "s\<lparr>operations := operations s @ [?q],
      watermarks := AList.update (request_key r) (op_sequence r) (watermarks s)\<rparr>"
  let ?s2 = "put_device f (\<lambda>_. True) (unconfirmed n)
      (?s1\<lparr>operations := tbl_update (\<lambda>p. op_id p = ?i) (dispatch_row pr) (operations ?s1)\<rparr>)"
  let ?d2 = "unconfirmed n d" and ?p2 = "dispatch_row pr ?q"
  let ?s3 = "put_device f (\<lambda>_. True) (confirm_device (dev_deadline_ns d) m)
      (?s2\<lparr>receipts := receipts ?s2 @ [receipt_row rid rfp ?i (dev_generation d) pr R_Succeeded dg m True],
           operations := tbl_update (\<lambda>p. op_id p = ?i) (confirm_row Succeeded dg m) (operations ?s2)\<rparr>)"
  have q: "op_deadline_ns ?q = op_deadline_ns r"
    by (simp add: queued_row_def operation_request.defs operation.defs)
  have f1: "find_operation ?s1 ?i = Some ?q" using adm by (intro find_operation_snoc) simp_all
  have d1: "find_device ?s1 f = Some d" using assms(3) by (simp add: find_device_def)
  have admit: "admit_operation r s = Inr ((Some ?q, True), ?s1)"
    using assms(2-4) adm dk f1
    by (simp add: admit_operation_def transaction_def require_store_def Let_def)
  have d2: "find_device ?s2 f = Some ?d2" using d1 by (subst find_device_put) (simp_all add: find_device_def)
  have f2: "find_operation ?s2 ?i = Some ?p2" using f1 by (simp add: find_operation_def dispatch_rows.lookup_update_same)
  have checks: "device_checks (unconfirmed n e)" "device_checks (confirm_device (dev_deadline_ns d) m (unconfirmed n e))"
    if "e \<in> set (devices s)" "dev_fingerprint e = f" for e
    using own_inv_the_device [OF inv assms(3) that] ok assms(7,9)
    by (simp_all add: device_ok_def device_checks_def with_status_def confirm_device_def)
  have earlier: "\<not> list_ex (\<lambda>x. op_device x = f \<and> op_generation x = dev_generation d \<and>
      op_sequence x < op_sequence ?q \<and> unfinished x) (operations ?s1)"
    using assms(6) by (auto simp: list_ex_iff list_all_iff)
  have none: "find_receipt ?s2 rid = None"
    using assms(11) by (auto simp: find_receipt_def tbl_lookup_None_iff list_all_iff)
  have cur: "receipt_is_current ?p2 (Some ?d2) (dev_generation d) (dev_host d) pr"
    using adm by (simp add: receipt_is_current_def dispatch_row_def)
  have fresh: "filter (\<lambda>x. rcp_operation x = ?i) (receipts s) = []"
    "receipt_unique (receipts s) (receipt_row rid rfp ?i (dev_generation d) pr R_Succeeded dg m True)"
    using assms(11) by (auto simp: list_all_iff receipt_unique_def receipt_row_def filter_empty_conv)
  have prepare: "prepare_dispatch ?i (op_fingerprint r) f (dev_generation d) (dev_host d) pr n ?s1 =
      Inr (find_operation ?s2 ?i, ?s2)"
    unfolding prepare_dispatch_def transaction_def require_store_def d1 f1 update_device_def put_device_def
    using assms(2,4,6,8) adm q checks(1) earlier
    by (simp add: Let_def list_all_iff dispatch_row_def [abs_def] operation_checks_def)
  have checked: "\<forall>e \<in> set (tbl_update (\<lambda>d. dev_fingerprint d = f) (unconfirmed n) (devices s)).
      dev_fingerprint e = f \<longrightarrow> device_checks (with_status Owned None m e)"
    using checks(2) assms(10) by (auto simp: set_tbl_update confirm_device_def)
  have ack: "acknowledge_result rid rfp ?i (dev_generation d) (dev_host d) pr R_Succeeded dg m ?s2 =
      Inr (find_receipt ?s3 rid, ?s3)"
    unfolding acknowledge_result_def transaction_def require_store_def f2 none
    using assms(2,7,9,10) adm d2 cur fresh checked
    by (simp add: Let_def update_device_def put_device_def confirm_row_def [abs_def]
        receipt_row_def confirm_device_def [abs_def] MAX_RECEIPTS_PER_OPERATION_def list_all_iff)
  have d3: "find_device ?s3 f = Some (confirm_device (dev_deadline_ns d) m ?d2)"
    using d2 by (subst find_device_put) (simp_all add: find_device_def confirm_device_def)
  have f3: "find_operation ?s3 ?i = Some (confirm_row Succeeded dg m ?p2)"
    using f2 by (simp add: find_operation_def confirm_rows.lookup_update_same)
  show ?thesis
    by (intro exI conjI, rule admit, rule prepare, rule ack)
      (unfold d3 f3, simp_all add: confirm_device_def assms(10))
qed

end
