(* ===== verification/Authority_Props.thy ===== *)
theory Authority_Props
  imports Authority Store_Runs
begin

text \<open>
  What a device authority guarantees to the host, the provider and the native helper. Every action
  of a handle is composed of reads, clock calls and journal operations; \<open>act_keeps\<close> carries a
  relation between the worlds before and after through the composition.
\<close>

section \<open>Successful actions\<close>

lemma act_bind_Inr:
  "act_bind m k w = (Inr y, w') \<longleftrightarrow> (\<exists>x v. m w = (Inr x, v) \<and> k x v = (Inr y, w'))"
  by (auto simp: act_bind_def split: prod.splits sum.splits)

lemma act_require_Inr: "act_require c msg k w = (Inr y, w') \<longleftrightarrow> c \<and> k w = (Inr y, w')"
  by (simp add: act_require_def act_raise_def)

lemma act_simps [simp]:
  "act_return x w = (Inr x, w)" "act_raise msg w = (Inl (ContractError msg), w)"
  "act_lift r w = (r, w)" "act_get f w = (Inr (f w), w)" "act_modify g w = (Inr (), g w)"
  "act_read rd w = (rd (journal w), w)"
  by (simp_all add: act_return_def act_raise_def act_lift_def act_get_def act_modify_def act_read_def)

lemma set_handle_simp [simp]: "set_handle f w = (Inr (), w\<lparr>handle := f (handle w)\<rparr>)"
  by (simp add: set_handle_def)

lemma act_journal_Inr:
  "act_journal f w = (Inr v, w') \<longleftrightarrow> (\<exists>s. f (journal w) = Inr (v, s) \<and> w' = w\<lparr>journal := s\<rparr>)"
  by (auto simp: act_journal_def split: sum.splits)

lemma da_open_Inr:
  "da_open w = (Inr u, w') \<longleftrightarrow>
     w' = w \<and> \<not> hd_closed (handle w) \<and> hd_lease_open (handle w) \<and> \<not> host_closed w"
  by (auto simp: da_open_def ha_open_def)

lemmas act_iff = act_bind_Inr act_require_Inr act_journal_Inr da_open_Inr

section \<open>Relations an action keeps\<close>

definition act_keeps :: "(world \<Rightarrow> world \<Rightarrow> bool) \<Rightarrow> 'a act \<Rightarrow> bool" where
  "act_keeps R m \<longleftrightarrow> (\<forall>w. R w (snd (m w)))"

locale kept =
  fixes R :: "world \<Rightarrow> world \<Rightarrow> bool"
  assumes R_refl: "R w w" and R_trans: "R w v \<Longrightarrow> R v u \<Longrightarrow> R w u"
begin

lemma keeps_pure [intro!]:
  "act_keeps R (act_return x)" "act_keeps R (act_raise msg)" "act_keeps R (act_lift r)"
  "act_keeps R (act_get f)" "act_keeps R (act_read rd)" "act_keeps R ha_open" "act_keeps R da_open"
  by (simp_all add: act_keeps_def R_refl ha_open_def da_open_def)

lemma keeps_bind [intro!]: "act_keeps R m \<Longrightarrow> (\<And>x. act_keeps R (k x)) \<Longrightarrow> act_keeps R (act_bind m k)"
  unfolding act_keeps_def act_bind_def
proof (intro allI)
  fix w
  assume m: "\<forall>w. R w (snd (m w))" and k: "\<And>x. \<forall>w. R w (snd (k x w))"
  obtain r v where v: "m w = (r, v)" by (cases "m w")
  with m have 1: "R w v" by (metis snd_conv)
  show "R w (snd (case m w of (Inl e, w') \<Rightarrow> (Inl e, w') | (Inr x, w') \<Rightarrow> k x w'))"
    using 1 k R_trans [OF 1] by (cases r) (auto simp: v)
qed

lemma keeps_handle [intro!]:
  "act_keeps R m \<Longrightarrow> (\<And>x. act_keeps R (k x)) \<Longrightarrow> act_keeps R f \<Longrightarrow> act_keeps R (act_handle m k f)"
  unfolding act_keeps_def act_handle_def
proof (intro allI)
  fix w
  assume m: "\<forall>w. R w (snd (m w))" and k: "\<And>x. \<forall>w. R w (snd (k x w))" and f: "\<forall>w. R w (snd (f w))"
  obtain r v where v: "m w = (r, v)" by (cases "m w")
  with m have 1: "R w v" by (metis snd_conv)
  show "R w (snd (case m w of (Inl e, w') \<Rightarrow> f w' | (Inr x, w') \<Rightarrow> k x w'))"
    using k f R_trans [OF 1] by (cases r) (auto simp: v)
qed

lemma keeps_require [intro!]: "act_keeps R k \<Longrightarrow> act_keeps R (act_require c msg k)"
  by (auto simp: act_keeps_def act_require_def R_refl)

lemma keeps_if [intro!]: "act_keeps R a \<Longrightarrow> act_keeps R b \<Longrightarrow> act_keeps R (if c then a else b)"
  by simp

lemma keeps_if_arg [intro!]:
  "act_keeps R (f k) \<Longrightarrow> act_keeps R (g k) \<Longrightarrow> act_keeps R ((if c then f else g) k)"
  by simp

lemma keeps_let [intro!]: "act_keeps R (k x) \<Longrightarrow> act_keeps R (let y = x in k y)"
  by simp

lemma keeps_option [intro!]:
  "act_keeps R a \<Longrightarrow> (\<And>x. act_keeps R (b x)) \<Longrightarrow> act_keeps R (case v of None \<Rightarrow> a | Some x \<Rightarrow> b x)"
  by (cases v) auto

lemma keeps_pair [intro!]: "(\<And>x y. act_keeps R (b x y)) \<Longrightarrow> act_keeps R (case v of (x, y) \<Rightarrow> b x y)"
  by (cases v) auto

lemma keeps_try [intro!]: "act_keeps R m \<Longrightarrow> act_keeps R (act_try x m)"
  unfolding act_keeps_def act_try_def by (auto split: prod.split sum.split py_error.split) (metis snd_conv)+

end

text \<open>
  No action but a reconciliation changes the generation of a handle or takes a revocation back, and
  no action breaks the journal or loses one of its rows.
\<close>

definition handle_frame :: "world \<Rightarrow> world \<Rightarrow> bool" where
  "handle_frame w w' \<longleftrightarrow>
     hd_device (handle w') = hd_device (handle w) \<and> hd_generation (handle w') = hd_generation (handle w) \<and>
     host_incarnation w' = host_incarnation w \<and>
     (hd_revoked (handle w) \<longrightarrow> hd_revoked (handle w'))"

definition journal_frame :: "world \<Rightarrow> world \<Rightarrow> bool" where
  "journal_frame w w' \<longleftrightarrow>
     (own_inv (journal w) \<longrightarrow> own_inv (journal w') \<and> store_leads (journal w) (journal w'))"

definition world_frame :: "world \<Rightarrow> world \<Rightarrow> bool" where
  "world_frame w w' \<longleftrightarrow> handle_frame w w' \<and> journal_frame w w'"

interpretation worlds: kept world_frame
  by unfold_locales
    (auto simp: world_frame_def handle_frame_def journal_frame_def intro: store_leads_trans)

lemma keeps_clock [intro!]:
  "act_keeps world_frame act_sample" "act_keeps world_frame (act_require_mapping fp m)"
  "act_keeps world_frame act_lease" "act_keeps world_frame act_journal_time"
  by (auto simp: act_keeps_def world_frame_def handle_frame_def journal_frame_def act_sample_def
      act_require_mapping_def act_lease_def act_journal_time_def split: prod.splits list.splits sum.splits)

lemma keeps_set_handle:
  "(\<And>h. hd_device (f h) = hd_device h \<and> hd_generation (f h) = hd_generation h \<and>
      (hd_revoked h \<longrightarrow> hd_revoked (f h))) \<Longrightarrow> act_keeps world_frame (set_handle f)"
  by (simp add: act_keeps_def world_frame_def handle_frame_def journal_frame_def)

text \<open>A journal operation keeps the frame when it is one of the store's.\<close>

definition journalled :: "(store \<Rightarrow> ('a \<times> store) result) \<Rightarrow> bool" where
  "journalled f \<longleftrightarrow> (\<forall>s v s'. own_inv s \<longrightarrow> f s = Inr (v, s') \<longrightarrow> own_inv s' \<and> store_leads s s')"

lemma keeps_journal: "journalled f \<Longrightarrow> act_keeps world_frame (act_journal f)"
  by (auto simp: act_keeps_def act_journal_def world_frame_def handle_frame_def journal_frame_def
      journalled_def split: sum.split)

lemma journalledI:
  "(\<And>s v s'. own_inv s \<Longrightarrow> f s = Inr (v, s') \<Longrightarrow> own_inv s') \<Longrightarrow>
    (\<And>s v s'. own_inv s \<Longrightarrow> f s = Inr (v, s') \<Longrightarrow> store_leads s s') \<Longrightarrow> journalled f"
  unfolding journalled_def by blast

lemma journalled_ops:
  "journalled (claim_device f k h hp g n)"
  "journalled (renew_device f gen h g n)"
  "journalled (admit_operation r)"
  "journalled (expire_queued_operation f gen h i n)"
  "journalled (quarantine_clock f gen h nt)"
  "journalled (revoke_dispatches f gen h nt)"
  "journalled (fence_native_recovery f gen h hp n)"
  "journalled (prepare_dispatch i ofp f gen h pr n)"
  "journalled (acknowledge_result rid rfp i gen h pr st dg n)"
  "journalled (reconcile_device rq ds h hp g n c)"
  "journalled (release_device sha f gen h n)"
  subgoal by (rule journalledI; (rule own_inv_claim | rule leads_claim); assumption)
  subgoal by (rule journalledI; (rule own_inv_renew | rule leads_renew); assumption)
  subgoal by (rule journalledI; (rule own_inv_admit | rule leads_admit); assumption)
  subgoal by (rule journalledI; (rule own_inv_expire_queued | rule leads_expire_queued); assumption)
  subgoal by (rule journalledI; (rule own_inv_quarantine_clock | rule leads_quarantine_clock); assumption)
  subgoal by (rule journalledI; (rule own_inv_revoke | rule leads_revoke); assumption)
  subgoal by (rule journalledI; (rule own_inv_fence | rule leads_fence); assumption)
  subgoal by (rule journalledI; (rule own_inv_prepare | rule leads_prepare); assumption)
  subgoal by (rule journalledI; (rule own_inv_acknowledge | rule leads_acknowledge); assumption)
  subgoal by (rule journalledI; (rule own_inv_reconcile | rule leads_reconcile); assumption)
  subgoal by (rule journalledI; (rule own_inv_release | rule leads_release); assumption)
  done

lemmas keeps_world = keeps_journal [OF journalled_ops(1)] keeps_journal [OF journalled_ops(2)]
  keeps_journal [OF journalled_ops(3)] keeps_journal [OF journalled_ops(4)]
  keeps_journal [OF journalled_ops(5)] keeps_journal [OF journalled_ops(6)]
  keeps_journal [OF journalled_ops(7)] keeps_journal [OF journalled_ops(8)]
  keeps_journal [OF journalled_ops(9)] keeps_journal [OF journalled_ops(11)]

declare keeps_world [intro!]

lemma keeps_now [intro!]: "act_keeps world_frame (da_now fp)"
  unfolding da_now_def by blast

lemma keeps_flag [intro!]:
  "act_keeps world_frame (set_handle (\<lambda>h. h\<lparr>hd_cache := c (hd_cache h)\<rparr>))"
  "act_keeps world_frame (set_handle (\<lambda>h. h\<lparr>hd_revoked := True\<rparr>))"
  "act_keeps world_frame (set_handle (\<lambda>h. h\<lparr>hd_native_attached := a, hd_cleanup_confirmed := b\<rparr>))"
  "act_keeps world_frame (set_handle (\<lambda>h. h\<lparr>hd_cleanup_confirmed := b\<rparr>))"
  "act_keeps world_frame (set_handle (\<lambda>h. h\<lparr>hd_grant := g\<rparr>))"
  "act_keeps world_frame (set_handle (\<lambda>h. h\<lparr>hd_recovery_borrows := n\<rparr>))"
  "act_keeps world_frame (set_handle (\<lambda>h. h\<lparr>hd_lease_open := x, hd_closed := y, hd_released := z\<rparr>))"
  by (rule keeps_set_handle, simp)+

lemma keeps_da_row [intro!]: "act_keeps world_frame da_row"
  unfolding da_row_def by blast

lemma keeps_da_status [intro!]: "act_keeps world_frame da_status"
  unfolding da_status_def by blast

lemma keeps_grant [intro!]: "act_keeps world_frame (ha_require_parent_grant fp g)"
  unfolding ha_require_parent_grant_def by blast

lemma keeps_remember [intro!]: "act_keeps world_frame (da_remember a)"
  unfolding da_remember_def by blast

lemma keeps_check [intro!]: "act_keeps world_frame (da_check_dispatch_permit fp p)"
  unfolding da_check_dispatch_permit_def by blast

lemma keeps_record [intro!]: "act_keeps world_frame (ha_record_provider_result fp a b c d r)"
  unfolding ha_record_provider_result_def by blast

lemma keeps_snapshot [intro!]: "act_keeps world_frame da_recovery_snapshot"
  unfolding da_recovery_snapshot_def by blast

lemma keeps_require_snapshot [intro!]: "act_keeps world_frame (da_require_recovery_snapshot fp s g)"
  unfolding da_require_recovery_snapshot_def by blast

lemma keeps_admit: "act_keeps world_frame (da_admit_operation fp a b c d e)"
  unfolding da_admit_operation_def Let_def by blast

lemma keeps_prepare: "act_keeps world_frame (da_prepare_dispatch fp a b)"
  unfolding da_prepare_dispatch_def by blast

lemma keeps_revoke: "act_keeps world_frame da_revoke_dispatches"
  unfolding da_revoke_dispatches_def by blast

lemma keeps_handshake: "act_keeps world_frame (da_bind_native_handshake fp p a b c d e f g)"
  unfolding da_bind_native_handshake_def by blast

lemma keeps_native_grant: "act_keeps world_frame (da_native_grant fp p n)"
  unfolding da_native_grant_def by (intro worlds.keeps_bind keeps_check worlds.keeps_pure)
    (auto split: prod.split option.split)

lemma keeps_confirm: "act_keeps world_frame (da_confirm_operation fp p r)"
  unfolding da_confirm_operation_def by blast

lemma keeps_confirm_cleanup: "act_keeps world_frame (da_confirm_native_cleanup fp p)"
  unfolding da_confirm_native_cleanup_def by blast

lemma keeps_ownership: "act_keeps world_frame (da_check_ownership fp)"
  unfolding da_check_ownership_def by blast

lemma keeps_observation: "act_keeps world_frame (da_check_observation_authority fp)"
  unfolding da_check_observation_authority_def by blast

lemma keeps_renew: "act_keeps world_frame (da_renew fp g)"
  unfolding da_renew_def by blast

lemma keeps_borrow: "act_keeps world_frame (da_borrow_recovery fp s g)"
  unfolding da_borrow_recovery_def by blast

lemma keeps_return: "act_keeps world_frame da_return_recovery"
  unfolding da_return_recovery_def by blast

lemma keeps_close: "act_keeps world_frame (da_close sha)"
  unfolding da_close_def by blast

lemma handle_step_frame: "\<not> is_reconcile x \<Longrightarrow> world_frame w (handle_step fp sha w x)"
  using keeps_admit keeps_prepare keeps_check keeps_revoke keeps_handshake keeps_native_grant keeps_confirm
    keeps_confirm_cleanup keeps_ownership keeps_observation keeps_renew keeps_snapshot keeps_borrow
    keeps_return keeps_close
  by (cases x) (simp_all add: act_keeps_def)

lemma handle_run_frame: "\<not> list_ex is_reconcile xs \<Longrightarrow> world_frame w (handle_run fp sha w xs)"
  unfolding handle_run_def
proof (induction xs arbitrary: w)
  case (Cons x xs)
  then have "world_frame w (handle_step fp sha w x)"
    "world_frame (handle_step fp sha w x) (foldl (handle_step fp sha) (handle_step fp sha w x) xs)"
    by (simp_all add: handle_step_frame)
  then show ?case by (simp add: worlds.R_trans)
qed (simp add: worlds.R_refl)

section \<open>Properties\<close>

lemma journal_time_total: "\<exists>n v. act_journal_time w = (Inr n, v)"
proof -
  obtain r v where "act_sample w = (r, v)" by (cases "act_sample w")
  then show ?thesis by (cases r) (auto simp: act_journal_time_def)
qed

lemma revoke_fences:
  assumes inv: "own_inv s" and run: "revoke_dispatches f gen h n s = Inr (v, s')"
  shows "\<exists>d. find_device s' f = Some d \<and> dev_generation d = gen \<and> fenced d"
  using run
proof (cases rule: revoke_cases)
  case (revoked d)
  then have "find_device s' f = Some (quarantine ''host-session-revoked'' n d)"
    by (simp add: find_device_put)
  with revoked(2) show ?thesis by (auto simp: fenced_def quarantine_reason_def)
next
  case (released d)
  with run show ?thesis by (auto simp: revoke_dispatches_def store_iff fenced_def)
qed

lemma da_prepare_journal:
  assumes "da_prepare_dispatch fp a pr u = (Inr q, u')"
  obtains ad pi now v row s where "a = Some ad" "da_now fp u = (Inr now, v)"
    "prepare_dispatch (adm_operation ad) (adm_fingerprint ad) (hd_device (handle u)) (hd_generation (handle u))
      (host_incarnation u) pi now (journal v) = Inr (row, s)"
proof -
  obtain ad where a: "a = Some ad" using assms by (cases a) (auto simp: da_prepare_dispatch_def act_iff)
  obtain g where g: "hd_grant (handle u) = Some g"
    using assms by (cases "hd_grant (handle u)") (auto simp: da_prepare_dispatch_def act_iff a)
  from assms obtain pi now v where "da_now fp u = (Inr now, v)" and
    "act_bind (act_journal (prepare_dispatch (adm_operation ad) (adm_fingerprint ad) (hd_device (handle u))
        (hd_generation (handle u)) (host_incarnation u) pi now)) (\<lambda>row. (case row of
           None \<Rightarrow> act_lift (Inl TypeError)
         | Some p \<Rightarrow> act_return
              \<lparr>pm_protocol = PROTOCOL_VERSION, pm_operation = op_id p,
               pm_fingerprint = op_fingerprint p, pm_payload_digest = op_payload_digest p,
               pm_project = op_project p, pm_session = op_session p,
               pm_controller = op_controller p, pm_sequence = op_sequence p,
               pm_generation = op_generation p, pm_host = op_host p,
               pm_helper = hd_helper (handle u), pm_provider = pi,
               pm_deadline_ns = min (op_deadline_ns p) (pg_deadline_ns g),
               pm_device = hd_device (handle u), pm_issuer = hd_issuer (handle u)\<rparr>)) v = (Inr q, u')"
    unfolding da_prepare_dispatch_def a
    by (clarsimp simp: act_bind_Inr act_require_Inr da_open_Inr g) (fastforce simp: act_bind_Inr split: if_split_asm)
  with a show thesis by (clarsimp simp: act_bind_Inr act_journal_Inr) (rule that)
qed

lemma revoked_journal:
  assumes inv: "own_inv (journal w)" and rev: "da_revoke_dispatches w = (Inr (), w1)"
  obtains n s and v :: world where
    "revoke_dispatches (hd_device (handle w1)) (hd_generation (handle w1)) (host_incarnation w1) n (journal v) = Inr ((), s)"
    "journal w1 = s" "own_inv (journal v)" "hd_revoked (handle w1)"
proof -
  let ?v = "w\<lparr>handle := (handle w)\<lparr>hd_revoked := True\<rparr>\<rparr>"
  obtain n v where n: "act_journal_time ?v = (Inr n, v)" using journal_time_total [of ?v] by (elim exE)
  have fv: "world_frame ?v v"
    using keeps_clock(4) [unfolded act_keeps_def, THEN spec, of ?v] by (simp add: n)
  then have "own_inv (journal v)" "hd_revoked (handle v)"
    using inv by (simp_all add: world_frame_def journal_frame_def handle_frame_def)
  moreover obtain s where "revoke_dispatches (hd_device (handle v)) (hd_generation (handle v))
      (host_incarnation v) n (journal v) = Inr ((), s)" "w1 = v\<lparr>journal := s\<rparr>"
  proof -
    have "\<exists>x u. act_journal_time ?v = (Inr x, u) \<and>
        act_journal (revoke_dispatches (hd_device (handle u)) (hd_generation (handle u)) (host_incarnation u) x) u =
          (Inr (), w1)"
      using rev unfolding da_revoke_dispatches_def act_bind_Inr da_open_Inr by auto
    with n that show thesis by (auto simp: act_journal_Inr)
  qed
  ultimately show thesis by (auto intro!: that [of n v s])
qed

text \<open>
  C35. Revocation is final: once a handle has revoked its dispatches, no permit passes the check
  before an effect and no dispatch is prepared again, through any calls on the handle, until a
  reconciliation.
\<close>

theorem revocation_is_final:
  assumes "journal w = store_after sha cd ys" and "da_revoke_dispatches w = (Inr (), w1)"
    and "\<not> list_ex is_reconcile xs"
  shows "fst (da_check_dispatch_permit fp p (handle_run fp sha w1 xs)) \<noteq> Inr t \<and>
    fst (da_prepare_dispatch fp a pr (handle_run fp sha w1 xs)) \<noteq> Inr q"
proof -
  let ?u = "handle_run fp sha w1 xs"
  have inv: "own_inv (journal w)" unfolding assms(1) by (rule store_after_inv)
  have frame: "world_frame w w1" using keeps_revoke assms(2) by (metis act_keeps_def snd_conv)
  obtain n s and v :: world where rev: "revoke_dispatches (hd_device (handle w1)) (hd_generation (handle w1))
      (host_incarnation w1) n (journal v) = Inr ((), s)" "journal w1 = s" "own_inv (journal v)" "hd_revoked (handle w1)"
    using inv assms(2) by (rule revoked_journal)
  from revoke_fences [OF rev(3,1)] rev(2) obtain d where
    d: "find_device (journal w1) (hd_device (handle w1)) = Some d" "dev_generation d = hd_generation (handle w1)"
    "fenced d" by auto
  have inv1: "own_inv (journal w1)"
    using inv frame by (simp add: world_frame_def journal_frame_def)
  have run: "world_frame w1 ?u" using assms(3) by (rule handle_run_frame)
  have "fst (da_check_dispatch_permit fp p ?u) \<noteq> Inr t"
  proof
    assume "fst (da_check_dispatch_permit fp p ?u) = Inr t"
    then obtain u' where "da_check_dispatch_permit fp p ?u = (Inr t, u')" by (metis fst_conv prod.collapse)
    then have "\<not> hd_revoked (handle ?u)" unfolding da_check_dispatch_permit_def by (auto simp: act_iff)
    with rev(4) run show False by (simp add: world_frame_def handle_frame_def)
  qed
  moreover have "fst (da_prepare_dispatch fp a pr ?u) \<noteq> Inr q"
  proof
    assume "fst (da_prepare_dispatch fp a pr ?u) = Inr q"
    then obtain u' where ok: "da_prepare_dispatch fp a pr ?u = (Inr q, u')" by (metis fst_conv prod.collapse)
    then obtain now prv row s and ad :: admission and x :: world where now: "da_now fp ?u = (Inr now, x)"
      and prep: "prepare_dispatch (adm_operation ad) (adm_fingerprint ad) (hd_device (handle ?u))
        (hd_generation (handle ?u)) (host_incarnation ?u) prv now (journal x) = Inr (row, s)"
      by (rule da_prepare_journal)
    have "world_frame ?u x" using keeps_now now by (metis act_keeps_def snd_conv)
    with run have "world_frame w1 x" by (rule worlds.R_trans)
    with inv1 have "store_leads (journal w1) (journal x)"
      by (simp add: world_frame_def journal_frame_def)
    from leads_device [OF this d(1)] obtain e where
      e: "find_device (journal x) (hd_device (handle w1)) = Some e" "device_leads d e" by blast
    from run have same: "hd_device (handle ?u) = hd_device (handle w1)"
      "hd_generation (handle ?u) = hd_generation (handle w1)"
      by (simp_all add: world_frame_def handle_frame_def)
    from prep e d show False unfolding same
      by (cases rule: prepare_cases) (auto simp: device_leads_def fenced_def)
  qed
  ultimately show ?thesis ..
qed

text \<open>
  C36. The deadline of a native grant never outlives the host permit. If the native clock runs no
  slower than the qualified rate error allows from the moment of the handshake, and its value then
  was the one reported up to the qualified uncertainty, it has passed the granted native deadline
  when the permit's deadline comes on the host.
\<close>

theorem native_deadline_within_permit:
  fixes native :: "real \<Rightarrow> real"
  assumes "da_native_grant fp (Some p) (Some n) w = (Inr g, w')"
    and "0 \<le> nh_rate_error_ppm n" and "nh_rate_error_ppm n \<le> 1000000"
    and "t0 \<le> real_of_int (nh_received_ns n)"
    and "real_of_int (nh_time_ms n) - real_of_int (nh_uncertainty_ms n) \<le> native t0"
    and "\<forall>t \<ge> t0. (t - t0) / 1000000 * (1 - real_of_int (nh_rate_error_ppm n) / 1000000) \<le> native t - native t0"
    and "real_of_int (pm_deadline_ns p) \<le> t" and "t0 \<le> t"
  shows "real_of_int (ng_deadline_ms g) \<le> native t \<and> nh_time_ms n < ng_deadline_ms g"
proof -
  from assms(1) have g: "ng_deadline_ms g = nh_time_ms n + native_duration p n - nh_uncertainty_ms n"
    "nh_uncertainty_ms n < native_duration p n"
    unfolding da_native_grant_def by (auto simp: act_iff clock_integer_Inr)
  let ?r = "max 0 (pm_deadline_ns p - nh_received_ns n) div 1000000"
  let ?k = "1000000 - nh_rate_error_ppm n"
  have k: "0 \<le> ?k" using assms(3) by simp
  have "real_of_int (native_duration p n) \<le> real_of_int (?r * ?k) / 1000000"
    unfolding native_duration_def Let_def using floor_divide_of_int_eq [of "?r * ?k" 1000000, where ?'a = real]
    by (metis of_int_floor_le of_int_numeral)
  also have "\<dots> = real_of_int ?r * (1 - real_of_int (nh_rate_error_ppm n) / 1000000)"
    by (simp add: field_simps)
  also have "\<dots> \<le> (t - t0) / 1000000 * (1 - real_of_int (nh_rate_error_ppm n) / 1000000)"
  proof (rule mult_right_mono)
    have "real_of_int ?r \<le> real_of_int (max 0 (pm_deadline_ns p - nh_received_ns n)) / 1000000"
      using floor_divide_of_int_eq [of "max 0 (pm_deadline_ns p - nh_received_ns n)" 1000000, where ?'a = real]
      by (metis of_int_floor_le of_int_numeral)
    also have "real_of_int (max 0 (pm_deadline_ns p - nh_received_ns n)) \<le> t - t0"
      using assms(4,7,8) by (auto simp: max_def)
    finally show "real_of_int ?r \<le> (t - t0) / 1000000" by (simp add: divide_right_mono)
    show "0 \<le> 1 - real_of_int (nh_rate_error_ppm n) / 1000000" using assms(3) by simp
  qed
  also have "\<dots> \<le> native t - native t0" using assms(6,8) by blast
  finally show ?thesis using assms(5) g by simp
qed

lemma evict_oldest_drop: "evict_oldest n c = drop (length c - n) c"
proof (induction n c rule: evict_oldest.induct)
  case (1 n c)
  show ?case
  proof (cases "n < length c")
    case True
    then obtain x xs where c: "c = x # xs" by (cases c) auto
    with True 1 show ?thesis by (subst evict_oldest.simps) (simp add: Suc_diff_le)
  next
    case False
    then show ?thesis by (subst evict_oldest.simps) simp
  qed
qed

text \<open>
  C37. The loop that trims the operation cache ends, with the newest entries left: after an admission
  is remembered the cache is within its size, holds that admission last and one entry for each
  operation, and has lost the oldest entry only if it was full.
\<close>

theorem cache_trimming_ends:
  assumes "0 < n" and "distinct (map adm_operation c)" and "length c \<le> n"
  shows "evict_oldest n xs = drop (length xs - n) xs \<and> length (remember n a c) \<le> n \<and>
    last (remember n a c) = a \<and> distinct (map adm_operation (remember n a c)) \<and>
    (length c < n \<longrightarrow> set c - {x. adm_operation x = adm_operation a} \<subseteq> set (remember n a c))"
proof -
  let ?f = "filter (\<lambda>x. adm_operation x \<noteq> adm_operation a) c"
  have r: "remember n a c = drop (length (?f @ [a]) - n) (?f @ [a])"
    by (simp only: remember_def evict_oldest_drop)
  have "last (remember n a c) = a" using assms(1) unfolding r by (simp add: last_drop)
  moreover have "distinct (map adm_operation (?f @ [a]))"
    using assms(2) by (auto simp: distinct_map_filter)
  then have "distinct (map adm_operation (remember n a c))" unfolding r by (simp only: drop_map distinct_drop flip: drop_map)
  moreover have "remember n a c = ?f @ [a]" if "length c < n"
  proof -
    have "length (?f @ [a]) \<le> n" using le_less_trans [OF length_filter_le that] by (simp add: Suc_le_eq)
    then show ?thesis unfolding r by simp
  qed
  ultimately show ?thesis using evict_oldest_drop [of n xs] unfolding r [symmetric]
    by (auto simp: r)
qed

lemma journal_time_same:
  assumes "act_journal_time w = (r, v)"
  shows "journal v = journal w \<and> handle v = handle w \<and> host_incarnation v = host_incarnation w \<and>
    (\<exists>n. r = Inr n)"
  using assms by (auto simp: act_journal_time_def act_sample_def split: prod.splits sum.splits)

lemma revoke_error: "revoke_dispatches f gen h n s = Inl e \<Longrightarrow> \<exists>m. e = ContractError m"
  by (auto simp: revoke_dispatches_def transaction_def require_store_def ensure_def update_device_def
      store_failed_def bind_result_def Let_def split: option.splits if_splits)

lemma close_body:
  fixes v :: world
  assumes inv: "own_inv (journal v)" and dev: "find_device (journal v) (hd_device h) = Some d" "dev_status d \<noteq> Released"
    and h: "handle v = h"
  obtains u where "act_try False (act_bind
      (act_bind (set_handle (\<lambda>h. h\<lparr>hd_revoked := True\<rparr>)) (\<lambda>_.
         act_journal (revoke_dispatches (hd_device h) (hd_generation h) (host_incarnation v) n)))
      (\<lambda>_. act_bind da_row (\<lambda>row. act_return (case row of None \<Rightarrow> False | Some d \<Rightarrow> dev_status d = Released)))) v =
        (Inr False, u)"
    "\<exists>d'. find_device (journal u) (hd_device h) = Some d' \<and> dev_status d' \<noteq> Released"
proof -
  let ?v = "v\<lparr>handle := h\<lparr>hd_revoked := True\<rparr>\<rparr>"
  let ?rev = "revoke_dispatches (hd_device h) (hd_generation h) (host_incarnation v) n (journal v)"
  show thesis
  proof (cases ?rev)
    case (Inl e)
    with revoke_error obtain m where "e = ContractError m" by blast
    with Inl show thesis
      using dev by (intro that [of ?v]) (simp_all add: act_try_def act_bind_def act_journal_def h)
  next
    case (Inr p)
    obtain s where p: "p = ((), s)" by (cases p) simp
    with Inr have run: "?rev = Inr ((), s)" by simp
    have closed: "\<not> store_closed s"
      using run by (cases rule: revoke_cases) (use run in \<open>auto simp: revoke_dispatches_def transaction_Inr\<close>)
    obtain d' where d': "find_device s (hd_device h) = Some d'" "dev_status d' \<noteq> Released"
      using run
    proof (cases rule: revoke_cases)
      case (revoked e)
      with that show thesis by (simp add: find_device_put)
    qed (use that dev in auto)
    with run closed show thesis
      by (intro that [of "?v\<lparr>journal := s\<rparr>"])
        (simp_all add: act_try_def act_bind_def act_journal_def h da_row_def read_device_def transaction_def
          require_store_def)
  qed
qed

text \<open>
  C38. Closing a handle whose native helper was attached and not confirmed clean never gives the
  device back: close reports that it was not released, and the journal does not show it released.
\<close>

theorem close_keeps_unconfirmed_device:
  assumes "journal w = store_after sha cd ys"
    and "hd_native_attached (handle w)" and "\<not> hd_cleanup_confirmed (handle w)" and "\<not> hd_closed (handle w)"
    and "find_device (journal w) (hd_device (handle w)) = Some d" and "dev_status d \<noteq> Released"
    and "da_close sha w = (r, w')"
  shows "r = Inr False \<and> hd_closed (handle w') \<and>
    (\<exists>d'. find_device (journal w') (hd_device (handle w)) = Some d' \<and> dev_status d' \<noteq> Released)"
proof -
  have inv: "own_inv (journal w)" unfolding assms(1) by (rule store_after_inv)
  obtain rn v where v: "act_journal_time w = (rn, v)" by (cases "act_journal_time w")
  obtain n where n: "rn = Inr n" and same: "journal v = journal w" "handle v = handle w"
    "host_incarnation v = host_incarnation w"
    using journal_time_same [OF v] by blast
  obtain u where u: "act_try False (act_bind
      (act_bind (set_handle (\<lambda>h. h\<lparr>hd_revoked := True\<rparr>)) (\<lambda>_.
         act_journal (revoke_dispatches (hd_device (handle w)) (hd_generation (handle w)) (host_incarnation v) n)))
      (\<lambda>_. act_bind da_row (\<lambda>row. act_return (case row of None \<Rightarrow> False | Some d \<Rightarrow> dev_status d = Released)))) v =
        (Inr False, u)"
    "\<exists>d'. find_device (journal u) (hd_device (handle w)) = Some d' \<and> dev_status d' \<noteq> Released"
    by (rule close_body [of v "handle w" d n]) (use inv assms(5,6) same in simp_all)
  have lease: "\<exists>x. act_try False (act_bind act_lease (\<lambda>_. act_return False)) u = (Inr False, x) \<and> journal x = journal u"
    by (auto simp: act_try_def act_bind_def act_lease_def split: list.split)
  then obtain x where x: "act_try False (act_bind act_lease (\<lambda>_. act_return False)) u = (Inr False, x)"
    "journal x = journal u" by blast
  from assms(7) show ?thesis
    unfolding da_close_def using assms(2-4) v n u x same
    by (auto simp: act_bind_def)
qed

definition readings_valid :: "world \<Rightarrow> bool" where
  "readings_valid w \<longleftrightarrow>
     list_all (\<lambda>r. case r of None \<Rightarrow> True | Some x \<Rightarrow> 0 \<le> nanoseconds x \<and> 0 \<le> uncertainty_ns x) (readings w)"

lemma require_mapping_same:
  assumes "act_require_mapping fp m w = (r, v)"
  shows "journal v = journal w \<and> handle v = handle w \<and> host_incarnation v = host_incarnation w \<and>
    readings v = tl (readings w)"
  using assms by (auto simp: act_require_mapping_def split: prod.splits)

lemma journal_time_valid:
  assumes "act_journal_time w = (Inr (Some n), v)" and "readings_valid w"
  shows "0 \<le> n"
  using assms
  by (auto simp: act_journal_time_def act_sample_def sample_def next_reading_def readings_valid_def
      now_of_def Let_def split: prod.splits sum.splits list.splits option.splits)

text \<open>
  A clock that can no longer vouch for the grant's mapping takes the device out of service for
  good: asking for the time under the grant raises, and the journal shows the device quarantined.
\<close>

theorem clock_fault_quarantines:
  assumes "journal w = store_after sha cd ys" and "\<not> store_closed (journal w)"
    and "da_open w = (Inr (), w)" and "hd_grant (handle w) = Some g" and "readings_valid w"
    and "find_device (journal w) (hd_device (handle w)) = Some d"
    and "dev_generation d = hd_generation (handle w)" and "dev_host d = host_incarnation w"
    and "fst (act_require_mapping fp (Some (pg_mapping g)) w) = Inl e"
  shows "\<exists>w'. da_now fp w = (Inl (ContractError ''Clock mapping is incompatible''), w') \<and>
    map_option dev_status (find_device (journal w') (hd_device (handle w))) = Some Quarantined"
proof -
  have inv: "own_inv (journal w)" unfolding assms(1) by (rule store_after_inv)
  let ?h = "handle w"
  obtain v where v: "act_require_mapping fp (Some (pg_mapping g)) w = (Inl e, v)"
    using assms(9) by (metis prod.collapse)
  note sv = require_mapping_same [OF v]
  obtain n u where u: "act_journal_time v = (Inr n, u)" using journal_time_total [of v] by (elim exE)
  note su = journal_time_same [OF u]
  have "readings_valid v" using assms(5) sv by (cases "readings w") (auto simp: readings_valid_def)
  then have n: "0 \<le> coalesce n (dev_updated_ns d)"
    using journal_time_valid [of v _ u] u own_inv_device [OF inv assms(6)]
    by (auto simp: coalesce_def device_ok_def device_checks_def split: option.splits)
  let ?q = "quarantine ''clock-incompatible'' n" and ?hit = "\<lambda>d. dev_generation d = hd_generation ?h \<and> dev_host d = host_incarnation w"
  note only = own_inv_the_device [OF inv assms(6)]
  note dd = find_device_Some [OF assms(6)]
  have checks: "device_checks (?q e)" if "e \<in> set (devices (journal w))" "dev_fingerprint e = hd_device ?h" for e
    using only [OF that] n own_inv_device [OF inv assms(6)]
    by (simp add: device_ok_def device_checks_def quarantine_def with_status_def)
  have one: "length (filter (\<lambda>e. dev_fingerprint e = hd_device ?h \<and> ?hit e) (devices (journal w))) = 1"
  proof -
    have "length (filter (\<lambda>e. dev_fingerprint e = hd_device ?h \<and> ?hit e) (devices (journal w))) \<le> 1"
    proof (rule at_most_one)
      show "distinct (devices (journal w))" using inv by (simp add: own_inv_def distinct_keys_def distinct_map)
      fix x y assume "x \<in> set (devices (journal w))" "y \<in> set (devices (journal w))"
        "dev_fingerprint x = hd_device ?h \<and> ?hit x" "dev_fingerprint y = hd_device ?h \<and> ?hit y"
      with only [of x] only [of y] show "x = y" by simp
    qed
    moreover have "d \<in> set (filter (\<lambda>e. dev_fingerprint e = hd_device ?h \<and> ?hit e) (devices (journal w)))"
      using dd assms(7,8) by simp
    ultimately show ?thesis by (cases "filter (\<lambda>e. dev_fingerprint e = hd_device ?h \<and> ?hit e) (devices (journal w))") auto
  qed
  let ?s = "put_device (hd_device ?h) ?hit ?q (journal w)"
  have run: "quarantine_clock (hd_device ?h) (hd_generation ?h) (host_incarnation w) n (journal w) = Inr ((), ?s)"
    using assms(2) one checks
    by (auto simp: quarantine_clock_def transaction_def require_store_def Let_def update_device_def list_all_iff put_device_def)
  have "find_device ?s (hd_device ?h) = Some (?q d)"
  proof -
    have "tbl_lookup dev_fingerprint f (tbl_update (\<lambda>e. dev_fingerprint e = f \<and> ?hit e) ?q rows) =
        map_option (\<lambda>e. if ?hit e then ?q e else e) (tbl_lookup dev_fingerprint f rows)" for f rows
      by (induction rows) (auto simp: tbl_update_def)
    with assms(6-8) show ?thesis by (simp add: find_device_def)
  qed
  moreover have "da_now fp w = (Inl (ContractError ''Clock mapping is incompatible''), u\<lparr>journal := ?s\<rparr>)"
    unfolding da_now_def using assms(3,4) v u run sv su
    by (simp add: act_bind_def act_handle_def act_journal_def)
  ultimately show ?thesis by simp
qed

end
