(* ===== verification/Store_Demo.thy ===== *)
theory Store_Demo
  imports Store_Runs
begin

text \<open>
  One device through its life: claimed by a host, an operation admitted, dispatched, acknowledged,
  and then either given back or revoked and reconciled. The properties of \<open>Store_Runs\<close> are applied
  along this run.
\<close>

definition demo_grant :: "string \<Rightarrow> grant_values" where
  "demo_grant i = \<lparr>gv_grant = i, gv_project = ''p'', gv_controller = ''c'', gv_renewal_sequence = 1,
     gv_deadline_ns = 100, gv_mapping = ''m''\<rparr>"

definition demo_request :: operation_request where
  "demo_request = \<lparr>op_id = ''o'', op_fingerprint = ''of'', op_device = ''d'', op_protocol = 1,
     op_generation = 1, op_project = ''p'', op_session = ''s'', op_controller = ''c'',
     op_sequence = 1, op_payload_digest = ''x'', op_host = ''h'', op_helper = ''k'',
     op_deadline_ns = 50, op_admitted_ns = 11\<rparr>"

abbreviation no_sha :: "string \<Rightarrow> string" where "no_sha \<equiv> (\<lambda>_. '''')"
abbreviation no_digest :: "(string \<times> pyval) list \<Rightarrow> string" where "no_digest \<equiv> (\<lambda>_. '''')"

definition demo_claim :: store_op where
  "demo_claim = Claim_Device ''d'' ''android'' ''h'' ''k'' (demo_grant ''g'') 10"

definition demo_owned :: device where
  "demo_owned = first_row ''d'' ''android'' ''h'' ''k'' (demo_grant ''g'') 10"

definition demo_store :: "device \<Rightarrow> operation list \<Rightarrow> receipt list \<Rightarrow> store" where
  "demo_store d ps rs = new_store\<lparr>devices := [d], operations := ps, receipts := rs,
     watermarks := (if ps = [] then [] else [((''d'', 1, ''c''), 1)])\<rparr>"

definition demo_dispatch :: store_op where
  "demo_dispatch = Prepare_Dispatch ''o'' ''of'' ''d'' 1 ''h'' ''v'' 12"

definition demo_receipt :: receipt where
  "demo_receipt = receipt_row ''r'' ''rf'' ''o'' 1 ''v'' R_Succeeded ''x'' 20 True"

definition demo_confirm :: store_op where
  "demo_confirm = Acknowledge_Result ''r'' ''rf'' ''o'' 1 ''h'' ''v'' R_Succeeded ''x'' 20"

definition demo_revoke :: store_op where
  "demo_revoke = Revoke_Dispatches ''d'' 1 ''h'' (Some 15)"

lemmas demo_defs = demo_grant_def demo_request_def demo_claim_def demo_owned_def demo_store_def
  demo_dispatch_def demo_receipt_def demo_confirm_def demo_revoke_def new_store_def first_row_def

lemmas store_eval = transaction_def require_store_def find_device_def find_operation_def
  find_receipt_def drop_value_def update_device_def tbl_update_def device_checks_def Let_def

lemma demo_claimed:
  "store_step no_sha no_digest new_store demo_claim = Inr ((), demo_store demo_owned [] [])"
  by (simp add: demo_defs store_eval claim_device_def MAX_DEVICES_def)

lemma demo_admitted:
  "store_step no_sha no_digest (demo_store demo_owned [] []) (Admit_Operation demo_request) =
     Inr ((), demo_store demo_owned [queued_row demo_request] [])"
  by (simp add: demo_defs store_eval admit_operation_def watermark_def request_key_def
      MAX_OPERATIONS_PER_DEVICE_def operation_checks_def operation_unique_def queued_row_def
      operation_request.defs operation.defs)

lemma demo_dispatched:
  "store_step no_sha no_digest (demo_store demo_owned [queued_row demo_request] []) demo_dispatch =
     Inr ((), demo_store (unconfirmed 12 demo_owned) [dispatch_row ''v'' (queued_row demo_request)] [])"
  by (simp add: demo_defs store_eval prepare_dispatch_def queued_row_def with_status_def dispatch_row_def
      operation_request.defs operation.defs)

lemma demo_confirmed:
  "store_step no_sha no_digest
     (demo_store (unconfirmed 12 demo_owned) [dispatch_row ''v'' (queued_row demo_request)] []) demo_confirm =
     Inr ((), demo_store (with_status Owned None 20 demo_owned)
       [confirm_row Succeeded ''x'' 20 (dispatch_row ''v'' (queued_row demo_request))] [demo_receipt])"
  by (simp add: demo_defs store_eval acknowledge_result_def queued_row_def with_status_def dispatch_row_def
      operation_request.defs operation.defs receipt_is_current_def receipt_unique_def
      MAX_RECEIPTS_PER_OPERATION_def confirm_row_def receipt_row_def)

lemma demo_revoked:
  "store_step no_sha no_digest
     (demo_store (unconfirmed 12 demo_owned) [dispatch_row ''v'' (queued_row demo_request)] []) demo_revoke =
     Inr ((), demo_store (with_status Quarantined (Some ''host-session-revoked'') 15 demo_owned)
       [dispatch_row ''v'' (queued_row demo_request)] [])"
  by (simp add: demo_defs store_eval revoke_dispatches_def quarantine_def quarantine_reason_def
      coalesce_def with_status_def)

abbreviation demo_after :: "store_op list \<Rightarrow> store" where
  "demo_after \<equiv> store_after no_sha no_digest"

lemma demo_runs:
  "demo_after [demo_claim] = demo_store demo_owned [] []"
  "demo_after [demo_claim, Admit_Operation demo_request] =
     demo_store demo_owned [queued_row demo_request] []"
  "demo_after [demo_claim, Admit_Operation demo_request, demo_dispatch] =
     demo_store (unconfirmed 12 demo_owned) [dispatch_row ''v'' (queued_row demo_request)] []"
  "demo_after [demo_claim, Admit_Operation demo_request, demo_dispatch, demo_confirm] =
     demo_store (with_status Owned None 20 demo_owned)
       [confirm_row Succeeded ''x'' 20 (dispatch_row ''v'' (queued_row demo_request))] [demo_receipt]"
  "demo_after [demo_claim, Admit_Operation demo_request, demo_dispatch, demo_revoke] =
     demo_store (with_status Quarantined (Some ''host-session-revoked'') 15 demo_owned)
       [dispatch_row ''v'' (queued_row demo_request)] []"
  by (simp_all add: store_after_def demo_claimed demo_admitted demo_dispatched demo_confirmed demo_revoked
      del: store_step.simps)

lemma demo_device [simp]: "find_device (demo_store d ps rs) (dev_fingerprint d) = Some d"
  by (simp add: find_device_def demo_store_def new_store_def)

lemma demo_owned_simps [simp]:
  "dev_fingerprint demo_owned = ''d''" "dev_generation demo_owned = 1" "dev_status demo_owned = Owned"
  "dev_host demo_owned = ''h''" "dev_deadline_ns demo_owned = 100"
  by (simp_all add: demo_owned_def first_row_def demo_grant_def)

section \<open>The properties along the run\<close>

abbreviation demo_in_flight :: "store_op list" where
  "demo_in_flight \<equiv> [demo_claim, Admit_Operation demo_request, demo_dispatch]"

lemma demo_in_flight_device:
  "find_device (demo_after demo_in_flight) ''d'' = Some (unconfirmed 12 demo_owned)"
  using demo_device [of "unconfirmed 12 demo_owned"] by (simp add: demo_runs)

lemma no_effect_left_open_witness:
  "length (filter (\<lambda>p. op_device p = ''d'' \<and> op_status p = Uncertain)
     (operations (demo_after demo_in_flight))) \<le> 1 \<and>
   filter (\<lambda>p. op_device p = ''d'' \<and> op_status p = Uncertain) (operations (demo_after demo_in_flight)) \<noteq> []"
proof
  show "length (filter (\<lambda>p. op_device p = ''d'' \<and> op_status p = Uncertain)
     (operations (demo_after demo_in_flight))) \<le> 1"
    by (rule no_effect_left_open [OF demo_in_flight_device, THEN conjunct2])
  show "filter (\<lambda>p. op_device p = ''d'' \<and> op_status p = Uncertain) (operations (demo_after demo_in_flight)) \<noteq> []"
    unfolding demo_runs by (simp add: demo_store_def new_store_def demo_request_def)
qed

lemma demo_prepare:
  "\<exists>v. prepare_dispatch ''o'' ''of'' ''d'' 1 ''h'' ''v'' 12 (demo_after [demo_claim, Admit_Operation demo_request]) =
     Inr (v, demo_after demo_in_flight)"
  unfolding demo_runs using demo_dispatched by (simp add: demo_dispatch_def drop_value_Inr)

lemma dispatched_at_most_once_witness:
  "\<nexists>w. prepare_dispatch ''o'' ''of'' ''d'' 1 ''h'' ''v'' 21
     (store_run no_sha no_digest (demo_after demo_in_flight) [demo_confirm]) = Inr w"
proof -
  obtain v where "prepare_dispatch ''o'' ''of'' ''d'' 1 ''h'' ''v'' 12
      (demo_after [demo_claim, Admit_Operation demo_request]) = Inr (v, demo_after demo_in_flight)"
    using demo_prepare by blast
  from dispatched_at_most_once [OF this] show ?thesis by blast
qed

abbreviation demo_fenced :: "store_op list" where
  "demo_fenced \<equiv> [demo_claim, Admit_Operation demo_request, demo_dispatch, demo_revoke]"

abbreviation demo_revoked_device :: device where
  "demo_revoked_device \<equiv> with_status Quarantined (Some ''host-session-revoked'') 15 demo_owned"

lemma demo_fenced_device:
  "find_device (demo_after demo_fenced) ''d'' = Some demo_revoked_device"
  using demo_device [of demo_revoked_device] by (simp add: demo_runs)

lemma demo_late_receipt:
  "\<exists>w t. acknowledge_result ''r'' ''rf'' ''o'' 1 ''h'' ''v'' R_Succeeded ''x'' 20 (demo_after demo_fenced) =
     Inr (w, t) \<and> receipts t \<noteq> []"
  unfolding demo_runs
  by (simp add: demo_defs store_eval acknowledge_result_def queued_row_def with_status_def dispatch_row_def
      operation_request.defs operation.defs receipt_is_current_def receipt_unique_def
      MAX_RECEIPTS_PER_OPERATION_def)

lemma fenced_generation_stays_fenced_witness:
  "\<exists>w t. acknowledge_result ''r'' ''rf'' ''o'' 1 ''h'' ''v'' R_Succeeded ''x'' 20 (demo_after demo_fenced) =
     Inr (w, t) \<and> receipts t \<noteq> [] \<and> devices t = devices (demo_after demo_fenced) \<and>
     operations t = operations (demo_after demo_fenced)"
proof -
  obtain w t where run: "acknowledge_result ''r'' ''rf'' ''o'' 1 ''h'' ''v'' R_Succeeded ''x'' 20
      (demo_after demo_fenced) = Inr (w, t)" "receipts t \<noteq> []"
    using demo_late_receipt by blast
  moreover have "map_option op_device (find_operation (demo_after demo_fenced) ''o'') = Some ''d''"
    unfolding demo_runs by (simp add: demo_store_def find_operation_def new_store_def demo_request_def)
  ultimately show ?thesis
    using fenced_generation_stays_fenced [OF demo_fenced_device,
      where gen = 1 and t = "demo_after demo_fenced" and ys = "[]"]
    by (simp add: fenced_def)
qed

abbreviation demo_done :: "store_op list" where
  "demo_done \<equiv> [demo_claim, Admit_Operation demo_request, demo_dispatch, demo_confirm]"

abbreviation demo_confirmed_row :: operation where
  "demo_confirmed_row \<equiv> confirm_row Succeeded ''x'' 20 (dispatch_row ''v'' (queued_row demo_request))"

lemma demo_done_rows:
  "find_operation (demo_after demo_done) ''o'' = Some demo_confirmed_row"
  "find_receipt (demo_after demo_done) ''r'' = Some demo_receipt"
  unfolding demo_runs
  by (simp_all add: demo_store_def find_operation_def find_receipt_def new_store_def
      demo_request_def demo_receipt_def receipt_row_def)

lemma settled_rows_stay_witness:
  "find_operation (store_run no_sha no_digest (demo_after demo_done) [demo_revoke, demo_claim]) ''o'' =
     Some demo_confirmed_row \<and>
   find_receipt (store_run no_sha no_digest (demo_after demo_done) [demo_revoke, demo_claim]) ''r'' =
     Some demo_receipt"
  by (rule settled_rows_stay [OF demo_done_rows(1) _ demo_done_rows(2)]) (simp add: unfinished_def)

lemma demo_acknowledge:
  "\<exists>v. acknowledge_result ''r'' ''rf'' ''o'' 1 ''h'' ''v'' R_Succeeded ''x'' 20 (demo_after demo_in_flight) =
     Inr (v, demo_after demo_done)"
  unfolding demo_runs using demo_confirmed by (simp add: demo_confirm_def drop_value_Inr)

lemma acknowledgement_idempotent_witness:
  "\<exists>r. acknowledge_result ''r'' ''rf'' ''o'' 1 ''h'' ''v'' R_Succeeded ''x'' 30 (demo_after demo_done) =
     Inr (Some r, demo_after demo_done)"
proof -
  obtain v where "acknowledge_result ''r'' ''rf'' ''o'' 1 ''h'' ''v'' R_Succeeded ''x'' 20
      (demo_after demo_in_flight) = Inr (v, demo_after demo_done)"
    using demo_acknowledge by blast
  then have "v \<noteq> None \<and> acknowledge_result ''r'' ''rf'' ''o'' 1 ''h'' ''v'' R_Succeeded ''x'' 30
      (demo_after demo_done) = Inr (v, demo_after demo_done)"
    by (rule acknowledgement_idempotent [where ys = "[]"])
      (simp_all add: demo_runs demo_store_def new_store_def)
  then show ?thesis by auto
qed

definition demo_reconciliation :: reconciliation_request where
  "demo_reconciliation = \<lparr>rq_id = ''q'', rq_fingerprint = ''qf'', rq_device = ''d'', rq_prior_generation = 1,
     rq_prior_host = ''h'', rq_prior_helper = ''k'', rq_exit_digest = ''e'', rq_cleanup_digest = ''l'',
     rq_handshake_digest = ''s''\<rparr>"

definition demo_disposition :: disposition where
  "demo_disposition = \<lparr>dsp_status = D_Recovered, dsp_result = ''x'', dsp_evidence = ''y'', dsp_fingerprint = ''z''\<rparr>"

lemma demo_reconciled:
  "\<exists>v s. reconcile_device demo_reconciliation [(''o'', demo_disposition)] ''h2'' ''k2'' (demo_grant ''g2'') 30
     (PBool False) (demo_after demo_fenced) = Inr (v, s)"
  unfolding demo_runs
  by (simp add: demo_defs demo_reconciliation_def demo_disposition_def store_eval reconcile_device_def
      with_status_def dispatch_row_def queued_row_def operation_request.defs operation.defs
      unfinished_of_def unfinished_def disposed_status_def MAX_RECONCILIATIONS_PER_DEVICE_def
      reconciliation_unique_def add_dispositions_def take_over_def)

lemma reconciliation_settles_witness:
  "\<exists>v s. reconcile_device demo_reconciliation [(''o'', demo_disposition)] ''h2'' ''k2'' (demo_grant ''g2'') 30
     (PBool False) (demo_after demo_fenced) = Inr (v, s) \<and> map_option dev_generation v = Some 2 \<and>
     map_option op_status (find_operation s ''o'') = Some Recovered"
proof -
  obtain v s where run: "reconcile_device demo_reconciliation [(''o'', demo_disposition)] ''h2'' ''k2''
      (demo_grant ''g2'') 30 (PBool False) (demo_after demo_fenced) = Inr (v, s)"
    using demo_reconciled by blast
  have "find_operation (demo_after demo_fenced) ''o'' = Some (dispatch_row ''v'' (queued_row demo_request))"
    unfolding demo_runs by (simp add: demo_store_def find_operation_def new_store_def demo_request_def)
  moreover have "rq_device demo_reconciliation = ''d''" by (simp add: demo_reconciliation_def)
  moreover have "dispatch_row ''v'' (queued_row demo_request) \<in>
      set (unfinished_of (demo_after demo_fenced) demo_revoked_device)"
    unfolding demo_runs by (simp add: unfinished_of_iff demo_store_def new_store_def demo_request_def unfinished_def)
  ultimately show ?thesis
    using run reconciliation_settles [OF run, of demo_revoked_device "''o''"] demo_fenced_device
    by (auto simp: fits_def demo_disposition_def)
qed

lemma owned_device_makes_progress_witness:
  "\<exists>s1 s2 s3 v w. admit_operation demo_request (demo_after [demo_claim]) =
      Inr ((Some (queued_row demo_request), True), s1) \<and>
    prepare_dispatch ''o'' ''of'' ''d'' 1 ''h'' ''v'' 12 s1 = Inr (v, s2) \<and>
    acknowledge_result ''r'' ''rf'' ''o'' 1 ''h'' ''v'' R_Succeeded ''x'' 20 s2 = Inr (w, s3) \<and>
    map_option dev_status (find_device s3 ''d'') = Some Owned"
proof -
  have "admissible (demo_after [demo_claim]) demo_owned demo_request"
    unfolding demo_runs
    by (simp add: admissible_def demo_defs find_operation_def watermark_def request_key_def
        operation_checks_def operation_unique_def queued_row_def operation_request.defs operation.defs
        MAX_OPERATIONS_PER_DEVICE_def)
  moreover have "find_device (demo_after [demo_claim]) ''d'' = Some demo_owned"
    using demo_device [of demo_owned] by (simp add: demo_runs)
  ultimately show ?thesis
    using owned_device_makes_progress [of "demo_after [demo_claim]" no_sha no_digest "[demo_claim]" "''d''"
        demo_owned demo_request 12 20 "''r''" "''rf''" "''v''" "''x''"]
    by (auto simp: demo_runs demo_store_def new_store_def demo_request_def)
qed

end
