(* ===== verification/Authority_Demo.thy ===== *)
theory Authority_Demo
  imports Authority_Props Store_Demo
begin

text \<open>
  A host with one handle on the device of \<open>Store_Demo\<close>, an exact clock mapping and a clock that
  answers, and the properties of \<open>Authority_Props\<close> applied to it.
\<close>

definition demo_mapping :: clock_mapping where
  "demo_mapping = \<lparr>coordinator_clock_id = ''coord'', host_clock_id = ''host'', host_boot_digest = ''b'',
     coordinator_send_ns = 0, coordinator_receive_ns = 0, host_receive_ns = 0, host_send_ns = 0,
     offset_lower_ns = 0, offset_upper_ns = 0, max_drift_ppm = 0, mapping_id = '''',
     mapping_issuer = 0, measurement = ''peer-exchange''\<rparr>"

definition demo_reading :: "int \<Rightarrow> clock_reading" where
  "demo_reading t = \<lparr>clock_id = ''host'', boot_digest = ''b'', nanoseconds = t, uncertainty_ns = 0\<rparr>"

definition demo_parent :: parent_grant where
  "demo_parent = \<lparr>pg_id = ''g'', pg_project = ''p'', pg_controller = ''c'', pg_renewal_sequence = 1,
     pg_coordinator_clock = ''coord'', pg_coordinator_deadline_ns = 100, pg_deadline_ns = 100,
     pg_deadline_latest_ns = 100, pg_mapping_id = '''', pg_host_clock = ''host'', pg_host_boot = ''b'',
     pg_fingerprint = '''', pg_mapping = demo_mapping, pg_issuer = 0\<rparr>"

definition demo_world :: "store_op list \<Rightarrow> clock_reading option list \<Rightarrow> world" where
  "demo_world xs rs = \<lparr>clock = \<lparr>issuer = 0, next_object = 1, last_reading = None, max_mapping_uncertainty_ns = 0\<rparr>,
     readings = rs, lease_script = [], journal = demo_after xs, host_incarnation = ''h'',
     root_digest = ''r'', max_uncertainty_ns = 0, cache_size = 1, host_issuer = 0, next_issuer = 2,
     host_closed = False, handle = fresh_handle ''android'' ''d'' 1 ''k'' (Some demo_parent) 1\<rparr>"

lemmas world_eval = demo_world_def demo_mapping_def demo_reading_def demo_parent_def fresh_handle_def
  act_bind_def act_require_def act_handle_def da_open_def ha_open_def act_sample_def
  act_require_mapping_def require_mapping_def require_compatible_def require_clock_def sample_def
  next_reading_def now_of_def epoch_broken_def Let_def da_now_def act_journal_time_def act_journal_def
  clock_integer_def

abbreviation ticks :: "clock_reading option list" where
  "ticks \<equiv> [Some (demo_reading 15), Some (demo_reading 16), Some (demo_reading 17)]"

lemma demo_revocation:
  "\<exists>w1. da_revoke_dispatches (demo_world demo_in_flight ticks) = (Inr (), w1)"
proof -
  have "revoke_dispatches ''d'' 1 ''h'' (Some 15) (demo_after demo_in_flight) = Inr ((), demo_after demo_fenced)"
    unfolding demo_runs using demo_revoked by (simp add: demo_revoke_def)
  then show ?thesis by (simp add: da_revoke_dispatches_def world_eval)
qed

definition demo_permit :: dispatch_permit where
  "demo_permit = \<lparr>pm_protocol = 1, pm_operation = ''o'', pm_fingerprint = ''of'', pm_payload_digest = ''x'',
     pm_project = ''p'', pm_session = ''s'', pm_controller = ''c'', pm_sequence = 1, pm_generation = 1,
     pm_host = ''h'', pm_helper = ''k'', pm_provider = ''v'', pm_deadline_ns = 10000015, pm_device = ''d'',
     pm_issuer = 1\<rparr>"

lemma revocation_is_final_witness:
  "\<exists>w1. da_revoke_dispatches (demo_world demo_in_flight ticks) = (Inr (), w1) \<and>
     (\<nexists>q. fst (da_check_dispatch_permit no_digest (Some demo_permit)
       (handle_run no_digest no_sha w1 [H_Check None, H_Revoke, H_Renew (Some demo_parent)])) = Inr q)"
proof -
  obtain w1 where w1: "da_revoke_dispatches (demo_world demo_in_flight ticks) = (Inr (), w1)"
    using demo_revocation by blast
  have "journal (demo_world demo_in_flight ticks) = store_after no_sha no_digest demo_in_flight"
    by (simp add: demo_world_def)
  from revocation_is_final [OF this w1] w1 show ?thesis by (intro exI [of _ w1]) auto
qed

definition demo_handshake :: native_handshake where
  "demo_handshake = \<lparr>nh_protocol = 2, nh_helper_version = 2, nh_helper = ''k'', nh_provider = ''v'',
     nh_native = ''n'', nh_clock = ''android-elapsed-realtime'', nh_time_ms = 500, nh_received_ns = 15,
     nh_rate_error_ppm = 1000, nh_uncertainty_ms = 1, nh_device = ''d'', nh_issuer = 1\<rparr>"

lemma demo_permit_check:
  "\<exists>w. da_check_dispatch_permit no_digest (Some demo_permit) (demo_world demo_in_flight ticks) = (Inr 15, w) \<and>
     handle w = handle (demo_world demo_in_flight ticks)"
proof -
  have "read_operation (demo_after demo_in_flight) ''o'' = Inr (Some (dispatch_row ''v'' (queued_row demo_request)))"
    unfolding demo_runs
    by (simp add: read_operation_def store_eval demo_store_def new_store_def demo_request_def)
  then show ?thesis
    by (simp add: da_check_dispatch_permit_def permit_of_handle_def demo_permit_def world_eval
        dispatch_row_def queued_row_def operation_request.defs operation.defs demo_request_def)
qed

lemma demo_native_grant:
  "\<exists>g w. da_native_grant no_digest (Some demo_permit) (Some demo_handshake) (demo_world demo_in_flight ticks) =
     (Inr g, w)"
proof -
  obtain w where "da_check_dispatch_permit no_digest (Some demo_permit) (demo_world demo_in_flight ticks) = (Inr 15, w)"
    "handle w = handle (demo_world demo_in_flight ticks)"
    using demo_permit_check by blast
  then show ?thesis
    by (simp add: da_native_grant_def act_bind_def act_require_def demo_permit_def demo_handshake_def
        demo_world_def fresh_handle_def NATIVE_PROTOCOL_VERSION_def HELPER_VERSION_def native_duration_def
        clock_integer_def MAX_NS_def)
qed

lemma native_deadline_within_permit_witness:
  "\<exists>g w. da_native_grant no_digest (Some demo_permit) (Some demo_handshake) (demo_world demo_in_flight ticks) =
     (Inr g, w) \<and> real_of_int (ng_deadline_ms g) \<le> 500 + 10000015 / 1000000"
proof -
  obtain g w where g: "da_native_grant no_digest (Some demo_permit) (Some demo_handshake)
      (demo_world demo_in_flight ticks) = (Inr g, w)"
    using demo_native_grant by blast
  have "real_of_int (ng_deadline_ms g) \<le> (\<lambda>t. 500 + t / 1000000) 10000015"
    using native_deadline_within_permit [OF g, where native = "\<lambda>t. 500 + t / 1000000" and ?t0.0 = 0
        and t = 10000015]
    by (simp add: demo_handshake_def demo_permit_def field_simps)
  with g show ?thesis by auto
qed

definition demo_admission :: "string \<Rightarrow> admission" where
  "demo_admission i = \<lparr>adm_protocol = 1, adm_operation = i, adm_fingerprint = '''', adm_payload_digest = '''',
     adm_project = ''p'', adm_session = ''s'', adm_controller = ''c'', adm_sequence = 1, adm_generation = 1,
     adm_host = ''h'', adm_helper = ''k'', adm_deadline_ns = 50, adm_status = Queued, adm_result = None,
     adm_new = True, adm_device = ''d'', adm_issuer = 1\<rparr>"

lemma demo_admission_operation: "adm_operation (demo_admission i) = i"
  by (simp add: demo_admission_def)

lemma cache_trimming_ends_witness:
  "length (remember 2 (demo_admission ''c'') [demo_admission ''a'', demo_admission ''b'']) \<le> 2 \<and>
   last (remember 2 (demo_admission ''c'') [demo_admission ''a'', demo_admission ''b'']) = demo_admission ''c''"
  using cache_trimming_ends [of 2 "[demo_admission ''a'', demo_admission ''b'']" "[]" "demo_admission ''c''"]
  by (auto simp: demo_admission_operation)

lemma close_keeps_unconfirmed_device_witness:
  "fst (da_close no_sha ((demo_world demo_in_flight ticks)\<lparr>handle :=
     (handle (demo_world demo_in_flight ticks))\<lparr>hd_native_attached := True\<rparr>\<rparr>)) = Inr False"
proof -
  let ?w = "(demo_world demo_in_flight ticks)\<lparr>handle :=
     (handle (demo_world demo_in_flight ticks))\<lparr>hd_native_attached := True\<rparr>\<rparr>"
  have "journal ?w = store_after no_sha no_digest demo_in_flight" "hd_device (handle ?w) = ''d''"
    "hd_native_attached (handle ?w)" "\<not> hd_cleanup_confirmed (handle ?w)" "\<not> hd_closed (handle ?w)"
    by (simp_all add: demo_world_def fresh_handle_def)
  moreover from this have "find_device (journal ?w) (hd_device (handle ?w)) = Some (unconfirmed 12 demo_owned)"
    using demo_in_flight_device by simp
  ultimately show ?thesis
    using close_keeps_unconfirmed_device [of ?w no_sha no_digest demo_in_flight "unconfirmed 12 demo_owned"
        "fst (da_close no_sha ?w)" "snd (da_close no_sha ?w)"]
    by simp
qed

lemma clock_fault_quarantines_witness:
  "\<exists>w'. da_now no_digest (demo_world [demo_claim] [None]) =
     (Inl (ContractError ''Clock mapping is incompatible''), w') \<and>
   map_option dev_status (find_device (journal w') ''d'') = Some Quarantined"
proof -
  let ?w = "demo_world [demo_claim] [None]"
  have "find_device (journal ?w) (hd_device (handle ?w)) = Some demo_owned"
    using demo_device [of demo_owned] by (simp add: demo_world_def fresh_handle_def demo_runs)
  moreover have "journal ?w = store_after no_sha no_digest [demo_claim]" "\<not> store_closed (journal ?w)"
    by (simp_all add: demo_world_def demo_runs demo_store_def new_store_def)
  moreover have "da_open ?w = (Inr (), ?w)" "hd_grant (handle ?w) = Some demo_parent" "readings_valid ?w"
    "hd_device (handle ?w) = ''d''" "hd_generation (handle ?w) = 1" "host_incarnation ?w = ''h''"
    by (simp_all add: demo_world_def fresh_handle_def da_open_def ha_open_def readings_valid_def)
  moreover have "fst (act_require_mapping no_digest (Some (pg_mapping demo_parent)) ?w) =
      Inl (ContractError ''Suspend-inclusive clock is unavailable'')"
    by (simp add: world_eval)
  ultimately show ?thesis
    using clock_fault_quarantines [of ?w no_sha no_digest "[demo_claim]" demo_parent demo_owned]
    by simp
qed

end
