(* ===== verification/Ownership_Reports.thy ===== *)
theory Ownership_Reports
  imports Inventory_Demo Authority_Demo
begin

text \<open>
  The path of an ownership from the journal of a host (\<open>Authority.ha_inventory_ownership\<close>) through the
  report of the host to the coordinator's inventory (\<open>Inventory.refresh\<close>): what the host attests is
  what the inventory reads, and a release in the journal frees the row that was held for it when that
  row was recorded under the same authority and the release is not older than its floor and watermark.
\<close>

definition status_name :: "device_status \<Rightarrow> string" where
  "status_name st = (case st of Owned \<Rightarrow> ''owned'' | Released \<Rightarrow> ''released'' | Expired \<Rightarrow> ''expired''
     | Quarantined \<Rightarrow> ''quarantined'')"


lemma status_name_simps [simp]:
  "status_name st \<in> set OWNERSHIP_STATUSES" "status_name st \<noteq> ''unused''"
  "status_name st = ''released'' \<longleftrightarrow> st = Released"
  by (cases st; simp add: status_name_def OWNERSHIP_STATUSES_def)+



section \<open>What a reported release does to a held row\<close>

















end
