(* ===== verification/Run_Store.thy ===== *)
theory Run_Store
  imports Wire "HOL-Library.AList"
begin

text \<open>
  \<open>RunStore\<close> and \<open>OwnedRun\<close> of \<open>reproof/execution/journal.py\<close>: the durable journal that admits one
  execution at a time and never gives back the disk reservation of an execution whose shutdown is not
  known.

  The disk is the state file, the run directories, the cancellation files and the archive directory.
  Every operation is a program over the disk whose durable changes are single effects (\<open>run_effect\<close>):
  an effect happens, fails with \<open>OSError\<close>, or the process dies before it, as the script
  \<open>rw_effects\<close> says; a file that is replaced by \<open>os.replace\<close> has its old or its new contents. The
  active run is the holder of the lock \<open>.vm-lock\<close>. What runs inside the virtual machine may do
  anything to the run directories (\<open>Tamper\<close>).

  \<open>fp\<close> is the digest of a list of JSON documents. Directory and file permissions other than those of
  run directories are taken to be right, flushing a file or directory to succeed.
\<close>

definition MAX_RUNS :: nat where "MAX_RUNS = 512"
definition MAX_DISK_BYTES :: int where "MAX_DISK_BYTES = 512 * 1024 ^ 3"
definition MAX_STATE_BYTES :: nat where "MAX_STATE_BYTES = 256 * 1024"

definition OWNED_OVERLAY_FILES :: "string list" where
  "OWNED_OVERLAY_FILES = [''disk.img'', ''auxiliary.bin'', ''termination.json'']"

datatype run_status = Run_Admitted | Run_Quarantined | Run_Succeeded | Run_Failed | Run_Cancelled

fun run_terminal :: "run_status \<Rightarrow> bool" where
  "run_terminal Run_Admitted = False"
| "run_terminal Run_Quarantined = False"
| "run_terminal _ = True"

fun run_status_text :: "run_status \<Rightarrow> string" where
  "run_status_text Run_Admitted = ''admitted''"
| "run_status_text Run_Quarantined = ''quarantined''"
| "run_status_text Run_Succeeded = ''succeeded''"
| "run_status_text Run_Failed = ''failed''"
| "run_status_text Run_Cancelled = ''cancelled''"

definition run_status_of :: "pyval \<Rightarrow> run_status option" where
  "run_status_of v = find (\<lambda>st. v = PStr (run_status_text st))
     [Run_Admitted, Run_Quarantined, Run_Succeeded, Run_Failed, Run_Cancelled]"

datatype run_error =
    RunDenied string
  | OsError
  | Raised py_error
  | Crashed \<comment> \<open>the process died\<close>

type_synonym 'a run_result = "run_error + 'a"

section \<open>The journal document\<close>

record run_record =
  rr_request :: string
  rr_status :: run_status
  rr_reserved :: int

record journal_doc =
  jd_env :: string
  jd_runs :: "(string \<times> run_record) list"
  jd_scope :: "(string \<times> string) option"
  jd_archive :: "(int \<times> string) option"

definition run_record_json :: "run_record \<Rightarrow> pyval" where
  "run_record_json r = PDict [(''requestDigest'', PStr (rr_request r)),
     (''state'', PStr (run_status_text (rr_status r))), (''reservedBytes'', PInt (rr_reserved r))]"

definition scope_json :: "string \<times> string \<Rightarrow> pyval" where
  "scope_json s = PDict [(''kind'', PStr (fst s)), (''scopeDigest'', PStr (snd s))]"

definition journal_json :: "journal_doc \<Rightarrow> pyval" where
  "journal_json v = PDict
     ([(''schemaVersion'', PInt 1), (''environmentDigest'', PStr (jd_env v)),
       (''runs'', PDict (sort_key fst (map (\<lambda>(k, r). (k, run_record_json r)) (jd_runs v))))] @
      (case jd_scope v of None \<Rightarrow> [] | Some s \<Rightarrow> [(''scope'', scope_json s)]) @
      (case jd_archive v of None \<Rightarrow> []
       | Some (n, dg) \<Rightarrow> [(''archive'', PDict [(''count'', PInt n), (''digest'', PStr dg)])]))"

definition is_run_id :: "string \<Rightarrow> bool" where
  "is_run_id s = matches_name lower_chars (lower_chars @ digit_chars @ ''_-'') 64 s"

definition hex_of :: "pyval \<Rightarrow> string option" where
  "hex_of v = (case v of PStr s \<Rightarrow> (if is_hex_digest s then Some s else None) | _ \<Rightarrow> None)"

definition parse_run_record :: "pyval \<Rightarrow> run_record option" where
  "parse_run_record v =
     (case v of
        PDict d \<Rightarrow>
          if same_keys d [''requestDigest'', ''state'', ''reservedBytes''] then
            (case (hex_of (field_of d ''requestDigest''), run_status_of (field_of d ''state''),
                   int_in_range 0 MAX_DISK_BYTES (field_of d ''reservedBytes'')) of
               (Some request, Some st, Some n) \<Rightarrow>
                 if run_terminal st \<and> n \<noteq> 0 then None
                 else Some \<lparr>rr_request = request, rr_status = st, rr_reserved = n\<rparr>
             | _ \<Rightarrow> None)
          else None
      | _ \<Rightarrow> None)"

fun parse_runs :: "(string \<times> pyval) list \<Rightarrow> (string \<times> run_record) list option" where
  "parse_runs [] = Some []"
| "parse_runs ((k, v) # rest) =
     (if is_run_id k then
        (case (parse_run_record v, parse_runs rest) of
           (Some r, Some rs) \<Rightarrow> Some ((k, r) # rs) | _ \<Rightarrow> None)
      else None)"

definition SCOPE_KINDS :: "string list" where
  "SCOPE_KINDS = [''vm'', ''host'', ''signing'', ''mobile-device'']"

definition parse_scope :: "(string \<times> pyval) list \<Rightarrow> (string \<times> string) option option" where
  "parse_scope d =
     (if ''scope'' \<notin> fst ` set d then Some None
      else (case field_of d ''scope'' of
        PDict s \<Rightarrow>
          (case (as_str (field_of s ''kind''), hex_of (field_of s ''scopeDigest'')) of
             (Some kind, Some dg) \<Rightarrow>
               if same_keys s [''kind'', ''scopeDigest''] \<and> kind \<in> set SCOPE_KINDS
               then Some (Some (kind, dg)) else None
           | _ \<Rightarrow> None)
      | _ \<Rightarrow> None))"

definition parse_archive_field :: "(string \<times> pyval) list \<Rightarrow> (int \<times> string) option option" where
  "parse_archive_field d =
     (case field_of d ''archive'' of
        PNone \<Rightarrow> Some None
      | PDict a \<Rightarrow>
          (case (int_in_range 1 (2 ^ 31 - 1) (field_of a ''count''), hex_of (field_of a ''digest'')) of
             (Some n, Some dg) \<Rightarrow>
               if same_keys a [''count'', ''digest''] then Some (Some (n, dg)) else None
           | _ \<Rightarrow> None)
      | _ \<Rightarrow> None)"

text \<open>The archive may hold records that are still in \<open>runs\<close> (a crash came between the two writes).\<close>

definition archive_accounted :: "string list \<Rightarrow> journal_doc \<Rightarrow> bool" where
  "archive_accounted names v \<longleftrightarrow>
     int (length (filter (\<lambda>n. map_of (jd_runs v) n = None) names)) =
       (case jd_archive v of None \<Rightarrow> 0 | Some (n, _) \<Rightarrow> n) \<and>
     list_all (\<lambda>n. case map_of (jd_runs v) n of None \<Rightarrow> True | Some r \<Rightarrow> run_terminal (rr_status r)) names"

definition parse_journal :: "string \<Rightarrow> string list \<Rightarrow> pyval \<Rightarrow> journal_doc option" where
  "parse_journal env names value =
     (case value of
        PDict d \<Rightarrow>
          if set [''schemaVersion'', ''environmentDigest'', ''runs''] \<subseteq> fst ` set d \<and>
             fst ` set d \<subseteq> set [''schemaVersion'', ''environmentDigest'', ''runs'', ''scope'', ''archive''] \<and>
             field_of d ''schemaVersion'' = PInt 1 \<and> field_of d ''environmentDigest'' = PStr env then
            (case field_of d ''runs'' of
               PDict rs \<Rightarrow>
                 if length rs \<le> MAX_RUNS then
                   (case (parse_scope d, parse_runs rs, parse_archive_field d) of
                      (Some scope, Some runs, Some archive) \<Rightarrow>
                        (let v = \<lparr>jd_env = env, jd_runs = runs, jd_scope = scope, jd_archive = archive\<rparr>
                         in if archive_accounted names v then Some v else None)
                    | _ \<Rightarrow> None)
                 else None
             | _ \<Rightarrow> None)
          else None
      | _ \<Rightarrow> None)"

section \<open>The disk\<close>

datatype dir_entry = Regular "pyval option" | Special

record run_dir =
  dir_inode :: nat
  dir_private :: bool
  dir_entries :: "(string \<times> dir_entry) list"

text \<open>
  \<open>state_file\<close>: missing, unreadable or a document. \<open>archive_files\<close>: the directory may be missing; an
  entry is unreadable or a document. Temporary files are left out: every reader skips them.
\<close>

record run_disk =
  state_file :: "pyval option option"
  run_dirs :: "(string \<times> run_dir) list"
  cancellations :: "(string \<times> string) list"
  archive_files :: "(string \<times> pyval option) list option"
  next_inode :: nat

record owned_run =
  ru_operation :: string
  ru_request :: string
  ru_inode :: "nat option"
  ru_finished :: bool

datatype effect = Eff_Ok | Eff_Fails | Eff_Crash

record run_world =
  rw_disk :: run_disk
  rw_effects :: "effect list"
  rw_active :: "owned_run option"

record run_config =
  cf_env :: string
  cf_limit :: int

type_synonym 'a prog = "run_world \<Rightarrow> 'a run_result \<times> run_world"

definition run_return :: "'a \<Rightarrow> 'a prog" where
  "run_return x w = (Inr x, w)"

definition run_raise :: "run_error \<Rightarrow> 'a prog" where
  "run_raise e w = (Inl e, w)"

definition run_bind :: "'a prog \<Rightarrow> ('a \<Rightarrow> 'b prog) \<Rightarrow> 'b prog" where
  "run_bind m k w = (case m w of (Inl e, w') \<Rightarrow> (Inl e, w') | (Inr x, w') \<Rightarrow> k x w')"

definition run_require :: "bool \<Rightarrow> run_error \<Rightarrow> 'a prog \<Rightarrow> 'a prog" where
  "run_require c e k = (if c then k else run_raise e)"

definition run_lift :: "(run_disk \<Rightarrow> 'a run_result) \<Rightarrow> 'a prog" where
  "run_lift f w = (f (rw_disk w), w)"

definition run_effect :: "(run_disk \<Rightarrow> run_disk) \<Rightarrow> unit prog" where
  "run_effect f w =
     (case rw_effects w of
        [] \<Rightarrow> (Inr (), w\<lparr>rw_disk := f (rw_disk w), rw_effects := []\<rparr>)
      | Eff_Ok # es \<Rightarrow> (Inr (), w\<lparr>rw_disk := f (rw_disk w), rw_effects := es\<rparr>)
      | Eff_Fails # es \<Rightarrow> (Inl OsError, w\<lparr>rw_effects := es\<rparr>)
      | Eff_Crash # es \<Rightarrow> (Inl Crashed, w\<lparr>rw_effects := es\<rparr>))"

text \<open>\<open>try: m except: handler\<close>; nothing catches the death of the process.\<close>

definition run_try :: "'a prog \<Rightarrow> (run_error \<Rightarrow> 'a prog) \<Rightarrow> 'a prog" where
  "run_try m handler w =
     (case m w of (Inl e, w') \<Rightarrow> (if e = Crashed then (Inl e, w') else handler e w')
      | (Inr x, w') \<Rightarrow> (Inr x, w'))"

section \<open>Reading and writing the journal\<close>

definition archive_list :: "run_disk \<Rightarrow> (string \<times> pyval option) list" where
  "archive_list d = (case archive_files d of None \<Rightarrow> [] | Some fs \<Rightarrow> fs)"

definition archive_names :: "run_disk \<Rightarrow> string list option" where
  "archive_names d =
     (let names = map fst (archive_list d) in if list_all is_run_id names then Some names else None)"

definition journal_rejected :: run_error where
  "journal_rejected = RunDenied ''Execution journal rejected''"

definition load_journal :: "run_config \<Rightarrow> run_disk \<Rightarrow> journal_doc run_result" where
  "load_journal c d =
     (case (state_file d, archive_names d) of
        (Some (Some value), Some names) \<Rightarrow>
          (case parse_journal (cf_env c) names value of
             Some v \<Rightarrow> Inr v | None \<Rightarrow> Inl journal_rejected)
      | _ \<Rightarrow> Inl journal_rejected)"

definition write_journal :: "journal_doc \<Rightarrow> unit prog" where
  "write_journal v =
     (case canonical (journal_json v) of
        Inl e \<Rightarrow> run_raise (Raised e)
      | Inr raw \<Rightarrow>
          run_require (length raw \<le> MAX_STATE_BYTES) (RunDenied ''Execution journal limit exceeded'')
            (run_try (run_effect (\<lambda>d. d\<lparr>state_file := Some (Some (journal_json v))\<rparr>))
              (\<lambda>_. run_raise (RunDenied ''Execution journal write failed''))))"

definition new_journal :: "run_config \<Rightarrow> journal_doc" where
  "new_journal c = \<lparr>jd_env = cf_env c, jd_runs = [], jd_scope = None, jd_archive = None\<rparr>"

definition journal_unavailable :: run_error where
  "journal_unavailable = RunDenied ''Execution journal unavailable''"

definition open_run_store :: "run_config \<Rightarrow> journal_doc prog" where
  "open_run_store c =
     run_bind (\<lambda>w. if state_file (rw_disk w) = None then write_journal (new_journal c) w else (Inr (), w))
       (\<lambda>_. run_lift (load_journal c))"

section \<open>The archive of terminal records\<close>

text \<open>\<open>v == n\<close> for a JSON value; a \<open>bool\<close> equals 0 or 1.\<close>

fun json_equals_int :: "pyval \<Rightarrow> int \<Rightarrow> bool" where
  "json_equals_int (PInt m) n = (m = n)"
| "json_equals_int (PBool b) n = (n = (if b then 1 else 0))"
| "json_equals_int _ n = False"

definition archive_json :: "string \<Rightarrow> string \<Rightarrow> run_status \<Rightarrow> pyval" where
  "archive_json operation request st =
     PDict [(''schemaVersion'', PInt 1), (''operationId'', PStr operation), (''requestDigest'', PStr request),
       (''state'', PStr (run_status_text st)), (''reservedBytes'', PInt 0)]"

definition archive_document :: "string \<Rightarrow> pyval option \<Rightarrow> (pyval \<times> string \<times> run_status) run_result" where
  "archive_document operation entry =
     (case entry of
        Some (PDict d) \<Rightarrow>
          (case (hex_of (field_of d ''requestDigest''), run_status_of (field_of d ''state'')) of
             (Some request, Some st) \<Rightarrow>
               if same_keys d [''schemaVersion'', ''operationId'', ''requestDigest'', ''state'', ''reservedBytes''] \<and>
                  json_equals_int (field_of d ''schemaVersion'') 1 \<and>
                  field_of d ''operationId'' = PStr operation \<and> run_terminal st \<and>
                  json_equals_int (field_of d ''reservedBytes'') 0
               then Inr (PDict d, request, st)
               else Inl (RunDenied ''Execution archive rejected'')
           | _ \<Rightarrow> Inl (RunDenied ''Execution archive rejected''))
      | _ \<Rightarrow> Inl (RunDenied ''Execution archive rejected''))"

definition archived_record :: "run_disk \<Rightarrow> string \<Rightarrow> (string \<times> run_status) option run_result" where
  "archived_record d operation =
     (case map_of (archive_list d) operation of
        None \<Rightarrow> Inr None
      | Some entry \<Rightarrow> bind_result (archive_document operation entry) (\<lambda>(_, request, st). Inr (Some (request, st))))"

definition is_archived :: "run_disk \<Rightarrow> string \<Rightarrow> bool" where
  "is_archived d operation \<longleftrightarrow> map_of (archive_list d) operation \<noteq> None"

definition archivable_ids :: "(string \<times> run_record) list \<Rightarrow> run_disk \<Rightarrow> string list" where
  "archivable_ids runs d =
     map fst (filter (\<lambda>(k, r). run_terminal (rr_status r) \<and> rr_reserved r = 0 \<and> map_of (run_dirs d) k = None) runs)"

fun read_archive :: "(string \<times> pyval option) list \<Rightarrow> (string \<times> pyval \<times> string \<times> run_status) list run_result" where
  "read_archive [] = Inr []"
| "read_archive ((k, entry) # rest) =
     (if is_run_id k then
        bind_result (archive_document k entry) (\<lambda>r.
        bind_result (read_archive rest) (\<lambda>rs. Inr ((k, r) # rs)))
      else Inl (RunDenied ''Execution archive rejected''))"

definition archive_digest :: "(pyval list \<Rightarrow> string) \<Rightarrow> (string \<times> pyval) list \<Rightarrow> string" where
  "archive_digest fp records = fp (map snd (sort_key fst records))"

text \<open>The archived records that \<open>runs\<close> no longer has must be exactly the recorded ones.\<close>

definition archive_matches :: "(pyval list \<Rightarrow> string) \<Rightarrow> journal_doc \<Rightarrow>
    (string \<times> pyval \<times> string \<times> run_status) list \<Rightarrow> bool" where
  "archive_matches fp v records \<longleftrightarrow>
     (let official = map (\<lambda>(k, doc, _). (k, doc)) (filter (\<lambda>(k, _). map_of (jd_runs v) k = None) records)
      in case jd_archive v of
           None \<Rightarrow> official = []
         | Some (n, dg) \<Rightarrow> official \<noteq> [] \<and> n = int (length official) \<and> dg = archive_digest fp official)"

definition orphan_matches :: "journal_doc \<Rightarrow> string list \<Rightarrow> string \<times> pyval \<times> string \<times> run_status \<Rightarrow> bool" where
  "orphan_matches v eligible x \<longleftrightarrow>
     (case x of (k, _, request, st) \<Rightarrow>
        (case map_of (jd_runs v) k of
           None \<Rightarrow> True
         | Some r \<Rightarrow> k \<in> set eligible \<and> request = rr_request r \<and> st = rr_status r))"

definition ensure_archive_dir :: "unit prog" where
  "ensure_archive_dir w =
     (if archive_files (rw_disk w) = None
      then run_try (run_effect (\<lambda>d. d\<lparr>archive_files := Some []\<rparr>))
             (\<lambda>_. run_raise (RunDenied ''Execution archive unavailable'')) w
      else (Inr (), w))"

fun archive_new :: "(string \<times> pyval) list \<Rightarrow> unit prog" where
  "archive_new [] = run_return ()"
| "archive_new ((k, doc) # rest) =
     run_bind (run_try (run_effect (\<lambda>d. d\<lparr>archive_files := Some (archive_list d @ [(k, Some doc)])\<rparr>))
       (\<lambda>_. run_raise (RunDenied ''Execution archive write failed'')))
     (\<lambda>_. archive_new rest)"

definition archive_docs :: "journal_doc \<Rightarrow> string list \<Rightarrow> (string \<times> pyval) list" where
  "archive_docs v ks =
     concat (map (\<lambda>k. case map_of (jd_runs v) k of None \<Rightarrow> []
       | Some r \<Rightarrow> [(k, archive_json k (rr_request r) (rr_status r))]) ks)"

definition dropped :: "(pyval list \<Rightarrow> string) \<Rightarrow> journal_doc \<Rightarrow> string list \<Rightarrow> (string \<times> pyval) list \<Rightarrow> journal_doc" where
  "dropped fp v eligible merged =
     v\<lparr>jd_runs := filter (\<lambda>(k, _). k \<notin> set eligible) (jd_runs v),
       jd_archive := Some (int (length merged), archive_digest fp merged)\<rparr>"

definition archive_write :: "(pyval list \<Rightarrow> string) \<Rightarrow> journal_doc \<Rightarrow> string list \<Rightarrow>
    (string \<times> pyval \<times> string \<times> run_status) list \<Rightarrow> journal_doc prog" where
  "archive_write fp v eligible records =
     (let fresh = archive_docs v (filter (\<lambda>k. k \<notin> fst ` set records) eligible);
          v' = dropped fp v eligible (map (\<lambda>(k, doc, _). (k, doc)) records @ fresh)
      in run_bind (archive_new fresh) (\<lambda>_. run_bind (write_journal v') (\<lambda>_. run_return v')))"

definition archive_terminal :: "(pyval list \<Rightarrow> string) \<Rightarrow> journal_doc \<Rightarrow> journal_doc prog" where
  "archive_terminal fp v =
     run_bind (run_lift (\<lambda>d. Inr (archivable_ids (jd_runs v) d))) (\<lambda>eligible.
     if eligible = [] then run_return v
     else
       run_bind ensure_archive_dir (\<lambda>_.
       run_bind (run_lift (\<lambda>d. read_archive (archive_list d))) (\<lambda>records.
       run_require (archive_matches fp v records \<and> list_all (orphan_matches v eligible) records)
         (RunDenied ''Execution archive mismatch'') (archive_write fp v eligible records))))"

section \<open>Status and cancellation\<close>

definition invalid_input :: run_error where
  "invalid_input = Raised (ContractError ''Invalid id'')"

definition status_of :: "run_config \<Rightarrow> string \<Rightarrow> run_disk \<Rightarrow> run_record run_result" where
  "status_of c operation d =
     (if is_run_id operation then
        bind_result (load_journal c d) (\<lambda>v.
        bind_result (archived_record d operation) (\<lambda>archived.
        (case (map_of (jd_runs v) operation, archived) of
           (None, None) \<Rightarrow> Inl (RunDenied ''Unknown execution operation'')
         | (None, Some (request, st)) \<Rightarrow> Inr \<lparr>rr_request = request, rr_status = st, rr_reserved = 0\<rparr>
         | (Some r, None) \<Rightarrow> Inr r
         | (Some r, Some (request, st)) \<Rightarrow>
             if run_terminal (rr_status r) \<and> request = rr_request r \<and> st = rr_status r then Inr r
             else Inl (RunDenied ''Execution archive mismatch''))))
      else Inl invalid_input)"

definition is_cancelled :: "run_disk \<Rightarrow> string \<Rightarrow> bool" where
  "is_cancelled d operation \<longleftrightarrow> operation \<in> fst ` set (cancellations d)"

definition cancel_run :: "run_config \<Rightarrow> string \<Rightarrow> string \<Rightarrow> unit prog" where
  "cancel_run c operation request =
     run_require (is_run_id operation \<and> is_hex_digest request) invalid_input
     (run_bind (run_lift (status_of c operation)) (\<lambda>r.
      run_require (rr_request r = request) (RunDenied ''Cancellation binding mismatch'')
      (if run_terminal (rr_status r) then run_return ()
       else run_bind (run_lift (\<lambda>d. Inr (map_of (cancellations d) operation))) (\<lambda>content.
         (case content of
            Some t \<Rightarrow> run_require (t = request) (RunDenied ''Cancellation record rejected'') (run_return ())
          | None \<Rightarrow>
              run_bind (run_effect (\<lambda>d. d\<lparr>cancellations := (operation, '''') # cancellations d\<rparr>)) (\<lambda>_.
              run_effect (\<lambda>d. d\<lparr>cancellations := AList.update operation request (cancellations d)\<rparr>)))))))"

section \<open>Finishing a run\<close>

fun unlink_all :: "string \<Rightarrow> string list \<Rightarrow> unit prog" where
  "unlink_all operation [] = run_return ()"
| "unlink_all operation (n # ns) =
     run_bind (run_effect (\<lambda>d. d\<lparr>run_dirs := map (\<lambda>(k, dir). (k, if k = operation
        then dir\<lparr>dir_entries := filter (\<lambda>(m, _). m \<noteq> n) (dir_entries dir)\<rparr> else dir)) (run_dirs d)\<rparr>))
     (\<lambda>_. unlink_all operation ns)"

definition remove_dir :: "string \<Rightarrow> unit prog" where
  "remove_dir operation = run_effect (\<lambda>d. d\<lparr>run_dirs := AList.delete operation (run_dirs d)\<rparr>)"

definition clean_run :: "owned_run \<Rightarrow> bool prog" where
  "clean_run run =
     run_bind (run_lift (\<lambda>d. Inr (map_of (run_dirs d) (ru_operation run)))) (\<lambda>found.
     (case found of
        None \<Rightarrow> run_return False
      | Some dir \<Rightarrow>
          if dir_private dir \<and> (case ru_inode run of None \<Rightarrow> True | Some i \<Rightarrow> i = dir_inode dir) \<and>
             list_all (\<lambda>(n, e). n \<in> set OWNED_OVERLAY_FILES \<and> e \<noteq> Special) (dir_entries dir)
          then run_try
            (run_bind (unlink_all (ru_operation run) (map fst (dir_entries dir))) (\<lambda>_.
             run_bind (remove_dir (ru_operation run)) (\<lambda>_. run_return True)))
            (\<lambda>_. run_return False)
          else run_return False))"

definition finish_run :: "run_config \<Rightarrow> owned_run \<Rightarrow> run_status \<Rightarrow> bool \<Rightarrow> unit prog" where
  "finish_run c run outcome stopped =
     run_require (\<not> ru_finished run) (RunDenied ''Execution already finalized'')
     (run_require (run_terminal outcome) (RunDenied ''Invalid execution outcome'')
     (run_bind (run_lift (load_journal c)) (\<lambda>v.
      (case map_of (jd_runs v) (ru_operation run) of
         None \<Rightarrow> run_raise (Raised OtherError)
       | Some r \<Rightarrow>
           run_bind (if stopped then clean_run run else run_return False) (\<lambda>cleaned.
           run_bind (run_lift (\<lambda>d. Inr (is_cancelled d (ru_operation run)))) (\<lambda>cancelled.
           write_journal (v\<lparr>jd_runs := AList.update (ru_operation run)
             (r\<lparr>rr_status := (if cleaned then (if cancelled then Run_Cancelled else outcome) else Run_Quarantined),
                rr_reserved := (if cleaned then 0 else rr_reserved r)\<rparr>) (jd_runs v)\<rparr>)))))))"

definition set_active :: "owned_run option \<Rightarrow> unit prog" where
  "set_active run w = (Inr (), w\<lparr>rw_active := run\<rparr>)"

text \<open>The caller of \<open>admit\<close> finishes its run inside the \<open>with\<close> block, and leaves the block.\<close>

definition finish_active :: "run_config \<Rightarrow> run_status \<Rightarrow> bool \<Rightarrow> unit prog" where
  "finish_active c outcome stopped w =
     (case rw_active w of
        None \<Rightarrow> (Inr (), w)
      | Some run \<Rightarrow>
          run_bind (finish_run c run outcome stopped) (\<lambda>_. set_active (Some (run\<lparr>ru_finished := True\<rparr>))) w)"

definition leave_run :: "run_config \<Rightarrow> unit prog" where
  "leave_run c w =
     (case rw_active w of
        None \<Rightarrow> (Inr (), w)
      | Some run \<Rightarrow>
          (case (if ru_finished run then run_return () else finish_run c run Run_Failed False) w of
             (r, w') \<Rightarrow> (r, w'\<lparr>rw_active := None\<rparr>)))"

section \<open>Admission\<close>

definition busy :: run_error where
  "busy = RunDenied ''Execution environment busy''"

definition refused :: run_error where
  "refused = RunDenied ''Execution admission refused''"

definition quarantine_admitted :: "journal_doc \<Rightarrow> journal_doc" where
  "quarantine_admitted v = v\<lparr>jd_runs := map (\<lambda>(k, r). (k, if rr_status r = Run_Admitted
     then r\<lparr>rr_status := Run_Quarantined\<rparr> else r)) (jd_runs v)\<rparr>"

definition has_status :: "run_status \<Rightarrow> journal_doc \<Rightarrow> bool" where
  "has_status st v \<longleftrightarrow> list_ex (\<lambda>(_, r). rr_status r = st) (jd_runs v)"

definition reserved_bytes :: "journal_doc \<Rightarrow> int" where
  "reserved_bytes v = sum_list (map (\<lambda>(_, r). rr_reserved r) (jd_runs v))"

definition admitted_doc :: "string \<Rightarrow> string \<Rightarrow> int \<Rightarrow> journal_doc \<Rightarrow> journal_doc" where
  "admitted_doc operation request disk_bytes v = v\<lparr>jd_runs := jd_runs v @ [(operation,
     \<lparr>rr_request = request, rr_status = Run_Admitted, rr_reserved = disk_bytes\<rparr>)]\<rparr>"

definition admit_record :: "run_config \<Rightarrow> (pyval list \<Rightarrow> string) \<Rightarrow> string \<Rightarrow> string \<Rightarrow> int \<Rightarrow> int \<Rightarrow> unit prog" where
  "admit_record c fp operation request disk_bytes free =
     run_bind (run_lift (load_journal c)) (\<lambda>v0.
     run_bind (if has_status Run_Admitted v0
               then run_bind (write_journal (quarantine_admitted v0)) (\<lambda>_. run_return (quarantine_admitted v0))
               else run_return v0) (\<lambda>v1.
     run_bind (run_lift (\<lambda>d. Inr (is_archived d operation))) (\<lambda>archived.
     run_require (map_of (jd_runs v1) operation = None \<and> \<not> archived) refused
     (run_bind (if MAX_RUNS \<le> length (jd_runs v1) then archive_terminal fp v1 else run_return v1) (\<lambda>v2.
     run_require (length (jd_runs v2) < MAX_RUNS \<and> \<not> has_status Run_Quarantined v2) refused
     (run_require (reserved_bytes v2 + disk_bytes \<le> cf_limit c \<and> disk_bytes \<le> free)
        (RunDenied ''Execution disk budget exhausted'')
     (write_journal (admitted_doc operation request disk_bytes v2))))))))"

definition make_run_dir :: "string \<Rightarrow> nat prog" where
  "make_run_dir operation =
     run_bind (run_lift (\<lambda>d. if map_of (run_dirs d) operation = None then Inr (next_inode d) else Inl OsError)) (\<lambda>i.
     run_bind (run_effect (\<lambda>d. d\<lparr>run_dirs := (operation, \<lparr>dir_inode = i, dir_private = True, dir_entries = []\<rparr>) # run_dirs d,
       next_inode := Suc i\<rparr>)) (\<lambda>_. run_return i))"

definition admit_run :: "run_config \<Rightarrow> (pyval list \<Rightarrow> string) \<Rightarrow> string \<Rightarrow> string \<Rightarrow> int \<Rightarrow> int \<Rightarrow> unit prog" where
  "admit_run c fp operation request disk_bytes free w =
     (run_require (is_run_id operation \<and> is_hex_digest request \<and> 1 \<le> disk_bytes \<and> disk_bytes \<le> MAX_DISK_BYTES)
        invalid_input
      (run_require (rw_active w = None) busy
      (run_bind (admit_record c fp operation request disk_bytes free) (\<lambda>_.
       run_try
         (run_bind (make_run_dir operation) (\<lambda>i.
          set_active (Some \<lparr>ru_operation = operation, ru_request = request, ru_inode = Some i, ru_finished = False\<rparr>)))
         (\<lambda>e. run_bind (finish_run c \<lparr>ru_operation = operation, ru_request = request, ru_inode = None,
                  ru_finished = False\<rparr> Run_Failed False)
            (\<lambda>_. run_raise e)))))) w"

definition require_available_run :: "run_config \<Rightarrow> run_disk \<Rightarrow> unit run_result" where
  "require_available_run c d =
     bind_result (load_journal c d) (\<lambda>v.
     ensure (list_all (\<lambda>(_, r). run_terminal (rr_status r)) (jd_runs v) \<and>
        \<not> (MAX_RUNS \<le> length (jd_runs v) \<and>
           MAX_RUNS \<le> length (jd_runs v) - length (archivable_ids (jd_runs v) d)))
       (RunDenied ''Execution scope is busy or quarantined'') (Inr ()))"

section \<open>Scopes and recovery\<close>

text \<open>\<open>lease\<close>: whether the kernel lease of the machine or device is obtained.\<close>

definition lease_unavailable :: "string \<Rightarrow> run_error" where
  "lease_unavailable kind = RunDenied ((if kind \<in> {''vm'', ''host''} then ''Machine'' else ''Repair scope'') @
     '' ownership unavailable'')"

definition bind_scope :: "run_config \<Rightarrow> string \<Rightarrow> string \<Rightarrow> bool \<Rightarrow> unit prog" where
  "bind_scope c kind scope lease =
     run_require (kind \<in> set SCOPE_KINDS \<and> is_hex_digest scope) invalid_input
     (run_require lease (lease_unavailable kind)
     (run_bind (run_lift (load_journal c)) (\<lambda>v.
      (case jd_scope v of
         None \<Rightarrow>
           run_require (list_all (\<lambda>(_, r). run_terminal (rr_status r)) (jd_runs v))
             (RunDenied ''Unscoped uncertain work requires explicit recovery'')
             (write_journal (v\<lparr>jd_scope := Some (kind, scope)\<rparr>))
       | Some s \<Rightarrow>
           run_require (s = (kind, scope))
             (RunDenied ''Execution journal belongs to another physical scope'') (run_return ())))))"

definition require_scope_available :: "run_config \<Rightarrow> string \<Rightarrow> string \<Rightarrow> bool \<Rightarrow> run_disk \<Rightarrow> unit run_result" where
  "require_scope_available c kind scope authority d =
     ensure (kind \<in> set SCOPE_KINDS \<and> is_hex_digest scope) invalid_input
     (bind_result (require_available_run c d) (\<lambda>_.
      bind_result (load_journal c d) (\<lambda>v.
      ensure (case jd_scope v of None \<Rightarrow> True | Some s \<Rightarrow> s = (kind, scope))
        (RunDenied ''Execution journal belongs to another physical scope'')
      (ensure authority (RunDenied ''Execution scope authority is unavailable'') (Inr ())))))"

text \<open>The native owner's stop record in the run directory.\<close>

definition stop_record :: "string \<Rightarrow> string \<Rightarrow> run_disk \<Rightarrow> bool" where
  "stop_record operation request d =
     (case map_of (run_dirs d) operation of
        None \<Rightarrow> False
      | Some dir \<Rightarrow>
          (case map_of (dir_entries dir) ''termination.json'' of
             Some (Regular (Some (PDict p))) \<Rightarrow>
               same_keys p [''schemaVersion'', ''operationId'', ''requestDigest'', ''state''] \<and>
               field_of p ''schemaVersion'' = PInt 1 \<and> field_of p ''operationId'' = PStr operation \<and>
               field_of p ''requestDigest'' = PStr request \<and>
               field_of p ''state'' \<in> {PStr ''stopped'', PStr ''not-started''}
           | _ \<Rightarrow> False))"

definition recovery_unavailable :: run_error where
  "recovery_unavailable = RunDenied ''Native termination recovery unavailable''"

definition recovery_error :: "run_error \<Rightarrow> run_error" where
  "recovery_error e =
     (case e of OsError \<Rightarrow> recovery_unavailable | Raised (ContractError _) \<Rightarrow> recovery_unavailable
      | Raised (ProtocolError _) \<Rightarrow> recovery_unavailable | _ \<Rightarrow> e)"

text \<open>\<open>owner\<close>: the machine whose lease the calling thread holds.\<close>

definition reconcile_open :: "run_config \<Rightarrow> string \<Rightarrow> string \<Rightarrow> string option \<Rightarrow> run_record prog" where
  "reconcile_open c operation request owner =
     run_bind (run_lift (load_journal c)) (\<lambda>v.
     run_require (case jd_scope v of None \<Rightarrow> False | Some (kind, _) \<Rightarrow> kind = ''vm'')
       (RunDenied ''VM termination cannot recover this execution scope'')
     (run_require (map_option snd (jd_scope v) = owner)
       (RunDenied ''VM recovery requires current machine ownership'')
     (run_bind (run_lift (\<lambda>d. Inr (stop_record operation request d))) (\<lambda>proof.
      run_require proof recovery_unavailable
      (run_bind (finish_run c \<lparr>ru_operation = operation, ru_request = request, ru_inode = None,
           ru_finished = False\<rparr> Run_Failed True) (\<lambda>_.
       run_lift (status_of c operation)))))))"

definition reconcile_run :: "run_config \<Rightarrow> string \<Rightarrow> string \<Rightarrow> string option \<Rightarrow> run_record prog" where
  "reconcile_run c operation request owner w =
     (run_require (is_run_id operation \<and> is_hex_digest request) invalid_input
      (run_require (rw_active w = None) busy
      (run_try
        (run_bind (run_lift (status_of c operation)) (\<lambda>r.
         run_require (rr_request r = request) (RunDenied ''Recovery binding mismatch'')
         (if run_terminal (rr_status r) then run_return r else reconcile_open c operation request owner)))
        (\<lambda>e. run_raise (recovery_error e))))) w"

text \<open>
  Recovery by the owner of a signing or device scope (\<open>journal_recovery.py\<close>); \<open>accepted\<close> is whether
  the operation store of that scope accepts the cleanup capability.
\<close>

definition scope_denied :: "string \<Rightarrow> string \<Rightarrow> run_error" where
  "scope_denied kind what = RunDenied ((if kind = ''signing'' then ''Signing '' else ''Mobile '') @ what)"

definition cleanup_error :: "string \<Rightarrow> run_error \<Rightarrow> run_error" where
  "cleanup_error kind e =
     (case e of OsError \<Rightarrow> scope_denied kind ''cleanup recovery is unavailable''
      | Raised (ContractError _) \<Rightarrow> scope_denied kind ''cleanup recovery is unavailable''
      | Raised (ProtocolError _) \<Rightarrow> scope_denied kind ''cleanup recovery is unavailable'' | _ \<Rightarrow> e)"

definition remove_empty_dir :: "string \<Rightarrow> string \<Rightarrow> unit prog" where
  "remove_empty_dir kind operation =
     run_bind (run_lift (\<lambda>d. Inr (map_of (run_dirs d) operation))) (\<lambda>found.
     (case found of
        None \<Rightarrow> run_return ()
      | Some dir \<Rightarrow>
          run_require (dir_private dir \<and> dir_entries dir = [])
            (scope_denied kind ''run directory cleanup is unknown'') (remove_dir operation)))"

definition close_record :: "journal_doc \<Rightarrow> string \<Rightarrow> run_record \<Rightarrow> run_record prog" where
  "close_record v operation r =
     run_bind (run_lift (\<lambda>d. Inr (is_cancelled d operation))) (\<lambda>cancelled.
     let r' = r\<lparr>rr_status := (if cancelled then Run_Cancelled else Run_Failed), rr_reserved := 0\<rparr>
     in run_bind (write_journal (v\<lparr>jd_runs := AList.update operation r' (jd_runs v)\<rparr>)) (\<lambda>_. run_return r'))"

definition finish_scope_recovery :: "run_config \<Rightarrow> string \<Rightarrow> string \<Rightarrow> string \<Rightarrow> string \<Rightarrow> bool \<Rightarrow> run_record prog" where
  "finish_scope_recovery c kind scope operation request accepted =
     run_try
       (run_bind (run_lift (load_journal c)) (\<lambda>v.
        (case map_of (jd_runs v) operation of
           None \<Rightarrow> run_raise (scope_denied kind ''recovery binding changed'')
         | Some r \<Rightarrow>
             run_require (jd_scope v = Some (kind, scope) \<and> rr_request r = request \<and> \<not> run_terminal (rr_status r))
               (scope_denied kind ''recovery binding changed'')
             (run_require accepted (scope_denied kind ''cleanup authority is unavailable'')
             (run_bind (remove_empty_dir kind operation) (\<lambda>_. close_record v operation r))))))
       (\<lambda>e. run_raise (cleanup_error kind e))"

section \<open>Steps\<close>

datatype run_op =
    Bind_Scope string string bool
  | Admit string string int int
  | Finish run_status bool
  | Leave
  | Cancel_Run string string
  | Reconcile string string "string option"
  | Recover string string string string bool
  | Tamper string "run_dir option"

definition tamper :: "string \<Rightarrow> run_dir option \<Rightarrow> run_disk \<Rightarrow> run_disk" where
  "tamper operation dir d = d\<lparr>run_dirs := (case dir of None \<Rightarrow> AList.delete operation (run_dirs d)
     | Some x \<Rightarrow> AList.update operation x (run_dirs d))\<rparr>"

definition forget :: "'a prog \<Rightarrow> unit prog" where
  "forget m = run_bind m (\<lambda>_. run_return ())"

fun run_prog :: "run_config \<Rightarrow> (pyval list \<Rightarrow> string) \<Rightarrow> run_op \<Rightarrow> unit prog" where
  "run_prog c fp (Bind_Scope kind scope lease) = bind_scope c kind scope lease"
| "run_prog c fp (Admit operation request n free) = admit_run c fp operation request n free"
| "run_prog c fp (Finish outcome stopped) = finish_active c outcome stopped"
| "run_prog c fp Leave = leave_run c"
| "run_prog c fp (Cancel_Run operation request) = cancel_run c operation request"
| "run_prog c fp (Reconcile operation request owner) = forget (reconcile_run c operation request owner)"
| "run_prog c fp (Recover kind scope operation request accepted) =
     forget (finish_scope_recovery c kind scope operation request accepted)"
| "run_prog c fp (Tamper operation dir) = (\<lambda>w. (Inr (), w\<lparr>rw_disk := tamper operation dir (rw_disk w)\<rparr>))"

text \<open>
  One step with its script of effects. The death of the process ends its run and frees the lock. A
  step that raises keeps what it has done, so every step returns a state.
\<close>

definition run_step :: "run_config \<Rightarrow> (pyval list \<Rightarrow> string) \<Rightarrow> run_world \<Rightarrow> run_op \<times> effect list \<Rightarrow>
    (unit run_result \<times> run_world) run_result" where
  "run_step c fp w x =
     (case run_prog c fp (fst x) (w\<lparr>rw_effects := snd x\<rparr>) of
        (r, w') \<Rightarrow> Inr (r, if r = Inl Crashed then w'\<lparr>rw_active := None\<rparr> else w'))"

definition new_world :: "run_config \<Rightarrow> run_world" where
  "new_world c = \<lparr>rw_disk = \<lparr>state_file = Some (Some (journal_json (new_journal c))), run_dirs = [],
     cancellations = [], archive_files = Some [], next_inode = 0\<rparr>, rw_effects = [], rw_active = None\<rparr>"

definition run_world_after :: "run_config \<Rightarrow> (pyval list \<Rightarrow> string) \<Rightarrow> (run_op \<times> effect list) list \<Rightarrow> run_world" where
  "run_world_after c fp xs = run_ops (run_step c fp) (new_world c) xs"

end
