(* ===== verification/Run_Store_Props.thy ===== *)
theory Run_Store_Props
  imports Run_Store "HOL-Library.Multiset"
begin

text \<open>
  The invariant of \<open>Run_Store\<close> (\<open>journal_inv\<close>) and its preservation by every program under every
  script of effects: whatever fails and wherever the process dies, the journal can be loaded, at most
  one run is not terminal, the reservations are within the budget, and the archive accounts for
  every record that left the journal. Programs are reasoned about with triples.
\<close>

section \<open>Triples\<close>

definition triple :: "(run_world \<Rightarrow> bool) \<Rightarrow> 'a prog \<Rightarrow> ('a \<Rightarrow> run_world \<Rightarrow> bool) \<Rightarrow>
    (run_error \<Rightarrow> run_world \<Rightarrow> bool) \<Rightarrow> bool" where
  "triple P m Q E \<longleftrightarrow> (\<forall>w. P w \<longrightarrow> (\<forall>x w'. m w = (Inr x, w') \<longrightarrow> Q x w') \<and> (\<forall>e w'. m w = (Inl e, w') \<longrightarrow> E e w'))"

lemma triple_conseq:
  "triple P m Q E \<Longrightarrow> (\<And>w. P' w \<Longrightarrow> P w) \<Longrightarrow> (\<And>x w. Q x w \<Longrightarrow> Q' x w) \<Longrightarrow>
     (\<And>e w. E e w \<Longrightarrow> E' e w) \<Longrightarrow> triple P' m Q' E'"
  unfolding triple_def by blast

lemma triple_pre: "triple P m Q E \<Longrightarrow> (\<And>w. P' w \<Longrightarrow> P w) \<Longrightarrow> triple P' m Q E"
  by (rule triple_conseq)

lemma triple_return [intro!]: "(\<And>w. P w \<Longrightarrow> Q x w) \<Longrightarrow> triple P (run_return x) Q E"
  by (simp add: triple_def run_return_def)

lemma triple_raise [intro!]: "(\<And>w. P w \<Longrightarrow> E e w) \<Longrightarrow> triple P (run_raise e) Q E"
  by (simp add: triple_def run_raise_def)

lemma triple_bind: "triple P m R E \<Longrightarrow> (\<And>x. triple (R x) (k x) Q E) \<Longrightarrow> triple P (run_bind m k) Q E"
  unfolding triple_def run_bind_def by (force split: prod.splits sum.splits)

lemma triple_require [intro!]:
  "(c \<Longrightarrow> triple P k Q E) \<Longrightarrow> (\<And>w. \<not> c \<Longrightarrow> P w \<Longrightarrow> E e w) \<Longrightarrow> triple P (run_require c e k) Q E"
  by (auto simp: run_require_def)

lemma triple_lift:
  "(\<And>x. triple (\<lambda>w. P w \<and> f (rw_disk w) = Inr x) (k x) Q E) \<Longrightarrow>
   (\<And>e w. P w \<Longrightarrow> f (rw_disk w) = Inl e \<Longrightarrow> E e w) \<Longrightarrow> triple P (run_bind (run_lift f) k) Q E"
  by (force simp: triple_def run_bind_def run_lift_def split: sum.splits)

lemma triple_effect:
  assumes "\<And>w es. P w \<Longrightarrow> Q () (w\<lparr>rw_disk := f (rw_disk w), rw_effects := es\<rparr>)"
    and "\<And>w es e. P w \<Longrightarrow> e \<in> {OsError, Crashed} \<Longrightarrow> E e (w\<lparr>rw_effects := es\<rparr>)"
  shows "triple P (run_effect f) Q E"
  unfolding triple_def
proof (intro allI impI)
  fix w assume P: "P w"
  from assms [OF P] show "(\<forall>x w'. run_effect f w = (Inr x, w') \<longrightarrow> Q x w') \<and> (\<forall>e w'. run_effect f w = (Inl e, w') \<longrightarrow> E e w')"
    by (auto simp: run_effect_def split: list.splits effect.splits)
qed

lemma triple_try:
  "triple P m Q (\<lambda>e w. if e = Crashed then E e w else H e w) \<Longrightarrow> (\<And>e. e \<noteq> Crashed \<Longrightarrow> triple (H e) (h e) Q E) \<Longrightarrow>
   triple P (run_try m h) Q E"
  unfolding triple_def run_try_def
  by (auto split: prod.splits sum.splits if_splits) blast+

lemma triple_run: "triple P m Q E \<Longrightarrow> P w \<Longrightarrow> m w = (r, w') \<Longrightarrow> (\<exists>x. r = Inr x \<and> Q x w') \<or> (\<exists>e. r = Inl e \<and> E e w')"
  by (cases r) (auto simp: triple_def)

section \<open>Writing and loading\<close>

lemma map_of_same_set:
  assumes "set xs = set ys" and "distinct (map fst xs)" and "distinct (map fst ys)"
  shows "map_of xs = map_of ys"
proof -
  have "map_of xs k = Some v \<longleftrightarrow> map_of ys k = Some v" for k v
    using assms by (simp add: map_of_eq_Some_iff)
  note same = this
  have "map_of xs k = map_of ys k" for k
  proof (cases "map_of ys k")
    case None
    then show ?thesis using same [of k "the (map_of xs k)"] by (cases "map_of xs k") simp_all
  next
    case (Some v)
    then show ?thesis using same [of k v] by simp
  qed
  then show ?thesis by (rule ext)
qed

lemma sort_key_rows: "sort_key f (map g xs) = map g (sort_key (\<lambda>x. f (g x)) xs)"
proof (induction xs)
  case (Cons x xs)
  have "insort_key f (g x) (map g ys) = map g (insort_key (\<lambda>x. f (g x)) x ys)" for ys
    by (induction ys) auto
  with Cons show ?case by simp
qed simp

definition run_record_ok :: "run_record \<Rightarrow> bool" where
  "run_record_ok r \<longleftrightarrow> is_hex_digest (rr_request r) \<and> 0 \<le> rr_reserved r \<and> rr_reserved r \<le> MAX_DISK_BYTES \<and>
     (run_terminal (rr_status r) \<longrightarrow> rr_reserved r = 0)"

definition doc_ok :: "run_config \<Rightarrow> journal_doc \<Rightarrow> bool" where
  "doc_ok c v \<longleftrightarrow> jd_env v = cf_env c \<and> distinct (map fst (jd_runs v)) \<and> length (jd_runs v) \<le> MAX_RUNS \<and>
     (\<forall>(k, r) \<in> set (jd_runs v). is_run_id k \<and> run_record_ok r) \<and>
     (case jd_scope v of None \<Rightarrow> True | Some (kind, dg) \<Rightarrow> kind \<in> set SCOPE_KINDS \<and> is_hex_digest dg) \<and>
     (case jd_archive v of None \<Rightarrow> True | Some (n, dg) \<Rightarrow> 1 \<le> n \<and> n \<le> 2 ^ 31 - 1 \<and> is_hex_digest dg)"

definition sorted_doc :: "journal_doc \<Rightarrow> journal_doc" where
  "sorted_doc v = v\<lparr>jd_runs := sort_key fst (jd_runs v)\<rparr>"

lemma run_status_of_text [simp]: "run_status_of (PStr (run_status_text st)) = Some st"
  by (cases st) (simp_all add: run_status_of_def)

lemma hex_of_PStr [simp]: "is_hex_digest s \<Longrightarrow> hex_of (PStr s) = Some s"
  by (simp add: hex_of_def)

lemma parse_run_record_json [simp]: "run_record_ok r \<Longrightarrow> parse_run_record (run_record_json r) = Some r"
  by (auto simp: parse_run_record_def run_record_json_def same_keys_def field_of_def run_record_ok_def)

lemma parse_runs_json:
  "\<forall>(k, r) \<in> set rs. is_run_id k \<and> run_record_ok r \<Longrightarrow> parse_runs (map (\<lambda>(k, r). (k, run_record_json r)) rs) = Some rs"
  by (induction rs) auto

lemma sorted_runs_json:
  "sort_key fst (map (\<lambda>(k, r). (k, run_record_json r)) rs) = map (\<lambda>(k, r). (k, run_record_json r)) (sort_key fst rs)"
  by (simp add: sort_key_rows case_prod_beta comp_def)

lemma map_of_sorted: "distinct (map fst rs) \<Longrightarrow> map_of (sort_key fst rs) = map_of rs"
  by (rule map_of_same_set) (auto simp: distinct_map inj_on_def distinct_sort)

lemma archive_accounted_sorted:
  "distinct (map fst (jd_runs v)) \<Longrightarrow> archive_accounted names (sorted_doc v) = archive_accounted names v"
  by (simp add: archive_accounted_def sorted_doc_def map_of_sorted)

lemma parse_journalI:
  assumes "set [''schemaVersion'', ''environmentDigest'', ''runs''] \<subseteq> fst ` set d"
    and "fst ` set d \<subseteq> set [''schemaVersion'', ''environmentDigest'', ''runs'', ''scope'', ''archive'']"
    and "field_of d ''schemaVersion'' = PInt 1" and "field_of d ''environmentDigest'' = PStr env"
    and "field_of d ''runs'' = PDict rs" and "length rs \<le> MAX_RUNS"
    and "parse_scope d = Some scope" and "parse_runs rs = Some runs" and "parse_archive_field d = Some archive"
    and "archive_accounted names \<lparr>jd_env = env, jd_runs = runs, jd_scope = scope, jd_archive = archive\<rparr>"
  shows "parse_journal env names (PDict d) =
    Some \<lparr>jd_env = env, jd_runs = runs, jd_scope = scope, jd_archive = archive\<rparr>"
  using assms by (simp add: parse_journal_def)

lemma parse_journal_json:
  assumes "doc_ok c v" and "archive_accounted names v"
  shows "parse_journal (cf_env c) names (journal_json v) = Some (sorted_doc v)"
proof -
  let ?rs = "sort_key fst (map (\<lambda>(k, r). (k, run_record_json r)) (jd_runs v))"
  let ?d = "[(''schemaVersion'', PInt 1), (''environmentDigest'', PStr (jd_env v)), (''runs'', PDict ?rs)] @
      (case jd_scope v of None \<Rightarrow> [] | Some s \<Rightarrow> [(''scope'', scope_json s)]) @
      (case jd_archive v of None \<Rightarrow> []
       | Some (n, dg) \<Rightarrow> [(''archive'', PDict [(''count'', PInt n), (''digest'', PStr dg)])])"
  have runs: "parse_runs ?rs = Some (sort_key fst (jd_runs v))"
    unfolding sorted_runs_json by (rule parse_runs_json) (use assms(1) in \<open>auto simp: doc_ok_def\<close>)
  have scope: "parse_scope ?d = Some (jd_scope v)"
    using assms(1)
    by (cases "jd_scope v"; cases "jd_archive v")
      (auto simp: parse_scope_def field_of_def doc_ok_def scope_json_def same_keys_def)
  have archive: "parse_archive_field ?d = Some (jd_archive v)"
    using assms(1)
    by (cases "jd_scope v"; cases "jd_archive v")
      (auto simp: parse_archive_field_def field_of_def doc_ok_def same_keys_def)
  have fields: "field_of ?d ''schemaVersion'' = PInt 1" "field_of ?d ''environmentDigest'' = PStr (jd_env v)"
    "field_of ?d ''runs'' = PDict ?rs" "set [''schemaVersion'', ''environmentDigest'', ''runs''] \<subseteq> fst ` set ?d"
    "fst ` set ?d \<subseteq> set [''schemaVersion'', ''environmentDigest'', ''runs'', ''scope'', ''archive'']"
    by (auto simp: field_of_def split: option.splits prod.splits)
  have doc: "\<lparr>jd_env = cf_env c, jd_runs = sort_key fst (jd_runs v), jd_scope = jd_scope v,
      jd_archive = jd_archive v\<rparr> = sorted_doc v"
    using assms(1) by (simp add: sorted_doc_def doc_ok_def)
  have "archive_accounted names (sorted_doc v)"
    using assms by (simp add: archive_accounted_sorted doc_ok_def)
  then have "parse_journal (cf_env c) names (PDict ?d) = Some \<lparr>jd_env = cf_env c,
      jd_runs = sort_key fst (jd_runs v), jd_scope = jd_scope v, jd_archive = jd_archive v\<rparr>"
    using assms(1) fields runs scope archive
    by (intro parse_journalI [where rs = ?rs]) (simp_all only: doc, simp_all add: doc_ok_def)
  then show ?thesis by (simp only: doc journal_json_def)
qed

section \<open>The invariant\<close>

definition official :: "journal_doc \<Rightarrow> run_disk \<Rightarrow> (string \<times> pyval) list" where
  "official v d = map (\<lambda>(k, e). (k, the e)) (filter (\<lambda>(k, _). map_of (jd_runs v) k = None) (archive_list d))"

definition archive_entry_ok :: "journal_doc \<Rightarrow> string \<times> pyval option \<Rightarrow> bool" where
  "archive_entry_ok v x \<longleftrightarrow> is_run_id (fst x) \<and> (\<exists>request st. is_hex_digest request \<and> run_terminal st \<and>
     snd x = Some (archive_json (fst x) request st) \<and>
     (\<forall>r. map_of (jd_runs v) (fst x) = Some r \<longrightarrow> rr_request r = request \<and> rr_status r = st))"

definition archive_ok :: "(pyval list \<Rightarrow> string) \<Rightarrow> journal_doc \<Rightarrow> run_disk \<Rightarrow> bool" where
  "archive_ok fp v d \<longleftrightarrow> distinct (map fst (archive_list d)) \<and> (\<forall>x \<in> set (archive_list d). archive_entry_ok v x) \<and>
     jd_archive v = (if official v d = [] then None
       else Some (int (length (official v d)), archive_digest fp (official v d)))"

definition one_open :: "journal_doc \<Rightarrow> bool" where
  "one_open v \<longleftrightarrow> (\<forall>(k, r) \<in> set (jd_runs v). \<forall>(k', r') \<in> set (jd_runs v).
     \<not> run_terminal (rr_status r) \<longrightarrow> \<not> run_terminal (rr_status r') \<longrightarrow> k = k')"

text \<open>
  The identities the journal and the archive know: at most \<open>fst n\<close>, and all of \<open>snd n\<close>, the identities
  that have been admitted before.
\<close>

definition known_ids :: "journal_doc \<Rightarrow> run_disk \<Rightarrow> string set" where
  "known_ids v d = fst ` set (jd_runs v) \<union> fst ` set (archive_list d)"

definition journal_ok :: "run_config \<Rightarrow> (pyval list \<Rightarrow> string) \<Rightarrow> nat \<times> string set \<Rightarrow> journal_doc \<Rightarrow> run_disk \<Rightarrow> bool" where
  "journal_ok c fp n v d \<longleftrightarrow> doc_ok c v \<and> one_open v \<and> reserved_bytes v \<le> cf_limit c \<and> archive_ok fp v d \<and>
     card (known_ids v d) \<le> fst n \<and> fst n < 2 ^ 31 \<and> snd n \<subseteq> known_ids v d"

definition active_ok :: "journal_doc \<Rightarrow> run_world \<Rightarrow> bool" where
  "active_ok v w \<longleftrightarrow> (\<forall>run. rw_active w = Some run \<longrightarrow>
     ru_operation run \<notin> fst ` set (archive_list (rw_disk w)) \<and>
     (\<forall>(k, r) \<in> set (jd_runs v). \<not> run_terminal (rr_status r) \<longrightarrow> k = ru_operation run))"

definition journal_at :: "run_config \<Rightarrow> (pyval list \<Rightarrow> string) \<Rightarrow> nat \<times> string set \<Rightarrow> journal_doc \<Rightarrow> run_world \<Rightarrow> bool" where
  "journal_at c fp n v w \<longleftrightarrow> load_journal c (rw_disk w) = Inr v \<and> journal_ok c fp n v (rw_disk w) \<and> active_ok v w"

definition journal_inv :: "run_config \<Rightarrow> (pyval list \<Rightarrow> string) \<Rightarrow> nat \<times> string set \<Rightarrow> run_world \<Rightarrow> bool" where
  "journal_inv c fp n w \<longleftrightarrow> (\<exists>v. journal_at c fp n v w)"

lemma archive_list_simps [simp]:
  "archive_list (d\<lparr>run_dirs := x\<rparr>) = archive_list d" "archive_list (d\<lparr>cancellations := y\<rparr>) = archive_list d"
  "archive_list (d\<lparr>next_inode := i\<rparr>) = archive_list d" "archive_list (d\<lparr>state_file := s\<rparr>) = archive_list d"
  by (simp_all add: archive_list_def)

lemma load_journal_simps [simp]:
  "load_journal c (d\<lparr>run_dirs := x\<rparr>) = load_journal c d" "load_journal c (d\<lparr>cancellations := y\<rparr>) = load_journal c d"
  "load_journal c (d\<lparr>next_inode := i\<rparr>) = load_journal c d"
  by (simp_all add: load_journal_def archive_names_def)

lemma journal_ok_simps [simp]:
  "journal_ok c fp n v (d\<lparr>run_dirs := x\<rparr>) = journal_ok c fp n v d"
  "journal_ok c fp n v (d\<lparr>cancellations := y\<rparr>) = journal_ok c fp n v d"
  "journal_ok c fp n v (d\<lparr>next_inode := i\<rparr>) = journal_ok c fp n v d"
  "journal_ok c fp n v (d\<lparr>state_file := s\<rparr>) = journal_ok c fp n v d"
  by (simp_all add: journal_ok_def archive_ok_def official_def known_ids_def)

lemma active_ok_simps [simp]:
  "active_ok v (w\<lparr>rw_effects := es\<rparr>) = active_ok v w"
  "active_ok v (w\<lparr>rw_active := None\<rparr>)"
  "archive_list d = archive_list (rw_disk w) \<Longrightarrow> active_ok v (w\<lparr>rw_disk := d\<rparr>) = active_ok v w"
  "archive_list d = archive_list (rw_disk w) \<Longrightarrow> active_ok v (w\<lparr>rw_disk := d, rw_effects := es\<rparr>) = active_ok v w"
  by (simp_all add: active_ok_def)

lemma journal_at_effects [simp]: "journal_at c fp n v (w\<lparr>rw_effects := es\<rparr>) = journal_at c fp n v w"
  by (simp add: journal_at_def)

lemma official_length:
  "int (length (filter (\<lambda>k. map_of (jd_runs v) k = None) (map fst (archive_list d)))) = int (length (official v d))"
  by (simp add: official_def filter_map comp_def case_prod_unfold)

lemma archive_ok_accounted:
  assumes "archive_ok fp v d"
  shows "archive_accounted (map fst (archive_list d)) v" and "archive_names d = Some (map fst (archive_list d))"
proof -
  have count: "int (length (filter (\<lambda>k. map_of (jd_runs v) k = None) (map fst (archive_list d)))) =
      (case jd_archive v of None \<Rightarrow> 0 | Some (n, _) \<Rightarrow> n)"
    unfolding official_length using assms by (simp add: archive_ok_def)
  have "list_all (\<lambda>k. case map_of (jd_runs v) k of None \<Rightarrow> True | Some r \<Rightarrow> run_terminal (rr_status r))
      (map fst (archive_list d))"
    using assms by (fastforce simp: list_all_iff archive_ok_def archive_entry_ok_def split: option.splits)
  with count show "archive_accounted (map fst (archive_list d)) v"
    by (simp add: archive_accounted_def)
  show "archive_names d = Some (map fst (archive_list d))"
    using assms by (auto simp: archive_names_def Let_def archive_ok_def archive_entry_ok_def list_all_iff)
qed

lemma load_written:
  assumes "doc_ok c v" and "archive_ok fp v d"
  shows "load_journal c (d\<lparr>state_file := Some (Some (journal_json v))\<rparr>) = Inr (sorted_doc v)"
  using parse_journal_json [OF assms(1) archive_ok_accounted(1) [OF assms(2)]] archive_ok_accounted(2) [OF assms(2)]
  by (simp add: load_journal_def archive_names_def)

lemma sorted_doc_fields [simp]:
  "set (jd_runs (sorted_doc v)) = set (jd_runs v)" "jd_archive (sorted_doc v) = jd_archive v"
  "jd_scope (sorted_doc v) = jd_scope v" "jd_env (sorted_doc v) = jd_env v"
  "length (jd_runs (sorted_doc v)) = length (jd_runs v)"
  by (simp_all add: sorted_doc_def)

lemma map_of_sorted_doc: "doc_ok c v \<Longrightarrow> map_of (jd_runs (sorted_doc v)) = map_of (jd_runs v)"
  by (simp add: sorted_doc_def map_of_sorted doc_ok_def)

lemma reserved_sorted [simp]: "reserved_bytes (sorted_doc v) = reserved_bytes v"
proof -
  have "sum_list (map f (sort_key fst xs)) = sum_list (map f xs)" for f :: "string \<times> run_record \<Rightarrow> int" and xs
    unfolding sum_mset_sum_list [symmetric] by simp
  then show ?thesis by (simp add: reserved_bytes_def sorted_doc_def)
qed

lemma doc_ok_sorted: "doc_ok c v \<Longrightarrow> doc_ok c (sorted_doc v)"
  by (auto simp: doc_ok_def sorted_doc_def distinct_map inj_on_def)

lemma journal_ok_sorted: "journal_ok c fp n v d \<Longrightarrow> journal_ok c fp n (sorted_doc v) d"
  using map_of_sorted_doc [of c v] doc_ok_sorted [of c v]
  by (auto simp: journal_ok_def archive_ok_def archive_entry_ok_def official_def one_open_def known_ids_def)

lemma journal_ok_sorted_iff:
  assumes "doc_ok c v"
  shows "journal_ok c fp n (sorted_doc v) d = journal_ok c fp n v d"
  using assms doc_ok_sorted [OF assms]
  by (simp add: journal_ok_def archive_ok_def archive_entry_ok_def official_def one_open_def known_ids_def
      map_of_sorted_doc [OF assms])

lemma active_ok_sorted [simp]: "active_ok (sorted_doc v) w = active_ok v w"
  by (simp add: active_ok_def)

section \<open>Writing a good document\<close>

lemma triple_write:
  assumes "\<And>w es. P w \<Longrightarrow> Q () (w\<lparr>rw_disk := (rw_disk w)\<lparr>state_file := Some (Some (journal_json v))\<rparr>, rw_effects := es\<rparr>)"
    and "\<And>w es e. P w \<Longrightarrow> E e (w\<lparr>rw_effects := es\<rparr>)"
  shows "triple P (write_journal v) Q E"
proof -
  have "triple P (run_try (run_effect (\<lambda>d. d\<lparr>state_file := Some (Some (journal_json v))\<rparr>))
      (\<lambda>_. run_raise (RunDenied ''Execution journal write failed''))) Q E"
    by (rule triple_try [where H = "\<lambda>_ w. \<exists>w0 es. P w0 \<and> w = w0\<lparr>rw_effects := es\<rparr>"])
      (auto intro!: triple_effect assms)
  moreover have "E e w" if "P w" for e w
    using assms(2) [OF that, of e "rw_effects w"] by simp
  ultimately show ?thesis
    by (auto simp: write_journal_def intro!: triple_require split: sum.splits)
qed

lemma journal_at_written:
  assumes "journal_ok c fp n v (rw_disk w)" and "active_ok v w"
  shows "journal_at c fp n (sorted_doc v)
    (w\<lparr>rw_disk := (rw_disk w)\<lparr>state_file := Some (Some (journal_json v))\<rparr>, rw_effects := es\<rparr>)"
  using assms load_written [of c v fp "rw_disk w"]
  by (auto simp: journal_at_def journal_ok_sorted) (simp_all add: journal_ok_def)

lemma journal_inv_written:
  "journal_ok c fp n v (rw_disk w) \<Longrightarrow> active_ok v w \<Longrightarrow> journal_inv c fp n
    (w\<lparr>rw_disk := (rw_disk w)\<lparr>state_file := Some (Some (journal_json v))\<rparr>, rw_effects := es\<rparr>)"
  unfolding journal_inv_def by (blast intro: journal_at_written)

lemma map_of_map_values: "map_of (map (\<lambda>(k, r). (k, f r)) rs) k = map_option f (map_of rs k)"
  by (induction rs) auto

lemma known_ids_keys: "map fst (jd_runs v') = map fst (jd_runs v) \<Longrightarrow> known_ids v' d = known_ids v d"
  unfolding known_ids_def set_map [symmetric] by simp

lemma doc_ok_runs:
  "doc_ok c v \<Longrightarrow> distinct (map fst rs) \<Longrightarrow> length rs \<le> MAX_RUNS \<Longrightarrow>
     (\<And>k r. (k, r) \<in> set rs \<Longrightarrow> is_run_id k \<and> run_record_ok r) \<Longrightarrow> doc_ok c (v\<lparr>jd_runs := rs\<rparr>)"
  by (auto simp: doc_ok_def)

lemma doc_ok_member: "doc_ok c v \<Longrightarrow> (k, r) \<in> set (jd_runs v) \<Longrightarrow> is_run_id k \<and> run_record_ok r"
  by (auto simp: doc_ok_def)

lemma journal_ok_map:
  assumes ok: "journal_ok c fp n v d"
    and rec: "\<And>r. run_record_ok r \<Longrightarrow> run_record_ok (f r)" "\<And>r. rr_reserved (f r) = rr_reserved r"
      "\<And>r. run_terminal (rr_status r) \<Longrightarrow> f r = r"
  shows "journal_ok c fp n (v\<lparr>jd_runs := map (\<lambda>(k, r). (k, f r)) (jd_runs v)\<rparr>) d"
proof -
  let ?v = "v\<lparr>jd_runs := map (\<lambda>(k, r). (k, f r)) (jd_runs v)\<rparr>"
  have keys: "map fst (jd_runs ?v) = map fst (jd_runs v)"
    by (simp add: comp_def case_prod_unfold)
  have mem: "x \<in> set (jd_runs ?v) \<longleftrightarrow> (\<exists>k r. (k, r) \<in> set (jd_runs v) \<and> x = (k, f r))" for x
    by (cases x) (force simp: image_iff)
  have doc: "doc_ok c v" "distinct (map fst (jd_runs v))" "length (jd_runs v) \<le> MAX_RUNS"
    using ok by (auto simp: journal_ok_def doc_ok_def)
  have "is_run_id k \<and> run_record_ok r" if "(k, r) \<in> set (jd_runs ?v)" for k r
    using that doc_ok_member [OF doc(1)] rec(1) unfolding mem by blast
  note member = this
  have "distinct (map fst (jd_runs ?v))" unfolding keys by (rule doc(2))
  then have "doc_ok c ?v"
    using member doc by (intro doc_ok_runs) simp_all
  moreover have "one_open ?v"
    unfolding one_open_def
  proof (intro ballI, clarify)
    fix k r k' r'
    assume "(k, r) \<in> set (jd_runs ?v)" "(k', r') \<in> set (jd_runs ?v)"
      and st: "\<not> run_terminal (rr_status r)" "\<not> run_terminal (rr_status r')"
    then obtain r0 r0' where "(k, r0) \<in> set (jd_runs v)" "(k', r0') \<in> set (jd_runs v)" "r = f r0" "r' = f r0'"
      unfolding mem by auto
    moreover from this st rec(3) have "\<not> run_terminal (rr_status r0)" "\<not> run_terminal (rr_status r0')" by metis+
    ultimately show "k = k'" using ok unfolding journal_ok_def one_open_def by blast
  qed
  moreover have "reserved_bytes ?v = reserved_bytes v"
    by (simp add: reserved_bytes_def comp_def case_prod_unfold rec(2))
  moreover have "known_ids ?v d = known_ids v d"
    using keys by (rule known_ids_keys)
  moreover have "official ?v d = official v d"
    by (simp add: official_def map_of_map_values)
  moreover have "archive_entry_ok ?v x" if "archive_entry_ok v x" for x
    using that rec(3) by (cases "map_of (jd_runs v) (fst x)") (auto simp: archive_entry_ok_def map_of_map_values)
  ultimately show ?thesis
    using ok by (auto simp: journal_ok_def archive_ok_def)
qed

lemma journal_ok_quarantine: "journal_ok c fp n v d \<Longrightarrow> journal_ok c fp n (quarantine_admitted v) d"
  unfolding quarantine_admitted_def
  by (rule journal_ok_map) (auto simp: run_record_ok_def)

lemma active_ok_quarantine [simp]: "active_ok (quarantine_admitted v) w = active_ok v w"
  by (fastforce simp: active_ok_def quarantine_admitted_def split: if_splits)

text \<open>A record changed in place.\<close>

lemma set_alist_update:
  "distinct (map fst xs) \<Longrightarrow> k \<in> fst ` set xs \<Longrightarrow>
     set (AList.update k x xs) = insert (k, x) {y \<in> set xs. fst y \<noteq> k}"
  by (induction xs) (auto simp: image_iff)

lemma journal_ok_update:
  assumes ok: "journal_ok c fp n v d" and old: "map_of (jd_runs v) k = Some r"
    and new: "run_record_ok r'" "rr_reserved r' \<le> rr_reserved r" "rr_request r' = rr_request r"
    and arch: "k \<notin> fst ` set (archive_list d)"
    and only: "\<not> run_terminal (rr_status r') \<Longrightarrow> \<forall>(k', x) \<in> set (jd_runs v). \<not> run_terminal (rr_status x) \<longrightarrow> k' = k"
  shows "journal_ok c fp n (v\<lparr>jd_runs := AList.update k r' (jd_runs v)\<rparr>) d"
proof -
  let ?v = "v\<lparr>jd_runs := AList.update k r' (jd_runs v)\<rparr>"
  have dist: "distinct (map fst (jd_runs v))" using ok by (simp add: journal_ok_def doc_ok_def)
  have mem: "k \<in> fst ` set (jd_runs v)" using old by (force dest: map_of_SomeD)
  have keys: "map fst (AList.update k r' (jd_runs v)) = map fst (jd_runs v)"
    using mem by (simp add: update_keys)
  have set: "set (AList.update k r' (jd_runs v)) = insert (k, r') {x \<in> set (jd_runs v). fst x \<noteq> k}"
    using dist mem by (rule set_alist_update)
  have len: "length (AList.update k r' (jd_runs v)) = length (jd_runs v)"
    using arg_cong [OF keys, of length] by simp
  have "is_run_id k" using ok old by (auto simp: journal_ok_def doc_ok_def dest!: map_of_SomeD)
  have doc: "doc_ok c v" "length (jd_runs v) \<le> MAX_RUNS" using ok by (auto simp: journal_ok_def doc_ok_def)
  have "is_run_id x \<and> run_record_ok y" if "(x, y) \<in> set (AList.update k r' (jd_runs v))" for x y
    using that \<open>is_run_id k\<close> new(1) doc_ok_member [OF doc(1)] unfolding set by auto
  then have "doc_ok c ?v"
    by (intro doc_ok_runs doc(1)) (simp_all only: keys len dist doc(2))
  moreover have "one_open ?v"
    using ok only by (fastforce simp: journal_ok_def one_open_def set)
  moreover have "reserved_bytes ?v \<le> reserved_bytes v"
  proof -
    have "sum_list (map (\<lambda>(_, r). rr_reserved r) (AList.update k r' xs)) \<le> sum_list (map (\<lambda>(_, r). rr_reserved r) xs)"
      if "map_of xs k = Some r" for xs
      using that new(2) by (induction xs) auto
    from this [OF old] show ?thesis by (simp add: reserved_bytes_def)
  qed
  moreover have "known_ids ?v d = known_ids v d"
    by (rule known_ids_keys) (simp add: keys)
  moreover have "map_of (jd_runs ?v) x = (if x = k then Some r' else map_of (jd_runs v) x)" for x
    by (simp add: update_conv)
  then have "official ?v d = official v d" "\<And>x. x \<in> set (archive_list d) \<Longrightarrow> archive_entry_ok ?v x = archive_entry_ok v x"
    using old arch by (force simp: official_def archive_entry_ok_def intro!: arg_cong [of _ _ "map _"] filter_cong split: if_splits)+
  ultimately show ?thesis
    using ok by (auto simp: journal_ok_def archive_ok_def)
qed

text \<open>A new record.\<close>

lemma journal_ok_append:
  assumes ok: "journal_ok c fp n v d" and bound: "Suc (fst n) < 2 ^ 31"
    and new: "k \<notin> known_ids v d" "is_run_id k" "run_record_ok r"
    and room: "length (jd_runs v) < MAX_RUNS" "reserved_bytes v + rr_reserved r \<le> cf_limit c"
    and settled: "\<forall>(k, r) \<in> set (jd_runs v). run_terminal (rr_status r)"
  shows "journal_ok c fp (Suc (fst n), insert k (snd n)) (v\<lparr>jd_runs := jd_runs v @ [(k, r)]\<rparr>) d"
proof -
  let ?v = "v\<lparr>jd_runs := jd_runs v @ [(k, r)]\<rparr>"
  have doc: "doc_ok c v" "distinct (map fst (jd_runs v))" using ok by (auto simp: journal_ok_def doc_ok_def)
  have fresh: "k \<notin> fst ` set (jd_runs v)" "k \<notin> fst ` set (archive_list d)"
    using new(1) by (auto simp: known_ids_def)
  have none: "map_of (jd_runs v) k = None" using fresh(1) by (simp add: map_of_eq_None_iff)
  have "is_run_id x \<and> run_record_ok y" if "(x, y) \<in> set (jd_runs v @ [(k, r)])" for x y
    using that new doc_ok_member [OF doc(1)] by auto
  then have "doc_ok c ?v"
    using fresh(1) doc(2) room(1) by (intro doc_ok_runs doc(1)) auto
  moreover have "one_open ?v"
    using settled by (auto simp: one_open_def)
  moreover have "reserved_bytes ?v \<le> cf_limit c"
    using room(2) by (simp add: reserved_bytes_def)
  moreover have "known_ids ?v d = insert k (known_ids v d)" by (auto simp: known_ids_def)
  then have "card (known_ids ?v d) \<le> Suc (fst n)" "insert k (snd n) \<subseteq> known_ids ?v d"
    using ok by (auto simp: journal_ok_def card_insert_le_m1 card_insert_if)
  moreover have "map_of (jd_runs ?v) x = (if x = k then Some r else map_of (jd_runs v) x)" for x
    using none by (auto simp: map_add_def split: option.split)
  then have "official ?v d = official v d"
    "\<And>x. x \<in> set (archive_list d) \<Longrightarrow> archive_entry_ok ?v x = archive_entry_ok v x"
    using fresh(2) by (force simp: official_def archive_entry_ok_def intro!: arg_cong [of _ _ "map _"] filter_cong split: if_splits)+
  ultimately show ?thesis
    using ok bound by (auto simp: journal_ok_def archive_ok_def)
qed

lemma journal_ok_mono:
  "journal_ok c fp n v d \<Longrightarrow> fst n \<le> fst m \<Longrightarrow> fst m < 2 ^ 31 \<Longrightarrow> snd m \<subseteq> snd n \<Longrightarrow> journal_ok c fp m v d"
  by (auto simp: journal_ok_def)

lemma journal_inv_mono:
  "journal_inv c fp n w \<Longrightarrow> fst n \<le> fst m \<Longrightarrow> fst m < 2 ^ 31 \<Longrightarrow> snd m \<subseteq> snd n \<Longrightarrow> journal_inv c fp m w"
  unfolding journal_inv_def journal_at_def using journal_ok_mono by blast

lemma scope_irrelevant [simp]:
  "official (v\<lparr>jd_scope := s\<rparr>) d = official v d" "archive_entry_ok (v\<lparr>jd_scope := s\<rparr>) = archive_entry_ok v"
  "one_open (v\<lparr>jd_scope := s\<rparr>) = one_open v" "reserved_bytes (v\<lparr>jd_scope := s\<rparr>) = reserved_bytes v"
  "known_ids (v\<lparr>jd_scope := s\<rparr>) d = known_ids v d"
  by (simp_all add: official_def archive_entry_ok_def fun_eq_iff one_open_def reserved_bytes_def known_ids_def)

lemma doc_ok_scope:
  "doc_ok c v \<Longrightarrow> kind \<in> set SCOPE_KINDS \<Longrightarrow> is_hex_digest dg \<Longrightarrow> doc_ok c (v\<lparr>jd_scope := Some (kind, dg)\<rparr>)"
  by (simp add: doc_ok_def)

lemma journal_ok_scope:
  "journal_ok c fp n v d \<Longrightarrow> kind \<in> set SCOPE_KINDS \<Longrightarrow> is_hex_digest dg \<Longrightarrow>
     journal_ok c fp n (v\<lparr>jd_scope := Some (kind, dg)\<rparr>) d"
  by (simp add: journal_ok_def archive_ok_def doc_ok_scope)

section \<open>Archiving\<close>

text \<open>An archive file for a record that is still in the journal changes nothing that counts.\<close>

definition with_archived :: "run_disk \<Rightarrow> (string \<times> pyval) list \<Rightarrow> run_disk" where
  "with_archived d docs = d\<lparr>archive_files := Some (archive_list d @ map (\<lambda>(k, x). (k, Some x)) docs)\<rparr>"

lemma archive_list_with [simp]: "archive_list (with_archived d docs) = archive_list d @ map (\<lambda>(k, x). (k, Some x)) docs"
  by (simp add: with_archived_def archive_list_def)

definition orphan_doc :: "journal_doc \<Rightarrow> string \<times> pyval \<Rightarrow> bool" where
  "orphan_doc v x \<longleftrightarrow> (\<exists>r. map_of (jd_runs v) (fst x) = Some r \<and> run_terminal (rr_status r) \<and>
     snd x = archive_json (fst x) (rr_request r) (rr_status r))"

lemma journal_ok_orphan:
  assumes ok: "journal_ok c fp n v d" and doc: "orphan_doc v (k, x)" and fresh: "k \<notin> fst ` set (archive_list d)"
  shows "journal_ok c fp n v (d\<lparr>archive_files := Some (archive_list d @ [(k, Some x)])\<rparr>)"
proof -
  let ?d = "d\<lparr>archive_files := Some (archive_list d @ [(k, Some x)])\<rparr>"
  have list: "archive_list ?d = archive_list d @ [(k, Some x)]" by (simp add: archive_list_def)
  obtain r where r: "map_of (jd_runs v) k = Some r" "run_terminal (rr_status r)"
      "x = archive_json k (rr_request r) (rr_status r)"
    using doc by (auto simp: orphan_doc_def)
  have "is_run_id k \<and> run_record_ok r"
    using ok r(1) doc_ok_member [of c v k r] by (auto simp: journal_ok_def dest: map_of_SomeD)
  with r have "archive_entry_ok v (k, Some x)"
    by (auto simp: archive_entry_ok_def run_record_ok_def)
  moreover have "official v ?d = official v d"
    using r(1) by (simp add: official_def list)
  moreover have "known_ids v ?d = known_ids v d"
    using r(1) by (auto simp: known_ids_def list dest: map_of_SomeD intro: rev_image_eqI)
  ultimately show ?thesis
    using ok fresh by (auto simp: journal_ok_def archive_ok_def list)
qed

lemma parse_journal_names:
  assumes "parse_journal env names x = Some v" and "archive_accounted names' v"
  shows "parse_journal env names' x = Some v"
proof (cases x)
  case (PDict d)
  show ?thesis
  proof (cases "field_of d ''runs''")
    case (PDict rs)
    with assms \<open>x = PDict d\<close> show ?thesis
      by (cases "parse_scope d"; cases "parse_runs rs"; cases "parse_archive_field d")
        (simp_all add: parse_journal_def Let_def split: if_splits)
  qed (use assms PDict in \<open>simp_all add: parse_journal_def split: if_splits\<close>)
qed (use assms in \<open>simp_all add: parse_journal_def\<close>)

lemma load_orphan:
  assumes "load_journal c d = Inr v" and "journal_ok c fp n v d" and "orphan_doc v (k, x)"
    and "k \<notin> fst ` set (archive_list d)"
  shows "load_journal c (d\<lparr>archive_files := Some (archive_list d @ [(k, Some x)])\<rparr>) = Inr v"
proof -
  let ?d = "d\<lparr>archive_files := Some (archive_list d @ [(k, Some x)])\<rparr>"
  have ok: "journal_ok c fp n v ?d" by (rule journal_ok_orphan [OF assms(2-4)])
  obtain doc where state: "state_file d = Some (Some doc)"
    using assms(1) by (auto simp: load_journal_def split: option.splits)
  have "archive_names d = Some (map fst (archive_list d))" "archive_names ?d = Some (map fst (archive_list ?d))"
    and acc: "archive_accounted (map fst (archive_list ?d)) v"
    using assms(2) ok by (auto simp: journal_ok_def intro: archive_ok_accounted)
  then show ?thesis
    using assms(1) state parse_journal_names [OF _ acc]
    by (simp add: load_journal_def split: option.split_asm)
qed

lemma load_journal_cong:
  "state_file d' = state_file d \<Longrightarrow> archive_list d' = archive_list d \<Longrightarrow> load_journal c d' = load_journal c d"
  by (simp add: load_journal_def archive_names_def)

lemma journal_ok_cong: "archive_list d' = archive_list d \<Longrightarrow> journal_ok c fp n v d' = journal_ok c fp n v d"
  by (simp add: journal_ok_def archive_ok_def official_def known_ids_def)

lemma journal_at_cong:
  assumes "journal_at c fp n v w" and "state_file (rw_disk w') = state_file (rw_disk w)"
    and "archive_list (rw_disk w') = archive_list (rw_disk w)" and "rw_active w' = rw_active w"
  shows "journal_at c fp n v w'"
  using assms load_journal_cong [OF assms(2,3), of c] journal_ok_cong [OF assms(3), of c fp n v]
  by (simp add: journal_at_def active_ok_def)

text \<open>All archivable records have their files: the journal may drop them.\<close>

lemma journal_ok_drop:
  assumes hex: "\<And>xs. is_hex_digest (fp xs)" and ok: "journal_ok c fp n v d"
    and arch: "set ks \<subseteq> fst ` set (archive_list d)" "set ks \<noteq> {}"
    and orphans: "\<And>x. x \<in> set (archive_list d) \<Longrightarrow> map_of (jd_runs v) (fst x) \<noteq> None \<Longrightarrow> fst x \<in> set ks"
  shows "journal_ok c fp n (v\<lparr>jd_runs := filter (\<lambda>(k, _). k \<notin> set ks) (jd_runs v),
    jd_archive := Some (int (length (archive_list d)), archive_digest fp (map (\<lambda>(k, e). (k, the e)) (archive_list d)))\<rparr>) d"
    (is "journal_ok c fp n ?v d")
proof -
  have doc: "doc_ok c v" and dist: "distinct (map fst (archive_list d))"
    and entries: "\<forall>x \<in> set (archive_list d). archive_entry_ok v x"
    and small: "card (known_ids v d) \<le> fst n" "fst n < 2 ^ 31"
    using ok by (auto simp: journal_ok_def archive_ok_def)
  have runs: "map_of (filter (\<lambda>(k, _). k \<notin> set ks) rs) k = (if k \<in> set ks then None else map_of rs k)"
    for rs :: "(string \<times> run_record) list" and k
    by (induction rs) auto
  have gone: "map_of (jd_runs ?v) (fst x) = None" if "x \<in> set (archive_list d)" for x
    using orphans [OF that] by (cases "map_of (jd_runs v) (fst x)") (simp_all add: runs)
  then have off: "official ?v d = map (\<lambda>(k, e). (k, the e)) (archive_list d)"
    by (force simp: official_def intro!: arg_cong [of _ _ "map _"] filter_True)
  have ne: "archive_list d \<noteq> []" using arch by auto
  have "length (archive_list d) = card (fst ` set (archive_list d))"
    using distinct_card [OF dist] by simp
  also have "\<dots> \<le> card (known_ids v d)"
    by (intro card_mono) (auto simp: known_ids_def)
  finally have "length (archive_list d) < 2 ^ 31" using small by simp
  then have count: "1 \<le> int (length (archive_list d))" "int (length (archive_list d)) \<le> 2 ^ 31 - 1"
    using ne by (cases "archive_list d", simp_all)
  have subset: "set (jd_runs ?v) \<subseteq> set (jd_runs v)" by auto
  have "doc_ok c ?v"
    using doc count hex
    by (auto simp: doc_ok_def archive_digest_def distinct_map_filter intro: order_trans [OF length_filter_le])
  moreover have "one_open ?v"
    using ok subset unfolding journal_ok_def one_open_def by blast
  moreover have "reserved_bytes ?v \<le> reserved_bytes v"
  proof -
    have "sum_list (map (\<lambda>(_, r). rr_reserved r) (filter p rs)) \<le> sum_list (map (\<lambda>(_, r). rr_reserved r) rs)"
      if "\<And>k r. (k, r) \<in> set rs \<Longrightarrow> 0 \<le> rr_reserved r" for p and rs :: "(string \<times> run_record) list"
      using that by (induction rs) (auto intro: add_increasing)
    moreover have "0 \<le> rr_reserved r" if "(k, r) \<in> set (jd_runs v)" for k r
      using doc_ok_member [OF doc that] by (simp add: run_record_ok_def)
    ultimately show ?thesis by (simp add: reserved_bytes_def)
  qed
  moreover have "known_ids ?v d = known_ids v d"
    using arch(1) by (force simp: known_ids_def)
  moreover have "archive_entry_ok ?v x" if "x \<in> set (archive_list d)" for x
  proof -
    from entries that have "archive_entry_ok v x" by blast
    with gone [OF that] show ?thesis by (auto simp: archive_entry_ok_def)
  qed
  ultimately show ?thesis
    using ok off ne by (simp add: journal_ok_def archive_ok_def)
qed

lemma archive_new_ok:
  "triple (\<lambda>w. journal_at c fp n v w \<and> rw_active w = None \<and> archive_list (rw_disk w) = L \<and>
      (\<forall>x \<in> set docs. orphan_doc v x) \<and> distinct (map fst docs) \<and> fst ` set docs \<inter> fst ` set L = {})
    (archive_new docs)
    (\<lambda>_ w. journal_at c fp n v w \<and> rw_active w = None \<and> archive_list (rw_disk w) = L @ map (\<lambda>(k, x). (k, Some x)) docs)
    (\<lambda>_ w. journal_at c fp n v w \<and> rw_active w = None)"
proof (induction docs arbitrary: L)
  case Nil
  show ?case by (auto intro: triple_return)
next
  case (Cons doc docs)
  obtain k x where doc: "doc = (k, x)" by (cases doc)
  let ?P = "\<lambda>w. journal_at c fp n v w \<and> rw_active w = None \<and> archive_list (rw_disk w) = L \<and>
      (\<forall>x \<in> set (doc # docs). orphan_doc v x) \<and> distinct (map fst (doc # docs)) \<and>
      fst ` set (doc # docs) \<inter> fst ` set L = {}"
  let ?E = "\<lambda>_ w. journal_at c fp n v w \<and> rw_active w = None"
  have step: "journal_at c fp n v (w\<lparr>rw_disk := (rw_disk w)\<lparr>archive_files := Some (archive_list (rw_disk w) @ [(k, Some x)])\<rparr>,
      rw_effects := es\<rparr>)" if "?P w" for w es
    using that load_orphan [of c "rw_disk w" v fp n k x] journal_ok_orphan [of c fp n v "rw_disk w" k x]
    by (auto simp: journal_at_def doc active_ok_def)
  have one: "triple ?P (run_try (run_effect (\<lambda>d. d\<lparr>archive_files := Some (archive_list d @ [(k, Some x)])\<rparr>))
       (\<lambda>_. run_raise (RunDenied ''Execution archive write failed'')))
     (\<lambda>_ w. journal_at c fp n v w \<and> rw_active w = None \<and> archive_list (rw_disk w) = L @ [(k, Some x)] \<and>
        (\<forall>x \<in> set docs. orphan_doc v x) \<and> distinct (map fst docs) \<and>
        fst ` set docs \<inter> fst ` set (L @ [(k, Some x)]) = {}) ?E"
    by (rule triple_try [where H = "?E"], rule triple_effect)
      (use step in \<open>auto simp: doc archive_list_def image_iff intro: triple_raise\<close>)
  show ?case
    unfolding doc archive_new.simps
    by (rule triple_bind [OF one [unfolded doc]])
      (rule triple_conseq [OF Cons.IH [of "L @ [(k, Some x)]"]], auto)
qed

text \<open>The document in memory is the one on disk, up to the order of its records.\<close>

definition journal_has :: "run_config \<Rightarrow> (pyval list \<Rightarrow> string) \<Rightarrow> nat \<times> string set \<Rightarrow> journal_doc \<Rightarrow> run_world \<Rightarrow> bool" where
  "journal_has c fp n v w \<longleftrightarrow> (\<exists>u \<in> {v, sorted_doc v}. journal_at c fp n u w) \<and> journal_ok c fp n v (rw_disk w)"

lemma journal_has_at: "journal_at c fp n v w \<Longrightarrow> journal_has c fp n v w"
  by (auto simp: journal_has_def journal_at_def)

lemma journal_has_inv: "journal_has c fp n v w \<Longrightarrow> journal_inv c fp n w"
  by (auto simp: journal_has_def journal_inv_def)

lemma journal_inv_effects [simp]: "journal_inv c fp n (w\<lparr>rw_effects := es\<rparr>) = journal_inv c fp n w"
  by (simp add: journal_inv_def)

lemma journal_has_written:
  "journal_ok c fp n v (rw_disk w) \<Longrightarrow> active_ok v w \<Longrightarrow> journal_has c fp n v
    (w\<lparr>rw_disk := (rw_disk w)\<lparr>state_file := Some (Some (journal_json v))\<rparr>, rw_effects := es\<rparr>)"
  using journal_at_written [of c fp n v w es] by (simp add: journal_has_def)

lemma journal_has_effects [simp]: "journal_has c fp n v (w\<lparr>rw_effects := es\<rparr>) = journal_has c fp n v w"
  by (simp add: journal_has_def)

lemma ensure_archive_dir_ok:
  "triple (\<lambda>w. journal_at c fp n v w \<and> rw_active w = None \<and> archive_list (rw_disk w) = L) ensure_archive_dir
    (\<lambda>_ w. journal_at c fp n v w \<and> rw_active w = None \<and> archive_list (rw_disk w) = L)
    (\<lambda>_ w. journal_at c fp n v w \<and> rw_active w = None)"
proof -
  let ?P = "\<lambda>w. journal_at c fp n v w \<and> rw_active w = None \<and> archive_list (rw_disk w) = L"
  let ?m = "run_try (run_effect (\<lambda>d. d\<lparr>archive_files := Some []\<rparr>))
     (\<lambda>_. run_raise (RunDenied ''Execution archive unavailable''))"
  have fresh: "archive_list (d\<lparr>archive_files := Some []\<rparr>) = []" for d by (simp add: archive_list_def)
  have none: "archive_files d = None \<Longrightarrow> archive_list d = []" for d by (simp add: archive_list_def)
  have keep: "journal_at c fp n v (w\<lparr>rw_disk := (rw_disk w)\<lparr>archive_files := Some []\<rparr>, rw_effects := es\<rparr>)"
    if "?P w" "archive_files (rw_disk w) = None" for w es
    by (rule journal_at_cong [of c fp n v w]) (use that none fresh in auto)
  have "triple (\<lambda>w. ?P w \<and> archive_files (rw_disk w) = None) ?m (\<lambda>_. ?P) (\<lambda>_ w. journal_at c fp n v w \<and> rw_active w = None)"
  proof (rule triple_try [where H = "\<lambda>_ w. journal_at c fp n v w \<and> rw_active w = None"], rule triple_effect)
    fix w es assume "?P w \<and> archive_files (rw_disk w) = None"
    then show "?P (w\<lparr>rw_disk := (rw_disk w)\<lparr>archive_files := Some []\<rparr>, rw_effects := es\<rparr>)"
      using keep [of w es] none [of "rw_disk w"] fresh [of "rw_disk w"] by simp
  qed (auto intro: triple_raise)
  note create = this
  show ?thesis
    unfolding triple_def
  proof (intro allI impI)
    fix w assume P: "?P w"
    show "(\<forall>x w'. ensure_archive_dir w = (Inr x, w') \<longrightarrow> ?P w') \<and>
      (\<forall>e w'. ensure_archive_dir w = (Inl e, w') \<longrightarrow> journal_at c fp n v w' \<and> rw_active w' = None)"
    proof (cases "archive_files (rw_disk w) = None")
      case True
      then have "ensure_archive_dir w = ?m w" by (simp add: ensure_archive_dir_def)
      moreover have "?P w \<and> archive_files (rw_disk w) = None" using P True by blast
      ultimately show ?thesis using create unfolding triple_def by metis
    next
      case False
      then have "ensure_archive_dir w = (Inr (), w)" by (simp add: ensure_archive_dir_def del: not_None_eq)
      with P show ?thesis by simp
    qed
  qed
qed

lemma read_archive_list:
  "read_archive xs = Inr records \<Longrightarrow> xs = map (\<lambda>(k, doc, _). (k, Some doc)) records"
proof (induction xs arbitrary: records)
  case (Cons x xs)
  obtain k e where x: "x = (k, e)" by (cases x)
  from Cons.prems obtain doc request st rs where doc: "archive_document k e = Inr (doc, request, st)"
    "read_archive xs = Inr rs" "records = (k, doc, request, st) # rs"
    by (auto simp: x bind_result_Inr_iff split: if_splits)
  moreover from this(1) have "e = Some doc"
    by (cases e) (auto simp: archive_document_def split: pyval.split_asm option.split_asm if_splits)
  ultimately show ?case using Cons.IH x by auto
qed simp

lemma keys_filter: "k \<in> set (map fst (filter (\<lambda>(k, r). P k r) xs)) \<longleftrightarrow> (\<exists>r. (k, r) \<in> set xs \<and> P k r)"
  by (induction xs) auto

lemma archivable_member:
  "k \<in> set (archivable_ids runs d) \<longleftrightarrow>
     (\<exists>r. (k, r) \<in> set runs \<and> run_terminal (rr_status r) \<and> rr_reserved r = 0 \<and> map_of (run_dirs d) k = None)"
  unfolding archivable_ids_def by (rule keys_filter)

lemma archive_docs_orphans:
  assumes "distinct (map fst (jd_runs v))" and "set ks \<subseteq> set (archivable_ids (jd_runs v) d)" and "distinct ks"
  shows "fst ` set (archive_docs v ks) = set ks" and "distinct (map fst (archive_docs v ks))"
    and "x \<in> set (archive_docs v ks) \<Longrightarrow> orphan_doc v x"
proof -
  have docs: "\<exists>r. map_of (jd_runs v) k = Some r \<and> run_terminal (rr_status r)" if "k \<in> set ks" for k
    using assms(1,2) that archivable_member [of k "jd_runs v" d] by auto
  have keys: "map fst (archive_docs v ks) = ks"
    using docs by (induction ks) (auto simp: archive_docs_def split: option.splits)
  then show "fst ` set (archive_docs v ks) = set ks" "distinct (map fst (archive_docs v ks))"
    using assms(3) by (metis list.set_map)+
  show "orphan_doc v x" if "x \<in> set (archive_docs v ks)"
    using that docs by (fastforce simp: archive_docs_def orphan_doc_def split: option.split_asm)
qed

lemma distinct_archivable: "distinct (map fst runs) \<Longrightarrow> distinct (archivable_ids runs d)"
  by (simp add: archivable_ids_def distinct_map_filter)

lemma triple_fix: "(\<And>y. triple (\<lambda>w. P w \<and> f w = y) m Q E) \<Longrightarrow> triple P m Q E"
  by (auto simp: triple_def)

lemma triple_assume: "(\<And>w. P w \<Longrightarrow> triple I m Q E) \<Longrightarrow> (\<And>w. P w \<Longrightarrow> I w) \<Longrightarrow> triple P m Q E"
  unfolding triple_def by blast

lemma triple_pure: "(C \<Longrightarrow> triple P m Q E) \<Longrightarrow> triple (\<lambda>w. P w \<and> C) m Q E"
  by (auto simp: triple_def)

lemma active_ok_idle: "rw_active w = None \<Longrightarrow> active_ok v w"
  by (simp add: active_ok_def)

lemma sorted_doc_same:
  assumes "u \<in> {v, sorted_doc v}" and "doc_ok c v"
  shows "map_of (jd_runs u) = map_of (jd_runs v)" and "set (jd_runs u) = set (jd_runs v)"
    and "known_ids u d = known_ids v d" and "orphan_doc u x = orphan_doc v x"
  using assms map_of_sorted_doc [of c v] by (auto simp: known_ids_def orphan_doc_def)

text \<open>What the archive step writes to the journal.\<close>

lemma dropped_ok:
  assumes hex: "\<And>xs. is_hex_digest (fp xs)" and ok: "journal_ok c fp n v d"
    and elig: "eligible = archivable_ids (jd_runs v) d0" "eligible \<noteq> []"
    and records: "L = map (\<lambda>(k, doc, _). (k, Some doc)) records"
    and orphans: "list_all (orphan_matches v eligible) records"
    and list: "archive_list d = L @ map (\<lambda>(k, x). (k, Some x))
      (archive_docs v (filter (\<lambda>k. k \<notin> fst ` set records) eligible))"
  shows "journal_ok c fp n (dropped fp v eligible (map (\<lambda>(k, doc, _). (k, doc)) records @
      archive_docs v (filter (\<lambda>k. k \<notin> fst ` set records) eligible))) d"
proof -
  let ?fresh = "archive_docs v (filter (\<lambda>k. k \<notin> fst ` set records) eligible)"
  let ?merged = "map (\<lambda>(k, doc, _). (k, doc)) records @ ?fresh"
  have dist: "distinct (map fst (jd_runs v))" using ok by (simp add: journal_ok_def doc_ok_def)
  have keys: "fst ` set ?fresh = set (filter (\<lambda>k. k \<notin> fst ` set records) eligible)"
    by (rule archive_docs_orphans(1) [OF dist, of _ d0]) (use elig dist distinct_archivable in auto)
  have merged: "map (\<lambda>(k, e). (k, the e)) (archive_list d) = ?merged"
    by (simp add: list records comp_def case_prod_unfold)
  then have len: "length (archive_list d) = length ?merged" by (metis length_map)
  have names: "fst ` set (archive_list d) = fst ` set records \<union> (set eligible - fst ` set records)"
  proof -
    have "map fst (archive_list d) = map fst records @ map fst ?fresh"
      by (simp add: list records comp_def case_prod_unfold)
    then have "fst ` set (archive_list d) = fst ` set records \<union> fst ` set ?fresh"
      by (metis list.set_map set_append)
    then show ?thesis unfolding keys by auto
  qed
  have inside: "fst x \<in> set eligible" if "x \<in> set (archive_list d)" "map_of (jd_runs v) (fst x) \<noteq> None" for x
  proof (cases "fst x \<in> fst ` set records")
    case True
    then obtain rec where "rec \<in> set records" "fst rec = fst x" by auto
    then have "orphan_matches v eligible rec" using orphans by (simp add: list_all_iff)
    then show ?thesis
      using \<open>fst rec = fst x\<close> that(2) by (cases rec) (auto simp: orphan_matches_def)
  next
    case False
    then show ?thesis using that(1) names by (auto simp: image_iff)
  qed
  have "set eligible \<subseteq> fst ` set (archive_list d)" "set eligible \<noteq> {}" using names elig(2) by auto
  from journal_ok_drop [OF hex ok this inside] show ?thesis
    unfolding merged len dropped_def .
qed

definition disk_with :: "(string \<times> pyval option) list \<Rightarrow> run_disk" where
  "disk_with L = \<lparr>state_file = None, run_dirs = [], cancellations = [], archive_files = Some L, next_inode = 0\<rparr>"

lemma archive_list_disk_with [simp]: "archive_list (disk_with L) = L"
  by (simp add: disk_with_def archive_list_def)

lemma only_list_matters:
  "archive_list d = L \<Longrightarrow> journal_ok c fp n v d = journal_ok c fp n v (disk_with L)"
  "archive_list d = L \<Longrightarrow> known_ids v d = known_ids v (disk_with L)"
  using journal_ok_cong [of d "disk_with L"] by (simp_all add: known_ids_def)

lemma archive_write_ok:
  assumes hex: "\<And>xs. is_hex_digest (fp xs)" and same: "u \<in> {v, sorted_doc v}" and doc: "doc_ok c v"
    and elig: "eligible = archivable_ids (jd_runs v) d0" "eligible \<noteq> []"
    and k0: "k0 \<notin> known_ids v (disk_with L)"
    and records: "L = map (\<lambda>(k, doc, _). (k, Some doc)) records"
    and orphans: "list_all (orphan_matches v eligible) records"
  shows "triple (\<lambda>w. journal_at c fp n u w \<and> rw_active w = None \<and> archive_list (rw_disk w) = L)
    (archive_write fp v eligible records)
    (\<lambda>v' w. journal_has c fp n v' w \<and> rw_active w = None \<and> k0 \<notin> known_ids v' (rw_disk w) \<and>
      set (jd_runs v') \<subseteq> set (jd_runs v))
    (\<lambda>_ w. journal_inv c fp n w \<and> rw_active w = None)"
    (is "triple ?P _ ?Q ?E")
proof -
  define fresh where "fresh = archive_docs v (filter (\<lambda>k. k \<notin> fst ` set records) eligible)"
  define v' where "v' = dropped fp v eligible (map (\<lambda>(k, doc, _). (k, doc)) records @ fresh)"
  let ?A = "L @ map (\<lambda>(k, x). (k, Some x)) fresh"
  let ?R = "\<lambda>w. journal_at c fp n u w \<and> rw_active w = None \<and> archive_list (rw_disk w) = ?A"
  have dist: "distinct (map fst (jd_runs v))" using doc by (simp add: doc_ok_def)
  have sub: "set (filter (\<lambda>k. k \<notin> fst ` set records) eligible) \<subseteq> set (archivable_ids (jd_runs v) d0)"
    and de: "distinct (filter (\<lambda>k. k \<notin> fst ` set records) eligible)"
    using elig dist distinct_archivable by auto
  note docs = archive_docs_orphans [OF dist sub de, folded fresh_def]
  have "fst ` set L = fst ` set records" by (force simp: records)
  then have disjoint: "fst ` set fresh \<inter> fst ` set L = {}" using docs(1) by auto
  have orphan: "\<forall>x \<in> set fresh. orphan_doc u x"
    using docs(3) sorted_doc_same(4) [OF same doc] by blast
  have names: "fst ` set fresh \<subseteq> fst ` set (jd_runs v)"
    using docs(1) elig(1) archivable_member [of _ "jd_runs v" d0] by (auto intro: rev_image_eqI)
  have written: "triple ?R (write_journal v') (\<lambda>_. ?Q v') ?E"
  proof (rule triple_write)
    fix w es assume R: "?R w"
    then have "journal_ok c fp n u (rw_disk w)" by (simp add: journal_at_def)
    then have ok: "journal_ok c fp n v (rw_disk w)"
      using same journal_ok_sorted_iff [OF doc, of fp n "rw_disk w"] by auto
    have "journal_ok c fp n v' (rw_disk w)"
      unfolding v'_def fresh_def
      by (rule dropped_ok [OF hex ok elig records orphans]) (use R fresh_def in simp)
    then have "journal_has c fp n v' (w\<lparr>rw_disk := (rw_disk w)\<lparr>state_file := Some (Some (journal_json v'))\<rparr>, rw_effects := es\<rparr>)"
      using R by (intro journal_has_written active_ok_idle) simp_all
    moreover have "k0 \<notin> known_ids v' (rw_disk w)"
    proof -
      have "k0 \<notin> fst ` set fresh" using k0 names by (auto simp: known_ids_def)
      then have "(k0, x) \<notin> set fresh" for x by (force simp: image_iff)
      with k0 R show ?thesis by (auto simp: known_ids_def v'_def dropped_def)
    qed
    ultimately show "?Q v' (w\<lparr>rw_disk := (rw_disk w)\<lparr>state_file := Some (Some (journal_json v'))\<rparr>, rw_effects := es\<rparr>)"
      using R by (auto simp: known_ids_def v'_def dropped_def)
  qed (auto simp: journal_inv_def)
  have new: "triple ?P (archive_new fresh) (\<lambda>_. ?R) ?E"
    by (rule triple_conseq [OF archive_new_ok [of c fp n u L fresh]])
      (use orphan docs(2) disjoint in \<open>auto simp: journal_inv_def\<close>)
  show ?thesis
    unfolding archive_write_def Let_def fresh_def [symmetric] v'_def [symmetric]
    by (rule triple_bind [OF new], rule triple_bind [OF written]) (auto intro: triple_return)
qed

lemma archive_terminal_at:
  assumes hex: "\<And>xs. is_hex_digest (fp xs)" and same: "u \<in> {v, sorted_doc v}"
  shows "triple (\<lambda>w. journal_at c fp n u w \<and> journal_ok c fp n v (rw_disk w) \<and> rw_active w = None \<and>
      k0 \<notin> known_ids v (rw_disk w)) (archive_terminal fp v)
    (\<lambda>v' w. journal_has c fp n v' w \<and> rw_active w = None \<and> k0 \<notin> known_ids v' (rw_disk w) \<and>
      set (jd_runs v') \<subseteq> set (jd_runs v))
    (\<lambda>_ w. journal_inv c fp n w \<and> rw_active w = None)"
    (is "triple ?P _ ?Q ?E")
proof (rule triple_fix [where f = "\<lambda>w. archive_list (rw_disk w)"])
  fix L
  let ?I = "\<lambda>w. journal_at c fp n u w \<and> rw_active w = None \<and> archive_list (rw_disk w) = L"
  have err: "?E e w" if "journal_at c fp n u w \<and> rw_active w = None" for e :: run_error and w
    using that by (auto simp: journal_inv_def)
  have body: "triple ?I (run_bind ensure_archive_dir (\<lambda>_.
       run_bind (run_lift (\<lambda>d. read_archive (archive_list d))) (\<lambda>records.
       run_require (archive_matches fp v records \<and> list_all (orphan_matches v eligible) records)
         (RunDenied ''Execution archive mismatch'') (archive_write fp v eligible records)))) ?Q ?E"
    if elig: "eligible = archivable_ids (jd_runs v) d0" "eligible \<noteq> []" and doc: "doc_ok c v"
      and k0: "k0 \<notin> known_ids v (disk_with L)" for eligible d0
  proof (rule triple_bind)
    show "triple ?I ensure_archive_dir (\<lambda>_. ?I) ?E"
      by (rule triple_conseq [OF ensure_archive_dir_ok [of c fp n u L]]) (use err in auto)
    show "triple ?I (run_bind (run_lift (\<lambda>d. read_archive (archive_list d))) (\<lambda>records.
       run_require (archive_matches fp v records \<and> list_all (orphan_matches v eligible) records)
         (RunDenied ''Execution archive mismatch'') (archive_write fp v eligible records))) ?Q ?E"
    proof (rule triple_lift, rule triple_require)
      fix records
      assume "archive_matches fp v records \<and> list_all (orphan_matches v eligible) records"
      then have "triple (\<lambda>w. ?I w \<and> read_archive L = Inr records) (archive_write fp v eligible records) ?Q ?E"
        by (intro triple_pure archive_write_ok [OF hex same doc elig k0 read_archive_list]) auto
      then show "triple (\<lambda>w. ?I w \<and> read_archive (archive_list (rw_disk w)) = Inr records)
          (archive_write fp v eligible records) ?Q ?E"
        by (rule triple_pre) auto
    qed (use err in blast)+
  qed
  show "triple (\<lambda>w. ?P w \<and> archive_list (rw_disk w) = L) (archive_terminal fp v) ?Q ?E"
    unfolding archive_terminal_def
  proof (rule triple_lift, goal_cases)
    case (1 eligible)
    show ?case
    proof (cases "eligible = []")
      case True
      with same show ?thesis by (auto simp: journal_has_def intro!: triple_return)
    next
      case False
      show ?thesis
        unfolding if_not_P [OF False]
      proof (rule triple_assume [OF body [OF _ False]])
        fix w assume w: "((?P w \<and> archive_list (rw_disk w) = L) \<and> Inr (archivable_ids (jd_runs v) (rw_disk w)) = Inr eligible)"
        then show "eligible = archivable_ids (jd_runs v) (rw_disk w)" "?I w" by auto
        show "doc_ok c v" using w by (simp add: journal_ok_def)
        show "k0 \<notin> known_ids v (disk_with L)" using w only_list_matters(2) [of "rw_disk w" L v] by simp
      qed
    qed
  qed simp
qed

section \<open>Finishing and admitting\<close>

text \<open>Predicates that do not look at the run directories.\<close>

definition dir_blind :: "(run_world \<Rightarrow> bool) \<Rightarrow> bool" where
  "dir_blind K \<longleftrightarrow> (\<forall>w x es. K w \<longrightarrow> K (w\<lparr>rw_disk := (rw_disk w)\<lparr>run_dirs := x\<rparr>, rw_effects := es\<rparr>))"

lemma dir_blind_effects: "dir_blind K \<Longrightarrow> K w \<Longrightarrow> K (w\<lparr>rw_effects := es\<rparr>)"
  unfolding dir_blind_def by (drule spec [of _ w], drule spec [of _ "run_dirs (rw_disk w)"]) simp

lemma dir_effect:
  "dir_blind K \<Longrightarrow> triple K (run_effect (\<lambda>d. d\<lparr>run_dirs := g d\<rparr>)) (\<lambda>_. K) (\<lambda>_. K)"
  by (rule triple_effect) (auto simp: dir_blind_def intro: dir_blind_effects [unfolded dir_blind_def])

lemma unlink_all_keeps: "dir_blind K \<Longrightarrow> triple K (unlink_all k ns) (\<lambda>_. K) (\<lambda>_. K)"
  by (induction ns) (auto intro: triple_return triple_bind dir_effect)

lemma remove_dir_keeps: "dir_blind K \<Longrightarrow> triple K (remove_dir k) (\<lambda>_. K) (\<lambda>_. K)"
  unfolding remove_dir_def by (rule dir_effect)

lemma clean_run_keeps:
  assumes "dir_blind K"
  shows "triple K (clean_run run) (\<lambda>_. K) (\<lambda>_. K)"
proof -
  have body: "triple K (run_try (run_bind (unlink_all (ru_operation run) ns) (\<lambda>_.
      run_bind (remove_dir (ru_operation run)) (\<lambda>_. run_return True))) (\<lambda>_. run_return False)) (\<lambda>_. K) (\<lambda>_. K)" for ns
    by (rule triple_try [where H = "\<lambda>_. K"])
      (auto intro!: triple_return intro: triple_conseq [OF triple_bind [OF unlink_all_keeps [OF assms]
          triple_bind [OF remove_dir_keeps [OF assms], where Q = "\<lambda>_. K"]]])
  show ?thesis
    unfolding clean_run_def
    by (rule triple_lift, rule triple_assume [where I = K])
      (auto split: option.split intro: triple_return body)
qed

lemma journal_at_blind: "dir_blind (journal_at c fp n v)"
  unfolding dir_blind_def
proof (intro allI impI)
  fix w x es assume "journal_at c fp n v w"
  then show "journal_at c fp n v (w\<lparr>rw_disk := (rw_disk w)\<lparr>run_dirs := x\<rparr>, rw_effects := es\<rparr>)"
    by (rule journal_at_cong) simp_all
qed

text \<open>The record \<open>k\<close> may be closed or reopened: it is not archived and no other run is open.\<close>

definition closable :: "string \<Rightarrow> journal_doc \<Rightarrow> run_world \<Rightarrow> bool" where
  "closable k v w \<longleftrightarrow> k \<notin> fst ` set (archive_list (rw_disk w)) \<and>
     (\<forall>(k', r) \<in> set (jd_runs v). \<not> run_terminal (rr_status r) \<longrightarrow> k' = k) \<and>
     (\<forall>run. rw_active w = Some run \<longrightarrow> ru_operation run = k)"

lemma closable_blind: "dir_blind (\<lambda>w. journal_at c fp n v w \<and> closable k v w)"
  unfolding dir_blind_def
proof (intro allI impI, elim conjE, intro conjI)
  fix w x es
  assume "journal_at c fp n v w"
  then show "journal_at c fp n v (w\<lparr>rw_disk := (rw_disk w)\<lparr>run_dirs := x\<rparr>, rw_effects := es\<rparr>)"
    using journal_at_blind [of c fp n v] by (simp add: dir_blind_def)
qed (simp add: closable_def)

lemma write_record_ok:
  assumes old: "map_of (jd_runs v) k = Some r"
    and new: "run_record_ok r \<Longrightarrow> run_record_ok r' \<and> rr_reserved r' \<le> rr_reserved r" "rr_request r' = rr_request r"
  shows "triple (\<lambda>w. journal_at c fp n v w \<and> closable k v w)
    (write_journal (v\<lparr>jd_runs := AList.update k r' (jd_runs v)\<rparr>))
    (\<lambda>_ w. journal_at c fp n (sorted_doc (v\<lparr>jd_runs := AList.update k r' (jd_runs v)\<rparr>)) w)
    (\<lambda>_. journal_at c fp n v)"
proof (rule triple_write)
  fix w es assume pre: "journal_at c fp n v w \<and> closable k v w"
  then have ok: "journal_ok c fp n v (rw_disk w)" by (simp add: journal_at_def)
  have "run_record_ok r"
    using ok old doc_ok_member [of c v k r] by (auto simp: journal_ok_def dest: map_of_SomeD)
  then have ok': "journal_ok c fp n (v\<lparr>jd_runs := AList.update k r' (jd_runs v)\<rparr>) (rw_disk w)"
    using pre new by (intro journal_ok_update [OF ok old]) (auto simp: closable_def)
  have dist: "distinct (map fst (jd_runs v))" using ok by (simp add: journal_ok_def doc_ok_def)
  have "set (AList.update k r' (jd_runs v)) = insert (k, r') {y \<in> set (jd_runs v). fst y \<noteq> k}"
    using old by (intro set_alist_update [OF dist]) (force dest: map_of_SomeD)
  then have "active_ok (v\<lparr>jd_runs := AList.update k r' (jd_runs v)\<rparr>) w"
    using pre by (auto simp: active_ok_def closable_def)
  with ok' show "journal_at c fp n (sorted_doc (v\<lparr>jd_runs := AList.update k r' (jd_runs v)\<rparr>))
      (w\<lparr>rw_disk := (rw_disk w)\<lparr>state_file := Some (Some (journal_json (v\<lparr>jd_runs := AList.update k r' (jd_runs v)\<rparr>)))\<rparr>,
        rw_effects := es\<rparr>)"
    by (rule journal_at_written)
qed simp

lemma finish_run_ok:
  "triple (\<lambda>w. \<exists>v. journal_at c fp n v w \<and> closable (ru_operation run) v w)
    (finish_run c run outcome stopped) (\<lambda>_. journal_inv c fp n) (\<lambda>_. journal_inv c fp n)"
  (is "triple ?P _ ?Q ?E")
  unfolding finish_run_def
proof (rule triple_require, rule triple_require, rule triple_lift)
  fix v
  let ?k = "ru_operation run"
  let ?K = "\<lambda>w. journal_at c fp n v w \<and> closable ?k v w"
  assume outcome: "run_terminal outcome"
  have inv: "journal_inv c fp n w" if "journal_at c fp n u w" for u w
    using that by (auto simp: journal_inv_def)
  show "triple (\<lambda>w. ?P w \<and> load_journal c (rw_disk w) = Inr v)
    (case map_of (jd_runs v) ?k of None \<Rightarrow> run_raise (Raised OtherError)
     | Some r \<Rightarrow> run_bind (if stopped then clean_run run else run_return False) (\<lambda>cleaned.
         run_bind (run_lift (\<lambda>d. Inr (is_cancelled d ?k))) (\<lambda>cancelled.
         write_journal (v\<lparr>jd_runs := AList.update ?k
           (r\<lparr>rr_status := (if cleaned then (if cancelled then Run_Cancelled else outcome) else Run_Quarantined),
              rr_reserved := (if cleaned then 0 else rr_reserved r)\<rparr>) (jd_runs v)\<rparr>)))) ?Q ?E"
  proof (rule triple_assume [where I = ?K])
    show "?K w" if "?P w \<and> load_journal c (rw_disk w) = Inr v" for w
      using that by (auto simp: journal_at_def)
    show "triple ?K (case map_of (jd_runs v) ?k of None \<Rightarrow> run_raise (Raised OtherError)
     | Some r \<Rightarrow> run_bind (if stopped then clean_run run else run_return False) (\<lambda>cleaned.
         run_bind (run_lift (\<lambda>d. Inr (is_cancelled d ?k))) (\<lambda>cancelled.
         write_journal (v\<lparr>jd_runs := AList.update ?k
           (r\<lparr>rr_status := (if cleaned then (if cancelled then Run_Cancelled else outcome) else Run_Quarantined),
              rr_reserved := (if cleaned then 0 else rr_reserved r)\<rparr>) (jd_runs v)\<rparr>)))) ?Q ?E"
    proof (cases "map_of (jd_runs v) ?k")
      case None
      then show ?thesis using inv by (auto intro: triple_raise)
    next
      case (Some r)
      have clean: "triple ?K (if stopped then clean_run run else run_return False) (\<lambda>_. ?K) ?E"
      proof (cases stopped)
        case True
        show ?thesis
          unfolding if_P [OF True]
          by (rule triple_conseq [OF clean_run_keeps [OF closable_blind [of c fp n v ?k]]]) (use inv in auto)
      qed (auto intro: triple_return)
      show ?thesis
        unfolding Some option.case
        by (rule triple_bind [OF clean], rule triple_lift, rule triple_conseq [OF write_record_ok [OF Some]])
          (use inv outcome in \<open>auto simp: run_record_ok_def\<close>)
    qed
  qed
qed (auto simp: journal_inv_def)

text \<open>The post-condition of a new record: it is open, nothing else is, and it is not archived.\<close>

definition newly_open :: "run_config \<Rightarrow> (pyval list \<Rightarrow> string) \<Rightarrow> nat \<times> string set \<Rightarrow> string \<Rightarrow> run_world \<Rightarrow> bool" where
  "newly_open c fp n k w \<longleftrightarrow> (\<exists>v. journal_at c fp n v w \<and> closable k v w \<and> map_of (jd_runs v) k \<noteq> None) \<and>
     rw_active w = None"

lemma write_admitted_ok:
  assumes valid: "is_run_id k" "is_hex_digest request" "1 \<le> b" "b \<le> MAX_DISK_BYTES" and bound: "Suc (fst n) < 2 ^ 31"
    and room: "length (jd_runs v) < MAX_RUNS" "reserved_bytes v + b \<le> cf_limit c"
    and settled: "\<forall>(k, r) \<in> set (jd_runs v). run_terminal (rr_status r)"
  shows "triple (\<lambda>w. journal_has c fp n v w \<and> rw_active w = None \<and> k \<notin> known_ids v (rw_disk w))
    (write_journal (admitted_doc k request b v))
    (\<lambda>_. newly_open c fp (Suc (fst n), insert k (snd n)) k)
    (\<lambda>_ w. journal_inv c fp n w \<and> rw_active w = None)"
proof (rule triple_write)
  fix w es
  let ?r = "\<lparr>rr_request = request, rr_status = Run_Admitted, rr_reserved = b\<rparr>"
  let ?m = "(Suc (fst n), insert k (snd n))" and ?v = "admitted_doc k request b v"
  assume pre: "journal_has c fp n v w \<and> rw_active w = None \<and> k \<notin> known_ids v (rw_disk w)"
  then have "journal_ok c fp n v (rw_disk w)" by (simp add: journal_has_def)
  then have ok: "journal_ok c fp ?m ?v (rw_disk w)"
    unfolding admitted_doc_def using pre valid room settled bound
    by (intro journal_ok_append) (auto simp: run_record_ok_def)
  let ?w = "w\<lparr>rw_disk := (rw_disk w)\<lparr>state_file := Some (Some (journal_json ?v))\<rparr>, rw_effects := es\<rparr>"
  have "journal_at c fp ?m (sorted_doc ?v) ?w"
    using ok pre by (intro journal_at_written active_ok_idle) auto
  moreover have "closable k (sorted_doc ?v) ?w"
    using pre settled by (auto simp: closable_def known_ids_def admitted_doc_def)
  moreover have "map_of (jd_runs (sorted_doc ?v)) k \<noteq> None"
    using ok map_of_sorted_doc [of c ?v] by (simp add: journal_ok_def map_of_eq_None_iff admitted_doc_def)
  ultimately show "newly_open c fp ?m k ?w"
    using pre unfolding newly_open_def by auto
qed (auto intro: journal_has_inv)

lemma quarantined_none: "\<not> has_status Run_Admitted (quarantine_admitted v)"
  by (auto simp: has_status_def quarantine_admitted_def list_ex_iff split: if_splits)

lemma quarantine_known [simp]: "known_ids (quarantine_admitted v) d = known_ids v d"
  by (rule known_ids_keys) (simp add: quarantine_admitted_def comp_def case_prod_unfold)

lemma run_terminal_iff: "run_terminal st \<longleftrightarrow> st \<noteq> Run_Admitted \<and> st \<noteq> Run_Quarantined"
  by (cases st) simp_all

lemma all_settled:
  "\<not> has_status Run_Admitted v \<Longrightarrow> \<not> has_status Run_Quarantined v \<Longrightarrow> \<forall>(k, r) \<in> set (jd_runs v). run_terminal (rr_status r)"
  using run_terminal_iff by (fastforce simp: has_status_def list_ex_iff)

lemma triple_if: "(b \<Longrightarrow> triple P m Q E) \<Longrightarrow> (\<not> b \<Longrightarrow> triple P k Q E) \<Longrightarrow> triple P (if b then m else k) Q E"
  by simp

text \<open>Admission once no record is in state \<open>admitted\<close>.\<close>

lemma archive_when_full:
  assumes hex: "\<And>xs. is_hex_digest (fp xs)"
  shows "triple (\<lambda>w. journal_has c fp n v w \<and> rw_active w = None \<and> k \<notin> known_ids v (rw_disk w))
    (if full then archive_terminal fp v else run_return v)
    (\<lambda>v' w. journal_has c fp n v' w \<and> rw_active w = None \<and> k \<notin> known_ids v' (rw_disk w) \<and>
      set (jd_runs v') \<subseteq> set (jd_runs v))
    (\<lambda>_ w. journal_inv c fp n w \<and> rw_active w = None)" (is "triple ?P _ ?Q ?E")
proof (rule triple_if)
  show "triple ?P (archive_terminal fp v) ?Q ?E"
    unfolding triple_def
  proof (intro allI impI)
    fix w assume P: "?P w"
    then obtain u where u: "u \<in> {v, sorted_doc v}" "journal_at c fp n u w" "journal_ok c fp n v (rw_disk w)"
      unfolding journal_has_def by blast
    from u P archive_terminal_at [where fp = fp and c = c and n = n and ?k0.0 = k, OF hex u(1)] show
      "(\<forall>x w'. archive_terminal fp v w = (Inr x, w') \<longrightarrow> ?Q x w') \<and> (\<forall>e w'. archive_terminal fp v w = (Inl e, w') \<longrightarrow> ?E e w')"
      unfolding triple_def by blast
  qed
qed (auto intro: triple_return)

definition admit_rest :: "run_config \<Rightarrow> (pyval list \<Rightarrow> string) \<Rightarrow> string \<Rightarrow> string \<Rightarrow> int \<Rightarrow> int \<Rightarrow> journal_doc \<Rightarrow> unit prog" where
  "admit_rest c fp operation request disk_bytes free v1 =
     run_bind (run_lift (\<lambda>d. Inr (is_archived d operation))) (\<lambda>archived.
     run_require (map_of (jd_runs v1) operation = None \<and> \<not> archived) refused
     (run_bind (if MAX_RUNS \<le> length (jd_runs v1) then archive_terminal fp v1 else run_return v1) (\<lambda>v2.
     run_require (length (jd_runs v2) < MAX_RUNS \<and> \<not> has_status Run_Quarantined v2) refused
     (run_require (reserved_bytes v2 + disk_bytes \<le> cf_limit c \<and> disk_bytes \<le> free)
        (RunDenied ''Execution disk budget exhausted'')
     (write_journal (admitted_doc operation request disk_bytes v2))))))"

lemma unknown_id:
  "map_of (jd_runs v) k = None \<Longrightarrow> \<not> is_archived d k \<Longrightarrow> k \<notin> known_ids v d"
  by (simp add: known_ids_def is_archived_def map_of_eq_None_iff)

lemma admit_rest_ok:
  assumes hex: "\<And>xs. is_hex_digest (fp xs)" and valid: "is_run_id k" "is_hex_digest request" "1 \<le> b" "b \<le> MAX_DISK_BYTES"
    and bound: "Suc (fst n) < 2 ^ 31" and none: "\<not> has_status Run_Admitted v1"
  shows "triple (\<lambda>w. journal_has c fp n v1 w \<and> rw_active w = None) (admit_rest c fp k request b free v1)
    (\<lambda>_. newly_open c fp (Suc (fst n), insert k (snd n)) k)
    (\<lambda>_ w. journal_inv c fp n w \<and> rw_active w = None)" (is "triple ?P _ ?Q ?E")
  unfolding admit_rest_def
proof (rule triple_lift, rule triple_require)
  fix archived
  let ?R = "\<lambda>v w. journal_has c fp n v w \<and> rw_active w = None \<and> k \<notin> known_ids v (rw_disk w)"
  let ?m = "run_bind (if MAX_RUNS \<le> length (jd_runs v1) then archive_terminal fp v1 else run_return v1) (\<lambda>v2.
     run_require (length (jd_runs v2) < MAX_RUNS \<and> \<not> has_status Run_Quarantined v2) refused
     (run_require (reserved_bytes v2 + b \<le> cf_limit c \<and> b \<le> free)
        (RunDenied ''Execution disk budget exhausted'') (write_journal (admitted_doc k request b v2))))"
  assume fresh: "map_of (jd_runs v1) k = None \<and> \<not> archived"
  have err: "?E e w" if "?R v w \<and> S" for e :: run_error and v w S using that journal_has_inv by blast
  have final: "triple (\<lambda>w. ?R v2 w \<and> set (jd_runs v2) \<subseteq> set (jd_runs v1)) (run_require (length (jd_runs v2) < MAX_RUNS \<and> \<not> has_status Run_Quarantined v2) refused
     (run_require (reserved_bytes v2 + b \<le> cf_limit c \<and> b \<le> free)
        (RunDenied ''Execution disk budget exhausted'') (write_journal (admitted_doc k request b v2)))) ?Q ?E" for v2
  proof (rule triple_pure, rule triple_require, rule triple_require)
    assume sub: "set (jd_runs v2) \<subseteq> set (jd_runs v1)" and room: "length (jd_runs v2) < MAX_RUNS \<and> \<not> has_status Run_Quarantined v2"
      and budget: "reserved_bytes v2 + b \<le> cf_limit c \<and> b \<le> free"
    have "\<not> has_status Run_Admitted v2"
      using none sub by (auto simp: has_status_def list_ex_iff)
    then have "\<forall>(k, r) \<in> set (jd_runs v2). run_terminal (rr_status r)" using room all_settled by blast
    then show "triple (?R v2) (write_journal (admitted_doc k request b v2)) ?Q ?E"
      using room budget by (intro write_admitted_ok valid bound) simp_all
  qed (use err in blast)+
  have "triple (?R v1) ?m ?Q ?E"
    by (rule triple_bind [OF archive_when_full [where fp = fp, OF hex]]) (rule final [simplified conj_assoc])
  then show "triple (\<lambda>w. ?P w \<and> Inr (is_archived (rw_disk w) k) = Inr archived) ?m ?Q ?E"
    by (rule triple_pre) (use fresh unknown_id in auto)
qed (auto intro: journal_has_inv)

lemma admit_record_ok:
  assumes hex: "\<And>xs. is_hex_digest (fp xs)" and valid: "is_run_id k" "is_hex_digest request" "1 \<le> b" "b \<le> MAX_DISK_BYTES"
    and bound: "Suc (fst n) < 2 ^ 31"
  shows "triple (\<lambda>w. journal_inv c fp n w \<and> rw_active w = None) (admit_record c fp k request b free)
    (\<lambda>_. newly_open c fp (Suc (fst n), insert k (snd n)) k)
    (\<lambda>_ w. journal_inv c fp n w \<and> rw_active w = None)" (is "triple ?P _ ?Q ?E")
  unfolding admit_record_def
proof (rule triple_lift)
  fix v0
  let ?at = "\<lambda>w. journal_at c fp n v0 w \<and> rw_active w = None"
  let ?idle = "\<lambda>v w. journal_has c fp n v w \<and> rw_active w = None"
  let ?m = "if has_status Run_Admitted v0
      then run_bind (write_journal (quarantine_admitted v0)) (\<lambda>_. run_return (quarantine_admitted v0)) else run_return v0"
  have err: "?E e w" if "?at w" for e :: run_error and w using that journal_inv_def by blast
  have q: "?idle (quarantine_admitted v0) (w\<lparr>rw_disk := (rw_disk w)\<lparr>state_file := Some (Some (journal_json (quarantine_admitted v0)))\<rparr>,
      rw_effects := es\<rparr>)" if "?at w" for w es
    using that journal_has_written [of c fp n "quarantine_admitted v0" w es] by (simp add: journal_at_def journal_ok_quarantine)
  have "triple ?at ?m (\<lambda>v1 w. ?idle v1 w \<and> \<not> has_status Run_Admitted v1) ?E"
  proof (rule triple_if)
    have "triple ?at (write_journal (quarantine_admitted v0)) (\<lambda>_. ?idle (quarantine_admitted v0)) ?E"
      by (rule triple_write, rule q, assumption) (use err in simp)
    then show "triple ?at (run_bind (write_journal (quarantine_admitted v0)) (\<lambda>_. run_return (quarantine_admitted v0)))
        (\<lambda>v1 w. ?idle v1 w \<and> \<not> has_status Run_Admitted v1) ?E"
      by (rule triple_bind) (auto intro!: triple_return simp: quarantined_none)
  qed (auto intro!: triple_return journal_has_at)
  then have "triple ?at (run_bind ?m (admit_rest c fp k request b free)) ?Q ?E"
    by (rule triple_bind) (intro triple_pure admit_rest_ok [where fp = fp, OF hex valid bound])
  then show "triple (\<lambda>w. ?P w \<and> load_journal c (rw_disk w) = Inr v0) (run_bind ?m (\<lambda>v1.
     run_bind (run_lift (\<lambda>d. Inr (is_archived d k))) (\<lambda>archived.
     run_require (map_of (jd_runs v1) k = None \<and> \<not> archived) refused
     (run_bind (if MAX_RUNS \<le> length (jd_runs v1) then archive_terminal fp v1 else run_return v1) (\<lambda>v2.
     run_require (length (jd_runs v2) < MAX_RUNS \<and> \<not> has_status Run_Quarantined v2) refused
     (run_require (reserved_bytes v2 + b \<le> cf_limit c \<and> b \<le> free)
        (RunDenied ''Execution disk budget exhausted'')
     (write_journal (admitted_doc k request b v2)))))))) ?Q ?E"
    unfolding admit_rest_def
    by (rule triple_pre) (auto simp: journal_inv_def journal_at_def)
qed auto

end
