(* ===== verification/Run_Store_Runs.thy ===== *)
theory Run_Store_Runs
  imports Run_Store_Props
begin

text \<open>
  Every step of \<open>Run_Store\<close> keeps the invariant, under every script of effects, so every world
  reached from a new store has a loadable journal. The properties of a step that changes what the
  journal says of an execution are in \<open>Run_Store_Safety\<close>.
\<close>

section \<open>The operations keep the invariant\<close>

lemma triple_set_active: "(\<And>w. P w \<Longrightarrow> Q () (w\<lparr>rw_active := run\<rparr>)) \<Longrightarrow> triple P (set_active run) Q E"
  by (auto simp: triple_def set_active_def)

lemma make_run_dir_ok:
  assumes "dir_blind K" and "\<And>(w :: run_world) i. K w \<Longrightarrow> K (w\<lparr>rw_disk := (rw_disk w)\<lparr>next_inode := i\<rparr>\<rparr>)"
  shows "triple K (make_run_dir k) (\<lambda>_. K) (\<lambda>_. K)"
  unfolding make_run_dir_def
proof (rule triple_lift)
  fix i
  have "triple (\<lambda>w. K w \<and> (if map_of (run_dirs (rw_disk w)) k = None then Inr (next_inode (rw_disk w)) else Inl OsError) = Inr i)
    (run_effect (\<lambda>d. d\<lparr>run_dirs := (k, \<lparr>dir_inode = i, dir_private = True, dir_entries = []\<rparr>) # run_dirs d,
       next_inode := Suc i\<rparr>)) (\<lambda>_. K) (\<lambda>_. K)"
  proof (rule triple_effect)
    fix w :: run_world and es :: "effect list"
    let ?d = "rw_disk w" and ?x = "(k, \<lparr>dir_inode = i, dir_private = True, dir_entries = []\<rparr>) # run_dirs (rw_disk w)"
    assume "K w \<and> (if map_of (run_dirs (rw_disk w)) k = None then Inr (next_inode (rw_disk w)) else Inl OsError) = Inr i"
    then have "K (w\<lparr>rw_disk := ?d\<lparr>run_dirs := ?x\<rparr>, rw_effects := es\<rparr>)"
      using assms(1) by (simp add: dir_blind_def)
    from assms(2) [OF this, of "Suc i"]
    show "K (w\<lparr>rw_disk := ?d\<lparr>run_dirs := ?x, next_inode := Suc i\<rparr>, rw_effects := es\<rparr>)"
      by (rule back_subst [of K]) simp
  qed (use assms(1) dir_blind_effects in blast)
  then show "triple (\<lambda>w. K w \<and> (if map_of (run_dirs (rw_disk w)) k = None then Inr (next_inode (rw_disk w)) else Inl OsError) = Inr i)
    (run_bind (run_effect (\<lambda>d. d\<lparr>run_dirs := (k, \<lparr>dir_inode = i, dir_private = True, dir_entries = []\<rparr>) # run_dirs d,
       next_inode := Suc i\<rparr>)) (\<lambda>_. run_return i)) (\<lambda>_. K) (\<lambda>_. K)"
    by (rule triple_bind) (auto intro: triple_return)
qed simp

lemma newly_open_blind:
  "dir_blind (newly_open c fp n k)" "newly_open c fp n k w \<Longrightarrow> newly_open c fp n k (w\<lparr>rw_disk := (rw_disk w)\<lparr>next_inode := i\<rparr>\<rparr>)"
proof -
  have at: "journal_at c fp n v (w\<lparr>rw_disk := (rw_disk w)\<lparr>run_dirs := x\<rparr>, rw_effects := es\<rparr>)"
    "closable k v w \<Longrightarrow> closable k v (w\<lparr>rw_disk := (rw_disk w)\<lparr>run_dirs := x\<rparr>, rw_effects := es\<rparr>)"
    if "journal_at c fp n v w" for v w x es
    using that journal_at_blind [of c fp n v] by (simp_all add: dir_blind_def closable_def)
  then show "dir_blind (newly_open c fp n k)"
    unfolding dir_blind_def newly_open_def by fastforce
  have "journal_at c fp n v (w\<lparr>rw_disk := (rw_disk w)\<lparr>next_inode := i\<rparr>\<rparr>)" if "journal_at c fp n v w" for v
    by (rule journal_at_cong [OF that]) simp_all
  then show "newly_open c fp n k w \<Longrightarrow> newly_open c fp n k (w\<lparr>rw_disk := (rw_disk w)\<lparr>next_inode := i\<rparr>\<rparr>)"
    unfolding newly_open_def closable_def by fastforce
qed

text \<open>The run that holds the lock finds its record open, and nothing else.\<close>


lemma newly_open_active:
  assumes "newly_open c fp n k w"
  shows "journal_inv c fp n (w\<lparr>rw_active := Some \<lparr>ru_operation = k, ru_request = request, ru_inode = i, ru_finished = False\<rparr>\<rparr>)"
proof -
  obtain v where "journal_at c fp n v w" "closable k v w" using assms by (auto simp: newly_open_def)
  then have "journal_at c fp n v (w\<lparr>rw_active := Some \<lparr>ru_operation = k, ru_request = request, ru_inode = i, ru_finished = False\<rparr>\<rparr>)"
    by (simp add: journal_at_def closable_def active_ok_def)
  then show ?thesis unfolding journal_inv_def by blast
qed

lemma admit_run_ok:
  assumes hex: "\<And>xs. is_hex_digest (fp xs)" and bound: "Suc (fst n) < 2 ^ 31"
  shows "triple (journal_inv c fp n) (admit_run c fp k request b free)
    (\<lambda>_. journal_inv c fp (Suc (fst n), insert k (snd n))) (\<lambda>_. journal_inv c fp (Suc (fst n), snd n))"
proof -
  let ?m = "(Suc (fst n), insert k (snd n))"
  let ?body = "run_try (run_bind (make_run_dir k) (\<lambda>i.
      set_active (Some \<lparr>ru_operation = k, ru_request = request, ru_inode = Some i, ru_finished = False\<rparr>)))
     (\<lambda>e. run_bind (finish_run c \<lparr>ru_operation = k, ru_request = request, ru_inode = None, ru_finished = False\<rparr> Run_Failed False)
        (\<lambda>_. run_raise e))"
  let ?P = "newly_open c fp ?m k"
  let ?Q = "\<lambda>_. journal_inv c fp ?m"
  let ?E = "\<lambda>_. journal_inv c fp (Suc (fst n), snd n)"
  have weaken: "journal_inv c fp (Suc (fst n), snd n) w" if "journal_inv c fp ?m w" for w
    using that by (rule journal_inv_mono) (use bound in auto)
  have inv: "journal_inv c fp ?m w" if "?P w" for w
    using that by (auto simp: newly_open_def journal_inv_def)
  have open_dir: "triple ?P (run_bind (make_run_dir k) (\<lambda>i.
      set_active (Some \<lparr>ru_operation = k, ru_request = request, ru_inode = Some i, ru_finished = False\<rparr>)))
    ?Q (\<lambda>_. ?P)"
    by (rule triple_bind [OF make_run_dir_ok [OF newly_open_blind]]) (auto intro: triple_set_active newly_open_active)
  have failed: "triple ?P (run_bind (finish_run c \<lparr>ru_operation = k, ru_request = request, ru_inode = None, ru_finished = False\<rparr>
      Run_Failed False) (\<lambda>_. run_raise e)) ?Q ?E" for e
  proof (rule triple_bind [where R = "\<lambda>_. journal_inv c fp ?m"])
    show "triple ?P (finish_run c \<lparr>ru_operation = k, ru_request = request, ru_inode = None, ru_finished = False\<rparr>
      Run_Failed False) (\<lambda>_. journal_inv c fp ?m) ?E"
      by (rule triple_conseq [OF finish_run_ok [of c fp ?m]]) (auto simp: newly_open_def weaken)
  qed (auto intro: triple_raise weaken)
  have body: "triple ?P ?body ?Q ?E"
    by (rule triple_try [where H = "\<lambda>_. ?P"])
      (rule triple_conseq [OF open_dir], auto intro: inv weaken failed)
  have lower: "journal_inv c fp (Suc (fst n), snd n) w" if "journal_inv c fp n w" for w
    using that by (rule journal_inv_mono) (use bound in auto)
  have "triple (journal_inv c fp n) (\<lambda>w. run_require (is_run_id k \<and> is_hex_digest request \<and> 1 \<le> b \<and> b \<le> MAX_DISK_BYTES)
        invalid_input (run_require (rw_active w = None) busy
      (run_bind (admit_record c fp k request b free) (\<lambda>_. ?body))) w) ?Q ?E"
    unfolding triple_def
  proof (intro allI impI)
    fix w assume w: "journal_inv c fp n w"
    let ?main = "run_bind (admit_record c fp k request b free) (\<lambda>_. ?body)"
    have main: "triple (\<lambda>w. journal_inv c fp n w \<and> rw_active w = None) ?main ?Q ?E"
      if "is_run_id k \<and> is_hex_digest request \<and> 1 \<le> b \<and> b \<le> MAX_DISK_BYTES"
      by (rule triple_bind [OF triple_conseq [OF admit_record_ok [where fp = fp, OF hex _ _ _ _ bound]] body])
        (use that lower in auto)
    have "triple (\<lambda>w'. w' = w) (run_require (is_run_id k \<and> is_hex_digest request \<and> 1 \<le> b \<and> b \<le> MAX_DISK_BYTES)
        invalid_input (run_require (rw_active w = None) busy ?main)) ?Q ?E"
      by (rule triple_require, rule triple_require, rule triple_pre [OF main]) (use w lower in auto)
    then show "(\<forall>x w'. run_require (is_run_id k \<and> is_hex_digest request \<and> 1 \<le> b \<and> b \<le> MAX_DISK_BYTES)
        invalid_input (run_require (rw_active w = None) busy ?main) w = (Inr x, w') \<longrightarrow> ?Q x w') \<and>
      (\<forall>e w'. run_require (is_run_id k \<and> is_hex_digest request \<and> 1 \<le> b \<and> b \<le> MAX_DISK_BYTES)
        invalid_input (run_require (rw_active w = None) busy ?main) w = (Inl e, w') \<longrightarrow> ?E e w')"
      by (simp add: triple_def)
  qed
  then show ?thesis by (simp add: admit_run_def [abs_def])
qed

lemma active_closable: "journal_at c fp n v w \<Longrightarrow> rw_active w = Some run \<Longrightarrow> closable (ru_operation run) v w"
  by (auto simp: journal_at_def active_ok_def closable_def)

text \<open>\<open>finish_active\<close> and \<open>leave_run\<close>; leaving frees the lock.\<close>

lemma finish_active_run:
  assumes "journal_inv c fp n w" and "rw_active w = Some run" and "finish_run c run st stopped w = (r, w')"
  shows "journal_inv c fp n w'"
proof -
  obtain v where "journal_at c fp n v w" using assms(1) by (auto simp: journal_inv_def)
  with assms(2) have "\<exists>v. journal_at c fp n v w \<and> closable (ru_operation run) v w"
    using active_closable by blast
  from triple_run [OF finish_run_ok, OF this assms(3)] show ?thesis by auto
qed

lemma journal_inv_released: "journal_inv c fp n w \<Longrightarrow> journal_inv c fp n (w\<lparr>rw_active := None\<rparr>)"
  by (auto simp: journal_inv_def journal_at_def)

definition active_is :: "string option \<Rightarrow> run_world \<Rightarrow> bool" where
  "active_is k w \<longleftrightarrow> map_option ru_operation (rw_active w) = k"

lemma active_finished:
  assumes "journal_inv c fp n w" and "rw_active w = Some run"
  shows "journal_inv c fp n (w\<lparr>rw_active := Some (run\<lparr>ru_finished := b\<rparr>)\<rparr>)"
proof -
  obtain v where "journal_at c fp n v w" using assms(1) by (auto simp: journal_inv_def)
  with assms(2) have "journal_at c fp n v (w\<lparr>rw_active := Some (run\<lparr>ru_finished := b\<rparr>)\<rparr>)"
    by (simp add: journal_at_def active_ok_def)
  then show ?thesis unfolding journal_inv_def by blast
qed

text \<open>Programs over the disk leave the lock alone.\<close>

definition lock_blind :: "'a prog \<Rightarrow> bool" where
  "lock_blind m \<longleftrightarrow> (\<forall>w. rw_active (snd (m w)) = rw_active w)"

named_theorems lock_blind_intros

lemma lock_blind_basic [lock_blind_intros]:
  "lock_blind (run_return x)" "lock_blind (run_raise e)" "lock_blind (run_lift f)" "lock_blind (run_effect g)"
  by (simp_all add: lock_blind_def run_return_def run_raise_def run_lift_def run_effect_def split: list.split effect.split)

lemma lock_blind_bind [lock_blind_intros]:
  "lock_blind m \<Longrightarrow> (\<And>x. lock_blind (k x)) \<Longrightarrow> lock_blind (run_bind m k)"
  unfolding lock_blind_def run_bind_def by (auto split: prod.split sum.split) (metis snd_conv)+

lemma lock_blind_try [lock_blind_intros]:
  "lock_blind m \<Longrightarrow> (\<And>e. lock_blind (h e)) \<Longrightarrow> lock_blind (run_try m h)"
  unfolding lock_blind_def run_try_def by (auto split: prod.split sum.split) (metis snd_conv)+

lemma lock_blind_require [lock_blind_intros]: "lock_blind k \<Longrightarrow> lock_blind (run_require b e k)"
  by (simp add: lock_blind_basic run_require_def)

lemma lock_blind_if [lock_blind_intros]: "lock_blind m \<Longrightarrow> lock_blind k \<Longrightarrow> lock_blind (if b then m else k)"
  by simp

lemma lock_blind_option [lock_blind_intros]:
  "lock_blind m \<Longrightarrow> (\<And>x. lock_blind (k x)) \<Longrightarrow> lock_blind (case z of None \<Rightarrow> m | Some x \<Rightarrow> k x)"
  by (simp split: option.split)

lemma lock_blind_write [lock_blind_intros]: "lock_blind (write_journal v)"
  unfolding write_journal_def by (cases "canonical (journal_json v)") (auto intro: lock_blind_intros)

lemma lock_blind_unlink [lock_blind_intros]: "lock_blind (unlink_all k ns)"
  by (induction ns) (auto intro: lock_blind_intros)

lemma lock_blind_finish [lock_blind_intros]: "lock_blind (finish_run c run st stopped)"
  unfolding finish_run_def clean_run_def remove_dir_def by (intro lock_blind_intros)

lemma finish_active_ok: "triple (journal_inv c fp n) (finish_active c st stopped) (\<lambda>_. journal_inv c fp n) (\<lambda>_. journal_inv c fp n)"
  unfolding triple_def
proof (intro allI impI)
  fix w assume w: "journal_inv c fp n w"
  show "(\<forall>x w'. finish_active c st stopped w = (Inr x, w') \<longrightarrow> journal_inv c fp n w') \<and>
    (\<forall>e w'. finish_active c st stopped w = (Inl e, w') \<longrightarrow> journal_inv c fp n w')"
  proof (cases "rw_active w")
    case (Some run)
    obtain r w1 where m: "finish_run c run st stopped w = (r, w1)" by fastforce
    have "journal_inv c fp n w1" by (rule finish_active_run [OF w Some m])
    moreover have "rw_active w1 = Some run"
      using lock_blind_finish [of c run st stopped] m Some unfolding lock_blind_def by (metis snd_conv)
    ultimately show ?thesis
      using m Some active_finished [of c fp n w1 run True]
      by (cases r) (auto simp: finish_active_def run_bind_def set_active_def)
  qed (use w in \<open>simp add: finish_active_def\<close>)
qed

lemma leave_run_ok: "triple (journal_inv c fp n) (leave_run c) (\<lambda>_. journal_inv c fp n) (\<lambda>_. journal_inv c fp n)"
  unfolding triple_def
proof (intro allI impI)
  fix w assume w: "journal_inv c fp n w"
  show "(\<forall>x w'. leave_run c w = (Inr x, w') \<longrightarrow> journal_inv c fp n w') \<and>
    (\<forall>e w'. leave_run c w = (Inl e, w') \<longrightarrow> journal_inv c fp n w')"
    using w finish_active_run [OF w, of _ Run_Failed False]
    by (auto simp: leave_run_def run_return_def journal_inv_released split: option.splits prod.splits if_splits)
qed

text \<open>Programs that keep a predicate whatever happens.\<close>

definition keeps :: "(run_world \<Rightarrow> bool) \<Rightarrow> 'a prog \<Rightarrow> bool" where
  "keeps K m \<longleftrightarrow> triple K m (\<lambda>_. K) (\<lambda>_. K)"

named_theorems keeps_intros

lemma keeps_basic [keeps_intros]: "keeps K (run_return x)" "keeps K (run_raise e)" "keeps K (run_lift f)"
  by (simp_all add: keeps_def triple_def run_return_def run_raise_def run_lift_def)

lemma prog_keeps_bind [keeps_intros]: "keeps K m \<Longrightarrow> (\<And>x. keeps K (k x)) \<Longrightarrow> keeps K (run_bind m k)"
  unfolding keeps_def by (rule triple_bind)

lemma prog_keeps_require [keeps_intros]: "(b \<Longrightarrow> keeps K k) \<Longrightarrow> keeps K (run_require b e k)"
  unfolding keeps_def by (rule triple_require)

lemma prog_keeps_if [keeps_intros]: "(b \<Longrightarrow> keeps K m) \<Longrightarrow> (\<not> b \<Longrightarrow> keeps K k) \<Longrightarrow> keeps K (if b then m else k)"
  by simp

lemma prog_keeps_option [keeps_intros]:
  "(z = None \<Longrightarrow> keeps K m) \<Longrightarrow> (\<And>x. z = Some x \<Longrightarrow> keeps K (k x)) \<Longrightarrow> keeps K (case z of None \<Rightarrow> m | Some x \<Rightarrow> k x)"
  by (simp split: option.split)

lemma prog_keeps_try [keeps_intros]: "keeps K m \<Longrightarrow> (\<And>e. keeps K (h e)) \<Longrightarrow> keeps K (run_try m h)"
  unfolding keeps_def by (rule triple_try [where H = "\<lambda>_. K"]) (auto intro: triple_conseq)

lemma keeps_effect:
  "(\<And>w es. K w \<Longrightarrow> K (w\<lparr>rw_disk := f (rw_disk w), rw_effects := es\<rparr>)) \<Longrightarrow> (\<And>w es. K w \<Longrightarrow> K (w\<lparr>rw_effects := es\<rparr>)) \<Longrightarrow>
     keeps K (run_effect f)"
  unfolding keeps_def by (rule triple_effect)

lemma keeps_write:
  "(\<And>w es. K w \<Longrightarrow> K (w\<lparr>rw_disk := (rw_disk w)\<lparr>state_file := Some (Some (journal_json v))\<rparr>, rw_effects := es\<rparr>)) \<Longrightarrow>
     (\<And>w es. K w \<Longrightarrow> K (w\<lparr>rw_effects := es\<rparr>)) \<Longrightarrow> keeps K (write_journal v)"
  unfolding keeps_def by (rule triple_write)

lemma inv_cancellations:
  "journal_inv c fp n w \<Longrightarrow> journal_inv c fp n (w\<lparr>rw_disk := (rw_disk w)\<lparr>cancellations := x\<rparr>, rw_effects := es\<rparr>)"
  unfolding journal_inv_def by (erule exE, rule exI, erule journal_at_cong) simp_all

lemma inv_dirs: "journal_inv c fp n w \<Longrightarrow> journal_inv c fp n (w\<lparr>rw_disk := (rw_disk w)\<lparr>run_dirs := x\<rparr>\<rparr>)"
  unfolding journal_inv_def by (erule exE, rule exI, erule journal_at_cong) simp_all

lemma cancel_run_keeps: "keeps (journal_inv c fp n) (cancel_run c k request)"
proof -
  have "keeps (journal_inv c fp n) (run_effect (\<lambda>d. d\<lparr>cancellations := g d\<rparr>))" for g
    by (rule keeps_effect) (rule inv_cancellations, assumption, simp only: journal_inv_effects)
  then show ?thesis
    unfolding cancel_run_def by (intro keeps_intros)
qed

text \<open>Binding a scope, and recovery.\<close>

lemma bind_scope_keeps: "keeps (journal_inv c fp n) (bind_scope c kind dg lease)"
  unfolding bind_scope_def
proof (intro prog_keeps_require)
  assume valid: "kind \<in> set SCOPE_KINDS \<and> is_hex_digest dg"
  have wr: "triple (journal_at c fp n v) (write_journal (v\<lparr>jd_scope := Some (kind, dg)\<rparr>))
    (\<lambda>_. journal_inv c fp n) (\<lambda>_. journal_inv c fp n)" for v
  proof (rule triple_write)
    fix w es assume "journal_at c fp n v w"
    then have "journal_ok c fp n (v\<lparr>jd_scope := Some (kind, dg)\<rparr>) (rw_disk w)" "active_ok (v\<lparr>jd_scope := Some (kind, dg)\<rparr>) w"
      using valid by (simp_all add: journal_at_def journal_ok_scope active_ok_def)
    then show "journal_inv c fp n (w\<lparr>rw_disk := (rw_disk w)\<lparr>state_file := Some (Some (journal_json (v\<lparr>jd_scope := Some (kind, dg)\<rparr>)))\<rparr>,
        rw_effects := es\<rparr>)"
      by (rule journal_inv_written)
  qed (auto simp: journal_inv_def)
  show "keeps (journal_inv c fp n) (run_bind (run_lift (load_journal c)) (\<lambda>v.
      (case jd_scope v of
         None \<Rightarrow> run_require (list_all (\<lambda>(_, r). run_terminal (rr_status r)) (jd_runs v))
             (RunDenied ''Unscoped uncertain work requires explicit recovery'')
             (write_journal (v\<lparr>jd_scope := Some (kind, dg)\<rparr>))
       | Some s \<Rightarrow> run_require (s = (kind, dg))
             (RunDenied ''Execution journal belongs to another physical scope'') (run_return ()))))"
    unfolding keeps_def
  proof (rule triple_lift)
    fix v
    show "triple (\<lambda>w. journal_inv c fp n w \<and> load_journal c (rw_disk w) = Inr v)
      (case jd_scope v of
         None \<Rightarrow> run_require (list_all (\<lambda>(_, r). run_terminal (rr_status r)) (jd_runs v))
             (RunDenied ''Unscoped uncertain work requires explicit recovery'')
             (write_journal (v\<lparr>jd_scope := Some (kind, dg)\<rparr>))
       | Some s \<Rightarrow> run_require (s = (kind, dg))
             (RunDenied ''Execution journal belongs to another physical scope'') (run_return ()))
      (\<lambda>_. journal_inv c fp n) (\<lambda>_. journal_inv c fp n)"
      by (rule triple_pre [of "journal_at c fp n v"])
        (auto split: option.split intro: wr simp: journal_inv_def, auto simp: journal_at_def)
  qed simp
qed

lemma open_not_archived:
  assumes "journal_at c fp n v w" and "map_of (jd_runs v) k = Some r" and "\<not> run_terminal (rr_status r)"
  shows "k \<notin> fst ` set (archive_list (rw_disk w))"
  using assms by (fastforce simp: journal_at_def journal_ok_def archive_ok_def archive_entry_ok_def)

lemma open_closable:
  assumes at: "journal_at c fp n v w" and r: "map_of (jd_runs v) k = Some r" "\<not> run_terminal (rr_status r)"
  shows "closable k v w"
proof -
  have mem: "(k, r) \<in> set (jd_runs v)" using r(1) by (rule map_of_SomeD)
  have "one_open v" using at by (simp add: journal_at_def journal_ok_def)
  with mem r(2) have "\<forall>(k', x) \<in> set (jd_runs v). \<not> run_terminal (rr_status x) \<longrightarrow> k' = k"
    unfolding one_open_def by fast
  moreover have "\<forall>run. rw_active w = Some run \<longrightarrow> ru_operation run = k"
    using at mem r(2) by (auto simp: journal_at_def active_ok_def)
  ultimately show ?thesis using open_not_archived [OF at r] by (simp add: closable_def)
qed

lemma remove_empty_dir_keeps: "dir_blind K \<Longrightarrow> keeps K (remove_empty_dir kind k)"
  unfolding remove_empty_dir_def by (intro keeps_intros) (simp add: keeps_def remove_dir_keeps)

lemma close_record_ok:
  assumes r: "map_of (jd_runs v) k = Some r"
  shows "triple (\<lambda>w. journal_at c fp n v w \<and> closable k v w) (close_record v k r) (\<lambda>_. journal_inv c fp n) (\<lambda>_. journal_inv c fp n)"
proof -
  let ?K = "\<lambda>w. journal_at c fp n v w \<and> closable k v w"
  have "triple ?K (run_bind (write_journal (v\<lparr>jd_runs := AList.update k (r\<lparr>rr_status := st, rr_reserved := 0\<rparr>) (jd_runs v)\<rparr>))
      (\<lambda>_. run_return x)) (\<lambda>_. journal_inv c fp n) (\<lambda>_. journal_inv c fp n)" for st and x :: run_record
    by (rule triple_bind [where R = "\<lambda>_. journal_inv c fp n"], rule triple_conseq [OF write_record_ok [OF r]])
      (auto simp: run_record_ok_def journal_inv_def)
  note last = this
  show ?thesis
    unfolding close_record_def Let_def by (rule triple_lift, rule triple_pre [OF last]) auto
qed

lemma scope_recovery_keeps: "keeps (journal_inv c fp n) (finish_scope_recovery c kind dg k request accepted)"
  unfolding finish_scope_recovery_def
proof (rule prog_keeps_try)
  have fin: "triple (\<lambda>w. journal_at c fp n v w \<and> closable k v w) (run_bind (remove_empty_dir kind k) (\<lambda>_. close_record v k r))
      (\<lambda>_. journal_inv c fp n) (\<lambda>_. journal_inv c fp n)"
    if r: "map_of (jd_runs v) k = Some r" for v r
    by (rule triple_bind [OF triple_conseq [OF remove_empty_dir_keeps [unfolded keeps_def, OF closable_blind [of c fp n v k]]]
          close_record_ok [OF r]]) (auto simp: journal_inv_def)
  show "keeps (journal_inv c fp n) (run_bind (run_lift (load_journal c)) (\<lambda>v.
        (case map_of (jd_runs v) k of
           None \<Rightarrow> run_raise (scope_denied kind ''recovery binding changed'')
         | Some r \<Rightarrow>
             run_require (jd_scope v = Some (kind, dg) \<and> rr_request r = request \<and> \<not> run_terminal (rr_status r))
               (scope_denied kind ''recovery binding changed'')
             (run_require accepted (scope_denied kind ''cleanup authority is unavailable'')
             (run_bind (remove_empty_dir kind k) (\<lambda>_. close_record v k r))))))"
    unfolding keeps_def
  proof (rule triple_lift)
    fix v
    let ?P = "\<lambda>w. journal_inv c fp n w \<and> load_journal c (rw_disk w) = Inr v"
    have at: "journal_at c fp n v w" if "?P w" for w using that by (auto simp: journal_inv_def journal_at_def)
    show "triple ?P (case map_of (jd_runs v) k of
           None \<Rightarrow> run_raise (scope_denied kind ''recovery binding changed'')
         | Some r \<Rightarrow>
             run_require (jd_scope v = Some (kind, dg) \<and> rr_request r = request \<and> \<not> run_terminal (rr_status r))
               (scope_denied kind ''recovery binding changed'')
             (run_require accepted (scope_denied kind ''cleanup authority is unavailable'')
             (run_bind (remove_empty_dir kind k) (\<lambda>_. close_record v k r))))
      (\<lambda>_. journal_inv c fp n) (\<lambda>_. journal_inv c fp n)"
    proof (cases "map_of (jd_runs v) k")
      case (Some r)
      show ?thesis
        unfolding Some option.case
        by (rule triple_require, rule triple_require, rule triple_pre [OF fin [OF Some]])
          (use at open_closable Some in blast)+
    qed (auto intro: triple_raise)
  qed simp
qed (rule keeps_intros)

text \<open>Reconciliation finishes the record of a run whose machine is stopped.\<close>

definition open_status :: "run_config \<Rightarrow> string \<Rightarrow> run_world \<Rightarrow> bool" where
  "open_status c k w \<longleftrightarrow> (\<exists>r. status_of c k (rw_disk w) = Inr r \<and> \<not> run_terminal (rr_status r))"

lemma open_status_closable:
  assumes "journal_inv c fp n w" and "open_status c k w"
  shows "\<exists>v. journal_at c fp n v w \<and> closable k v w"
proof -
  obtain v r where at: "journal_at c fp n v w" and r: "status_of c k (rw_disk w) = Inr r" "\<not> run_terminal (rr_status r)"
    using assms unfolding journal_inv_def open_status_def by blast
  then have "load_journal c (rw_disk w) = Inr v" by (simp add: journal_at_def)
  with r have "map_of (jd_runs v) k = Some r"
    by (auto simp: status_of_def bind_result_Inr_iff archived_record_def archive_document_def
        split: option.splits if_splits pyval.split_asm)
  from open_closable [OF at this r(2)] at show ?thesis by blast
qed

lemma reconcile_open_ok:
  "triple (\<lambda>w. journal_inv c fp n w \<and> open_status c k w) (reconcile_open c k request owner)
     (\<lambda>_. journal_inv c fp n) (\<lambda>_. journal_inv c fp n)" (is "triple ?open _ ?Q ?E")
proof -
  let ?run = "\<lparr>ru_operation = k, ru_request = request, ru_inode = None, ru_finished = False\<rparr>"
  have finish: "triple ?open (run_bind (finish_run c ?run Run_Failed True) (\<lambda>_. run_lift (status_of c k))) ?Q ?E"
  proof (rule triple_bind [where R = "\<lambda>_. journal_inv c fp n"])
    show "triple ?open (finish_run c ?run Run_Failed True) (\<lambda>_. journal_inv c fp n) ?E"
      by (rule triple_pre [OF finish_run_ok]) (use open_status_closable in simp)
  qed (auto simp: triple_def run_lift_def)
  show ?thesis
    unfolding reconcile_open_def
    by (rule triple_lift, rule triple_require, rule triple_require, rule triple_lift, rule triple_require,
        rule triple_pre [OF finish]) auto
qed

lemma reconcile_run_keeps: "keeps (journal_inv c fp n) (reconcile_run c k request owner)"
proof -
  have body: "keeps (journal_inv c fp n) (run_bind (run_lift (status_of c k)) (\<lambda>r.
       run_require (rr_request r = request) (RunDenied ''Recovery binding mismatch'')
       (if run_terminal (rr_status r) then run_return r else reconcile_open c k request owner)))"
    unfolding keeps_def
  proof (rule triple_lift, rule triple_require, rule triple_if)
    fix r :: run_record
    assume "\<not> run_terminal (rr_status r)"
    then show "triple (\<lambda>w. journal_inv c fp n w \<and> status_of c k (rw_disk w) = Inr r) (reconcile_open c k request owner)
        (\<lambda>_. journal_inv c fp n) (\<lambda>_. journal_inv c fp n)"
      by (intro triple_pre [OF reconcile_open_ok]) (auto simp: open_status_def)
  qed (auto intro: triple_return)
  have "keeps (journal_inv c fp n) (run_require (is_run_id k \<and> is_hex_digest request) invalid_input
      (run_require idle busy (run_try (run_bind (run_lift (status_of c k)) (\<lambda>r.
         run_require (rr_request r = request) (RunDenied ''Recovery binding mismatch'')
         (if run_terminal (rr_status r) then run_return r else reconcile_open c k request owner)))
        (\<lambda>e. run_raise (recovery_error e)))))" for idle
    by (rule prog_keeps_require, rule prog_keeps_require, rule prog_keeps_try, rule body, rule keeps_basic)
  from this [unfolded keeps_def triple_def] show ?thesis
    unfolding keeps_def triple_def reconcile_run_def by blast
qed

section \<open>Runs of the store\<close>

lemma forget_keeps: "keeps K m \<Longrightarrow> keeps K (forget m)"
  unfolding forget_def by (intro keeps_intros)

text \<open>The identities an operation admits when it returns.\<close>

fun admits :: "run_op \<Rightarrow> string set" where
  "admits (Admit k request b free) = {k}"
| "admits _ = {}"

definition journal_limits :: "run_config \<Rightarrow> (pyval list \<Rightarrow> string) \<Rightarrow> bool" where
  "journal_limits c fp \<longleftrightarrow> (\<forall>xs. is_hex_digest (fp xs)) \<and> is_hex_digest (cf_env c) \<and> 0 \<le> cf_limit c"

lemma keeps_weaker:
  assumes "keeps (journal_inv c fp n) m" and "Suc (fst n) < 2 ^ 31"
  shows "triple (journal_inv c fp n) m (\<lambda>_. journal_inv c fp (Suc (fst n), snd n)) (\<lambda>_. journal_inv c fp (Suc (fst n), snd n))"
  using assms(1) unfolding keeps_def
  by (rule triple_conseq) (use journal_inv_mono [of c fp n _ "(Suc (fst n), snd n)"] assms(2) in simp_all)

lemma run_prog_ok:
  assumes hex: "\<And>xs. is_hex_digest (fp xs)" and bound: "Suc (fst n) < 2 ^ 31"
  shows "triple (journal_inv c fp n) (run_prog c fp op)
    (\<lambda>_. journal_inv c fp (Suc (fst n), admits op \<union> snd n)) (\<lambda>_. journal_inv c fp (Suc (fst n), snd n))"
proof (cases op)
  case (Admit k request b free)
  show ?thesis
    unfolding Admit run_prog.simps admits.simps
    using admit_run_ok [of fp, OF hex bound] by simp
next
  case (Finish st stopped)
  from keeps_weaker [OF finish_active_ok [folded keeps_def] bound] show ?thesis by (simp add: Finish)
next
  case Leave
  from keeps_weaker [OF leave_run_ok [folded keeps_def] bound] show ?thesis by (simp add: Leave)
next
  case (Tamper k dir)
  have "keeps (journal_inv c fp n) (\<lambda>w. (Inr (), w\<lparr>rw_disk := tamper k dir (rw_disk w)\<rparr>))"
    by (simp add: keeps_def triple_def tamper_def inv_dirs)
  from keeps_weaker [OF this bound] show ?thesis by (simp add: Tamper)
next
  case (Bind_Scope kind dg lease)
  from keeps_weaker [OF bind_scope_keeps bound] show ?thesis by (simp add: Bind_Scope)
next
  case (Cancel_Run k request)
  from keeps_weaker [OF cancel_run_keeps bound] show ?thesis by (simp add: Cancel_Run)
next
  case (Reconcile k request owner)
  from keeps_weaker [OF forget_keeps [OF reconcile_run_keeps] bound] show ?thesis by (simp add: Reconcile)
next
  case (Recover kind dg k request accepted)
  from keeps_weaker [OF forget_keeps [OF scope_recovery_keeps] bound] show ?thesis by (simp add: Recover)
qed

lemma run_step_ok:
  assumes hex: "\<And>xs. is_hex_digest (fp xs)" and bound: "Suc (fst n) < 2 ^ 31"
    and inv: "journal_inv c fp n w" and step: "run_step c fp w x = Inr (r, w')"
  shows "journal_inv c fp (Suc (fst n), (if r = Inr () then admits (fst x) else {}) \<union> snd n) w'"
proof -
  obtain w1 where m: "run_prog c fp (fst x) (w\<lparr>rw_effects := snd x\<rparr>) = (r, w1)"
    and w': "w' = (if r = Inl Crashed then w1\<lparr>rw_active := None\<rparr> else w1)"
    using step by (auto simp: run_step_def split: prod.split_asm)
  have "journal_inv c fp n (w\<lparr>rw_effects := snd x\<rparr>)" using inv by simp
  from triple_run [OF run_prog_ok [of fp, OF hex bound] this m] show ?thesis
    unfolding w' by (auto intro: journal_inv_released)
qed

lemma new_world_inv: "journal_limits c fp \<Longrightarrow> journal_inv c fp (0, {}) (new_world c)"
proof -
  assume limits: "journal_limits c fp"
  let ?w = "new_world c" and ?v = "new_journal c"
  have list: "archive_list (rw_disk ?w) = []" by (simp add: new_world_def archive_list_def)
  have ok: "journal_ok c fp (0, {}) ?v (rw_disk ?w)"
    using limits by (simp add: journal_ok_def doc_ok_def one_open_def archive_ok_def official_def known_ids_def
        list new_journal_def reserved_bytes_def journal_limits_def)
  have "active_ok ?v ?w" by (simp add: active_ok_def new_world_def)
  from journal_inv_written [OF ok this, of "[]"] show ?thesis by (simp add: new_world_def)
qed

text \<open>The operations that return, and the identities they admit.\<close>

fun admitted_ids :: "run_config \<Rightarrow> (pyval list \<Rightarrow> string) \<Rightarrow> run_world \<Rightarrow> (run_op \<times> effect list) list \<Rightarrow> string list" where
  "admitted_ids c fp w [] = []"
| "admitted_ids c fp w (x # xs) =
     (case run_step c fp w x of
        Inl _ \<Rightarrow> admitted_ids c fp w xs
      | Inr (r, w') \<Rightarrow> (case fst x of Admit k _ _ _ \<Rightarrow> if r = Inr () then [k] else [] | _ \<Rightarrow> []) @ admitted_ids c fp w' xs)"

lemma runs_inv:
  assumes hex: "\<And>xs. is_hex_digest (fp xs)"
  shows "journal_inv c fp n w \<Longrightarrow> fst n + length xs < 2 ^ 31 \<Longrightarrow>
    journal_inv c fp (fst n + length xs, snd n \<union> set (admitted_ids c fp w xs)) (run_ops (run_step c fp) w xs)"
proof (induction xs arbitrary: n w)
  case (Cons x xs)
  obtain r w' where step: "run_step c fp w x = Inr (r, w')"
    by (cases "run_step c fp w x") (auto simp: run_step_def split: prod.split_asm)
  let ?n = "(Suc (fst n), (if r = Inr () then admits (fst x) else {}) \<union> snd n)"
  have "journal_inv c fp ?n w'"
    by (rule run_step_ok [of fp, OF hex _ Cons.prems(1) step]) (use Cons.prems(2) in simp)
  from Cons.IH [OF this] Cons.prems(2)
  have "journal_inv c fp (Suc (fst n) + length xs, ((if r = Inr () then admits (fst x) else {}) \<union> snd n) \<union>
      set (admitted_ids c fp w' xs)) (run_ops (run_step c fp) w' xs)"
    by simp
  moreover have "set (admitted_ids c fp w (x # xs)) = (if r = Inr () then admits (fst x) else {}) \<union> set (admitted_ids c fp w' xs)"
    using step by (cases "fst x") auto
  ultimately show ?case using step by (simp add: Un_ac)
qed simp

end
