(* ===== verification/Run_Store_Safety.thy ===== *)
theory Run_Store_Safety
  imports Run_Store_Runs
begin

text \<open>
  What the run store promises over whole runs, with any failing effect and any death of the process:
  the journal stays loadable and within its limits, an identity is admitted once and never forgotten,
  a reservation is given back only when the execution is known to be over, and an outcome is final.
\<close>

section \<open>An identity is admitted once\<close>

lemma triple_false: "triple P m (\<lambda>_ _. False) (\<lambda>_ _. True) \<Longrightarrow> P w \<Longrightarrow> m w \<noteq> (Inr x, w')"
  by (auto simp: triple_def)

lemma admit_known:
  assumes "k \<in> snd n"
  shows "triple (journal_inv c fp n) (admit_run c fp k request b free) (\<lambda>_ _. False) (\<lambda>_ _. True)"
proof -
  let ?K = "\<lambda>v w. k \<in> known_ids v (rw_disk w)"
  have rest: "triple (?K v) (run_bind (run_lift (\<lambda>d. Inr (is_archived d k))) (\<lambda>archived.
      run_require (map_of (jd_runs v) k = None \<and> \<not> archived) refused m)) (\<lambda>_ _. False) (\<lambda>_ _. True)"
    for v and m :: "unit prog"
    by (rule triple_lift, rule triple_require, rule triple_pre [where P = "\<lambda>_. False"])
      (use unknown_id in \<open>auto simp: triple_def\<close>)
  have quarantine: "triple (?K v) (if has_status Run_Admitted v
      then run_bind (write_journal (quarantine_admitted v)) (\<lambda>_. run_return (quarantine_admitted v)) else run_return v)
      ?K (\<lambda>_ _. True)" for v
  proof (rule triple_if)
    have "triple (?K v) (write_journal (quarantine_admitted v)) (\<lambda>_. ?K (quarantine_admitted v)) (\<lambda>_ _. True)"
    proof (rule triple_write)
      fix w es assume "?K v w"
      moreover have "known_ids (quarantine_admitted v) (rw_disk (w\<lparr>rw_disk := (rw_disk w)\<lparr>state_file := x\<rparr>, rw_effects := es\<rparr>)) =
          known_ids v (rw_disk w)" for x
        using quarantine_known [of v "rw_disk w"] by (simp add: known_ids_def)
      ultimately show "?K (quarantine_admitted v) (w\<lparr>rw_disk := (rw_disk w)\<lparr>state_file := Some (Some (journal_json (quarantine_admitted v)))\<rparr>,
          rw_effects := es\<rparr>)"
        by (simp only:)
    qed simp
    then show "triple (?K v) (run_bind (write_journal (quarantine_admitted v)) (\<lambda>_. run_return (quarantine_admitted v)))
        ?K (\<lambda>_ _. True)"
      by (rule triple_bind) (auto intro: triple_return)
  qed (auto intro: triple_return)
  have adm: "triple (journal_inv c fp n) (admit_record c fp k request b free) (\<lambda>_ _. False) (\<lambda>_ _. True)"
    unfolding admit_record_def
  proof (rule triple_lift)
    fix v
    show "triple (\<lambda>w. journal_inv c fp n w \<and> load_journal c (rw_disk w) = Inr v)
      (run_bind (if has_status Run_Admitted v
        then run_bind (write_journal (quarantine_admitted v)) (\<lambda>_. run_return (quarantine_admitted v)) else run_return v) (\<lambda>v1.
     run_bind (run_lift (\<lambda>d. Inr (is_archived d k))) (\<lambda>archived.
     run_require (map_of (jd_runs v1) k = None \<and> \<not> archived) refused
     (run_bind (if MAX_RUNS \<le> length (jd_runs v1) then archive_terminal fp v1 else run_return v1) (\<lambda>v2.
     run_require (length (jd_runs v2) < MAX_RUNS \<and> \<not> has_status Run_Quarantined v2) refused
     (run_require (reserved_bytes v2 + b \<le> cf_limit c \<and> b \<le> free)
        (RunDenied ''Execution disk budget exhausted'')
     (write_journal (admitted_doc k request b v2)))))))) (\<lambda>_ _. False) (\<lambda>_ _. True)"
      by (rule triple_pre [OF triple_bind [OF quarantine rest]])
        (use assms in \<open>auto simp: journal_inv_def journal_at_def journal_ok_def\<close>)
  qed simp
  have "triple (journal_inv c fp n) (run_require valid invalid_input (run_require idle busy
      (run_bind (admit_record c fp k request b free) f))) (\<lambda>_ _. False) (\<lambda>_ _. True)" for valid idle and f :: "unit \<Rightarrow> unit prog"
    by (rule triple_require, rule triple_require, rule triple_bind [OF adm]) (auto simp: triple_def)
  from this [unfolded triple_def] show ?thesis
    unfolding triple_def admit_run_def by blast
qed

lemma known_status:
  assumes at: "journal_at c fp n v w" and k: "k \<in> known_ids v (rw_disk w)"
  shows "\<exists>r. status_of c k (rw_disk w) = Inr r"
proof -
  have load: "load_journal c (rw_disk w) = Inr v" and ok: "journal_ok c fp n v (rw_disk w)"
    using at by (simp_all add: journal_at_def)
  have id: "is_run_id k"
    using k ok by (auto simp: known_ids_def journal_ok_def doc_ok_def archive_ok_def archive_entry_ok_def)
  show ?thesis
  proof (cases "map_of (archive_list (rw_disk w)) k")
    case None
    then have "map_of (jd_runs v) k \<noteq> None" using k by (auto simp: known_ids_def map_of_eq_None_iff)
    with None load id show ?thesis by (auto simp: status_of_def archived_record_def)
  next
    case (Some e)
    then have "archive_entry_ok v (k, e)"
      using ok by (auto simp: journal_ok_def archive_ok_def dest: map_of_SomeD)
    then obtain request st where e: "is_hex_digest request" "run_terminal st" "e = Some (archive_json k request st)"
      "\<forall>r. map_of (jd_runs v) k = Some r \<longrightarrow> rr_request r = request \<and> rr_status r = st"
      by (auto simp: archive_entry_ok_def)
    then have "archived_record (rw_disk w) k = Inr (Some (request, st))"
      using Some by (simp add: archived_record_def archive_document_def archive_json_def field_of_def same_keys_def)
    with e load id show ?thesis
      by (cases "map_of (jd_runs v) k") (auto simp: status_of_def)
  qed
qed

lemma admitted_fresh:
  assumes hex: "\<And>xs. is_hex_digest (fp xs)"
  shows "journal_inv c fp n w \<Longrightarrow> fst n + length xs < 2 ^ 31 \<Longrightarrow>
    distinct (admitted_ids c fp w xs) \<and> set (admitted_ids c fp w xs) \<inter> snd n = {}"
proof (induction xs arbitrary: n w)
  case (Cons x xs)
  obtain r w' where step: "run_step c fp w x = Inr (r, w')"
    by (cases "run_step c fp w x") (auto simp: run_step_def split: prod.split_asm)
  define fresh where "fresh = (if r = Inr () then admits (fst x) else {})"
  define a where "a = (case fst x of Admit k _ _ _ \<Rightarrow> if r = Inr () then [k] else [] | _ \<Rightarrow> [])"
  have a: "set a = fresh" "distinct a" by (cases "fst x", simp_all add: a_def fresh_def)+
  have room: "Suc (fst n) < 2 ^ 31" "Suc (fst n) + length xs < 2 ^ 31"
    using Cons.prems(2) by simp_all
  have inv: "journal_inv c fp (Suc (fst n), fresh \<union> snd n) w'"
    unfolding fresh_def by (rule run_step_ok [of fp, OF hex room(1) Cons.prems(1) step])
  have IH: "distinct (admitted_ids c fp w' xs)" "set (admitted_ids c fp w' xs) \<inter> (fresh \<union> snd n) = {}"
    using Cons.IH [OF inv] room(2) by (simp_all only: fst_conv snd_conv)
  have new: "fresh \<inter> snd n = {}"
  proof (cases "fst x")
    case (Admit k request b free)
    have "k \<notin> snd n" if r: "r = Inr ()"
    proof
      assume k: "k \<in> snd n"
      have "journal_inv c fp n (w\<lparr>rw_effects := snd x\<rparr>)" using Cons.prems(1) by simp
      then have never: "admit_run c fp k request b free (w\<lparr>rw_effects := snd x\<rparr>) \<noteq> (Inr (), w1)" for w1
        by (rule triple_false [OF admit_known [OF k]])
      obtain r1 w1 where m: "admit_run c fp k request b free (w\<lparr>rw_effects := snd x\<rparr>) = (r1, w1)" by fastforce
      with step r Admit have "r1 = Inr ()" by (simp add: run_step_def)
      with m never show False by simp
    qed
    with Admit show ?thesis by (simp add: fresh_def)
  qed (simp_all add: fresh_def)
  have "admitted_ids c fp w (x # xs) = a @ admitted_ids c fp w' xs" by (simp add: step a_def)
  moreover have "set (a @ admitted_ids c fp w' xs) \<inter> snd n = {}" "set a \<inter> set (admitted_ids c fp w' xs) = {}"
    using IH(2) new unfolding set_append a(1) by blast+
  ultimately show ?case using IH(1) a(2) by (simp only: distinct_append)
qed simp

lemma distinct_all_equal:
  assumes "distinct xs" and "\<And>x y. x \<in> set xs \<Longrightarrow> y \<in> set xs \<Longrightarrow> x = y"
  shows "length xs \<le> 1"
proof (cases xs)
  case (Cons a ys)
  have "y = a" if "y \<in> set xs" for y by (rule assms(2) [OF that]) (simp add: Cons)
  then have "set xs \<subseteq> {a}" by blast
  from card_mono [OF _ this] distinct_card [OF assms(1)] show ?thesis by simp
qed simp

text \<open>
  C4. From a new store, after any operations whatever fails and wherever the process dies, every
  identity is admitted at most once, and every identity that was admitted has a status: it is in the
  journal or in the archive.
\<close>

theorem admitted_once_never_forgotten:
  assumes "journal_limits c fp" and "length xs < 2 ^ 31"
  shows "distinct (admitted_ids c fp (new_world c) xs) \<and>
    (\<forall>k \<in> set (admitted_ids c fp (new_world c) xs). \<exists>r. status_of c k (rw_disk (run_world_after c fp xs)) = Inr r)"
proof -
  have hex: "is_hex_digest (fp ys)" for ys using assms(1) by (simp add: journal_limits_def)
  note start = new_world_inv [OF assms(1)]
  have "distinct (admitted_ids c fp (new_world c) xs)"
    using admitted_fresh [of fp, OF hex start] assms(2) by simp
  moreover from runs_inv [of fp, OF hex start, of xs] assms(2) obtain v where
    v: "journal_at c fp (length xs, set (admitted_ids c fp (new_world c) xs)) v (run_world_after c fp xs)"
    by (auto simp: run_world_after_def journal_inv_def)
  then have "set (admitted_ids c fp (new_world c) xs) \<subseteq> known_ids v (rw_disk (run_world_after c fp xs))"
    by (simp add: journal_at_def journal_ok_def)
  ultimately show ?thesis using known_status [OF v] by blast
qed

text \<open>
  C1. From a new store, after any operations whatever fails and wherever the process dies, the journal
  can be loaded, at most one execution is not terminal, a terminal one reserves nothing, and all
  reservations together are within the budget of the store.
\<close>

theorem journal_survives_crashes:
  assumes "journal_limits c fp" and "length xs < 2 ^ 31"
  shows "\<exists>v. load_journal c (rw_disk (run_world_after c fp xs)) = Inr v \<and> reserved_bytes v \<le> cf_limit c \<and>
    length (filter (\<lambda>(_, r). \<not> run_terminal (rr_status r)) (jd_runs v)) \<le> 1 \<and>
    list_all (\<lambda>(_, r). run_terminal (rr_status r) \<longrightarrow> rr_reserved r = 0) (jd_runs v)"
proof -
  have hex: "is_hex_digest (fp ys)" for ys using assms(1) by (simp add: journal_limits_def)
  from runs_inv [of fp, OF hex new_world_inv [OF assms(1)], of xs] assms(2) obtain n v where
    at: "journal_at c fp n v (run_world_after c fp xs)"
    by (auto simp: run_world_after_def journal_inv_def)
  then have ok: "doc_ok c v" "one_open v" "reserved_bytes v \<le> cf_limit c"
    and load: "load_journal c (rw_disk (run_world_after c fp xs)) = Inr v"
    by (simp_all add: journal_at_def journal_ok_def)
  let ?open = "filter (\<lambda>(_, r). \<not> run_terminal (rr_status r)) (jd_runs v)"
  have "distinct (map fst ?open)" using ok(1) by (simp add: doc_ok_def distinct_map_filter)
  moreover have "x = y" if "x \<in> set (map fst ?open)" "y \<in> set (map fst ?open)" for x y
    using that ok(2) unfolding one_open_def by fastforce
  ultimately have "length (map fst ?open) \<le> 1"
    by (rule distinct_all_equal)
  moreover have "list_all (\<lambda>(_, r). run_terminal (rr_status r) \<longrightarrow> rr_reserved r = 0) (jd_runs v)"
    using ok(1) by (auto simp: list_all_iff doc_ok_def run_record_ok_def)
  ultimately show ?thesis using load ok(3) by auto
qed

end
