(* ===== verification/Run_Store_Records.thy ===== *)
theory Run_Store_Records
  imports Run_Store_Safety
begin

text \<open>
  How one record of the run store can change: a reservation is given back only when the execution is
  known to be over and its directory is gone, and an outcome is final, whether its record is in the
  journal, in the archive, or in both. Both are laws of the locale \<open>record_law\<close>, which tracks what is
  said of one execution through every operation under every script of effects.
\<close>

section \<open>What is recorded of an execution\<close>

text \<open>
  \<open>recorded k R w\<close>: the state file of \<open>w\<close> and the archive say of \<open>k\<close> what \<open>R\<close> asks for, however the
  state file is read. It does not rest on the invariant, so it is tracked through the operations alone.
\<close>

type_synonym record_pred = "run_record option \<Rightarrow> (string \<times> run_status) option run_result \<Rightarrow> bool"

definition says :: "string \<Rightarrow> record_pred \<Rightarrow> journal_doc \<Rightarrow> run_disk \<Rightarrow> bool" where
  "says k R v d \<longleftrightarrow> distinct (map fst (jd_runs v)) \<and> R (map_of (jd_runs v) k) (archived_record d k)"

definition recorded :: "string \<Rightarrow> record_pred \<Rightarrow> run_world \<Rightarrow> bool" where
  "recorded k R w \<longleftrightarrow> (\<exists>doc. state_file (rw_disk w) = Some (Some doc) \<and>
     (\<forall>env names v. parse_journal env names doc = Some v \<longrightarrow> says k R v (rw_disk w)))"

lemma archived_record_cong: "archive_list d' = archive_list d \<Longrightarrow> archived_record d' k = archived_record d k"
  by (simp add: archived_record_def)

lemma says_cong: "archive_list d' = archive_list d \<Longrightarrow> says k R v d' = says k R v d"
  using archived_record_cong [of d' d k] by (simp add: says_def)

lemma recorded_cong:
  assumes "state_file (rw_disk w') = state_file (rw_disk w)" and "archive_list (rw_disk w') = archive_list (rw_disk w)"
  shows "recorded k R w' = recorded k R w"
  using says_cong [OF assms(2), of k R] assms(1) by (simp add: recorded_def)

lemma map_of_hd_filter: "map_of xs k = (case filter (\<lambda>x. fst x = k) xs of [] \<Rightarrow> None | y # _ \<Rightarrow> Some (snd y))"
  by (induction xs) auto

lemma map_of_sort_stable: "map_of (sort_key fst xs) k = map_of xs k"
  unfolding map_of_hd_filter by (simp add: sort_key_stable)

lemma parse_record_written: "parse_run_record (run_record_json r) = Some r' \<Longrightarrow> r' = r"
  by (auto simp: parse_run_record_def run_record_json_def field_of_def hex_of_def int_in_range_Some_iff
      split: if_splits option.splits)

lemma parse_runs_written: "parse_runs (map (\<lambda>(k, r). (k, run_record_json r)) rs) = Some rs' \<Longrightarrow> rs' = rs"
  by (induction rs arbitrary: rs') (auto split: if_splits option.splits dest: parse_record_written)

lemma parse_journal_runs:
  assumes "parse_journal env names (PDict d) = Some v"
  obtains rs where "field_of d ''runs'' = PDict rs" and "parse_runs rs = Some (jd_runs v)"
  using assms
  by (cases "field_of d ''runs''"; cases "parse_scope d"; cases "parse_archive_field d")
    (auto simp: parse_journal_def Let_def split: if_splits option.splits)

lemma parse_written:
  assumes "parse_journal env names (journal_json v) = Some v'"
  shows "jd_runs v' = sort_key fst (jd_runs v)"
proof -
  let ?tail = "(case jd_scope v of None \<Rightarrow> [] | Some s \<Rightarrow> [(''scope'', scope_json s)]) @
      (case jd_archive v of None \<Rightarrow> []
       | Some (n, dg) \<Rightarrow> [(''archive'', PDict [(''count'', PInt n), (''digest'', PStr dg)])])"
  from assms obtain rs where "field_of ([(''schemaVersion'', PInt 1), (''environmentDigest'', PStr (jd_env v)),
       (''runs'', PDict (sort_key fst (map (\<lambda>(k, r). (k, run_record_json r)) (jd_runs v))))] @ ?tail) ''runs'' = PDict rs"
    "parse_runs rs = Some (jd_runs v')"
    unfolding journal_json_def by (rule parse_journal_runs)
  then show ?thesis
    by (simp add: field_of_def sorted_runs_json parse_runs_written)
qed

lemma says_written:
  assumes "says k R v d" and "parse_journal env names (journal_json v) = Some v'"
  shows "says k R v' d"
  using assms(1) by (simp add: says_def parse_written [OF assms(2)] map_of_sort_stable distinct_map inj_on_def)

lemma recorded_written:
  assumes "says k R v (rw_disk w)"
  shows "recorded k R (w\<lparr>rw_disk := (rw_disk w)\<lparr>state_file := Some (Some (journal_json v))\<rparr>, rw_effects := es\<rparr>)"
proof -
  have "says k R v' (rw_disk w)" if "parse_journal env names (journal_json v) = Some v'" for env names v'
    using says_written [OF assms that] .
  then show ?thesis
    using says_cong [of "(rw_disk w)\<lparr>state_file := Some (Some (journal_json v))\<rparr>" "rw_disk w" k R]
    by (simp add: recorded_def)
qed

lemma recorded_loaded:
  assumes "recorded k R w" and "load_journal c (rw_disk w) = Inr v"
  shows "says k R v (rw_disk w)"
  using assms by (auto simp: recorded_def load_journal_def split: option.splits)

lemma parse_runs_ok: "parse_runs rs = Some rs' \<Longrightarrow> (k, r) \<in> set rs' \<Longrightarrow> run_record_ok r"
proof (induction rs arbitrary: rs')
  case (Cons x rs)
  obtain j y where x: "x = (j, y)" by (cases x)
  have "run_record_ok r" if "parse_run_record y = Some r" for r
    using that by (auto simp: parse_run_record_def run_record_ok_def hex_of_def int_in_range_Some_iff
        split: pyval.split_asm if_splits option.splits)
  with Cons x show ?case by (auto split: if_splits option.splits)
qed simp

lemma loaded_records:
  assumes "load_journal c d = Inr v" and "map_of (jd_runs v) k = Some r"
  shows "run_record_ok r"
proof -
  obtain names doc where p: "parse_journal (cf_env c) names doc = Some v"
    using assms(1) by (auto simp: load_journal_def split: option.splits)
  then obtain ds where "doc = PDict ds"
    by (cases doc) (simp_all add: parse_journal_def)
  with p obtain rs where "parse_runs rs = Some (jd_runs v)" by (auto elim: parse_journal_runs)
  with parse_runs_ok map_of_SomeD [OF assms(2)] show ?thesis by blast
qed

section \<open>Laws of one record\<close>

lemma recorded_blind: "dir_blind (recorded k R)"
  unfolding dir_blind_def
proof (intro allI impI)
  fix w x es assume "recorded k R w"
  then show "recorded k R (w\<lparr>rw_disk := (rw_disk w)\<lparr>run_dirs := x\<rparr>, rw_effects := es\<rparr>)"
    by (rule recorded_cong [THEN iffD2, rotated 2]) simp_all
qed

lemma recorded_simps [simp]:
  "recorded k R (w\<lparr>rw_effects := es\<rparr>) = recorded k R w"
  "recorded k R (w\<lparr>rw_active := a\<rparr>) = recorded k R w"
  by (simp_all add: recorded_def)

text \<open>The document in memory is the one in the state file, and says what \<open>R\<close> asks for.\<close>

definition file_holds :: "journal_doc \<Rightarrow> run_disk \<Rightarrow> bool" where
  "file_holds v d \<longleftrightarrow> (\<exists>doc. state_file d = Some (Some doc) \<and> (\<forall>env names v'. parse_journal env names doc = Some v' \<longrightarrow>
     distinct (map fst (jd_runs v')) \<and> map_of (jd_runs v') = map_of (jd_runs v)))"

definition in_memory :: "string \<Rightarrow> record_pred \<Rightarrow> journal_doc \<Rightarrow> run_world \<Rightarrow> bool" where
  "in_memory k R v w \<longleftrightarrow> file_holds v (rw_disk w) \<and> says k R v (rw_disk w) \<and>
     (\<forall>r \<in> snd ` set (jd_runs v). is_hex_digest (rr_request r))"

lemma in_memory_effects [simp]: "in_memory k R v (w\<lparr>rw_effects := es\<rparr>) = in_memory k R v w"
  by (simp add: in_memory_def)

lemma in_memory_recorded: "in_memory k R v w \<Longrightarrow> recorded k R w"
  by (auto simp: in_memory_def file_holds_def recorded_def says_def)

lemma in_memory_blind: "dir_blind (in_memory k R v)"
  unfolding dir_blind_def
proof (intro allI impI)
  fix w x es assume "in_memory k R v w"
  then show "in_memory k R v (w\<lparr>rw_disk := (rw_disk w)\<lparr>run_dirs := x\<rparr>, rw_effects := es\<rparr>)"
    using says_cong [of "(rw_disk w)\<lparr>run_dirs := x\<rparr>" "rw_disk w" k R v] by (simp add: in_memory_def file_holds_def)
qed

lemma parse_same_runs:
  assumes "parse_journal env names doc = Some v" and "parse_journal env' names' doc = Some v'"
  shows "jd_runs v' = jd_runs v"
proof -
  obtain ds where doc: "doc = PDict ds" using assms(1) by (cases doc) (simp_all add: parse_journal_def)
  with assms obtain rs rs' where "field_of ds ''runs'' = PDict rs" "parse_runs rs = Some (jd_runs v)"
    "field_of ds ''runs'' = PDict rs'" "parse_runs rs' = Some (jd_runs v')"
    by (metis parse_journal_runs)
  then show ?thesis by simp
qed

lemma in_memory_loaded:
  assumes "recorded k R w" and "load_journal c (rw_disk w) = Inr v"
  shows "in_memory k R v w"
proof -
  have says: "says k R v (rw_disk w)" by (rule recorded_loaded [OF assms])
  have "is_hex_digest (rr_request r)" if "(j, r) \<in> set (jd_runs v)" for j r
    using loaded_records [OF assms(2), of j r] that says by (simp add: says_def run_record_ok_def)
  moreover obtain names doc where doc: "parse_journal (cf_env c) names doc = Some v" "state_file (rw_disk w) = Some (Some doc)"
    using assms(2) by (auto simp: load_journal_def split: option.splits)
  have "file_holds v (rw_disk w)"
    using doc(2) parse_same_runs [OF doc(1)] says by (auto simp: file_holds_def says_def)
  ultimately show ?thesis using says by (auto simp: in_memory_def)
qed

lemma file_holds_written:
  assumes "distinct (map fst (jd_runs v))"
  shows "file_holds v (d\<lparr>state_file := Some (Some (journal_json v))\<rparr>)"
proof -
  have "distinct (map fst (jd_runs v')) \<and> map_of (jd_runs v') = map_of (jd_runs v)"
    if "parse_journal env names (journal_json v) = Some v'" for env names v'
    unfolding parse_written [OF that] using assms by (simp add: map_of_sorted distinct_map)
  then show ?thesis by (simp add: file_holds_def)
qed

lemma write_in_memory:
  assumes "\<And>w. P w \<Longrightarrow> recorded k R w \<and> says k R v (rw_disk w) \<and> (\<forall>r \<in> snd ` set (jd_runs v). is_hex_digest (rr_request r))"
  shows "triple P (write_journal v) (\<lambda>_. in_memory k R v) (\<lambda>_. recorded k R)"
proof (rule triple_write)
  fix w es assume "P w"
  with assms have says: "says k R v (rw_disk w)" and hex: "\<forall>r \<in> snd ` set (jd_runs v). is_hex_digest (rr_request r)"
    by blast+
  let ?d = "(rw_disk w)\<lparr>state_file := Some (Some (journal_json v))\<rparr>"
  have "says k R v ?d" using says says_cong [of ?d "rw_disk w" k R v] by simp
  moreover have "file_holds v ?d" using says by (intro file_holds_written) (simp add: says_def)
  ultimately show "in_memory k R v (w\<lparr>rw_disk := ?d, rw_effects := es\<rparr>)"
    using hex by (simp add: in_memory_def)
qed (use assms in auto)

lemma write_recorded:
  assumes "\<And>w. P w \<Longrightarrow> recorded k R w \<and> says k R v (rw_disk w)"
  shows "triple P (write_journal v) (\<lambda>_. recorded k R) (\<lambda>_. recorded k R)"
  by (rule triple_write) (use assms recorded_written [of k R v] in auto)

lemma read_archive_member:
  "read_archive xs = Inr records \<Longrightarrow> (k, doc, request, st) \<in> set records \<Longrightarrow>
     archive_document k (Some doc) = Inr (doc, request, st)"
proof (induction xs arbitrary: records)
  case (Cons x xs)
  obtain j e where x: "x = (j, e)" by (cases x)
  from Cons.prems(1) obtain doc' request' st' rs where doc: "archive_document j e = Inr (doc', request', st')"
    "read_archive xs = Inr rs" "records = (j, doc', request', st') # rs"
    by (auto simp: x bind_result_Inr_iff split: if_splits)
  have "e = Some doc'"
    using doc(1) by (cases e) (auto simp: archive_document_def split: pyval.split_asm option.split_asm if_splits)
  with doc Cons.IH [OF doc(2)] Cons.prems(2) show ?case by auto
qed simp

lemma archive_document_json:
  "is_hex_digest request \<Longrightarrow> run_terminal st \<Longrightarrow>
     archive_document k (Some (archive_json k request st)) = Inr (archive_json k request st, request, st)"
  by (simp add: archive_document_def archive_json_def field_of_def same_keys_def)

locale record_law =
  fixes k :: string and R :: record_pred
  assumes quarantined: "R (Some r) a \<Longrightarrow> rr_status r = Run_Admitted \<Longrightarrow> R (Some (r\<lparr>rr_status := Run_Quarantined\<rparr>)) a"
    and archived: "R (Some r) (Inr None) \<Longrightarrow> run_terminal (rr_status r) \<Longrightarrow>
      R (Some r) (Inr (Some (rr_request r, rr_status r)))"
    and dropped: "R (Some r) (Inr (Some (rr_request r, rr_status r))) \<Longrightarrow> run_terminal (rr_status r) \<Longrightarrow>
      rr_reserved r = 0 \<Longrightarrow> R None (Inr (Some (rr_request r, rr_status r)))"
    and present: "\<not> R None (Inr None)"
begin

lemma says_quarantine:
  assumes "says k R v d"
  shows "says k R (quarantine_admitted v) d"
proof -
  have "map_of (jd_runs (quarantine_admitted v)) k = map_option (\<lambda>r. if rr_status r = Run_Admitted
      then r\<lparr>rr_status := Run_Quarantined\<rparr> else r) (map_of (jd_runs v) k)"
    unfolding quarantine_admitted_def by (simp add: map_of_map_values)
  moreover have "map fst (jd_runs (quarantine_admitted v)) = map fst (jd_runs v)"
    by (simp add: quarantine_admitted_def comp_def case_prod_unfold)
  moreover have "R (map_of (jd_runs v) k) (archived_record d k)" using assms by (simp add: says_def)
  ultimately show ?thesis
    using assms quarantined unfolding says_def by (cases "map_of (jd_runs v) k") (simp_all del: map_of_eq_Some_iff)
qed

lemma quarantine_in_memory:
  "triple (in_memory k R v) (if has_status Run_Admitted v
      then run_bind (write_journal (quarantine_admitted v)) (\<lambda>_. run_return (quarantine_admitted v)) else run_return v)
    (in_memory k R) (\<lambda>_. recorded k R)"
proof (rule triple_if)
  have "triple (in_memory k R v) (write_journal (quarantine_admitted v)) (\<lambda>_. in_memory k R (quarantine_admitted v))
      (\<lambda>_. recorded k R)"
  proof (rule write_in_memory)
    fix w assume w: "in_memory k R v w"
    have "\<forall>r \<in> snd ` set (jd_runs (quarantine_admitted v)). is_hex_digest (rr_request r)"
      using w by (fastforce simp: in_memory_def quarantine_admitted_def)
    with w show "recorded k R w \<and> says k R (quarantine_admitted v) (rw_disk w) \<and>
        (\<forall>r \<in> snd ` set (jd_runs (quarantine_admitted v)). is_hex_digest (rr_request r))"
      using in_memory_recorded [OF w] by (simp add: in_memory_def says_quarantine)
  qed
  then show "triple (in_memory k R v) (run_bind (write_journal (quarantine_admitted v)) (\<lambda>_. run_return (quarantine_admitted v)))
      (in_memory k R) (\<lambda>_. recorded k R)"
    by (rule triple_bind) (auto intro: triple_return)
qed (auto intro: triple_return in_memory_recorded)

lemma says_archive_one:
  assumes says: "says k R v d" and doc: "orphan_doc v (j, x)" and hex: "\<forall>r \<in> snd ` set (jd_runs v). is_hex_digest (rr_request r)"
  shows "says k R v (d\<lparr>archive_files := Some (archive_list d @ [(j, Some x)])\<rparr>)"
proof (cases "j = k \<and> map_of (archive_list d) k = None")
  case True
  from doc obtain r where r: "map_of (jd_runs v) j = Some r" "run_terminal (rr_status r)" "x = archive_json j (rr_request r) (rr_status r)"
    by (auto simp: orphan_doc_def)
  have "is_hex_digest (rr_request r)" using hex map_of_SomeD [OF r(1)] by force
  then have "archived_record (d\<lparr>archive_files := Some (archive_list d @ [(j, Some x)])\<rparr>) k = Inr (Some (rr_request r, rr_status r))"
    using True r archive_document_json [of "rr_request r" "rr_status r" k]
    by (simp add: archived_record_def archive_list_def map_add_def)
  moreover have "archived_record d k = Inr None" using True by (simp add: archived_record_def)
  ultimately show ?thesis
    using says r(1,2) True archived [of r] unfolding says_def by (simp del: map_of_eq_Some_iff)
next
  case False
  then have "archived_record (d\<lparr>archive_files := Some (archive_list d @ [(j, Some x)])\<rparr>) k = archived_record d k"
    by (cases "map_of (archive_list d) k") (auto simp: archived_record_def archive_list_def map_add_def)
  with says show ?thesis by (simp add: says_def)
qed

lemma archive_new_in_memory:
  "\<forall>x \<in> set docs. orphan_doc v x \<Longrightarrow>
     triple (\<lambda>w. in_memory k R v w \<and> archive_list (rw_disk w) = L) (archive_new docs)
       (\<lambda>_ w. in_memory k R v w \<and> archive_list (rw_disk w) = L @ map (\<lambda>(k, x). (k, Some x)) docs) (\<lambda>_. recorded k R)"
proof (induction docs arbitrary: L)
  case (Cons y docs)
  obtain j x where y: "y = (j, x)" by (cases y)
  let ?m = "run_try (run_effect (\<lambda>d. d\<lparr>archive_files := Some (archive_list d @ [(j, Some x)])\<rparr>))
     (\<lambda>_. run_raise (RunDenied ''Execution archive write failed''))"
  have step: "triple (\<lambda>w. in_memory k R v w \<and> archive_list (rw_disk w) = L) ?m
    (\<lambda>_ w. in_memory k R v w \<and> archive_list (rw_disk w) = L @ [(j, Some x)]) (\<lambda>_. recorded k R)"
  proof (rule triple_try [where H = "\<lambda>_. recorded k R"], rule triple_effect)
    fix w :: run_world and es
    let ?d = "(rw_disk w)\<lparr>archive_files := Some (archive_list (rw_disk w) @ [(j, Some x)])\<rparr>"
    assume w: "in_memory k R v w \<and> archive_list (rw_disk w) = L"
    then have "says k R v ?d"
      using Cons.prems by (intro says_archive_one) (auto simp: in_memory_def y)
    with w show "in_memory k R v (w\<lparr>rw_disk := ?d, rw_effects := es\<rparr>) \<and>
        archive_list (rw_disk (w\<lparr>rw_disk := ?d, rw_effects := es\<rparr>)) = L @ [(j, Some x)]"
      by (simp add: in_memory_def file_holds_def archive_list_def)
  qed (auto intro: triple_raise in_memory_recorded)
  show ?case
    unfolding y archive_new.simps
    by (rule triple_bind [OF step], rule triple_conseq [OF Cons.IH [of "L @ [(j, Some x)]"]]) (use Cons.prems in auto)
qed (auto intro: triple_return)

end

section \<open>Archiving keeps the law\<close>

lemma map_of_archive_docs:
  assumes "map_of (jd_runs v) j = Some r" and "j \<in> set ks"
  shows "map_of (archive_docs v ks) j = Some (archive_json j (rr_request r) (rr_status r))"
  using assms(2)
proof (induction ks)
  case (Cons i ks)
  have "archive_docs v (i # ks) = (case map_of (jd_runs v) i of None \<Rightarrow> []
      | Some r \<Rightarrow> [(i, archive_json i (rr_request r) (rr_status r))]) @ archive_docs v ks"
    by (simp add: archive_docs_def)
  with Cons assms(1) show ?case by (cases "i = j") (auto split: option.split)
qed simp

lemma archived_after:
  assumes runs: "map_of (jd_runs v) k = Some r" "run_terminal (rr_status r)" "is_hex_digest (rr_request r)"
    and elig: "k \<in> set eligible" and read: "read_archive L = Inr records"
    and orphans: "list_all (orphan_matches v eligible) records"
    and list: "archive_list d = L @ map (\<lambda>(k, x). (k, Some x)) (archive_docs v (filter (\<lambda>k. k \<notin> fst ` set records) eligible))"
  shows "archived_record d k = Inr (Some (rr_request r, rr_status r))"
proof -
  let ?fresh = "archive_docs v (filter (\<lambda>k. k \<notin> fst ` set records) eligible)"
  note L = read_archive_list [OF read]
  show ?thesis
  proof (cases "map_of L k")
    case None
    then have "k \<notin> fst ` set L" by (simp add: map_of_eq_None_iff)
    then have "k \<notin> fst ` set records" by (force simp: L)
    with elig have "map_of ?fresh k = Some (archive_json k (rr_request r) (rr_status r))"
      by (intro map_of_archive_docs runs(1)) simp
    then have "map_of (map (\<lambda>(k, x). (k, Some x)) ?fresh) k = Some (Some (archive_json k (rr_request r) (rr_status r)))"
      by (simp add: map_of_map_values)
    with None have "map_of (archive_list d) k = Some (Some (archive_json k (rr_request r) (rr_status r)))"
      by (simp add: list map_add_def)
    then show ?thesis
      using archive_document_json [OF runs(3,2), of k] by (simp add: archived_record_def)
  next
    case (Some e)
    then have "(k, e) \<in> set L" by (rule map_of_SomeD)
    then obtain doc request st where rec: "(k, doc, request, st) \<in> set records" "e = Some doc" by (auto simp: L)
    then have "orphan_matches v eligible (k, doc, request, st)" using orphans by (simp add: list_all_iff)
    then have "request = rr_request r" "st = rr_status r" using runs(1) by (simp_all add: orphan_matches_def)
    moreover have "map_of (archive_list d) k = Some e"
      using Some by (simp add: list map_add_Some_iff map_of_append)
    ultimately show ?thesis
      using rec read_archive_member [OF read rec(1)] by (simp add: archived_record_def)
  qed
qed

context record_law
begin

lemma says_dropped:
  assumes says: "says k R v d" and hex: "\<forall>r \<in> snd ` set (jd_runs v). is_hex_digest (rr_request r)"
    and elig: "eligible = archivable_ids (jd_runs v) d0" and read: "read_archive L = Inr records"
    and orphans: "list_all (orphan_matches v eligible) records"
    and list: "archive_list d = L @ map (\<lambda>(k, x). (k, Some x)) (archive_docs v (filter (\<lambda>k. k \<notin> fst ` set records) eligible))"
  shows "says k R (dropped fp v eligible merged) d"
proof -
  have dist: "distinct (map fst (jd_runs v))" using says by (simp add: says_def)
  have runs: "map_of (jd_runs (dropped fp v eligible merged)) k = (if k \<in> set eligible then None else map_of (jd_runs v) k)"
  proof -
    have "map_of (filter (\<lambda>(k, _). k \<notin> set eligible) rs) k = (if k \<in> set eligible then None else map_of rs k)"
      for rs :: "(string \<times> run_record) list"
      by (induction rs) auto
    then show ?thesis by (simp add: dropped_def)
  qed
  have dist': "distinct (map fst (jd_runs (dropped fp v eligible merged)))"
    using dist by (simp add: dropped_def distinct_map_filter)
  show ?thesis
  proof (cases "k \<in> set eligible")
    case False
    with says runs dist' show ?thesis by (simp add: says_def del: map_of_eq_Some_iff)
  next
    case True
    then obtain r where r: "(k, r) \<in> set (jd_runs v)" "run_terminal (rr_status r)" "rr_reserved r = 0"
      unfolding elig archivable_member by blast
    then have some: "map_of (jd_runs v) k = Some r" using dist by simp
    have arch: "archived_record d k = Inr (Some (rr_request r, rr_status r))"
      by (rule archived_after [OF some r(2) _ True read orphans list]) (use hex r(1) in force)
    have "R (Some r) (Inr (Some (rr_request r, rr_status r)))"
      using says some arch unfolding says_def by (simp del: map_of_eq_Some_iff)
    from dropped [OF this r(2,3)] show ?thesis
      using runs True arch dist' by (simp add: says_def)
  qed
qed

lemma archive_terminal_in_memory:
  "triple (in_memory k R v) (archive_terminal fp v) (in_memory k R) (\<lambda>_. recorded k R)"
proof (rule triple_fix [where f = "\<lambda>w. archive_list (rw_disk w)"])
  fix L
  let ?P = "\<lambda>w. in_memory k R v w \<and> archive_list (rw_disk w) = L"
  let ?E = "\<lambda>_. recorded k R"
  have dir: "triple ?P ensure_archive_dir (\<lambda>_. ?P) ?E"
    unfolding triple_def
  proof (intro allI impI)
    fix w assume P: "?P w"
    have "in_memory k R v (w\<lparr>rw_disk := (rw_disk w)\<lparr>archive_files := Some []\<rparr>, rw_effects := es\<rparr>)"
      if "archive_files (rw_disk w) = None" for es
      using P that says_cong [of "(rw_disk w)\<lparr>archive_files := Some []\<rparr>" "rw_disk w" k R v]
      by (simp add: in_memory_def file_holds_def archive_list_def)
    then have "triple (\<lambda>w'. w' = w \<and> archive_files (rw_disk w) = None) (run_try (run_effect (\<lambda>d. d\<lparr>archive_files := Some []\<rparr>))
        (\<lambda>_. run_raise (RunDenied ''Execution archive unavailable''))) (\<lambda>_. ?P) ?E"
      by (intro triple_try [where H = "?E"] triple_effect)
        (use P in \<open>auto simp: archive_list_def intro: triple_raise in_memory_recorded\<close>)
    with P show "(\<forall>x w'. ensure_archive_dir w = (Inr x, w') \<longrightarrow> ?P w') \<and> (\<forall>e w'. ensure_archive_dir w = (Inl e, w') \<longrightarrow> recorded k R w')"
      by (cases "archive_files (rw_disk w)") (simp_all add: triple_def ensure_archive_dir_def in_memory_recorded)
  qed
  have store: "triple ?P (archive_write fp v eligible records) (in_memory k R) ?E"
    if elig: "eligible = archivable_ids (jd_runs v) d0" and read: "read_archive L = Inr records"
      and orphans: "list_all (orphan_matches v eligible) records" and dist: "distinct (map fst (jd_runs v))" for eligible d0 records
  proof -
    define fresh where "fresh = archive_docs v (filter (\<lambda>k. k \<notin> fst ` set records) eligible)"
    define v' where "v' = dropped fp v eligible (map (\<lambda>(k, doc, _). (k, doc)) records @ fresh)"
    have sub: "set (filter (\<lambda>k. k \<notin> fst ` set records) eligible) \<subseteq> set (archivable_ids (jd_runs v) d0)"
      and de: "distinct (filter (\<lambda>k. k \<notin> fst ` set records) eligible)"
      using elig dist distinct_archivable by auto
    have orphan: "\<forall>x \<in> set fresh. orphan_doc v x"
      using archive_docs_orphans(3) [OF dist sub de] by (simp add: fresh_def)
    let ?R = "\<lambda>w. in_memory k R v w \<and> archive_list (rw_disk w) = L @ map (\<lambda>(k, x). (k, Some x)) fresh"
    have "triple ?R (write_journal v') (\<lambda>_. in_memory k R v') ?E"
    proof (rule write_in_memory)
      fix w assume w: "?R w"
      then have "says k R v' (rw_disk w)"
        unfolding v'_def by (intro says_dropped [OF _ _ elig read orphans]) (simp_all add: in_memory_def fresh_def)
      moreover have "set (jd_runs v') \<subseteq> set (jd_runs v)" by (auto simp: v'_def dropped_def)
      ultimately show "recorded k R w \<and> says k R v' (rw_disk w) \<and> (\<forall>r \<in> snd ` set (jd_runs v'). is_hex_digest (rr_request r))"
        using w in_memory_recorded unfolding in_memory_def by blast
    qed
    note written = this
    show ?thesis
      unfolding archive_write_def Let_def fresh_def [symmetric] v'_def [symmetric]
      by (rule triple_bind [OF archive_new_in_memory [OF orphan]], rule triple_bind [OF written]) (auto intro: triple_return)
  qed
  have body: "triple ?P (run_bind ensure_archive_dir (\<lambda>_.
       run_bind (run_lift (\<lambda>d. read_archive (archive_list d))) (\<lambda>records.
       run_require (archive_matches fp v records \<and> list_all (orphan_matches v eligible) records)
         (RunDenied ''Execution archive mismatch'') (archive_write fp v eligible records)))) (in_memory k R) ?E"
    if elig: "eligible = archivable_ids (jd_runs v) d0" and dist: "distinct (map fst (jd_runs v))" for eligible d0
  proof (rule triple_bind [OF dir], rule triple_lift, rule triple_require)
    fix records assume "archive_matches fp v records \<and> list_all (orphan_matches v eligible) records"
    then have "triple (\<lambda>w. ?P w \<and> read_archive L = Inr records) (archive_write fp v eligible records) (in_memory k R) ?E"
      by (intro triple_pure store [OF elig _ _ dist]) simp_all
    then show "triple (\<lambda>w. ?P w \<and> read_archive (archive_list (rw_disk w)) = Inr records)
        (archive_write fp v eligible records) (in_memory k R) ?E"
      by (rule triple_pre) auto
  qed (auto intro: in_memory_recorded)
  show "triple ?P (archive_terminal fp v) (in_memory k R) ?E"
    unfolding archive_terminal_def
  proof (rule triple_lift, rule triple_if)
    fix eligible
    show "triple (\<lambda>w. ?P w \<and> Inr (archivable_ids (jd_runs v) (rw_disk w)) = Inr eligible)
      (run_bind ensure_archive_dir (\<lambda>_.
       run_bind (run_lift (\<lambda>d. read_archive (archive_list d))) (\<lambda>records.
       run_require (archive_matches fp v records \<and> list_all (orphan_matches v eligible) records)
         (RunDenied ''Execution archive mismatch'') (archive_write fp v eligible records)))) (in_memory k R) ?E"
      by (rule triple_assume [where I = ?P], rule body) (auto simp: in_memory_def says_def)
  qed (auto intro: triple_return)
qed

end

end
