(* ===== verification/Run_Store_Outcomes.thy ===== *)
theory Run_Store_Outcomes
  imports Run_Store_Records
begin

text \<open>
  The operations under a \<open>record_law\<close>, and its two instances: the reservation of an execution, which
  is given back only when the execution is known to be over, and its outcome, which is final.
\<close>

section \<open>The operations under a law\<close>

lemma triple_conj:
  "triple P m Q E \<Longrightarrow> triple P' m Q' E' \<Longrightarrow>
     triple (\<lambda>w. P w \<and> P' w) m (\<lambda>x w. Q x w \<and> Q' x w) (\<lambda>e w. E e w \<and> E' e w)"
  unfolding triple_def by blast

lemma triple_any: "triple P m (\<lambda>_ _. True) (\<lambda>_ _. True)"
  by (simp add: triple_def)

lemma triple_never: "(\<And>w. \<not> P w) \<Longrightarrow> triple P m Q E"
  by (simp add: triple_def)

lemma archive_terminal_subset:
  "triple (\<lambda>_. True) (archive_terminal fp v) (\<lambda>v' _. set (jd_runs v') \<subseteq> set (jd_runs v)) (\<lambda>_ _. True)"
proof -
  have "triple (\<lambda>_. True) (archive_write fp v eligible records) (\<lambda>v' _. set (jd_runs v') \<subseteq> set (jd_runs v)) (\<lambda>_ _. True)"
    for eligible records
    unfolding archive_write_def Let_def
    by (rule triple_bind [OF triple_any], rule triple_bind [OF triple_any]) (auto intro: triple_return simp: dropped_def)
  note wr = this
  have rest: "triple (\<lambda>_. True) (run_bind ensure_archive_dir (\<lambda>_.
       run_bind (run_lift (\<lambda>d. read_archive (archive_list d))) (\<lambda>records.
       run_require (archive_matches fp v records \<and> list_all (orphan_matches v eligible) records)
         (RunDenied ''Execution archive mismatch'') (archive_write fp v eligible records))))
     (\<lambda>v' _. set (jd_runs v') \<subseteq> set (jd_runs v)) (\<lambda>_ _. True)" for eligible
    by (rule triple_bind [OF triple_any], rule triple_lift, rule triple_require, rule triple_pre [OF wr]) auto
  show ?thesis
    unfolding archive_terminal_def
    by (rule triple_lift, rule triple_if, rule triple_return, simp, rule triple_pre [OF rest]) auto
qed

context record_law
begin

lemma says_same_runs:
  "says k R v d \<Longrightarrow> distinct (map fst (jd_runs v')) \<Longrightarrow> map_of (jd_runs v') k = map_of (jd_runs v) k \<Longrightarrow> says k R v' d"
  unfolding says_def by (simp del: map_of_eq_Some_iff)

lemma says_update:
  assumes "says k R v d" and "j \<noteq> k"
  shows "says k R (v\<lparr>jd_runs := AList.update j r (jd_runs v)\<rparr>) d"
  by (rule says_same_runs [OF assms(1)]) (use assms in \<open>simp_all add: says_def distinct_update update_conv\<close>)

lemma update_recorded:
  assumes "j \<noteq> k"
  shows "triple (in_memory k R v) (write_journal (v\<lparr>jd_runs := AList.update j r (jd_runs v)\<rparr>))
    (\<lambda>_. recorded k R) (\<lambda>_. recorded k R)"
  by (rule write_recorded) (use says_update [OF _ assms] in_memory_recorded in \<open>auto simp: in_memory_def\<close>)

lemma load_recorded:
  "(\<And>v. triple (in_memory k R v) (f v) Q (\<lambda>_. recorded k R)) \<Longrightarrow>
     triple (recorded k R) (run_bind (run_lift (load_journal c)) f) Q (\<lambda>_. recorded k R)"
  by (rule triple_lift, rule triple_pre, assumption) (auto intro: in_memory_loaded)

lemma raise_recorded: "triple (in_memory k R v) (run_raise e) Q (\<lambda>_. recorded k R)"
  by (rule triple_raise) (rule in_memory_recorded)

text \<open>Admission: \<open>k\<close> is known, so it is not admitted; another identity leaves its record alone.\<close>

lemma admit_record_self: "triple (recorded k R) (admit_record c fp k request b free) (\<lambda>_ _. False) (\<lambda>_. recorded k R)"
  unfolding admit_record_def
proof (rule load_recorded, rule triple_bind [OF quarantine_in_memory], rule triple_lift, rule triple_require)
  fix v1 :: journal_doc and archived
  assume none: "map_of (jd_runs v1) k = None \<and> \<not> archived"
  have "\<not> (in_memory k R v1 w \<and> Inr (is_archived (rw_disk w) k) = Inr archived)" for w
    using none present by (auto simp: in_memory_def says_def is_archived_def archived_record_def)
  then show "triple (\<lambda>w. in_memory k R v1 w \<and> Inr (is_archived (rw_disk w) k) = Inr archived)
     (run_bind (if MAX_RUNS \<le> length (jd_runs v1) then archive_terminal fp v1 else run_return v1) (\<lambda>v2.
     run_require (length (jd_runs v2) < MAX_RUNS \<and> \<not> has_status Run_Quarantined v2) refused
     (run_require (reserved_bytes v2 + b \<le> cf_limit c \<and> b \<le> free)
        (RunDenied ''Execution disk budget exhausted'')
     (write_journal (admitted_doc k request b v2))))) (\<lambda>_ _. False) (\<lambda>_. recorded k R)"
    by (rule triple_never)
qed (auto intro: in_memory_recorded)

lemma admit_record_other:
  assumes other: "j \<noteq> k"
  shows "keeps (recorded k R) (admit_record c fp j request b free)"
  unfolding admit_record_def keeps_def
proof (rule load_recorded, rule triple_bind [OF quarantine_in_memory], rule triple_lift, rule triple_require)
  fix v1 :: journal_doc and archived
  let ?I = "\<lambda>v2 w. in_memory k R v2 w \<and> set (jd_runs v2) \<subseteq> set (jd_runs v1)"
  assume none: "map_of (jd_runs v1) j = None \<and> \<not> archived"
  have archive: "triple (in_memory k R v1) (if MAX_RUNS \<le> length (jd_runs v1) then archive_terminal fp v1 else run_return v1)
      ?I (\<lambda>_. recorded k R)"
    by (rule triple_if, rule triple_conseq [OF triple_conj [OF archive_terminal_in_memory archive_terminal_subset]])
      (auto intro: triple_return)
  have wr: "triple (?I v2) (write_journal (admitted_doc j request b v2)) (\<lambda>_. recorded k R) (\<lambda>_. recorded k R)" for v2
  proof (rule write_recorded)
    fix w assume w: "?I v2 w"
    then have says: "says k R v2 (rw_disk w)" by (simp add: in_memory_def)
    have "j \<notin> fst ` set (jd_runs v2)" using none w by (auto simp: map_of_eq_None_iff)
    then have "distinct (map fst (jd_runs (admitted_doc j request b v2)))"
      using says by (simp add: admitted_doc_def says_def)
    moreover have "map_of (jd_runs (admitted_doc j request b v2)) k = map_of (jd_runs v2) k"
      using other by (simp add: admitted_doc_def map_add_def split: option.split)
    ultimately show "recorded k R w \<and> says k R (admitted_doc j request b v2) (rw_disk w)"
      using w in_memory_recorded says_same_runs [OF says] by blast
  qed
  have rest: "triple (in_memory k R v1)
     (run_bind (if MAX_RUNS \<le> length (jd_runs v1) then archive_terminal fp v1 else run_return v1) (\<lambda>v2.
     run_require (length (jd_runs v2) < MAX_RUNS \<and> \<not> has_status Run_Quarantined v2) refused
     (run_require (reserved_bytes v2 + b \<le> cf_limit c \<and> b \<le> free)
        (RunDenied ''Execution disk budget exhausted'')
     (write_journal (admitted_doc j request b v2))))) (\<lambda>_. recorded k R) (\<lambda>_. recorded k R)"
    by (rule triple_bind [OF archive], rule triple_require, rule triple_require, rule wr) (auto intro: in_memory_recorded)
  then show "triple (\<lambda>w. in_memory k R v1 w \<and> Inr (is_archived (rw_disk w) j) = Inr archived)
     (run_bind (if MAX_RUNS \<le> length (jd_runs v1) then archive_terminal fp v1 else run_return v1) (\<lambda>v2.
     run_require (length (jd_runs v2) < MAX_RUNS \<and> \<not> has_status Run_Quarantined v2) refused
     (run_require (reserved_bytes v2 + b \<le> cf_limit c \<and> b \<le> free)
        (RunDenied ''Execution disk budget exhausted'')
     (write_journal (admitted_doc j request b v2))))) (\<lambda>_. recorded k R) (\<lambda>_. recorded k R)"
    by (rule triple_pre) simp
qed (auto intro: in_memory_recorded)

text \<open>Finishing another execution.\<close>

lemma finish_run_other:
  assumes other: "ru_operation run \<noteq> k"
  shows "keeps (recorded k R) (finish_run c run st stopped)"
  unfolding finish_run_def keeps_def
proof (rule triple_require, rule triple_require, rule load_recorded)
  fix v
  let ?j = "ru_operation run"
  have clean: "triple (in_memory k R v) (if stopped then clean_run run else run_return False) (\<lambda>_. in_memory k R v) (\<lambda>_. recorded k R)"
    by (rule triple_if, rule triple_conseq [OF clean_run_keeps [OF in_memory_blind]])
      (auto intro: triple_return in_memory_recorded)
  show "triple (in_memory k R v) (case map_of (jd_runs v) ?j of None \<Rightarrow> run_raise (Raised OtherError)
     | Some r \<Rightarrow> run_bind (if stopped then clean_run run else run_return False) (\<lambda>cleaned.
         run_bind (run_lift (\<lambda>d. Inr (is_cancelled d ?j))) (\<lambda>cancelled.
         write_journal (v\<lparr>jd_runs := AList.update ?j
           (r\<lparr>rr_status := (if cleaned then (if cancelled then Run_Cancelled else st) else Run_Quarantined),
              rr_reserved := (if cleaned then 0 else rr_reserved r)\<rparr>) (jd_runs v)\<rparr>))))
     (\<lambda>_. recorded k R) (\<lambda>_. recorded k R)"
  proof (cases "map_of (jd_runs v) ?j")
    case (Some r)
    show ?thesis
      unfolding Some option.case
      by (rule triple_bind [OF clean], rule triple_lift, rule triple_pre [OF update_recorded [OF other]])
        (auto intro: in_memory_recorded)
  qed (auto intro: in_memory_recorded)
qed auto

end

context record_law
begin

lemma recorded_next [simp]:
  "recorded k R (w\<lparr>rw_disk := (rw_disk w)\<lparr>next_inode := i\<rparr>\<rparr>) = recorded k R w"
  by (rule recorded_cong) simp_all

lemma admit_run_recorded: "keeps (recorded k R) (admit_run c fp j request b free)"
proof (cases "j = k")
  case True
  have "triple (recorded k R) (run_require valid invalid_input (run_require idle busy
      (run_bind (admit_record c fp k request b free) f))) (\<lambda>_. recorded k R) (\<lambda>_. recorded k R)" for valid idle and f :: "unit \<Rightarrow> unit prog"
    by (rule triple_require, rule triple_require, rule triple_bind [OF admit_record_self]) (auto simp: triple_def)
  from this [unfolded triple_def] show ?thesis
    unfolding True keeps_def triple_def admit_run_def by blast
next
  case False
  let ?run = "\<lparr>ru_operation = j, ru_request = request, ru_inode = None, ru_finished = False\<rparr>"
  have active: "keeps (recorded k R) (set_active a)" for a
    by (simp add: keeps_def triple_def set_active_def)
  have mkdir: "keeps (recorded k R) (make_run_dir j)"
    unfolding keeps_def by (rule make_run_dir_ok [OF recorded_blind]) simp
  have failed: "keeps (recorded k R) (finish_run c ?run Run_Failed False)"
    by (rule finish_run_other) (use False in simp)
  have "keeps (recorded k R) (run_require valid invalid_input (run_require idle busy
      (run_bind (admit_record c fp j request b free) (\<lambda>_. run_try (run_bind (make_run_dir j) (\<lambda>i.
          set_active (Some \<lparr>ru_operation = j, ru_request = request, ru_inode = Some i, ru_finished = False\<rparr>)))
        (\<lambda>e. run_bind (finish_run c ?run Run_Failed False) (\<lambda>_. run_raise e))))))" for valid idle
    by (rule prog_keeps_require, rule prog_keeps_require, rule prog_keeps_bind [OF admit_record_other [OF False]], rule prog_keeps_try,
        rule prog_keeps_bind [OF mkdir active], rule prog_keeps_bind [OF failed], rule keeps_basic)
  from this [unfolded keeps_def triple_def] show ?thesis
    unfolding keeps_def triple_def admit_run_def by blast
qed

lemma bind_scope_recorded: "keeps (recorded k R) (bind_scope c kind dg lease)"
  unfolding bind_scope_def
proof (rule prog_keeps_require, rule prog_keeps_require, unfold keeps_def, rule load_recorded)
  fix v
  have wr: "triple (in_memory k R v) (write_journal (v\<lparr>jd_scope := Some (kind, dg)\<rparr>)) (\<lambda>_. recorded k R) (\<lambda>_. recorded k R)"
    by (rule write_recorded) (auto simp: in_memory_recorded in_memory_def says_def)
  show "triple (in_memory k R v)
      (case jd_scope v of
         None \<Rightarrow> run_require (list_all (\<lambda>(_, r). run_terminal (rr_status r)) (jd_runs v))
             (RunDenied ''Unscoped uncertain work requires explicit recovery'')
             (write_journal (v\<lparr>jd_scope := Some (kind, dg)\<rparr>))
       | Some s \<Rightarrow> run_require (s = (kind, dg))
             (RunDenied ''Execution journal belongs to another physical scope'') (run_return ()))
      (\<lambda>_. recorded k R) (\<lambda>_. recorded k R)"
    by (cases "jd_scope v") (auto intro: wr in_memory_recorded triple_return)
qed

lemma cancel_recorded: "keeps (recorded k R) (cancel_run c j request)"
proof -
  have "keeps (recorded k R) (run_effect (\<lambda>d. d\<lparr>cancellations := g d\<rparr>))" for g
  proof (rule keeps_effect)
    fix w es assume "recorded k R w"
    then show "recorded k R (w\<lparr>rw_disk := (rw_disk w)\<lparr>cancellations := g (rw_disk w)\<rparr>, rw_effects := es\<rparr>)"
      by (rule recorded_cong [THEN iffD2, rotated 2]) simp_all
  qed simp
  then show ?thesis
    unfolding cancel_run_def by (intro keeps_intros)
qed

lemma tamper_recorded: "recorded k R w \<Longrightarrow> recorded k R (w\<lparr>rw_disk := tamper j dir (rw_disk w)\<rparr>)"
  by (rule recorded_cong [THEN iffD2, rotated 2]) (simp_all add: tamper_def)

lemma close_record_other: "j \<noteq> k \<Longrightarrow> triple (in_memory k R v) (close_record v j r) (\<lambda>_. recorded k R) (\<lambda>_. recorded k R)"
  unfolding close_record_def Let_def
  by (rule triple_lift, rule triple_bind, rule triple_pre [OF update_recorded])
    (auto intro: triple_return in_memory_recorded)

lemma scope_recovery_other:
  assumes other: "j \<noteq> k"
  shows "keeps (recorded k R) (finish_scope_recovery c kind dg j request accepted)"
  unfolding finish_scope_recovery_def
proof (rule prog_keeps_try, unfold keeps_def, rule load_recorded)
  fix v
  have rest: "triple (in_memory k R v) (run_bind (remove_empty_dir kind j) (\<lambda>_. close_record v j r))
      (\<lambda>_. recorded k R) (\<lambda>_. recorded k R)" for r
    by (rule triple_bind [OF triple_conseq [OF remove_empty_dir_keeps [unfolded keeps_def, OF in_memory_blind]]
          close_record_other [OF other]]) (auto intro: in_memory_recorded)
  show "triple (in_memory k R v) (case map_of (jd_runs v) j of
           None \<Rightarrow> run_raise (scope_denied kind ''recovery binding changed'')
         | Some r \<Rightarrow>
             run_require (jd_scope v = Some (kind, dg) \<and> rr_request r = request \<and> \<not> run_terminal (rr_status r))
               (scope_denied kind ''recovery binding changed'')
             (run_require accepted (scope_denied kind ''cleanup authority is unavailable'')
             (run_bind (remove_empty_dir kind j) (\<lambda>_. close_record v j r))))
      (\<lambda>_. recorded k R) (\<lambda>_. recorded k R)"
  proof (cases "map_of (jd_runs v) j")
    case (Some r)
    show ?thesis
      unfolding Some option.case
      by (rule triple_require, rule triple_require, rule rest) (auto intro: in_memory_recorded)
  qed (auto intro: in_memory_recorded)
qed auto

lemma reconcile_open_other:
  assumes other: "j \<noteq> k"
  shows "keeps (recorded k R) (reconcile_open c j request owner)"
proof -
  have fin: "keeps (recorded k R) (finish_run c \<lparr>ru_operation = j, ru_request = request, ru_inode = None, ru_finished = False\<rparr> Run_Failed True)"
    by (rule finish_run_other) (use other in simp)
  show ?thesis
    unfolding reconcile_open_def
    by (rule prog_keeps_bind, rule keeps_basic, rule prog_keeps_require, rule prog_keeps_require, rule prog_keeps_bind, rule keeps_basic,
        rule prog_keeps_require, rule prog_keeps_bind [OF fin], rule keeps_basic)
qed

lemma reconcile_run_from:
  assumes "keeps (recorded k R) (reconcile_open c j request owner)"
  shows "keeps (recorded k R) (reconcile_run c j request owner)"
proof -
  have "keeps (recorded k R) (run_require valid invalid_input (run_require idle busy
      (run_try (run_bind (run_lift (status_of c j)) (\<lambda>r.
         run_require (rr_request r = request) (RunDenied ''Recovery binding mismatch'')
         (if run_terminal (rr_status r) then run_return r else reconcile_open c j request owner)))
        (\<lambda>e. run_raise (recovery_error e)))))" for valid idle
    by (rule prog_keeps_require, rule prog_keeps_require, rule prog_keeps_try, rule prog_keeps_bind, rule keeps_basic, rule prog_keeps_require,
        rule prog_keeps_if, rule keeps_basic, rule assms, rule keeps_basic)
  from this [unfolded keeps_def triple_def] show ?thesis
    unfolding keeps_def triple_def reconcile_run_def by blast
qed

end

section \<open>Steps\<close>

text \<open>The execution whose record an operation may settle.\<close>

fun touched :: "run_world \<Rightarrow> run_op \<Rightarrow> string option" where
  "touched w (Finish st stopped) = map_option ru_operation (rw_active w)"
| "touched w Leave = map_option ru_operation (rw_active w)"
| "touched w (Reconcile j request owner) = Some j"
| "touched w (Recover kind dg j request accepted) = Some j"
| "touched w _ = None"

lemma finish_active_from:
  assumes "rw_active w = Some run" and "triple P (finish_run c run st stopped) (\<lambda>_. Q) (\<lambda>_. Q)" and "P w"
    and "\<And>w a. Q w \<Longrightarrow> Q (w\<lparr>rw_active := a\<rparr>)" and "finish_active c st stopped w = (r, w')"
  shows "Q w'"
proof -
  obtain r1 w1 where m: "finish_run c run st stopped w = (r1, w1)" by fastforce
  from triple_run [OF assms(2,3) m] have "Q w1" by auto
  with assms(1,4,5) m show ?thesis
    by (cases r1) (auto simp: finish_active_def run_bind_def set_active_def)
qed

lemma leave_run_from:
  assumes "rw_active w = Some run" and "triple P (finish_run c run Run_Failed False) (\<lambda>_. Q) (\<lambda>_. Q)" and "P w" and "Q w"
    and "\<And>w a. Q w \<Longrightarrow> Q (w\<lparr>rw_active := a\<rparr>)" and "leave_run c w = (r, w')"
  shows "Q w'"
proof -
  obtain r1 w1 where m: "finish_run c run Run_Failed False w = (r1, w1)" by fastforce
  from triple_run [OF assms(2,3) m] have "Q w1" by auto
  with assms(1,4,5,6) m show ?thesis
    by (auto simp: leave_run_def run_return_def split: if_splits)
qed

lemma keeps_run: "keeps K m \<Longrightarrow> K w \<Longrightarrow> m w = (r, w') \<Longrightarrow> K w'"
  unfolding keeps_def by (auto dest: triple_run)

context record_law
begin

lemma recorded_run: "keeps (recorded k R) m \<Longrightarrow> recorded k R w \<Longrightarrow> m w = (r, w') \<Longrightarrow> recorded k R w'"
  by (rule keeps_run [where K = "recorded k R"])

lemma prog_other:
  assumes rec: "recorded k R w" and other: "touched w op \<noteq> Some k" and m: "run_prog c fp op w = (r, w')"
  shows "recorded k R w'"
proof (cases op)
  case (Bind_Scope kind dg lease)
  from m show ?thesis by (intro recorded_run [OF bind_scope_recorded rec]) (simp add: Bind_Scope)
next
  case (Admit j request b free)
  from m show ?thesis by (intro recorded_run [OF admit_run_recorded rec]) (simp add: Admit)
next
  case (Finish st stopped)
  show ?thesis
  proof (cases "rw_active w")
    case (Some run)
    with other Finish have "ru_operation run \<noteq> k" by simp
    from finish_run_other [OF this] have "triple (recorded k R) (finish_run c run st stopped) (\<lambda>_. recorded k R) (\<lambda>_. recorded k R)"
      by (simp only: keeps_def)
    from Some this rec show ?thesis
      by (rule finish_active_from) (use m Finish in simp_all)
  qed (use m rec Finish in \<open>simp add: finish_active_def\<close>)
next
  case Leave
  show ?thesis
  proof (cases "rw_active w")
    case (Some run)
    with other Leave have "ru_operation run \<noteq> k" by simp
    from finish_run_other [OF this] have "triple (recorded k R) (finish_run c run Run_Failed False) (\<lambda>_. recorded k R) (\<lambda>_. recorded k R)"
      by (simp only: keeps_def)
    from Some this rec rec show ?thesis
      by (rule leave_run_from) (use m Leave in simp_all)
  qed (use m rec Leave in \<open>simp add: leave_run_def\<close>)
next
  case (Cancel_Run j request)
  from m show ?thesis by (intro recorded_run [OF cancel_recorded rec]) (simp add: Cancel_Run)
next
  case (Reconcile j request owner)
  with other have "j \<noteq> k" by simp
  from forget_keeps [OF reconcile_run_from [OF reconcile_open_other [OF this]]] rec show ?thesis
    by (rule recorded_run) (use m Reconcile in simp)
next
  case (Recover kind dg j request accepted)
  with other have "j \<noteq> k" by simp
  from forget_keeps [OF scope_recovery_other [OF this]] rec show ?thesis
    by (rule recorded_run) (use m Recover in simp)
next
  case (Tamper j dir)
  with m tamper_recorded [OF rec] show ?thesis by auto
qed

lemma step_other:
  assumes "recorded k R w" and "touched w (fst x) \<noteq> Some k" and "run_step c fp w x = Inr (r, w')"
  shows "recorded k R w'"
proof -
  obtain r1 w1 where m: "run_prog c fp (fst x) (w\<lparr>rw_effects := snd x\<rparr>) = (r1, w1)" by fastforce
  have "touched (w\<lparr>rw_effects := snd x\<rparr>) (fst x) = touched w (fst x)" by (cases "fst x") simp_all
  then have "recorded k R w1"
    by (intro prog_other [OF _ _ m]) (use assms in simp_all)
  then show ?thesis using assms(3) m by (auto simp: run_step_def split: if_splits)
qed

end

section \<open>Reservations\<close>

definition reserves :: "int \<Rightarrow> record_pred" where
  "reserves b x a \<longleftrightarrow> 0 < b \<and> (\<exists>r. x = Some r \<and> rr_reserved r = b)"

interpretation held: record_law k "reserves b" for k b
  by unfold_locales (auto simp: reserves_def)

text \<open>The directory of the execution is gone.\<close>

definition dir_gone :: "string \<Rightarrow> run_world \<Rightarrow> bool" where
  "dir_gone k w \<longleftrightarrow> map_of (run_dirs (rw_disk w)) k = None"

definition held_or_gone :: "string \<Rightarrow> int \<Rightarrow> run_world \<Rightarrow> bool" where
  "held_or_gone k b w \<longleftrightarrow> recorded k (reserves b) w \<or> dir_gone k w"

lemma held_or_gone_active: "held_or_gone k b w \<Longrightarrow> held_or_gone k b (w\<lparr>rw_active := a\<rparr>)"
  by (simp add: held_or_gone_def dir_gone_def)

lemma delete_gone: "map_of (AList.delete k xs) k = None"
  by (simp add: delete_conv)

lemma remove_dir_gone: "dir_blind K \<Longrightarrow> triple K (remove_dir k) (\<lambda>_ w. K w \<and> dir_gone k w) (\<lambda>_. K)"
  unfolding remove_dir_def
proof (rule triple_effect)
  fix w es assume K: "dir_blind K" "K w"
  then show "K (w\<lparr>rw_disk := (rw_disk w)\<lparr>run_dirs := AList.delete k (run_dirs (rw_disk w))\<rparr>, rw_effects := es\<rparr>) \<and>
      dir_gone k (w\<lparr>rw_disk := (rw_disk w)\<lparr>run_dirs := AList.delete k (run_dirs (rw_disk w))\<rparr>, rw_effects := es\<rparr>)"
    unfolding dir_blind_def by (simp add: dir_gone_def delete_gone)
qed (rule dir_blind_effects)

lemma remove_empty_dir_gone:
  "dir_blind K \<Longrightarrow> triple K (remove_empty_dir kind k) (\<lambda>_ w. K w \<and> dir_gone k w) (\<lambda>_. K)"
  unfolding remove_empty_dir_def
proof (rule triple_lift)
  fix found
  assume K: "dir_blind K"
  show "triple (\<lambda>w. K w \<and> Inr (map_of (run_dirs (rw_disk w)) k) = Inr found)
    (case found of None \<Rightarrow> run_return ()
      | Some dir \<Rightarrow> run_require (dir_private dir \<and> dir_entries dir = [])
            (scope_denied kind ''run directory cleanup is unknown'') (remove_dir k))
    (\<lambda>_ w. K w \<and> dir_gone k w) (\<lambda>_. K)"
  proof (cases found)
    case (Some dir)
    show ?thesis
      unfolding Some option.case
      by (rule triple_require, rule triple_pre [OF remove_dir_gone [OF K]]) auto
  qed (auto simp: dir_gone_def intro: triple_return)
qed simp

lemma clean_run_gone:
  assumes K: "dir_blind K"
  shows "triple K (clean_run run) (\<lambda>cleaned w. K w \<and> (cleaned \<longrightarrow> dir_gone (ru_operation run) w)) (\<lambda>_. K)"
proof -
  have body: "triple K (run_try (run_bind (unlink_all (ru_operation run) ns) (\<lambda>_.
      run_bind (remove_dir (ru_operation run)) (\<lambda>_. run_return True))) (\<lambda>_. run_return False))
    (\<lambda>cleaned w. K w \<and> (cleaned \<longrightarrow> dir_gone (ru_operation run) w)) (\<lambda>_. K)" for ns
    by (rule triple_try [where H = "\<lambda>_. K"], rule triple_conseq [OF triple_bind [OF unlink_all_keeps [OF K]
          triple_bind [OF remove_dir_gone [OF K], where Q = "\<lambda>cleaned w. K w \<and> (cleaned \<longrightarrow> dir_gone (ru_operation run) w)"]]])
      (auto intro: triple_return)
  show ?thesis
    unfolding clean_run_def
    by (rule triple_lift, rule triple_assume [where I = K])
      (auto split: option.split intro: triple_return body)
qed

text \<open>A reservation through the operations that settle its own record.\<close>

lemma update_held:
  assumes "says k (reserves b) v d" and "map_of (jd_runs v) k = Some r" and "rr_reserved r' = rr_reserved r"
  shows "says k (reserves b) (v\<lparr>jd_runs := AList.update k r' (jd_runs v)\<rparr>) d"
  using assms by (simp add: says_def distinct_update update_conv reserves_def del: map_of_eq_Some_iff)

lemma write_held_or_gone:
  assumes r: "map_of (jd_runs v) k = Some r" and same: "\<not> cleaned \<Longrightarrow> rr_reserved r' = rr_reserved r"
  shows "triple (\<lambda>w. in_memory k (reserves b) v w \<and> (cleaned \<longrightarrow> dir_gone k w))
    (write_journal (v\<lparr>jd_runs := AList.update k r' (jd_runs v)\<rparr>)) (\<lambda>_. held_or_gone k b) (\<lambda>_. held_or_gone k b)"
proof (rule triple_write)
  fix w es
  let ?v = "v\<lparr>jd_runs := AList.update k r' (jd_runs v)\<rparr>"
  assume w: "in_memory k (reserves b) v w \<and> (cleaned \<longrightarrow> dir_gone k w)"
  show "held_or_gone k b (w\<lparr>rw_disk := (rw_disk w)\<lparr>state_file := Some (Some (journal_json ?v))\<rparr>, rw_effects := es\<rparr>)"
  proof (cases cleaned)
    case True
    with w show ?thesis by (simp add: held_or_gone_def dir_gone_def)
  next
    case False
    have "says k (reserves b) ?v (rw_disk w)"
      using w by (intro update_held [OF _ r same [OF False]]) (simp add: in_memory_def)
    from recorded_written [OF this] show ?thesis by (simp add: held_or_gone_def)
  qed
next
  fix w es assume "in_memory k (reserves b) v w \<and> (cleaned \<longrightarrow> dir_gone k w)"
  then show "held_or_gone k b (w\<lparr>rw_effects := es\<rparr>)"
    using in_memory_recorded [of k "reserves b" v w] by (simp add: held_or_gone_def)
qed

lemma finish_run_held:
  "triple (recorded (ru_operation run) (reserves b)) (finish_run c run st True)
     (\<lambda>_. held_or_gone (ru_operation run) b) (\<lambda>_. held_or_gone (ru_operation run) b)"
  unfolding finish_run_def
proof (rule triple_require, rule triple_require, rule triple_lift)
  fix v
  let ?k = "ru_operation run"
  let ?I = "in_memory ?k (reserves b) v"
  have held: "held_or_gone ?k b w" if "?I w" for w
    using in_memory_recorded [OF that] by (simp add: held_or_gone_def)
  have "triple ?I (case map_of (jd_runs v) ?k of None \<Rightarrow> run_raise (Raised OtherError)
     | Some r \<Rightarrow> run_bind (if True then clean_run run else run_return False) (\<lambda>cleaned.
         run_bind (run_lift (\<lambda>d. Inr (is_cancelled d ?k))) (\<lambda>cancelled.
         write_journal (v\<lparr>jd_runs := AList.update ?k
           (r\<lparr>rr_status := (if cleaned then (if cancelled then Run_Cancelled else st) else Run_Quarantined),
              rr_reserved := (if cleaned then 0 else rr_reserved r)\<rparr>) (jd_runs v)\<rparr>))))
     (\<lambda>_. held_or_gone ?k b) (\<lambda>_. held_or_gone ?k b)"
  proof (cases "map_of (jd_runs v) ?k")
    case (Some r)
    have clean: "triple ?I (clean_run run) (\<lambda>cleaned w. ?I w \<and> (cleaned \<longrightarrow> dir_gone ?k w)) (\<lambda>_. held_or_gone ?k b)"
      by (rule triple_conseq [OF clean_run_gone [OF in_memory_blind]]) (auto intro: held)
    have settle: "triple (\<lambda>w. ?I w \<and> (cleaned \<longrightarrow> dir_gone ?k w)) (run_bind (run_lift (\<lambda>d. Inr (is_cancelled d ?k))) (\<lambda>cancelled.
         write_journal (v\<lparr>jd_runs := AList.update ?k
           (r\<lparr>rr_status := (if cleaned then (if cancelled then Run_Cancelled else st) else Run_Quarantined),
              rr_reserved := (if cleaned then 0 else rr_reserved r)\<rparr>) (jd_runs v)\<rparr>)))
      (\<lambda>_. held_or_gone ?k b) (\<lambda>_. held_or_gone ?k b)" for cleaned
      by (rule triple_lift, rule triple_pre [OF write_held_or_gone [OF Some, where cleaned = cleaned]]) (auto intro: held)
    show ?thesis
      unfolding Some option.case if_True by (rule triple_bind [OF clean settle])
  qed (auto intro: triple_raise held)
  then show "triple (\<lambda>w. recorded ?k (reserves b) w \<and> load_journal c (rw_disk w) = Inr v)
    (case map_of (jd_runs v) ?k of None \<Rightarrow> run_raise (Raised OtherError)
     | Some r \<Rightarrow> run_bind (if True then clean_run run else run_return False) (\<lambda>cleaned.
         run_bind (run_lift (\<lambda>d. Inr (is_cancelled d ?k))) (\<lambda>cancelled.
         write_journal (v\<lparr>jd_runs := AList.update ?k
           (r\<lparr>rr_status := (if cleaned then (if cancelled then Run_Cancelled else st) else Run_Quarantined),
              rr_reserved := (if cleaned then 0 else rr_reserved r)\<rparr>) (jd_runs v)\<rparr>))))
     (\<lambda>_. held_or_gone ?k b) (\<lambda>_. held_or_gone ?k b)"
    by (rule triple_pre) (auto intro: in_memory_loaded)
qed (auto simp: held_or_gone_def)

lemma finish_run_unstopped: "keeps (recorded (ru_operation run) (reserves b)) (finish_run c run st False)"
  unfolding finish_run_def keeps_def
proof (rule triple_require, rule triple_require, rule triple_lift)
  fix v
  let ?k = "ru_operation run"
  let ?K = "\<lambda>_. recorded ?k (reserves b)" and ?I = "in_memory ?k (reserves b) v"
  have "triple ?I (case map_of (jd_runs v) ?k of None \<Rightarrow> run_raise (Raised OtherError)
     | Some r \<Rightarrow> run_bind (if False then clean_run run else run_return False) (\<lambda>cleaned.
         run_bind (run_lift (\<lambda>d. Inr (is_cancelled d ?k))) (\<lambda>cancelled.
         write_journal (v\<lparr>jd_runs := AList.update ?k
           (r\<lparr>rr_status := (if cleaned then (if cancelled then Run_Cancelled else st) else Run_Quarantined),
              rr_reserved := (if cleaned then 0 else rr_reserved r)\<rparr>) (jd_runs v)\<rparr>)))) ?K ?K"
  proof (cases "map_of (jd_runs v) ?k")
    case (Some r)
    have wr: "triple ?I (write_journal (v\<lparr>jd_runs := AList.update ?k r' (jd_runs v)\<rparr>)) ?K ?K"
      if "rr_reserved r' = rr_reserved r" for r'
      by (rule write_recorded) (use update_held [OF _ Some that] in_memory_recorded in \<open>auto simp: in_memory_def\<close>)
    have none: "triple ?I (run_return False) (\<lambda>cleaned w. ?I w \<and> \<not> cleaned) ?K"
      by (auto intro: triple_return)
    show ?thesis
      unfolding Some option.case if_False
      by (rule triple_bind [OF none], rule triple_lift, rule triple_assume [where I = ?I, OF wr])
        (auto intro: in_memory_recorded)
  qed (auto intro: triple_raise in_memory_recorded)
  then show "triple (\<lambda>w. recorded ?k (reserves b) w \<and> load_journal c (rw_disk w) = Inr v)
    (case map_of (jd_runs v) ?k of None \<Rightarrow> run_raise (Raised OtherError)
     | Some r \<Rightarrow> run_bind (if False then clean_run run else run_return False) (\<lambda>cleaned.
         run_bind (run_lift (\<lambda>d. Inr (is_cancelled d ?k))) (\<lambda>cancelled.
         write_journal (v\<lparr>jd_runs := AList.update ?k
           (r\<lparr>rr_status := (if cleaned then (if cancelled then Run_Cancelled else st) else Run_Quarantined),
              rr_reserved := (if cleaned then 0 else rr_reserved r)\<rparr>) (jd_runs v)\<rparr>)))) ?K ?K"
    by (rule triple_pre) (auto intro: in_memory_loaded)
qed auto

text \<open>Recovery gives back a reservation only with the proof it asks for.\<close>

definition vm_stopped :: "run_config \<Rightarrow> string \<Rightarrow> string \<Rightarrow> string option \<Rightarrow> run_disk \<Rightarrow> bool" where
  "vm_stopped c k request owner d \<longleftrightarrow> stop_record k request d \<and>
     (case load_journal c d of Inl _ \<Rightarrow> False
      | Inr v \<Rightarrow> map_option fst (jd_scope v) = Some ''vm'' \<and> map_option snd (jd_scope v) = owner)"

definition scope_cleared :: "run_config \<Rightarrow> string \<times> string \<Rightarrow> bool \<Rightarrow> run_disk \<Rightarrow> bool" where
  "scope_cleared c s accepted d \<longleftrightarrow> accepted \<and>
     (case load_journal c d of Inl _ \<Rightarrow> False | Inr v \<Rightarrow> jd_scope v = Some s)"

definition held_or_cleared :: "string \<Rightarrow> int \<Rightarrow> bool \<Rightarrow> run_world \<Rightarrow> bool" where
  "held_or_cleared k b proven w \<longleftrightarrow> recorded k (reserves b) w \<or> proven \<and> dir_gone k w"

lemma held_cleared [simp]: "recorded k (reserves b) w \<Longrightarrow> held_or_cleared k b proven w"
  by (simp add: held_or_cleared_def)

lemma held_or_cleared_active: "held_or_cleared k b p w \<Longrightarrow> held_or_cleared k b p (w\<lparr>rw_active := a\<rparr>)"
  by (simp add: held_or_cleared_def dir_gone_def)

lemma reconcile_open_held:
  "triple (\<lambda>w. recorded k (reserves b) w \<and> rw_disk w = d) (reconcile_open c k request owner)
     (\<lambda>_. held_or_cleared k b (vm_stopped c k request owner d)) (\<lambda>_. held_or_cleared k b (vm_stopped c k request owner d))"
    (is "triple ?P _ (\<lambda>_. ?Q) (\<lambda>_. ?Q)")
  unfolding reconcile_open_def
proof (rule triple_lift, rule triple_require, rule triple_require, rule triple_lift, rule triple_require)
  fix v :: journal_doc and halted
  let ?run = "\<lparr>ru_operation = k, ru_request = request, ru_inode = None, ru_finished = False\<rparr>"
  assume vm: "case jd_scope v of None \<Rightarrow> False | Some (kind, _) \<Rightarrow> kind = ''vm''"
    and owner: "map_option snd (jd_scope v) = owner" and halted: "halted"
  let ?I = "\<lambda>w. (?P w \<and> load_journal c (rw_disk w) = Inr v) \<and> Inr (stop_record k request (rw_disk w)) = (Inr halted :: bool run_result)"
  have proven: "vm_stopped c k request owner d" if "?I w" for w
    using that vm owner halted by (auto simp: vm_stopped_def split: option.splits)
  have fin: "triple ?I (finish_run c ?run Run_Failed True) (\<lambda>_ w. ?Q w) (\<lambda>_. ?Q)"
  proof (rule triple_assume [where I = "recorded k (reserves b)"])
    fix w assume "?I w"
    then have "?Q u" if "held_or_gone k b u" for u
      using that proven by (auto simp: held_or_gone_def held_or_cleared_def)
    then show "triple (recorded k (reserves b)) (finish_run c ?run Run_Failed True) (\<lambda>_ w. ?Q w) (\<lambda>_. ?Q)"
      by (intro triple_conseq [OF finish_run_held [of ?run b c Run_Failed]]) simp_all
  qed simp
  show "triple ?I (run_bind (finish_run c ?run Run_Failed True) (\<lambda>_. run_lift (status_of c k))) (\<lambda>_. ?Q) (\<lambda>_. ?Q)"
    by (rule triple_bind [OF fin]) (simp add: triple_def run_lift_def)
qed simp_all

lemma reconcile_run_held:
  assumes rec: "recorded k (reserves b) w" and m: "reconcile_run c k request owner w = (r, w')"
  shows "held_or_cleared k b (vm_stopped c k request owner (rw_disk w)) w'"
proof -
  let ?P = "\<lambda>u. recorded k (reserves b) u \<and> rw_disk u = rw_disk w"
  let ?Q = "held_or_cleared k b (vm_stopped c k request owner (rw_disk w))"
  have body: "triple ?P (run_bind (run_lift (status_of c k)) (\<lambda>r.
       run_require (rr_request r = request) (RunDenied ''Recovery binding mismatch'')
       (if run_terminal (rr_status r) then run_return r else reconcile_open c k request owner))) (\<lambda>_. ?Q) (\<lambda>_. ?Q)"
    by (rule triple_lift, rule triple_require, rule triple_if, rule triple_return, simp,
        rule triple_pre [OF reconcile_open_held]) auto
  have "triple ?P (run_require valid invalid_input (run_require idle busy (run_try (run_bind (run_lift (status_of c k)) (\<lambda>r.
       run_require (rr_request r = request) (RunDenied ''Recovery binding mismatch'')
       (if run_terminal (rr_status r) then run_return r else reconcile_open c k request owner)))
      (\<lambda>e. run_raise (recovery_error e))))) (\<lambda>_. ?Q) (\<lambda>_. ?Q)" for valid idle
    by (rule triple_require, rule triple_require, rule triple_try [where H = "\<lambda>_. ?Q"], rule triple_conseq [OF body])
      (auto intro: triple_raise)
  from triple_run [OF this _ m [unfolded reconcile_run_def]] rec show ?thesis by auto
qed

lemma scope_recovery_held:
  "triple (\<lambda>w. recorded k (reserves b) w \<and> rw_disk w = d) (finish_scope_recovery c kind dg k request accepted)
     (\<lambda>_. held_or_cleared k b (scope_cleared c (kind, dg) accepted d)) (\<lambda>_. held_or_cleared k b (scope_cleared c (kind, dg) accepted d))"
    (is "triple ?P _ (\<lambda>_. ?Q) (\<lambda>_. ?Q)")
  unfolding finish_scope_recovery_def
proof (rule triple_try [where H = "\<lambda>_. ?Q"], rule triple_lift)
  fix v
  let ?I = "in_memory k (reserves b) v"
  let ?L = "\<lambda>w. ?P w \<and> load_journal c (rw_disk w) = Inr v"
  have settle: "triple (\<lambda>w. ?I w \<and> dir_gone k w) (close_record v k r) (\<lambda>_. held_or_gone k b) (\<lambda>_. held_or_gone k b)"
    if r: "map_of (jd_runs v) k = Some r" for r
    unfolding close_record_def Let_def
    by (rule triple_lift, rule triple_bind, rule triple_pre [OF write_held_or_gone [OF r, where cleaned = True]])
      (auto intro: triple_return simp: held_or_gone_def)
  have body: "triple ?I (run_bind (remove_empty_dir kind k) (\<lambda>_. close_record v k r)) (\<lambda>_. held_or_gone k b) (\<lambda>_. held_or_gone k b)"
    if r: "map_of (jd_runs v) k = Some r" for r
    by (rule triple_bind [OF triple_conseq [OF remove_empty_dir_gone [OF in_memory_blind]] settle [OF r]])
      (auto simp: held_or_gone_def in_memory_recorded)
  show "triple ?L (case map_of (jd_runs v) k of
           None \<Rightarrow> run_raise (scope_denied kind ''recovery binding changed'')
         | Some r \<Rightarrow>
             run_require (jd_scope v = Some (kind, dg) \<and> rr_request r = request \<and> \<not> run_terminal (rr_status r))
               (scope_denied kind ''recovery binding changed'')
             (run_require accepted (scope_denied kind ''cleanup authority is unavailable'')
             (run_bind (remove_empty_dir kind k) (\<lambda>_. close_record v k r))))
      (\<lambda>_. ?Q) (\<lambda>e w. if e = Crashed then ?Q w else ?Q w)"
  proof (cases "map_of (jd_runs v) k")
    case (Some r)
    show ?thesis
      unfolding Some option.case
    proof (rule triple_require, rule triple_require)
      assume scope: "jd_scope v = Some (kind, dg) \<and> rr_request r = request \<and> \<not> run_terminal (rr_status r)" and accepted
      show "triple ?L (run_bind (remove_empty_dir kind k) (\<lambda>_. close_record v k r)) (\<lambda>_. ?Q) (\<lambda>e w. if e = Crashed then ?Q w else ?Q w)"
      proof (rule triple_assume [where I = ?I])
        fix w assume "?L w"
        then have "?Q u" if "held_or_gone k b u" for u
          using that scope \<open>accepted\<close> by (auto simp: held_or_gone_def held_or_cleared_def scope_cleared_def)
        then show "triple ?I (run_bind (remove_empty_dir kind k) (\<lambda>_. close_record v k r)) (\<lambda>_. ?Q) (\<lambda>e w. if e = Crashed then ?Q w else ?Q w)"
          by (intro triple_conseq [OF body [OF Some]]) simp_all
      qed (auto intro: in_memory_loaded)
    qed simp_all
  qed (auto intro: triple_raise)
qed (auto intro: triple_raise)

section \<open>A reservation is given back only when the execution is over\<close>

text \<open>What an operation must have to give back the reservation of \<open>k\<close> in the world \<open>w\<close>.\<close>

fun gives_back :: "run_config \<Rightarrow> string \<Rightarrow> run_world \<Rightarrow> run_op \<Rightarrow> bool" where
  "gives_back c k w (Finish st stopped) \<longleftrightarrow> stopped \<and> map_option ru_operation (rw_active w) = Some k"
| "gives_back c k w (Reconcile j request owner) \<longleftrightarrow> j = k \<and> vm_stopped c k request owner (rw_disk w)"
| "gives_back c k w (Recover kind dg j request accepted) \<longleftrightarrow> j = k \<and> scope_cleared c (kind, dg) accepted (rw_disk w)"
| "gives_back c k w _ \<longleftrightarrow> False"

lemma prog_held:
  assumes rec: "recorded k (reserves b) w" and m: "run_prog c fp op w = (r, w')"
  shows "held_or_cleared k b (gives_back c k w op) w'"
proof (cases "touched w op = Some k")
  case False
  from held.prog_other [OF rec this m] show ?thesis by simp
next
  case True
  then show ?thesis
  proof (cases op)
    case (Finish st stopped)
    with True obtain run where run: "rw_active w = Some run" "ru_operation run = k" by auto
    show ?thesis
    proof (cases stopped)
      case True
      have "triple (recorded k (reserves b)) (finish_run c run st stopped) (\<lambda>_. held_or_gone k b) (\<lambda>_. held_or_gone k b)"
        using finish_run_held [of run b c st] True run(2) by simp
      from finish_active_from [OF run(1) this rec] held_or_gone_active m Finish have "held_or_gone k b w'" by simp
      with Finish True run show ?thesis by (auto simp: held_or_gone_def held_or_cleared_def)
    next
      case False
      have "triple (recorded k (reserves b)) (finish_run c run st stopped) (\<lambda>_. recorded k (reserves b)) (\<lambda>_. recorded k (reserves b))"
        using finish_run_unstopped [of run b c st] False run(2) by (simp add: keeps_def)
      from finish_active_from [OF run(1) this rec] m Finish show ?thesis by simp
    qed
  next
    case Leave
    with True obtain run where run: "rw_active w = Some run" "ru_operation run = k" by auto
    have "triple (recorded k (reserves b)) (finish_run c run Run_Failed False) (\<lambda>_. recorded k (reserves b)) (\<lambda>_. recorded k (reserves b))"
      using finish_run_unstopped [of run b c Run_Failed] run(2) by (simp add: keeps_def)
    from leave_run_from [OF run(1) this rec rec] m Leave show ?thesis by simp
  next
    case (Reconcile j request owner)
    obtain r1 where "reconcile_run c j request owner w = (r1, w')"
      using m Reconcile by (auto simp: forget_def run_bind_def run_return_def split: prod.split_asm sum.split_asm)
    with reconcile_run_held [OF rec] True Reconcile show ?thesis by auto
  next
    case (Recover kind dg j request accepted)
    obtain r1 where m1: "finish_scope_recovery c kind dg j request accepted w = (r1, w')"
      using m Recover by (auto simp: forget_def run_bind_def run_return_def split: prod.split_asm sum.split_asm)
    have "j = k" using True Recover by simp
    from triple_run [OF scope_recovery_held [where b = b and d = "rw_disk w"] _ m1 [unfolded this]] rec this Recover
    show ?thesis by auto
  qed (use True in simp_all)
qed

lemma step_held:
  assumes rec: "recorded k (reserves b) w" and step: "run_step c fp w x = Inr (r, w')"
  shows "held_or_cleared k b (gives_back c k w (fst x)) w'"
proof -
  obtain r1 w1 where m: "run_prog c fp (fst x) (w\<lparr>rw_effects := snd x\<rparr>) = (r1, w1)" by fastforce
  have same: "gives_back c k (w\<lparr>rw_effects := snd x\<rparr>) (fst x) = gives_back c k w (fst x)" by (cases "fst x") simp_all
  have "held_or_cleared k b (gives_back c k (w\<lparr>rw_effects := snd x\<rparr>) (fst x)) w1"
    by (rule prog_held [OF _ m]) (use rec in simp)
  then have "held_or_cleared k b (gives_back c k w (fst x)) w1" by (simp only: same)
  then show ?thesis
    using step m held_or_cleared_active by (auto simp: run_step_def split: if_splits)
qed

lemma recorded_from_load:
  assumes "load_journal c (rw_disk w) = Inr v" and "says k R v (rw_disk w)"
  shows "recorded k R w"
proof -
  obtain names doc where doc: "parse_journal (cf_env c) names doc = Some v" "state_file (rw_disk w) = Some (Some doc)"
    using assms(1) by (auto simp: load_journal_def split: option.splits)
  have "says k R v' (rw_disk w)" if "parse_journal env names' doc = Some v'" for env names' v'
    using assms(2) parse_same_runs [OF doc(1) that] by (simp add: says_def)
  with doc(2) show ?thesis by (auto simp: recorded_def)
qed

text \<open>Worlds reached from a new store, and one step further.\<close>

lemma reached:
  assumes "journal_limits c fp" and "length xs < 2 ^ 31"
  shows "\<exists>n v. journal_at c fp n v (run_world_after c fp xs)"
  using runs_inv [of fp, OF _ new_world_inv [OF assms(1)], of xs] assms
  by (auto simp: run_world_after_def journal_inv_def journal_limits_def)

lemma reached_step:
  assumes "journal_limits c fp" and "Suc (length xs) < 2 ^ 31"
    and "run_step c fp (run_world_after c fp xs) x = Inr (r, w')"
  shows "\<exists>n v. journal_at c fp n v w'"
proof -
  have "run_world_after c fp (xs @ [x]) = w'"
    using assms(3) by (simp add: run_world_after_def run_ops_append)
  with reached [OF assms(1), of "xs @ [x]"] assms(2) show ?thesis by simp
qed

lemma journal_at_distinct: "journal_at c fp n v w \<Longrightarrow> distinct (map fst (jd_runs v))"
  by (simp add: journal_at_def journal_ok_def doc_ok_def)

text \<open>
  C2. In every world reached from a new store, whatever fails and wherever the process dies, a step
  either keeps what an execution reserves, or it may give it back and the directory of the execution
  is gone: the owner reported the machine stopped, or the stop record and the machine lease are there,
  or the owner of the bound scope accepted the cleanup.
\<close>

theorem reservation_needs_shutdown:
  assumes "journal_limits c fp" and "Suc (length xs) < 2 ^ 31"
    and "load_journal c (rw_disk (run_world_after c fp xs)) = Inr v"
    and "map_of (jd_runs v) k = Some r" and "0 < rr_reserved r"
    and "run_step c fp (run_world_after c fp xs) x = Inr (res, w')"
  shows "(\<exists>v' r'. load_journal c (rw_disk w') = Inr v' \<and> map_of (jd_runs v') k = Some r' \<and> rr_reserved r' = rr_reserved r) \<or>
    gives_back c k (run_world_after c fp xs) (fst x) \<and> map_of (run_dirs (rw_disk w')) k = None"
proof -
  let ?w = "run_world_after c fp xs" and ?b = "rr_reserved r"
  obtain n u where "journal_at c fp n u ?w" using reached [OF assms(1), of xs] assms(2) by auto
  moreover from this assms(3) have "u = v" by (simp add: journal_at_def)
  ultimately have "says k (reserves ?b) v (rw_disk ?w)"
    using journal_at_distinct assms(4,5) by (auto simp: says_def reserves_def simp del: map_of_eq_Some_iff)
  from step_held [OF recorded_from_load [OF assms(3) this] assms(6)]
  have post: "recorded k (reserves ?b) w' \<or> gives_back c k ?w (fst x) \<and> map_of (run_dirs (rw_disk w')) k = None"
    by (simp add: held_or_cleared_def dir_gone_def)
  obtain n' v' where "journal_at c fp n' v' w'" using reached_step [OF assms(1,2,6)] by blast
  then have load: "load_journal c (rw_disk w') = Inr v'" by (simp add: journal_at_def)
  from post show ?thesis
  proof
    assume "recorded k (reserves ?b) w'"
    from recorded_loaded [OF this load] load show ?thesis
      by (auto simp: says_def reserves_def simp del: map_of_eq_Some_iff)
  qed simp
qed

section \<open>An outcome is final\<close>

text \<open>The outcome in the journal, in the archive, or in both with the same contents.\<close>

definition settled :: "string \<Rightarrow> run_status \<Rightarrow> record_pred" where
  "settled request st x a \<longleftrightarrow> run_terminal st \<and>
     (case x of None \<Rightarrow> a = Inr (Some (request, st))
      | Some r \<Rightarrow> r = \<lparr>rr_request = request, rr_status = st, rr_reserved = 0\<rparr> \<and>
          (a = Inr None \<or> a = Inr (Some (request, st))))"

interpretation outcome: record_law k "settled request st" for k request st
  by unfold_locales (auto simp: settled_def split: option.splits)

lemma status_of_settled:
  assumes "is_run_id k" and "load_journal c d = Inr v" and "settled request st (map_of (jd_runs v) k) (archived_record d k)"
  shows "status_of c k d = Inr \<lparr>rr_request = request, rr_status = st, rr_reserved = 0\<rparr>"
  using assms by (cases "map_of (jd_runs v) k") (auto simp: status_of_def settled_def simp del: map_of_eq_Some_iff)

lemma settled_status:
  assumes "load_journal c d = Inr v" and "status_of c k d = Inr r" and "run_terminal (rr_status r)" and "rr_reserved r = 0"
  shows "settled (rr_request r) (rr_status r) (map_of (jd_runs v) k) (archived_record d k)"
  using assms
  by (cases "map_of (jd_runs v) k"; cases "archived_record d k")
    (auto simp: status_of_def settled_def split: if_splits option.splits simp del: map_of_eq_Some_iff)

lemma status_terminal_reserves_nothing:
  assumes "load_journal c d = Inr v" and "status_of c k d = Inr r" and "run_terminal (rr_status r)"
  shows "rr_reserved r = 0"
proof (cases "map_of (jd_runs v) k")
  case None
  with assms show ?thesis
    by (cases "archived_record d k") (auto simp: status_of_def split: if_splits option.splits)
next
  case (Some x)
  with assms have "r = x"
    by (cases "archived_record d k") (auto simp: status_of_def split: if_splits option.splits simp del: map_of_eq_Some_iff)
  with loaded_records [OF assms(1) Some] assms(3) show ?thesis by (simp add: run_record_ok_def)
qed

lemma finished_run_stays: "ru_finished run \<Longrightarrow> finish_run c run st stopped w = (r, w') \<Longrightarrow> w' = w"
  by (auto simp: finish_run_def run_require_def run_raise_def)

lemma reconcile_settled:
  assumes rec: "recorded k (settled request' st) w" and m: "reconcile_run c k request owner w = (r, w')"
  shows "recorded k (settled request' st) w'"
proof -
  let ?K = "recorded k (settled request' st)"
  have body: "keeps ?K (run_bind (run_lift (status_of c k)) (\<lambda>r.
       run_require (rr_request r = request) (RunDenied ''Recovery binding mismatch'')
       (if run_terminal (rr_status r) then run_return r else reconcile_open c k request owner)))"
    unfolding keeps_def
  proof (rule triple_lift, rule triple_require, rule triple_if)
    fix r :: run_record
    assume not_over: "\<not> run_terminal (rr_status r)"
    have "\<not> (?K w \<and> status_of c k (rw_disk w) = Inr r)" for w
    proof
      assume w: "?K w \<and> status_of c k (rw_disk w) = Inr r"
      then obtain v where load: "load_journal c (rw_disk w) = Inr v" and id: "is_run_id k"
        by (auto simp: status_of_def bind_result_Inr_iff split: if_splits)
      have "?K w" using w by simp
      from recorded_loaded [OF this load]
      have set: "settled request' st (map_of (jd_runs v) k) (archived_record (rw_disk w) k)" by (simp only: says_def)
      then have "run_terminal st" by (simp only: settled_def)
      with status_of_settled [OF id load set] w not_over show False by auto
    qed
    then show "triple (\<lambda>w. ?K w \<and> status_of c k (rw_disk w) = Inr r) (reconcile_open c k request owner) (\<lambda>_. ?K) (\<lambda>_. ?K)"
      by (rule triple_never)
  qed (auto intro: triple_return)
  have "keeps ?K (run_require valid invalid_input (run_require idle busy (run_try (run_bind (run_lift (status_of c k)) (\<lambda>r.
       run_require (rr_request r = request) (RunDenied ''Recovery binding mismatch'')
       (if run_terminal (rr_status r) then run_return r else reconcile_open c k request owner)))
      (\<lambda>e. run_raise (recovery_error e)))))" for valid idle
    by (rule prog_keeps_require, rule prog_keeps_require, rule prog_keeps_try, rule body, rule keeps_basic)
  from triple_run [OF this [unfolded keeps_def] rec m [unfolded reconcile_run_def]] show ?thesis by auto
qed

lemma scope_recovery_settled: "keeps (recorded k (settled request' st)) (finish_scope_recovery c kind dg k request accepted)"
  unfolding finish_scope_recovery_def
proof (rule prog_keeps_try, unfold keeps_def, rule outcome.load_recorded)
  fix v
  let ?I = "in_memory k (settled request' st) v" and ?K = "recorded k (settled request' st)"
  show "triple ?I (case map_of (jd_runs v) k of
           None \<Rightarrow> run_raise (scope_denied kind ''recovery binding changed'')
         | Some r \<Rightarrow>
             run_require (jd_scope v = Some (kind, dg) \<and> rr_request r = request \<and> \<not> run_terminal (rr_status r))
               (scope_denied kind ''recovery binding changed'')
             (run_require accepted (scope_denied kind ''cleanup authority is unavailable'')
             (run_bind (remove_empty_dir kind k) (\<lambda>_. close_record v k r)))) (\<lambda>_. ?K) (\<lambda>_. ?K)"
  proof (cases "map_of (jd_runs v) k")
    case (Some r)
    show ?thesis
      unfolding Some option.case
    proof (rule triple_require)
      assume "jd_scope v = Some (kind, dg) \<and> rr_request r = request \<and> \<not> run_terminal (rr_status r)"
      then have "\<not> ?I w" for w
        using Some by (auto simp: in_memory_def says_def settled_def simp del: map_of_eq_Some_iff)
      then show "triple ?I (run_require accepted (scope_denied kind ''cleanup authority is unavailable'')
             (run_bind (remove_empty_dir kind k) (\<lambda>_. close_record v k r))) (\<lambda>_. ?K) (\<lambda>_. ?K)"
        by (rule triple_never)
    qed (auto intro: in_memory_recorded)
  qed (auto intro: triple_raise in_memory_recorded)
qed (simp add: triple_def run_raise_def)

text \<open>The run that holds the lock may still finish \<open>k\<close>.\<close>

definition still_running :: "string \<Rightarrow> run_world \<Rightarrow> bool" where
  "still_running k w \<longleftrightarrow> (case rw_active w of None \<Rightarrow> False | Some run \<Rightarrow> ru_operation run = k \<and> \<not> ru_finished run)"

lemma prog_settled:
  assumes rec: "recorded k (settled request' st) w" and over: "\<not> still_running k w" and m: "run_prog c fp op w = (r, w')"
  shows "recorded k (settled request' st) w'"
proof (cases "touched w op = Some k")
  case False
  from outcome.prog_other [OF rec this m] show ?thesis .
next
  case True
  then show ?thesis
  proof (cases op)
    case (Finish st' stopped)
    with True obtain run where run: "rw_active w = Some run" "ru_operation run = k" by auto
    then have fin: "ru_finished run" using over by (simp add: still_running_def)
    obtain r1 w1 where m1: "finish_run c run st' stopped w = (r1, w1)" by fastforce
    from finished_run_stays [OF fin this] m m1 run rec Finish show ?thesis
      by (cases r1) (auto simp: finish_active_def run_bind_def set_active_def)
  next
    case Leave
    with True obtain run where run: "rw_active w = Some run" "ru_operation run = k" by auto
    then have "ru_finished run" using over by (simp add: still_running_def)
    with m run rec Leave show ?thesis by (auto simp: leave_run_def run_return_def)
  next
    case (Reconcile j request owner)
    obtain r1 where "reconcile_run c j request owner w = (r1, w')"
      using m Reconcile by (auto simp: forget_def run_bind_def run_return_def split: prod.split_asm sum.split_asm)
    with reconcile_settled [OF rec] True Reconcile show ?thesis by auto
  next
    case (Recover kind dg j request accepted)
    obtain r1 where m1: "finish_scope_recovery c kind dg j request accepted w = (r1, w')"
      using m Recover by (auto simp: forget_def run_bind_def run_return_def split: prod.split_asm sum.split_asm)
    have "j = k" using True Recover by simp
    from triple_run [OF scope_recovery_settled [unfolded keeps_def] rec m1 [unfolded this]] show ?thesis by auto
  qed (use True in simp_all)
qed

text \<open>
  C3. In every world reached from a new store, the outcome of an execution that is not running is
  final: whatever the next step is, whatever fails in it and wherever the process dies, the status of
  the execution is the same afterwards, also while its record moves to the archive.
\<close>

theorem outcome_final:
  assumes "journal_limits c fp" and "Suc (length xs) < 2 ^ 31"
    and "status_of c k (rw_disk (run_world_after c fp xs)) = Inr r" and "run_terminal (rr_status r)"
    and "\<not> still_running k (run_world_after c fp xs)"
    and "run_step c fp (run_world_after c fp xs) x = Inr (res, w')"
  shows "status_of c k (rw_disk w') = Inr r"
proof -
  let ?w = "run_world_after c fp xs" and ?R = "settled (rr_request r) (rr_status r)"
  obtain n v where at: "journal_at c fp n v ?w" using reached [OF assms(1), of xs] assms(2) by auto
  then have load: "load_journal c (rw_disk ?w) = Inr v" by (simp add: journal_at_def)
  have zero: "rr_reserved r = 0" by (rule status_terminal_reserves_nothing [OF load assms(3,4)])
  have "says k ?R v (rw_disk ?w)"
    using settled_status [OF load assms(3,4) zero] journal_at_distinct [OF at] by (simp add: says_def)
  from recorded_from_load [OF load this] have rec: "recorded k ?R ?w" .
  obtain r1 w1 where m: "run_prog c fp (fst x) (?w\<lparr>rw_effects := snd x\<rparr>) = (r1, w1)" by fastforce
  have "recorded k ?R w1"
    by (rule prog_settled [OF _ _ m]) (use rec assms(5) in \<open>simp_all add: still_running_def\<close>)
  then have rec': "recorded k ?R w'" using assms(6) m by (auto simp: run_step_def split: if_splits)
  obtain n' v' where "journal_at c fp n' v' w'" using reached_step [OF assms(1,2,6)] by blast
  then have load': "load_journal c (rw_disk w') = Inr v'" by (simp add: journal_at_def)
  have "is_run_id k" using assms(3) by (auto simp: status_of_def split: if_splits)
  moreover have "?R (map_of (jd_runs v') k) (archived_record (rw_disk w') k)"
    using recorded_loaded [OF rec' load'] by (simp add: says_def)
  ultimately have "status_of c k (rw_disk w') = Inr \<lparr>rr_request = rr_request r, rr_status = rr_status r, rr_reserved = 0\<rparr>"
    using load' by (intro status_of_settled)
  then show ?thesis using zero by (cases r) simp
qed

end
