(* ===== verification/Run_Store_Demo.thy ===== *)
theory Run_Store_Demo
  imports Run_Store_Outcomes
begin

text \<open>
  A small store at work: the hypotheses of the theorems on the run store hold of it. One run is
  admitted and finished, the process dies in the middle of a later admission, and a third admission
  finds the interrupted run quarantined.
\<close>

definition store_config :: run_config where
  "store_config = \<lparr>cf_env = replicate 64 CHR ''e'', cf_limit = 10\<rparr>"

definition store_digest :: "pyval list \<Rightarrow> string" where
  "store_digest _ = replicate 64 CHR ''a''"

definition store_request :: string where
  "store_request = replicate 64 CHR ''b''"

lemma store_limits: "journal_limits store_config store_digest"
proof -
  have "is_hex_digest (replicate 64 CHR ''a'')" "is_hex_digest (replicate 64 CHR ''e'')" by code_simp+
  then show ?thesis by (simp add: journal_limits_def store_config_def store_digest_def)
qed

text \<open>The run \<open>a\<close> is admitted, finished and left; the process dies while the directory of \<open>b\<close> is made.\<close>

definition store_steps :: "(run_op \<times> effect list) list" where
  "store_steps = [(Admit ''a'' store_request 5 100, []), (Finish Run_Succeeded True, []), (Leave, []),
     (Admit ''b'' store_request 5 100, [Eff_Ok, Eff_Crash])]"

text \<open>The length limit, counted down so that evaluation does not build the limit as a unary number.\<close>

fun at_most :: "'a list \<Rightarrow> int \<Rightarrow> bool" where
  "at_most [] n = (0 \<le> n)"
| "at_most (x # xs) n = at_most xs (n - 1)"

lemma at_most_length: "at_most xs n \<longleftrightarrow> int (length xs) \<le> n"
  by (induction xs arbitrary: n) auto

lemma write_journal_counted [code]:
  "write_journal v =
     (case canonical (journal_json v) of
        Inl e \<Rightarrow> run_raise (Raised e)
      | Inr raw \<Rightarrow>
          run_require (at_most raw 262144) (RunDenied ''Execution journal limit exceeded'')
            (run_try (run_effect (\<lambda>d. d\<lparr>state_file := Some (Some (journal_json v))\<rparr>))
              (\<lambda>_. run_raise (RunDenied ''Execution journal write failed''))))"
  unfolding at_most_length write_journal_def MAX_STATE_BYTES_def by (simp split: sum.split)

lemma store_admitted: "admitted_ids store_config store_digest (new_world store_config) store_steps = [''a'']"
  by code_simp

text \<open>What the journal says in the end: \<open>a\<close> succeeded, \<open>b\<close> was cut off and keeps its reservation.\<close>

definition store_doc :: journal_doc where
  "store_doc = \<lparr>jd_env = replicate 64 CHR ''e'', jd_runs =
     [(''a'', \<lparr>rr_request = store_request, rr_status = Run_Succeeded, rr_reserved = 0\<rparr>),
      (''b'', \<lparr>rr_request = store_request, rr_status = Run_Admitted, rr_reserved = 5\<rparr>)],
     jd_scope = None, jd_archive = None\<rparr>"

definition store_world :: run_world where
  "store_world = \<lparr>rw_disk = \<lparr>state_file = Some (Some (journal_json store_doc)), run_dirs = [], cancellations = [],
     archive_files = Some [], next_inode = 1\<rparr>, rw_effects = [], rw_active = None\<rparr>"

lemma store_reached: "run_world_after store_config store_digest store_steps = store_world"
  by code_simp

lemma store_loaded: "load_journal store_config (rw_disk (run_world_after store_config store_digest store_steps)) = Inr store_doc"
  unfolding store_reached by code_simp

lemma store_status: "status_of store_config ''a'' (rw_disk (run_world_after store_config store_digest store_steps)) =
    Inr \<lparr>rr_request = store_request, rr_status = Run_Succeeded, rr_reserved = 0\<rparr>"
  unfolding store_reached by code_simp

lemma store_idle: "\<not> still_running ''a'' (run_world_after store_config store_digest store_steps)"
  unfolding store_reached by code_simp

text \<open>The next admission is refused; it turns the record of \<open>b\<close> to quarantined.\<close>

definition store_next :: "run_op \<times> effect list" where
  "store_next = (Admit ''c'' store_request 5 100, [])"

definition store_after :: run_world where
  "store_after = (case run_step store_config store_digest store_world store_next of
     Inl _ \<Rightarrow> store_world | Inr (_, w) \<Rightarrow> w)"

lemma store_refused: "(case run_step store_config store_digest store_world store_next of
    Inl _ \<Rightarrow> False | Inr (r, _) \<Rightarrow> r = Inl refused)"
  by code_simp

lemma store_step: "run_step store_config store_digest (run_world_after store_config store_digest store_steps) store_next =
    Inr (Inl refused, store_after)"
  using store_refused unfolding store_reached store_after_def by (simp split: sum.splits prod.splits)

lemma store_short: "length store_steps < 2 ^ 31"
  by (simp add: store_steps_def)

theorem admitted_once_witness:
  "distinct (admitted_ids store_config store_digest (new_world store_config) store_steps) \<and>
   (\<exists>r. status_of store_config ''a'' (rw_disk (run_world_after store_config store_digest store_steps)) = Inr r)"
  using admitted_once_never_forgotten [OF store_limits store_short] by (simp add: store_admitted)

theorem survives_crashes_witness:
  "reserved_bytes store_doc \<le> cf_limit store_config \<and>
   length (filter (\<lambda>(_, r). \<not> run_terminal (rr_status r)) (jd_runs store_doc)) \<le> 1"
  using journal_survives_crashes [OF store_limits store_short] by (simp add: store_loaded)

theorem needs_shutdown_witness:
  "(\<exists>v' r'. load_journal store_config (rw_disk store_after) = Inr v' \<and> map_of (jd_runs v') ''b'' = Some r' \<and> rr_reserved r' = 5) \<or>
   gives_back store_config ''b'' (run_world_after store_config store_digest store_steps) (fst store_next) \<and>
     map_of (run_dirs (rw_disk store_after)) ''b'' = None"
  using reservation_needs_shutdown [OF store_limits _ store_loaded _ _ store_step, of "''b''"
      "\<lparr>rr_request = store_request, rr_status = Run_Admitted, rr_reserved = 5\<rparr>"]
  by (simp add: store_steps_def store_doc_def)

theorem outcome_final_witness:
  "status_of store_config ''a'' (rw_disk store_after) =
     Inr \<lparr>rr_request = store_request, rr_status = Run_Succeeded, rr_reserved = 0\<rparr>"
  by (rule outcome_final [OF store_limits _ store_status _ store_idle store_step]) (simp_all add: store_steps_def)

end
