(* ===== verification/Access.thy ===== *)
theory Access
  imports Wire "HOL-Library.Product_Lexorder"
begin

text \<open>
  \<open>AccessStore\<close> of \<open>reproof/live/access.py\<close>: identities, project memberships, credentials, resource
  bindings, device assignments and host enrollments of a coordinator. A table is a list of rows with
  the columns of the schema; a method is one transaction, \<open>Inl\<close> when it was rolled back. Where the
  code reads again after the commit and that reading can raise, the value of the transaction is
  itself a result.

  Arguments have the types the code checks for with \<open>isinstance\<close>; the pattern, range and length
  checks are in the model. The clock is read once for each call of a method, and what \<open>secrets\<close>
  makes (identifiers and secrets of tokens) is an input. \<open>sha\<close> is SHA-256 of a text in hexadecimal
  and \<open>fp\<close> the contract digest of a JSON value. Lists stored as JSON text in a column are lists
  here: identifiers survive the encoding. A violated \<open>PRIMARY KEY\<close> or \<open>UNIQUE\<close> constraint is an
  \<open>sqlite3.Error\<close>, which the transaction turns into \<open>access_failed\<close>; times fit the 64 bits of a
  column.
\<close>

section \<open>Errors\<close>

text \<open>\<open>AccessError(code, message, status)\<close> and the plain \<open>ContractError\<close>.\<close>

datatype access_error = Denied string string int | Refused string

type_synonym 'a outcome = "access_error + 'a"

definition forbidden :: "string \<Rightarrow> access_error" where
  "forbidden msg = Denied ''forbidden'' msg 403"

definition unauthorized :: access_error where
  "unauthorized = Denied ''unauthorized'' ''Authentication failed'' 401"

definition host_unauthorized :: access_error where
  "host_unauthorized = Denied ''unauthorized'' ''Host authentication failed'' 401"

definition not_found :: access_error where
  "not_found = Denied ''not_found'' ''Resource is not locally bound'' 404"

definition access_failed :: access_error where
  "access_failed = Refused ''Access state operation failed''"

definition identified :: "string \<Rightarrow> string \<Rightarrow> 'a outcome \<Rightarrow> 'a outcome" where
  "identified s label k = ensure (is_word_id s) (Refused (''Invalid '' @ label)) k"

definition clocked :: "int \<Rightarrow> 'a outcome \<Rightarrow> 'a outcome" where
  "clocked now k = ensure (0 \<le> now) (Refused ''Access clock is invalid'') k"

section \<open>Roles and capabilities\<close>

definition ROLES :: "string list" where
  "ROLES = [''viewer'', ''operator'', ''maintainer'']"

definition GLOBAL_CAPABILITIES :: "string list" where
  "GLOBAL_CAPABILITIES = [''administration.read'', ''identity.manage'', ''membership.manage'',
     ''project.register'', ''host.manage'', ''device.assign'', ''credential.manage'', ''legacy.adopt'']"

definition READ_CAPABILITIES :: "string list" where
  "READ_CAPABILITIES = [''health.read'', ''project.read'', ''device.read'', ''session.read'',
     ''recording.read'', ''media.read'', ''issue.read'', ''job.read'']"

definition role_capabilities :: "string \<Rightarrow> string list" where
  "role_capabilities role =
     (if role = ''viewer'' then READ_CAPABILITIES @ [''export.read'']
      else if role = ''operator'' then READ_CAPABILITIES @
        [''device.operate'', ''session.create'', ''session.operate'', ''recording.create'',
         ''evidence.collect'', ''replay.execute'', ''job.manage'', ''fixture.execute'']
      else if role = ''maintainer'' then READ_CAPABILITIES @
        [''export.read'', ''project.maintain'', ''specification.maintain'', ''recording.import'',
         ''recording.derive'', ''resource.bind'']
      else [])"

definition RESOURCE_KINDS :: "string list" where
  "RESOURCE_KINDS = [''session'', ''recording'', ''job'', ''issue'', ''specification'']"

definition RESOURCE_MEANINGS :: "string list" where
  "RESOURCE_MEANINGS = [''release'', ''legacy-inert'', ''legacy-authorized'', ''approved'']"

definition LEGACY_MEANINGS :: "string list" where
  "LEGACY_MEANINGS = [''legacy-recording-only'', ''legacy-result-only'', ''legacy-authority-history'',
     ''legacy-configuration-reference'']"

definition MAX_LEGACY_BYTES :: int where "MAX_LEGACY_BYTES = 100 * 1024 * 1024"

section \<open>Tables\<close>

record identity_row =
  idn_id :: string
  idn_administrator :: bool
  idn_active :: bool
  idn_created :: int

record project_row =
  prj_id :: string
  prj_revision :: string
  prj_digest :: string
  prj_group :: string
  prj_active :: bool
  prj_registered :: int

record membership_row =
  mbr_project :: string
  mbr_identity :: string
  mbr_role :: string
  mbr_active :: bool
  mbr_updated :: int

record credential_row =
  crd_id :: string
  crd_identity :: string
  crd_secret :: string
  crd_issued :: int
  crd_expires :: int
  crd_revoked :: "int option"

record resource_row =
  rsc_kind :: string
  rsc_id :: string
  rsc_project :: string
  rsc_digest :: string
  rsc_owner :: string
  rsc_meaning :: string
  rsc_adoption :: "string option"
  rsc_authorized :: "string option"
  rsc_bound :: int

record sanitation_row =
  snt_digest :: string
  snt_device :: string
  snt_receipt :: pyval
  snt_recorded :: int

record assignment_row =
  asg_device :: string
  asg_project :: "string option"
  asg_group :: "string option"
  asg_host :: "string option"
  asg_host_generation :: "int option"
  asg_host_incarnation :: "string option"
  asg_generation :: int
  asg_sanitation :: "string option"
  asg_updated :: int

record enrollment_row =
  enr_id :: string
  enr_host :: string
  enr_generation :: int
  enr_secret :: string
  enr_projects :: "string list"
  enr_groups :: "string list"
  enr_issued :: int
  enr_expires :: int
  enr_lifetime :: int
  enr_consumed :: "int option"
  enr_revoked :: "int option"

record host_scope_row =
  hst_id :: string
  hst_generation :: int
  hst_incarnation :: string
  hst_credential :: string
  hst_secret :: string
  hst_projects :: "string list"
  hst_groups :: "string list"
  hst_issued :: int
  hst_expires :: int
  hst_revoked :: "int option"

record adoption_row =
  ado_id :: string
  ado_digest :: string
  ado_bytes :: nat
  ado_format :: string
  ado_meaning :: string
  ado_relative :: string
  ado_recorded :: int

text \<open>The store; \<open>ac_issuer\<close> is the identity of the object \<open>_issuer\<close>, \<open>ac_preserved\<close> the directory of adopted bytes.\<close>

record access_store =
  ac_issuer :: nat
  ac_identities :: "identity_row list"
  ac_projects :: "project_row list"
  ac_memberships :: "membership_row list"
  ac_credentials :: "credential_row list"
  ac_resources :: "resource_row list"
  ac_sanitations :: "sanitation_row list"
  ac_assignments :: "assignment_row list"
  ac_enrollments :: "enrollment_row list"
  ac_hosts :: "host_scope_row list"
  ac_adoptions :: "adoption_row list"
  ac_preserved :: "(string \<times> string) list"

definition new_access_store :: "nat \<Rightarrow> access_store" where
  "new_access_store issuer = \<lparr>ac_issuer = issuer, ac_identities = [], ac_projects = [], ac_memberships = [],
     ac_credentials = [], ac_resources = [], ac_sanitations = [], ac_assignments = [], ac_enrollments = [],
     ac_hosts = [], ac_adoptions = [], ac_preserved = []\<rparr>"

definition identity_at :: "access_store \<Rightarrow> string \<Rightarrow> identity_row option" where
  "identity_at s k = tbl_lookup idn_id k (ac_identities s)"

definition project_at :: "access_store \<Rightarrow> string \<Rightarrow> project_row option" where
  "project_at s k = tbl_lookup prj_id k (ac_projects s)"

definition credential_at :: "access_store \<Rightarrow> string \<Rightarrow> credential_row option" where
  "credential_at s k = tbl_lookup crd_id k (ac_credentials s)"

definition resource_at :: "access_store \<Rightarrow> string \<Rightarrow> string \<Rightarrow> resource_row option" where
  "resource_at s kind k = tbl_lookup (\<lambda>r. (rsc_kind r, rsc_id r)) (kind, k) (ac_resources s)"

definition assignment_at :: "access_store \<Rightarrow> string \<Rightarrow> assignment_row option" where
  "assignment_at s k = tbl_lookup asg_device k (ac_assignments s)"

definition enrollment_at :: "access_store \<Rightarrow> string \<Rightarrow> enrollment_row option" where
  "enrollment_at s k = tbl_lookup enr_id k (ac_enrollments s)"

definition host_at :: "access_store \<Rightarrow> string \<Rightarrow> host_scope_row option" where
  "host_at s k = tbl_lookup hst_id k (ac_hosts s)"

definition adoption_at :: "access_store \<Rightarrow> string \<Rightarrow> adoption_row option" where
  "adoption_at s k = tbl_lookup ado_id k (ac_adoptions s)"

text \<open>The \<open>active\<close> column of the row with a key; no row counts as inactive.\<close>

definition identity_active :: "access_store \<Rightarrow> string \<Rightarrow> bool" where
  "identity_active s k = (case identity_at s k of Some r \<Rightarrow> idn_active r | None \<Rightarrow> False)"

definition project_active :: "access_store \<Rightarrow> string \<Rightarrow> bool" where
  "project_active s k = (case project_at s k of Some r \<Rightarrow> prj_active r | None \<Rightarrow> False)"

definition is_administrator :: "access_store \<Rightarrow> string \<Rightarrow> bool" where
  "is_administrator s k =
     (case identity_at s k of Some r \<Rightarrow> idn_administrator r \<and> idn_active r | None \<Rightarrow> False)"

definition administrator :: "access_store \<Rightarrow> string \<Rightarrow> 'a outcome \<Rightarrow> 'a outcome" where
  "administrator s actor k =
     identified actor ''administrator identity''
       (ensure (is_administrator s actor) (forbidden ''Administrator authorization is required'') k)"

section \<open>Tokens\<close>

definition access_token :: "string \<Rightarrow> string \<Rightarrow> string \<Rightarrow> string" where
  "access_token prefix identifier secret = prefix @ ''.'' @ identifier @ ''.'' @ secret"

definition is_secret :: "string \<Rightarrow> bool" where
  "is_secret s \<longleftrightarrow> 32 \<le> length s \<and> length s \<le> 512 \<and> list_all (\<lambda>c. c \<in> set word_dash_chars) s"

definition parse_token :: "(string \<Rightarrow> string) \<Rightarrow> string \<Rightarrow> string \<Rightarrow> (string \<times> string) outcome" where
  "parse_token sha value prefix =
     (if 768 < length value then Inl unauthorized
      else case split_on (CHR ''.'') value of
          [p, i, secret] \<Rightarrow>
            ensure (p = prefix \<and> is_word_id i \<and> is_secret secret) unauthorized (Inr (i, sha secret))
        | _ \<Rightarrow> Inl unauthorized)"

section \<open>Identities\<close>

definition is_lifetime :: "int \<Rightarrow> int \<Rightarrow> bool" where
  "is_lifetime n most \<longleftrightarrow> 60 \<le> n \<and> n \<le> most"

definition add_identity :: "string \<Rightarrow> bool \<Rightarrow> int \<Rightarrow> access_store \<Rightarrow> access_store" where
  "add_identity k admin now s = s\<lparr>ac_identities := ac_identities s @
     [\<lparr>idn_id = k, idn_administrator = admin, idn_active = True, idn_created = now\<rparr>]\<rparr>"

definition add_credential :: "string \<Rightarrow> string \<Rightarrow> string \<Rightarrow> int \<Rightarrow> int \<Rightarrow> access_store \<Rightarrow> access_store outcome" where
  "add_credential c k secret now expires s =
     ensure (credential_at s c = None) access_failed
       (Inr (s\<lparr>ac_credentials := ac_credentials s @ [\<lparr>crd_id = c, crd_identity = k, crd_secret = secret,
          crd_issued = now, crd_expires = expires, crd_revoked = None\<rparr>]\<rparr>))"

definition bootstrap_administrator :: "string \<Rightarrow> int \<Rightarrow> access_store \<Rightarrow> (unit \<times> access_store) outcome" where
  "bootstrap_administrator k now s =
     identified k ''identity'' (clocked now
     (ensure (ac_identities s = []) (Denied ''bootstrap_denied'' ''Administrator bootstrap is already closed'' 403)
     (Inr ((), add_identity k True now s))))"

text \<open>The new credential: its id, the identity, the expiry and the token that carries the secret.\<close>

record issued =
  iss_credential :: string
  iss_identity :: string
  iss_expires :: int
  iss_token :: string

definition bootstrap_administrator_credential ::
  "(string \<Rightarrow> string) \<Rightarrow> string \<Rightarrow> int \<Rightarrow> string \<Rightarrow> string \<Rightarrow> int \<Rightarrow> access_store \<Rightarrow> (issued \<times> access_store) outcome" where
  "bootstrap_administrator_credential sha k lifetime credential secret now s =
     identified k ''identity''
     (ensure (is_lifetime lifetime (30 * 86400)) (Refused ''Credential lifetime must be 60 seconds to thirty days'')
     (clocked now
     (ensure (ac_identities s = []) (Denied ''bootstrap_denied'' ''Administrator bootstrap is already closed'' 403)
     (bind_result (add_credential credential k (sha secret) now (now + lifetime) (add_identity k True now s)) (\<lambda>s'.
      Inr (\<lparr>iss_credential = credential, iss_identity = k, iss_expires = now + lifetime,
            iss_token = access_token ''rpa'' credential secret\<rparr>, s'))))))"

definition create_identity :: "string \<Rightarrow> string \<Rightarrow> bool \<Rightarrow> int \<Rightarrow> access_store \<Rightarrow> (unit \<times> access_store) outcome" where
  "create_identity actor k admin now s =
     identified k ''identity'' (clocked now (administrator s actor
     (case identity_at s k of
        Some r \<Rightarrow> ensure (idn_administrator r = admin \<and> idn_active r) (Refused ''Identity already exists'') (Inr ((), s))
      | None \<Rightarrow> Inr ((), add_identity k admin now s))))"

definition identity_revoked :: "string \<Rightarrow> int \<Rightarrow> access_store \<Rightarrow> access_store" where
  "identity_revoked k now s = s\<lparr>ac_identities := tbl_update (\<lambda>r. idn_id r = k) (\<lambda>r. r\<lparr>idn_active := False\<rparr>) (ac_identities s),
      ac_credentials := tbl_update (\<lambda>r. crd_identity r = k)
        (\<lambda>r. r\<lparr>crd_revoked := (case crd_revoked r of None \<Rightarrow> Some now | Some t \<Rightarrow> Some t)\<rparr>) (ac_credentials s),
      ac_memberships := tbl_update (\<lambda>r. mbr_identity r = k)
        (\<lambda>r. r\<lparr>mbr_active := False, mbr_updated := now\<rparr>) (ac_memberships s)\<rparr>"

definition revoke_identity :: "string \<Rightarrow> string \<Rightarrow> int \<Rightarrow> access_store \<Rightarrow> (unit \<times> access_store) outcome" where
  "revoke_identity actor k now s =
     identified k ''identity'' (clocked now (administrator s actor
     (ensure (identity_at s k \<noteq> None) (Refused ''Identity does not exist'')
     (ensure (k \<noteq> actor) (Refused ''Administrator cannot revoke the active actor'')
     (Inr ((), identity_revoked k now s))))))"

definition require_administrator :: "string \<Rightarrow> access_store \<Rightarrow> string outcome" where
  "require_administrator actor s = administrator s actor (Inr actor)"

definition list_identities :: "access_store \<Rightarrow> identity_row list" where
  "list_identities s = sort_key idn_id (ac_identities s)"

section \<open>Projects and memberships\<close>

text \<open>What \<open>register_project\<close> keeps of a document that \<open>validate_project_revision\<close> accepts.\<close>

record project_doc =
  pd_id :: string
  pd_revision :: string
  pd_digest :: string
  pd_group :: string

definition register_project :: "string \<Rightarrow> project_doc option \<Rightarrow> int \<Rightarrow> access_store \<Rightarrow> (project_doc \<times> access_store) outcome" where
  "register_project actor doc now s =
     (case doc of
        None \<Rightarrow> Inl (Refused ''Trusted project registration is invalid'')
      | Some d \<Rightarrow>
          clocked now (administrator s actor
          (case project_at s (pd_id d) of
             None \<Rightarrow> Inr (d, s\<lparr>ac_projects := ac_projects s @ [\<lparr>prj_id = pd_id d, prj_revision = pd_revision d,
                 prj_digest = pd_digest d, prj_group = pd_group d, prj_active = True, prj_registered = now\<rparr>]\<rparr>)
           | Some r \<Rightarrow>
               if (prj_revision r, prj_digest r, prj_group r) \<noteq> (pd_revision d, pd_digest d, pd_group d)
               then Inr (d, s\<lparr>ac_projects := tbl_update (\<lambda>r. prj_id r = pd_id d)
                   (\<lambda>r. r\<lparr>prj_revision := pd_revision d, prj_digest := pd_digest d, prj_group := pd_group d,
                        prj_active := True, prj_registered := now\<rparr>) (ac_projects s)\<rparr>)
               else Inr (d, s\<lparr>ac_projects := tbl_update (\<lambda>r. prj_id r = pd_id d)
                   (\<lambda>r. r\<lparr>prj_active := True\<rparr>) (ac_projects s)\<rparr>))))"

definition access_project :: "access_store \<Rightarrow> string \<Rightarrow> project_row outcome" where
  "access_project s k =
     identified k ''project''
     (case project_at s k of
        Some r \<Rightarrow> ensure (prj_active r) (Denied ''project_unavailable'' ''Project is not locally registered'' 404) (Inr r)
      | None \<Rightarrow> Inl (Denied ''project_unavailable'' ''Project is not locally registered'' 404))"

definition list_projects :: "access_store \<Rightarrow> project_row list" where
  "list_projects s = sort_key prj_id (filter prj_active (ac_projects s))"

definition membership_key :: "membership_row \<Rightarrow> string \<times> string \<times> string" where
  "membership_key r = (mbr_project r, mbr_identity r, mbr_role r)"

definition put_membership :: "string \<Rightarrow> string \<Rightarrow> string \<Rightarrow> int \<Rightarrow> membership_row list \<Rightarrow> membership_row list" where
  "put_membership p k role now rows =
     (case tbl_lookup membership_key (p, k, role) rows of
        None \<Rightarrow> rows @ [\<lparr>mbr_project = p, mbr_identity = k, mbr_role = role, mbr_active = True, mbr_updated = now\<rparr>]
      | Some _ \<Rightarrow> tbl_update (\<lambda>r. membership_key r = (p, k, role))
          (\<lambda>r. r\<lparr>mbr_active := True, mbr_updated := now\<rparr>) rows)"

definition grant_membership :: "string \<Rightarrow> string \<Rightarrow> string \<Rightarrow> string \<Rightarrow> int \<Rightarrow> access_store \<Rightarrow> (unit \<times> access_store) outcome" where
  "grant_membership actor p k role now s =
     identified p ''project'' (identified k ''identity''
     (ensure (role \<in> set ROLES) (Refused ''Invalid membership role'')
     (clocked now (administrator s actor
     (ensure (project_active s p) (Refused ''Project does not exist'')
     (ensure (identity_active s k) (Refused ''Identity does not exist'')
     (Inr ((), s\<lparr>ac_memberships := put_membership p k role now (ac_memberships s)\<rparr>))))))))"

definition active_members :: "string \<Rightarrow> string \<Rightarrow> string \<Rightarrow> membership_row \<Rightarrow> bool" where
  "active_members p k role r \<longleftrightarrow> membership_key r = (p, k, role) \<and> mbr_active r"

definition revoke_membership :: "string \<Rightarrow> string \<Rightarrow> string \<Rightarrow> string \<Rightarrow> int \<Rightarrow> access_store \<Rightarrow> (unit \<times> access_store) outcome" where
  "revoke_membership actor p k role now s =
     identified p ''project'' (identified k ''identity''
     (ensure (role \<in> set ROLES) (Refused ''Invalid membership role'')
     (clocked now (administrator s actor
     (ensure (length (filter (active_members p k role) (ac_memberships s)) = 1) (Refused ''Membership does not exist'')
     (Inr ((), s\<lparr>ac_memberships := tbl_update (active_members p k role)
        (\<lambda>r. r\<lparr>mbr_active := False, mbr_updated := now\<rparr>) (ac_memberships s)\<rparr>)))))))"

definition list_memberships :: "access_store \<Rightarrow> membership_row list" where
  "list_memberships s = sort_key membership_key (ac_memberships s)"

section \<open>Credentials\<close>

definition issue_principal_credential ::
  "(string \<Rightarrow> string) \<Rightarrow> string \<Rightarrow> string \<Rightarrow> int \<Rightarrow> string \<Rightarrow> string \<Rightarrow> int \<Rightarrow> access_store \<Rightarrow> (issued \<times> access_store) outcome" where
  "issue_principal_credential sha actor k lifetime credential secret now s =
     identified k ''identity''
     (ensure (is_lifetime lifetime (30 * 86400)) (Refused ''Credential lifetime must be 60 seconds to 30 days'')
     (clocked now (administrator s actor
     (ensure (identity_active s k) (Refused ''Identity does not exist'')
     (bind_result (add_credential credential k (sha secret) now (now + lifetime) s) (\<lambda>s'.
      Inr (\<lparr>iss_credential = credential, iss_identity = k, iss_expires = now + lifetime,
            iss_token = access_token ''rpa'' credential secret\<rparr>, s')))))))"

definition revoke_credential :: "string \<Rightarrow> string \<Rightarrow> int \<Rightarrow> access_store \<Rightarrow> (unit \<times> access_store) outcome" where
  "revoke_credential actor c now s =
     identified c ''credential'' (clocked now (administrator s actor
     (ensure (\<exists>r \<in> set (ac_credentials s). crd_id r = c \<and> crd_revoked r = None)
        (Refused ''Credential does not exist or is already revoked'')
     (Inr ((), s\<lparr>ac_credentials := tbl_update (\<lambda>r. crd_id r = c \<and> crd_revoked r = None)
        (\<lambda>r. r\<lparr>crd_revoked := Some now\<rparr>) (ac_credentials s)\<rparr>)))))"

text \<open>Id, identity, issue and expiry, and whether it is revoked; never the digest of the secret.\<close>

definition list_credentials :: "access_store \<Rightarrow> (string \<times> string \<times> int \<times> int \<times> bool) list" where
  "list_credentials s =
     map (\<lambda>r. (crd_id r, crd_identity r, crd_issued r, crd_expires r, crd_revoked r \<noteq> None))
       (sort_key crd_issued (sort_key crd_id (ac_credentials s)))"

text \<open>\<open>PrincipalContext\<close>. \<open>pc_guard\<close> says whether it carries the guard of the access controller.\<close>

record principal_context =
  pc_id :: string
  pc_credential :: string
  pc_expires :: int
  pc_issuer :: nat
  pc_authorization :: "string option"
  pc_guard :: bool

definition principal_by_id :: "int \<Rightarrow> access_store \<Rightarrow> string \<Rightarrow> principal_context outcome" where
  "principal_by_id now s c =
     clocked now
     (case credential_at s c of
        None \<Rightarrow> Inl unauthorized
      | Some r \<Rightarrow>
          ensure (crd_revoked r = None \<and> now < crd_expires r \<and> identity_active s (crd_identity r)) unauthorized
          (Inr \<lparr>pc_id = crd_identity r, pc_credential = crd_id r, pc_expires = crd_expires r,
                pc_issuer = ac_issuer s, pc_authorization = None, pc_guard = False\<rparr>))"

definition authenticate_principal :: "(string \<Rightarrow> string) \<Rightarrow> int \<Rightarrow> access_store \<Rightarrow> string \<Rightarrow> principal_context outcome" where
  "authenticate_principal sha now s token =
     bind_result (parse_token sha token ''rpa'') (\<lambda>(c, supplied).
     case credential_at s c of
       None \<Rightarrow> Inl unauthorized
     | Some r \<Rightarrow> ensure (crd_secret r = supplied) unauthorized (principal_by_id now s c))"

definition current_principal ::
  "(principal_context \<Rightarrow> bool outcome) \<Rightarrow> int \<Rightarrow> access_store \<Rightarrow> principal_context \<Rightarrow> principal_context outcome" where
  "current_principal guard now s p =
     ensure (pc_issuer p = ac_issuer s) unauthorized
     (bind_result (principal_by_id now s (pc_credential p)) (\<lambda>c.
      ensure (pc_id c = pc_id p) unauthorized
      (if pc_guard p
       then bind_result (guard p) (\<lambda>ok.
            ensure ok (Refused ''Invalid authorization context'')
              (Inr (c\<lparr>pc_authorization := pc_authorization p, pc_guard := True\<rparr>)))
       else ensure (pc_authorization p = None) unauthorized (Inr c))))"

section \<open>Authorization\<close>

definition roles_of :: "access_store \<Rightarrow> string \<Rightarrow> string \<Rightarrow> string list" where
  "roles_of s p k = map mbr_role (filter (\<lambda>r. mbr_project r = p \<and> mbr_identity r = k \<and> mbr_active r) (ac_memberships s))"

definition authorize ::
  "(principal_context \<Rightarrow> bool outcome) \<Rightarrow> int \<Rightarrow> access_store \<Rightarrow> principal_context \<Rightarrow> string option \<Rightarrow> string \<Rightarrow> principal_context outcome" where
  "authorize guard now s p scope capability =
     bind_result (current_principal guard now s p) (\<lambda>c.
     case scope of
       None \<Rightarrow>
         ensure (is_administrator s (pc_id c) \<and> capability \<in> set GLOBAL_CAPABILITIES)
           (forbidden ''Project capability is not granted'') (Inr c)
     | Some k \<Rightarrow>
         identified k ''project''
         (ensure (project_active s k \<and>
              list_ex (\<lambda>role. capability \<in> set (role_capabilities role)) (roles_of s k (pc_id c)))
           (forbidden ''Project capability is not granted'') (Inr c)))"

definition authorized_project_ids ::
  "(principal_context \<Rightarrow> bool outcome) \<Rightarrow> int \<Rightarrow> access_store \<Rightarrow> principal_context \<Rightarrow> string \<Rightarrow> string list outcome" where
  "authorized_project_ids guard now s p capability =
     bind_result (current_principal guard now s p) (\<lambda>c.
     Inr (sort (remdups (map mbr_project (filter (\<lambda>r. mbr_active r \<and> mbr_identity r = pc_id c \<and>
            project_active s (mbr_project r) \<and> capability \<in> set (role_capabilities (mbr_role r)))
          (ac_memberships s))))))"

section \<open>Resources\<close>

text \<open>\<open>ResourceBinding\<close> is the row without the time it was bound.\<close>

record resource_binding =
  rb_kind :: string
  rb_id :: string
  rb_project :: string
  rb_digest :: string
  rb_owner :: string
  rb_meaning :: string
  rb_adoption :: "string option"
  rb_authorized :: "string option"

definition binding_of :: "resource_row \<Rightarrow> resource_binding" where
  "binding_of r = \<lparr>rb_kind = rsc_kind r, rb_id = rsc_id r, rb_project = rsc_project r, rb_digest = rsc_digest r,
     rb_owner = rsc_owner r, rb_meaning = rsc_meaning r, rb_adoption = rsc_adoption r, rb_authorized = rsc_authorized r\<rparr>"

definition access_resource :: "access_store \<Rightarrow> string \<Rightarrow> string \<Rightarrow> resource_binding outcome" where
  "access_resource s kind k =
     ensure (kind \<in> set RESOURCE_KINDS) (Refused ''Invalid resource kind'') (identified k ''resource''
     (case resource_at s kind k of
        None \<Rightarrow> Inl not_found
      | Some r \<Rightarrow> bind_result (access_project s (rsc_project r)) (\<lambda>_. Inr (binding_of r))))"

definition resource_values :: "resource_row \<Rightarrow> string \<times> string \<times> string \<times> string \<times> string option \<times> string option" where
  "resource_values r = (rsc_project r, rsc_digest r, rsc_owner r, rsc_meaning r, rsc_adoption r, rsc_authorized r)"

definition preserved_promotion :: "resource_row \<Rightarrow> string \<Rightarrow> string \<Rightarrow> string \<Rightarrow> string \<Rightarrow> bool" where
  "preserved_promotion r p digest owner meaning \<longleftrightarrow>
     (rsc_project r, rsc_digest r, rsc_owner r) = (p, digest, owner) \<and> meaning = ''legacy-inert'' \<and>
     rsc_meaning r = ''legacy-authorized'' \<and> rsc_adoption r \<noteq> None \<and> rsc_authorized r \<noteq> None"

definition bind_resource ::
  "string \<Rightarrow> string \<Rightarrow> string \<Rightarrow> string \<Rightarrow> string \<Rightarrow> string \<Rightarrow> int \<Rightarrow> access_store \<Rightarrow>
     (resource_binding outcome \<times> access_store) outcome" where
  "bind_resource kind k p digest owner meaning now s =
     ensure (kind \<in> set RESOURCE_KINDS) (Refused ''Invalid resource kind'')
     (identified k ''resource'' (identified p ''project'' (identified owner ''resource owner''
     (ensure (is_hex_digest digest) (Refused ''Invalid project digest'')
     (ensure (meaning \<in> set RESOURCE_MEANINGS) (Refused ''Invalid resource meaning'')
     (clocked now
     (ensure (case project_at s p of Some r \<Rightarrow> prj_active r \<and> prj_digest r = digest | None \<Rightarrow> False)
        (Refused ''Project binding is not current'')
     (ensure (identity_active s owner) (Refused ''Resource owner is unavailable'')
     (case resource_at s kind k of
        Some r \<Rightarrow>
          ensure (resource_values r = (p, digest, owner, meaning, None, None) \<or> preserved_promotion r p digest owner meaning)
            (Refused ''Resource binding conflict'') (Inr (access_resource s kind k, s))
      | None \<Rightarrow>
          let s' = s\<lparr>ac_resources := ac_resources s @ [\<lparr>rsc_kind = kind, rsc_id = k, rsc_project = p,
                rsc_digest = digest, rsc_owner = owner, rsc_meaning = meaning, rsc_adoption = None,
                rsc_authorized = None, rsc_bound = now\<rparr>]\<rparr>
          in Inr (access_resource s' kind k, s'))))))))))"

definition authorize_resource ::
  "(principal_context \<Rightarrow> bool outcome) \<Rightarrow> int \<Rightarrow> access_store \<Rightarrow> principal_context \<Rightarrow> string \<Rightarrow> string \<Rightarrow> string \<Rightarrow> bool \<Rightarrow>
     resource_binding outcome" where
  "authorize_resource guard now s p kind k capability executable =
     bind_result (current_principal guard now s p) (\<lambda>c.
     bind_result (access_resource s kind k) (\<lambda>b.
     bind_result
       (case authorize guard now s c (Some (rb_project b)) capability of
          Inl (Denied code msg status) \<Rightarrow>
            if status = 401 then Inl (Denied code msg status)
            else (case authorize guard now s c (Some (rb_project b)) ''project.read'' of
                Inl (Denied _ _ _) \<Rightarrow> Inl not_found
              | Inl e \<Rightarrow> Inl e
              | Inr _ \<Rightarrow> Inl (Denied code msg status))
        | r \<Rightarrow> r) (\<lambda>_.
     ensure (\<not> (executable \<and> rb_meaning b = ''legacy-inert''))
       (Denied ''inert_resource'' ''Imported legacy resource is not locally authorized'' 403)
     (bind_result (if executable then bind_result (access_project s (rb_project b)) (\<lambda>r. Inr (prj_digest r))
                   else Inr (rb_digest b)) (\<lambda>current.
      ensure (rb_digest b = current)
       (Denied ''stale_project'' ''Project revision changed; close the historical session'' 409) (Inr b))))))"

definition list_resource_bindings :: "string option \<Rightarrow> access_store \<Rightarrow> resource_binding list outcome" where
  "list_resource_bindings kind s =
     ensure (case kind of None \<Rightarrow> True | Some k \<Rightarrow> k \<in> set RESOURCE_KINDS) (Refused ''Invalid resource kind'')
     (Inr (map binding_of (sort_key (\<lambda>r. (rsc_bound r, rsc_id r, rsc_kind r))
        (filter (\<lambda>r. case kind of None \<Rightarrow> True | Some k \<Rightarrow> rsc_kind r = k) (ac_resources s)))))"

definition promoted :: "string \<Rightarrow> string \<Rightarrow> int \<Rightarrow> resource_row \<Rightarrow> resource_row" where
  "promoted adoption digest now r = r\<lparr>rsc_meaning := ''legacy-authorized'', rsc_adoption := Some adoption,
     rsc_authorized := Some digest, rsc_bound := now\<rparr>"

definition authorize_legacy_resource ::
  "string \<Rightarrow> string \<Rightarrow> string \<Rightarrow> string \<Rightarrow> string \<Rightarrow> int \<Rightarrow> access_store \<Rightarrow>
     (resource_binding outcome \<times> access_store) outcome" where
  "authorize_legacy_resource actor kind k adoption digest now s =
     ensure (kind = ''recording'') (Refused ''Only legacy recordings can be authorized'')
     (identified k ''resource'' (identified adoption ''adoption''
     (ensure (is_hex_digest digest) (Refused ''Invalid resource digest'')
     (clocked now (administrator s actor
     (ensure (case adoption_at s adoption of Some a \<Rightarrow> ado_meaning a = ''legacy-recording-only'' | None \<Rightarrow> False)
        (Refused ''A recording-only legacy adoption is required'')
     (ensure (case resource_at s kind k of Some r \<Rightarrow> rsc_meaning r = ''legacy-inert'' | None \<Rightarrow> False)
        (Refused ''An inert legacy resource is required'')
     (let s' = s\<lparr>ac_resources := tbl_update (\<lambda>r. (rsc_kind r, rsc_id r) = (kind, k)) (promoted adoption digest now)
            (ac_resources s)\<rparr>
      in Inr (access_resource s' kind k, s')))))))))"

section \<open>Device assignments\<close>

text \<open>\<open>==\<close> of two JSON values that are a string, a number or \<open>None\<close>; \<open>True\<close> equals 1.\<close>

definition scalar_equal :: "pyval \<Rightarrow> pyval \<Rightarrow> bool" where
  "scalar_equal a b =
     (let number = (\<lambda>v. case v of PBool x \<Rightarrow> PInt (if x then 1 else 0) | _ \<Rightarrow> v) in number a = number b)"

definition optional_json :: "('a \<Rightarrow> pyval) \<Rightarrow> 'a option \<Rightarrow> pyval" where
  "optional_json f v = (case v of None \<Rightarrow> PNone | Some x \<Rightarrow> f x)"

definition previous_assignment :: "assignment_row \<Rightarrow> (string \<times> pyval) list" where
  "previous_assignment r =
     [(''projectId'', optional_json PStr (asg_project r)), (''trustGroup'', optional_json PStr (asg_group r)),
      (''hostId'', optional_json PStr (asg_host r)), (''hostGeneration'', optional_json PInt (asg_host_generation r)),
      (''hostIncarnation'', optional_json PStr (asg_host_incarnation r))]"

definition names_assignment :: "pyval \<Rightarrow> assignment_row \<Rightarrow> bool" where
  "names_assignment v r =
     (case v of
        PDict d \<Rightarrow> same_keys d (map fst (previous_assignment r)) \<and>
          list_all (\<lambda>(k, x). scalar_equal (field_of d k) x) (previous_assignment r)
      | _ \<Rightarrow> False)"

definition limitation_ok :: "pyval \<Rightarrow> bool" where
  "limitation_ok v = (case v of PStr t \<Rightarrow> utf8_len t \<le> 256 | _ \<Rightarrow> False)"

definition sanitation :: "pyval \<Rightarrow> string \<Rightarrow> assignment_row \<Rightarrow> pyval outcome" where
  "sanitation value device previous =
     (case value of
        PDict d \<Rightarrow>
          ensure (same_keys d [''schemaVersion'', ''kind'', ''deviceId'', ''previousAssignment'', ''completedAtMs'',
              ''limitations''] \<and>
            field_of d ''schemaVersion'' = PInt 1 \<and> field_of d ''kind'' = PStr ''device-sanitation-receipt'' \<and>
            field_of d ''deviceId'' = PStr device \<and> names_assignment (field_of d ''previousAssignment'') previous \<and>
            (case field_of d ''completedAtMs'' of PInt n \<Rightarrow> 0 \<le> n | _ \<Rightarrow> False) \<and>
            (case field_of d ''limitations'' of PList xs \<Rightarrow> length xs \<le> 32 \<and> list_all limitation_ok xs | _ \<Rightarrow> False))
            (Refused ''Invalid sanitation receipt'') (Inr value)
      | _ \<Rightarrow> Inl (Refused ''Invalid sanitation receipt''))"

definition optional_identified :: "string option \<Rightarrow> string \<Rightarrow> 'a outcome \<Rightarrow> 'a outcome" where
  "optional_identified v label k = (case v of None \<Rightarrow> k | Some x \<Rightarrow> identified x label k)"

definition host_current :: "int \<Rightarrow> host_scope_row \<Rightarrow> bool" where
  "host_current now r \<longleftrightarrow> hst_revoked r = None \<and> now < hst_expires r"

text \<open>The project (with its group) or the trust group an assignment names, checked against the table.\<close>

definition assignable :: "access_store \<Rightarrow> string option \<Rightarrow> string option \<Rightarrow> project_row option outcome" where
  "assignable s project trust =
     (case project of
        Some p \<Rightarrow> ensure (project_active s p) (Refused ''Project does not exist'') (Inr (project_at s p))
      | None \<Rightarrow> ensure (list_ex (\<lambda>r. Some (prj_group r) = trust \<and> prj_active r) (ac_projects s))
          (Refused ''Trust group does not exist'') (Inr None))"

definition assigned_host :: "int \<Rightarrow> access_store \<Rightarrow> string option \<Rightarrow> string option \<Rightarrow> project_row option \<Rightarrow> host_scope_row option outcome" where
  "assigned_host now s host trust project =
     (case host of
        None \<Rightarrow> Inr None
      | Some h \<Rightarrow>
          (case host_at s h of
             None \<Rightarrow> Inl (Refused ''Host is unavailable'')
           | Some r \<Rightarrow>
               ensure (host_current now r) (Refused ''Host is unavailable'')
               (case project of
                  Some p \<Rightarrow> ensure (prj_id p \<in> set (hst_projects r) \<or> prj_group p \<in> set (hst_groups r))
                      (Refused ''Host scope does not include the assigned project'') (Inr (Some r))
                | None \<Rightarrow> ensure (trust \<in> Some ` set (hst_groups r))
                      (Refused ''Host scope does not include the assigned trust group'') (Inr (Some r)))))"

definition assignment_target :: "assignment_row \<Rightarrow> string option \<times> string option \<times> string option \<times> int option \<times> string option" where
  "assignment_target r = (asg_project r, asg_group r, asg_host r, asg_host_generation r, asg_host_incarnation r)"

definition put_sanitation :: "string \<Rightarrow> string \<Rightarrow> pyval \<Rightarrow> int \<Rightarrow> sanitation_row list \<Rightarrow> sanitation_row list" where
  "put_sanitation digest device receipt now rows =
     (case tbl_lookup snt_digest digest rows of
        Some _ \<Rightarrow> rows
      | None \<Rightarrow> rows @ [\<lparr>snt_digest = digest, snt_device = device, snt_receipt = receipt, snt_recorded = now\<rparr>])"

definition store_assignment ::
  "(pyval \<Rightarrow> string) \<Rightarrow> assignment_row \<Rightarrow> pyval option \<Rightarrow> int \<Rightarrow> access_store \<Rightarrow> (assignment_row \<times> access_store) outcome" where
  "store_assignment fp new receipt now s =
     (case assignment_at s (asg_device new) of
        Some old \<Rightarrow>
          if assignment_target old = assignment_target new then Inr (old, s)
          else bind_result (sanitation (case receipt of None \<Rightarrow> PNone | Some v \<Rightarrow> v) (asg_device new) old) (\<lambda>v.
            let row = new\<lparr>asg_generation := asg_generation old + 1, asg_sanitation := Some (fp v)\<rparr>
            in Inr (row, s\<lparr>
                 ac_sanitations := put_sanitation (fp v) (asg_device new) v now (ac_sanitations s),
                 ac_assignments := tbl_update (\<lambda>r. asg_device r = asg_device new) (\<lambda>_. row) (ac_assignments s)\<rparr>))
      | None \<Rightarrow>
          ensure (receipt = None) (Refused ''Initial assignment has no prior sanitation receipt'')
            (Inr (new, s\<lparr>ac_assignments := ac_assignments s @ [new]\<rparr>)))"

definition assign_device ::
  "(pyval \<Rightarrow> string) \<Rightarrow> string \<Rightarrow> string \<Rightarrow> string option \<Rightarrow> string option \<Rightarrow> string option \<Rightarrow> pyval option \<Rightarrow> int \<Rightarrow>
     access_store \<Rightarrow> (assignment_row \<times> access_store) outcome" where
  "assign_device fp actor device project trust host receipt now s =
     identified device ''device''
     (ensure ((project = None) \<noteq> (trust = None)) (Refused ''Assign a device to exactly one project or trust group'')
     (optional_identified project ''project'' (optional_identified trust ''trust group'' (optional_identified host ''host''
     (clocked now (administrator s actor
     (bind_result (assignable s project trust) (\<lambda>prj.
      bind_result (assigned_host now s host trust prj) (\<lambda>hst.
      store_assignment fp \<lparr>asg_device = device, asg_project = project, asg_group = trust, asg_host = host,
        asg_host_generation = map_option hst_generation hst, asg_host_incarnation = map_option hst_incarnation hst,
        asg_generation = 1, asg_sanitation = None, asg_updated = now\<rparr> receipt now s)))))))))"

definition device_assignment :: "access_store \<Rightarrow> string \<Rightarrow> assignment_row outcome" where
  "device_assignment s device =
     identified device ''device''
     (case assignment_at s device of
        None \<Rightarrow> Inl (Denied ''device_unassigned'' ''Device is not assigned'' 404)
      | Some r \<Rightarrow> Inr r)"

definition list_device_assignments :: "access_store \<Rightarrow> assignment_row list" where
  "list_device_assignments s = sort_key asg_device (ac_assignments s)"

text \<open>The row of the host an assignment names, as long as it is the host that was assigned.\<close>

definition assignment_host :: "int \<Rightarrow> access_store \<Rightarrow> string \<Rightarrow> assignment_row \<Rightarrow> host_scope_row outcome" where
  "assignment_host now s h a =
     clocked now
     (case host_at s h of
        None \<Rightarrow> Inl (Denied ''host_revoked'' ''Assigned host is unavailable'' 403)
      | Some r \<Rightarrow>
          ensure (host_current now r) (Denied ''host_revoked'' ''Assigned host is unavailable'' 403)
          (ensure (Some (hst_generation r) = asg_host_generation a \<and> Some (hst_incarnation r) = asg_host_incarnation a)
            (Denied ''stale_host'' ''Device assignment belongs to an earlier host incarnation'' 403) (Inr r)))"

definition assignment_project_ids :: "int \<Rightarrow> access_store \<Rightarrow> string \<Rightarrow> string list outcome" where
  "assignment_project_ids now s device =
     bind_result (device_assignment s device) (\<lambda>a.
     let candidates = filter (\<lambda>r. Some (prj_id r) = asg_project a \<or>
             (asg_project a = None \<and> Some (prj_group r) = asg_group a)) (list_projects s)
     in ensure (candidates \<noteq> []) (Denied ''device_unassigned'' ''Device assignment has no active project'' 409)
       (case asg_host a of
          None \<Rightarrow> Inr (sort (map prj_id candidates))
        | Some h \<Rightarrow>
            bind_result (assignment_host now s h a) (\<lambda>r.
            let eligible = filter (\<lambda>p. prj_id p \<in> set (map prj_id candidates) \<and>
                   (prj_id p \<in> set (hst_projects r) \<or> prj_group p \<in> set (hst_groups r))) (list_projects s)
            in ensure (eligible \<noteq> []) (forbidden ''Host scope does not include the device assignment'')
                 (Inr (map prj_id eligible)))))"

definition authorize_device ::
  "(principal_context \<Rightarrow> bool outcome) \<Rightarrow> int \<Rightarrow> access_store \<Rightarrow> principal_context \<Rightarrow> string \<Rightarrow> string \<Rightarrow> string \<Rightarrow>
     assignment_row outcome" where
  "authorize_device guard now s p device project capability =
     bind_result (authorize guard now s p (Some project) capability) (\<lambda>_.
     bind_result (access_project s project) (\<lambda>r.
     bind_result (device_assignment s device) (\<lambda>a.
     ensure (asg_project a = Some project \<or> asg_group a = Some (prj_group r))
       (forbidden ''Device assignment is outside the project scope'')
     (case asg_host a of
        None \<Rightarrow> Inr a
      | Some h \<Rightarrow>
          bind_result (assignment_host now s h a) (\<lambda>hst.
          ensure (project \<in> set (hst_projects hst) \<or> prj_group r \<in> set (hst_groups hst))
            (forbidden ''Host scope does not include this project'') (Inr a))))))"

section \<open>Device hosts\<close>

definition scope_ok :: "nat \<Rightarrow> string list \<Rightarrow> bool" where
  "scope_ok least xs \<longleftrightarrow> least \<le> length xs \<and> length xs \<le> 64 \<and> distinct xs"

fun all_identified :: "string list \<Rightarrow> string \<Rightarrow> 'a outcome \<Rightarrow> 'a outcome" where
  "all_identified [] label k = k"
| "all_identified (x # xs) label k = identified x label (all_identified xs label k)"

definition enrollment_open :: "int \<Rightarrow> string \<Rightarrow> enrollment_row \<Rightarrow> bool" where
  "enrollment_open now h r \<longleftrightarrow> enr_host r = h \<and> enr_consumed r = None \<and> enr_revoked r = None \<and> now < enr_expires r"

text \<open>\<open>max(host generation or 0, max(generation) of the enrollments or 0) + 1\<close>\<close>

definition last_generation :: "access_store \<Rightarrow> string \<Rightarrow> int" where
  "last_generation s h =
     fold (\<lambda>r g. max (enr_generation r) g) (filter (\<lambda>r. enr_host r = h) (ac_enrollments s))
       (case host_at s h of Some r \<Rightarrow> max 0 (hst_generation r) | None \<Rightarrow> 0)"

record enrolled =
  nrl_id :: string
  nrl_host :: string
  nrl_generation :: int
  nrl_expires :: int
  nrl_token :: string

definition add_enrollment :: "enrollment_row \<Rightarrow> access_store \<Rightarrow> access_store outcome" where
  "add_enrollment e s =
     ensure (enrollment_at s (enr_id e) = None \<and>
         \<not> list_ex (\<lambda>r. enr_host r = enr_host e \<and> enr_generation r = enr_generation e) (ac_enrollments s)) access_failed
       (Inr (s\<lparr>ac_enrollments := ac_enrollments s @ [e]\<rparr>))"

definition create_host_enrollment ::
  "(string \<Rightarrow> string) \<Rightarrow> string \<Rightarrow> string \<Rightarrow> string list \<Rightarrow> string list \<Rightarrow> int \<Rightarrow> int \<Rightarrow> string \<Rightarrow> string \<Rightarrow> int \<Rightarrow>
     access_store \<Rightarrow> (enrolled \<times> access_store) outcome" where
  "create_host_enrollment sha actor h projects groups lifetime credential_lifetime enrollment secret now s =
     identified h ''host''
     (ensure (scope_ok 1 projects) (Refused ''Invalid enrollment project scope'')
     (ensure (scope_ok 0 groups) (Refused ''Invalid enrollment trust scope'')
     (all_identified projects ''project'' (all_identified groups ''trust group''
     (ensure (is_lifetime lifetime 86400) (Refused ''Enrollment lifetime must be 60 seconds to one day'')
     (ensure (is_lifetime credential_lifetime (7 * 86400)) (Refused ''Host credential lifetime must be 60 seconds to seven days'')
     (clocked now (administrator s actor
     (let rows = filter (\<lambda>r. prj_active r \<and> prj_id r \<in> set projects) (ac_projects s) in
      ensure (list_all (\<lambda>p. p \<in> set (map prj_id rows)) projects) (Refused ''Enrollment project scope is unavailable'')
     (ensure (list_all (\<lambda>g. g \<in> set (map prj_group rows)) groups) (Refused ''Enrollment trust scope is unavailable'')
     (ensure (\<not> (case host_at s h of Some r \<Rightarrow> host_current now r | None \<Rightarrow> False))
        (Refused ''Active host must be revoked before reenrollment'')
     (ensure (\<not> list_ex (enrollment_open now h) (ac_enrollments s))
        (Refused ''Active enrollment must be revoked before reenrollment'')
     (let g = last_generation s h + 1 in
      bind_result (add_enrollment \<lparr>enr_id = enrollment, enr_host = h, enr_generation = g, enr_secret = sha secret,
          enr_projects = projects, enr_groups = groups, enr_issued = now, enr_expires = now + lifetime,
          enr_lifetime = credential_lifetime, enr_consumed = None, enr_revoked = None\<rparr> s) (\<lambda>s'.
      Inr (\<lparr>nrl_id = enrollment, nrl_host = h, nrl_generation = g, nrl_expires = now + lifetime,
            nrl_token = access_token ''rpe'' enrollment secret\<rparr>, s')))))))))))))))"

record host_credential =
  hcr_host :: string
  hcr_generation :: int
  hcr_incarnation :: string
  hcr_credential :: string
  hcr_expires :: int
  hcr_token :: string

text \<open>\<open>INSERT INTO hosts ... ON CONFLICT(host_id) DO UPDATE\<close> under \<open>UNIQUE(credential_id)\<close>.\<close>

definition put_host :: "host_scope_row \<Rightarrow> access_store \<Rightarrow> access_store outcome" where
  "put_host r s =
     ensure (\<not> list_ex (\<lambda>x. hst_credential x = hst_credential r \<and> hst_id x \<noteq> hst_id r) (ac_hosts s)) access_failed
       (Inr (s\<lparr>ac_hosts := (case host_at s (hst_id r) of
          None \<Rightarrow> ac_hosts s @ [r]
        | Some _ \<Rightarrow> tbl_update (\<lambda>x. hst_id x = hst_id r) (\<lambda>_. r) (ac_hosts s))\<rparr>))"

definition enrolled_host :: "enrollment_row \<Rightarrow> string \<Rightarrow> string \<Rightarrow> string \<Rightarrow> int \<Rightarrow> host_scope_row" where
  "enrolled_host e incarnation credential secret now = \<lparr>hst_id = enr_host e, hst_generation = enr_generation e,
     hst_incarnation = incarnation, hst_credential = credential, hst_secret = secret, hst_projects = enr_projects e,
     hst_groups = enr_groups e, hst_issued = now, hst_expires = now + enr_lifetime e, hst_revoked = None\<rparr>"

definition consume_row :: "string \<Rightarrow> int \<Rightarrow> access_store \<Rightarrow> access_store" where
  "consume_row k now s = s\<lparr>ac_enrollments := tbl_update (\<lambda>x. enr_id x = k \<and> enr_consumed x = None)
     (\<lambda>x. x\<lparr>enr_consumed := Some now\<rparr>) (ac_enrollments s)\<rparr>"

definition consume_host_enrollment ::
  "(string \<Rightarrow> string) \<Rightarrow> string \<Rightarrow> string \<Rightarrow> string \<Rightarrow> string \<Rightarrow> string \<Rightarrow> int \<Rightarrow> access_store \<Rightarrow>
     (host_credential \<times> access_store) outcome" where
  "consume_host_enrollment sha token h incarnation credential secret now s =
     bind_result (parse_token sha token ''rpe'') (\<lambda>(k, supplied).
     identified h ''host'' (identified incarnation ''host incarnation'' (clocked now
     (case enrollment_at s k of
        None \<Rightarrow> Inl (Denied ''unauthorized'' ''Enrollment authentication failed'' 401)
      | Some e \<Rightarrow>
          ensure (enr_secret e = supplied) (Denied ''unauthorized'' ''Enrollment authentication failed'' 401)
          (ensure (enr_host e = h) (Denied ''enrollment_scope'' ''Enrollment is scoped to another host'' 403)
          (ensure (enr_revoked e = None) (Denied ''enrollment_revoked'' ''Enrollment was revoked'' 403)
          (ensure (enr_consumed e = None) (Denied ''enrollment_replayed'' ''Enrollment was already consumed'' 403)
          (ensure (now < enr_expires e) (Denied ''enrollment_expired'' ''Enrollment has expired'' 403)
          (ensure (\<not> (case host_at s h of Some r \<Rightarrow> enr_generation e \<le> hst_generation r \<and> hst_revoked r = None | None \<Rightarrow> False))
             (Denied ''stale_host'' ''Enrollment generation is stale'' 403)
          (bind_result (put_host (enrolled_host e incarnation credential (sha secret) now) (consume_row k now s)) (\<lambda>s'.
           Inr (\<lparr>hcr_host = h, hcr_generation = enr_generation e, hcr_incarnation = incarnation,
                 hcr_credential = credential, hcr_expires = now + enr_lifetime e,
                 hcr_token = access_token ''rph'' credential secret\<rparr>, s'))))))))))))"

definition revoke_enrollments :: "(enrollment_row \<Rightarrow> bool) \<Rightarrow> int \<Rightarrow> access_store \<Rightarrow> access_store" where
  "revoke_enrollments p now s = s\<lparr>ac_enrollments :=
     tbl_update (\<lambda>r. p r \<and> enr_consumed r = None \<and> enr_revoked r = None) (\<lambda>r. r\<lparr>enr_revoked := Some now\<rparr>)
       (ac_enrollments s)\<rparr>"

definition revoke_host_enrollment :: "string \<Rightarrow> string \<Rightarrow> int \<Rightarrow> access_store \<Rightarrow> (unit \<times> access_store) outcome" where
  "revoke_host_enrollment actor k now s =
     identified k ''enrollment'' (clocked now (administrator s actor
     (ensure (\<exists>r \<in> set (ac_enrollments s). enr_id r = k \<and> enr_consumed r = None \<and> enr_revoked r = None)
        (Refused ''Enrollment does not exist, was consumed, or is already revoked'')
     (Inr ((), revoke_enrollments (\<lambda>r. enr_id r = k) now s)))))"

text \<open>Without the digest of the secret.\<close>

definition list_host_enrollments ::
  "access_store \<Rightarrow> (string \<times> string \<times> int \<times> string list \<times> string list \<times> int \<times> int \<times> bool \<times> bool) list" where
  "list_host_enrollments s =
     map (\<lambda>r. (enr_id r, enr_host r, enr_generation r, enr_projects r, enr_groups r, enr_issued r, enr_expires r,
          enr_consumed r \<noteq> None, enr_revoked r \<noteq> None))
       (sort_key (\<lambda>r. (enr_issued r, enr_id r)) (ac_enrollments s))"

text \<open>\<open>HostContext\<close>\<close>

record host_scope =
  hx_id :: string
  hx_generation :: int
  hx_incarnation :: string
  hx_credential :: string
  hx_expires :: int
  hx_projects :: "string list"
  hx_groups :: "string list"
  hx_issuer :: nat

definition authenticate_host ::
  "(string \<Rightarrow> string) \<Rightarrow> int \<Rightarrow> access_store \<Rightarrow> string \<Rightarrow> string option \<Rightarrow> int option \<Rightarrow> host_scope outcome" where
  "authenticate_host sha now s token incarnation generation =
     bind_result (parse_token sha token ''rph'') (\<lambda>(c, supplied). clocked now
     (case tbl_lookup hst_credential c (ac_hosts s) of
        None \<Rightarrow> Inl host_unauthorized
      | Some r \<Rightarrow>
          ensure (hst_secret r = supplied \<and> host_current now r) host_unauthorized
          (ensure (case incarnation of None \<Rightarrow> True | Some x \<Rightarrow> hst_incarnation r = x)
             (Denied ''stale_host'' ''Host incarnation is stale'' 403)
          (ensure (case generation of None \<Rightarrow> True | Some x \<Rightarrow> hst_generation r = x)
             (Denied ''stale_host'' ''Host generation is stale'' 403)
          (Inr \<lparr>hx_id = hst_id r, hx_generation = hst_generation r, hx_incarnation = hst_incarnation r,
                hx_credential = hst_credential r, hx_expires = hst_expires r, hx_projects = hst_projects r,
                hx_groups = hst_groups r, hx_issuer = ac_issuer s\<rparr>)))))"

definition host_still :: "int \<Rightarrow> access_store \<Rightarrow> host_scope \<Rightarrow> bool" where
  "host_still now s x =
     (case host_at s (hx_id x) of
        None \<Rightarrow> False
      | Some r \<Rightarrow> hst_credential r = hx_credential x \<and> hst_generation r = hx_generation x \<and>
          hst_incarnation r = hx_incarnation x \<and> host_current now r)"

definition authorize_host :: "int \<Rightarrow> access_store \<Rightarrow> host_scope \<Rightarrow> string \<Rightarrow> string \<Rightarrow> host_scope outcome" where
  "authorize_host now s x project trust =
     ensure (hx_issuer x = ac_issuer s) host_unauthorized
     (clocked now
     (ensure (host_still now s x) (Denied ''host_revoked'' ''Host authorization is no longer current'' 403)
     (bind_result (access_project s project) (\<lambda>r.
      ensure (prj_group r = trust) (forbidden ''Host project trust scope is invalid'')
      (ensure (project \<in> set (hx_projects x) \<or> trust \<in> set (hx_groups x))
        (forbidden ''Host scope does not include this project'') (Inr x))))))"

definition host_revoked :: "string \<Rightarrow> int \<Rightarrow> access_store \<Rightarrow> access_store" where
  "host_revoked h now s = s\<lparr>ac_hosts := tbl_update (\<lambda>r. hst_id r = h \<and> hst_revoked r = None)
     (\<lambda>r. r\<lparr>hst_revoked := Some now\<rparr>) (ac_hosts s)\<rparr>"

definition revoke_host :: "string \<Rightarrow> string \<Rightarrow> int \<Rightarrow> access_store \<Rightarrow> (unit \<times> access_store) outcome" where
  "revoke_host actor h now s =
     identified h ''host'' (clocked now (administrator s actor
     (ensure (\<exists>r \<in> set (ac_hosts s). hst_id r = h \<and> hst_revoked r = None)
        (Refused ''Host does not exist or is already revoked'')
     (Inr ((), revoke_enrollments (\<lambda>r. enr_host r = h) now (host_revoked h now s))))))"

text \<open>Without the digest of the secret.\<close>

definition list_hosts :: "access_store \<Rightarrow> (string \<times> int \<times> string \<times> string \<times> string list \<times> string list \<times> int \<times> int \<times> bool) list" where
  "list_hosts s =
     map (\<lambda>r. (hst_id r, hst_generation r, hst_incarnation r, hst_credential r, hst_projects r, hst_groups r,
          hst_issued r, hst_expires r, hst_revoked r \<noteq> None))
       (sort_key hst_id (ac_hosts s))"

section \<open>Adopted bytes\<close>

definition is_format :: "string \<Rightarrow> bool" where
  "is_format s \<longleftrightarrow> s \<noteq> '''' \<and> length s \<le> 128 \<and>
     list_all (\<lambda>c. c \<in> set (upper_chars @ lower_chars @ digit_chars @ ''._-'')) s"

text \<open>
  The bytes are kept below their digest (\<open>bsha\<close>) before the transaction starts and stay when it
  fails. \<open>data\<close> is what was read of a regular file that did not change, \<open>None\<close> when that failed;
  writing the kept file is taken to succeed.
\<close>

definition preserve_bytes :: "string \<Rightarrow> string \<Rightarrow> access_store \<Rightarrow> access_store outcome" where
  "preserve_bytes digest data s =
     (case map_of (ac_preserved s) digest of
        None \<Rightarrow> Inr (s\<lparr>ac_preserved := ac_preserved s @ [(digest, data)]\<rparr>)
      | Some kept \<Rightarrow> ensure (kept = data) (Refused ''Legacy preservation conflict'') (Inr s))"

definition adoption_values :: "adoption_row \<Rightarrow> string \<times> nat \<times> string \<times> string \<times> string" where
  "adoption_values r = (ado_digest r, ado_bytes r, ado_format r, ado_meaning r, ado_relative r)"

definition record_adoption :: "adoption_row \<Rightarrow> access_store \<Rightarrow> adoption_row outcome \<times> access_store" where
  "record_adoption new s =
     (case adoption_at s (ado_id new) of
        Some r \<Rightarrow> (ensure (adoption_values r = adoption_values new) (Refused ''Legacy adoption identity conflict'') (Inr r), s)
      | None \<Rightarrow> (Inr new, s\<lparr>ac_adoptions := ac_adoptions s @ [new]\<rparr>))"

definition adopt_legacy ::
  "(string \<Rightarrow> string) \<Rightarrow> string \<Rightarrow> string option \<Rightarrow> string \<Rightarrow> string \<Rightarrow> int \<Rightarrow> access_store \<Rightarrow>
     (adoption_row outcome \<times> access_store) outcome" where
  "adopt_legacy bsha adoption source form meaning now s =
     identified adoption ''adoption''
     (ensure (is_format form) (Refused ''Invalid legacy format'')
     (ensure (meaning \<in> set LEGACY_MEANINGS) (Refused ''Invalid legacy meaning'')
     (case source of
        None \<Rightarrow> Inl (Refused ''Legacy source could not be adopted'')
      | Some data \<Rightarrow>
          ensure (int (length data) \<le> MAX_LEGACY_BYTES) (Refused ''Legacy source must be a bounded regular file'')
          (bind_result (preserve_bytes (bsha data) data s) (\<lambda>s'.
           Inr (if now < 0 then (Inl (Refused ''Access clock is invalid''), s')
                else record_adoption \<lparr>ado_id = adoption, ado_digest = bsha data, ado_bytes = length data,
                       ado_format = form, ado_meaning = meaning,
                       ado_relative = ''legacy-adoptions/'' @ bsha data @ ''.bin'', ado_recorded = now\<rparr> s'))))))"

definition list_legacy_adoptions :: "access_store \<Rightarrow> adoption_row list" where
  "list_legacy_adoptions s = sort_key (\<lambda>r. (ado_recorded r, ado_id r)) (ac_adoptions s)"

end
