(* ===== verification/Access_Control.thy ===== *)
theory Access_Control
  imports Access "HOL-Library.AList"
begin

text \<open>
  \<open>AccessController\<close> of \<open>reproof/live/access.py\<close>: what one coordinator process adds to the store.
  It knows the trusted project registrations of this process and the browser sessions, and a
  principal it makes from a session carries a guard that the store calls whenever the principal is
  used. A registration is the identity of the object with the values the controller reads from it.
  A method that changes the sessions and then raises returns the error as its value.
\<close>

definition MAX_BROWSER_SESSIONS :: nat where "MAX_BROWSER_SESSIONS = 4096"

record registration =
  reg_object :: nat
  reg_project :: string
  reg_revision :: string
  reg_digest :: string
  reg_group :: string

record browser_session =
  bs_secret :: string
  bs_csrf :: string
  bs_principal :: string
  bs_credential :: string
  bs_expires :: int

record access_control =
  ct_store :: access_store
  ct_seconds :: int
  ct_registrations :: "((string \<times> string) \<times> registration) list"
  ct_sessions :: "(string \<times> browser_session) list"

definition new_access_control :: "access_store \<Rightarrow> int \<Rightarrow> access_control outcome" where
  "new_access_control s seconds =
     ensure (60 \<le> seconds \<and> seconds \<le> 12 * 3600) (Refused ''Invalid browser session lifetime'')
       (Inr \<lparr>ct_store = s, ct_seconds = seconds, ct_registrations = [], ct_sessions = []\<rparr>)"

section \<open>Registrations\<close>

definition bind_project :: "registration \<Rightarrow> access_control \<Rightarrow> (project_row \<times> access_control) outcome" where
  "bind_project g c =
     bind_result (access_project (ct_store c) (reg_project g)) (\<lambda>d.
     ensure ((prj_revision d, prj_digest d, prj_group d) = (reg_revision g, reg_digest g, reg_group g) \<or>
         list_ex (\<lambda>r. rsc_project r = reg_project g \<and> rsc_digest r = reg_digest g) (ac_resources (ct_store c)))
       (Refused ''Trusted project registration does not match administration'')
     (let key = (reg_project g, reg_digest g) in
      ensure (case map_of (ct_registrations c) key of None \<Rightarrow> True | Some x \<Rightarrow> reg_object x = reg_object g)
        (Refused ''Project revision already has another process registration'')
        (Inr (d, c\<lparr>ct_registrations := AList.update key g (ct_registrations c)\<rparr>))))"

definition registration_of :: "access_control \<Rightarrow> string \<Rightarrow> string option \<Rightarrow> registration outcome" where
  "registration_of c project digest =
     bind_result (access_project (ct_store c) project) (\<lambda>d.
     let selected = (case digest of None \<Rightarrow> prj_digest d | Some x \<Rightarrow> x)
     in ensure (is_hex_digest selected) (Refused ''Invalid project digest'')
       (case map_of (ct_registrations c) (project, selected) of
          None \<Rightarrow> Inl (Denied ''project_unavailable'' ''Project has no trusted process registration'' 409)
        | Some g \<Rightarrow> Inr g))"

section \<open>Browser sessions\<close>

definition session_invalid :: access_error where
  "session_invalid = Denied ''unauthorized'' ''Browser session is invalid'' 401"

definition live_sessions :: "int \<Rightarrow> access_control \<Rightarrow> (string \<times> browser_session) list" where
  "live_sessions now c = filter (\<lambda>(_, b). now < bs_expires b) (ct_sessions c)"

record browser_login =
  bl_cookie :: string
  bl_csrf :: string
  bl_expires :: int
  bl_principal :: string

definition create_browser_session ::
  "(string \<Rightarrow> string) \<Rightarrow> string \<Rightarrow> string \<Rightarrow> string \<Rightarrow> string \<Rightarrow> int \<Rightarrow> access_control \<Rightarrow>
     (browser_login outcome \<times> access_control) outcome" where
  "create_browser_session sha token session secret csrf now c =
     bind_result (authenticate_principal sha now (ct_store c) token) (\<lambda>p. clocked now
     (let live = live_sessions now c; expires = min (pc_expires p) (now + ct_seconds c) in
      Inr (if length live < MAX_BROWSER_SESSIONS
        then (Inr \<lparr>bl_cookie = access_token ''rps'' session secret, bl_csrf = csrf, bl_expires = expires,
                bl_principal = pc_id p\<rparr>,
              c\<lparr>ct_sessions := AList.update session \<lparr>bs_secret = sha secret, bs_csrf = sha csrf,
                bs_principal = pc_id p, bs_credential = pc_credential p, bs_expires = expires\<rparr> live\<rparr>)
        else (Inl (Refused ''Browser session quota is exhausted''), c\<lparr>ct_sessions := live\<rparr>))))"

text \<open>\<open>_guard_browser_authorization\<close>\<close>

definition browser_guard :: "int \<Rightarrow> access_control \<Rightarrow> principal_context \<Rightarrow> bool outcome" where
  "browser_guard now c p =
     clocked now
     (ensure (case pc_authorization p of
          None \<Rightarrow> False
        | Some k \<Rightarrow> (case map_of (ct_sessions c) k of
              None \<Rightarrow> False
            | Some b \<Rightarrow> now < bs_expires b \<and> bs_principal b = pc_id p \<and> bs_credential b = pc_credential p))
       session_invalid (Inr True))"

definition csrf_ok :: "(string \<Rightarrow> string) \<Rightarrow> browser_session \<Rightarrow> string option \<Rightarrow> bool \<Rightarrow> unit outcome" where
  "csrf_ok sha b csrf require_csrf =
     (if \<not> require_csrf then Inr ()
      else case csrf of
          None \<Rightarrow> Inl (Denied ''csrf'' ''CSRF token is required'' 403)
        | Some x \<Rightarrow> ensure (bs_csrf b = sha x) (Denied ''csrf'' ''CSRF token is invalid'' 403) (Inr ()))"

definition session_principal ::
  "(string \<Rightarrow> string) \<Rightarrow> string \<Rightarrow> browser_session \<Rightarrow> string \<Rightarrow> string option \<Rightarrow> bool \<Rightarrow> int \<Rightarrow> access_store \<Rightarrow>
     principal_context outcome" where
  "session_principal sha k b supplied csrf require_csrf now s =
     ensure (bs_secret b = supplied) session_invalid
     (bind_result (csrf_ok sha b csrf require_csrf) (\<lambda>_.
      bind_result (principal_by_id now s (bs_credential b)) (\<lambda>p.
      ensure (pc_id p = bs_principal b) session_invalid
        (Inr (p\<lparr>pc_authorization := Some k, pc_guard := True\<rparr>)))))"

definition authenticate_browser ::
  "(string \<Rightarrow> string) \<Rightarrow> string \<Rightarrow> string option \<Rightarrow> bool \<Rightarrow> int \<Rightarrow> access_control \<Rightarrow>
     (principal_context outcome \<times> access_control) outcome" where
  "authenticate_browser sha cookie csrf require_csrf now c =
     bind_result (parse_token sha cookie ''rps'') (\<lambda>(k, supplied). clocked now
     (case map_of (ct_sessions c) k of
        None \<Rightarrow> Inl session_invalid
      | Some b \<Rightarrow>
          if bs_expires b \<le> now then Inr (Inl session_invalid, c\<lparr>ct_sessions := AList.delete k (ct_sessions c)\<rparr>)
          else bind_result (session_principal sha k b supplied csrf require_csrf now (ct_store c)) (\<lambda>p. Inr (Inr p, c))))"

definition operation_principal :: "int \<Rightarrow> access_control \<Rightarrow> string \<Rightarrow> string option \<Rightarrow> principal_context outcome" where
  "operation_principal now c credential authorization =
     bind_result (principal_by_id now (ct_store c) credential) (\<lambda>p.
     case authorization of
       None \<Rightarrow> Inr p
     | Some k \<Rightarrow>
         let guarded = p\<lparr>pc_authorization := Some k, pc_guard := True\<rparr>
         in bind_result (current_principal (browser_guard now c) now (ct_store c) guarded) (\<lambda>_. Inr guarded))"

definition close_browser_session :: "(string \<Rightarrow> string) \<Rightarrow> string \<Rightarrow> access_control \<Rightarrow> (unit \<times> access_control) outcome" where
  "close_browser_session sha cookie c =
     bind_result (parse_token sha cookie ''rps'') (\<lambda>(k, _).
     Inr ((), c\<lparr>ct_sessions := AList.delete k (ct_sessions c)\<rparr>))"

section \<open>Operations on the store under trusted registrations\<close>

definition control_bind_resource ::
  "string \<Rightarrow> string \<Rightarrow> string \<Rightarrow> string \<Rightarrow> string \<Rightarrow> int \<Rightarrow> access_control \<Rightarrow>
     (resource_binding outcome \<times> access_control) outcome" where
  "control_bind_resource kind k project owner meaning now c =
     bind_result (registration_of c project None) (\<lambda>g.
     bind_result (bind_resource kind k project (reg_digest g) owner meaning now (ct_store c)) (\<lambda>(r, s).
     Inr (r, c\<lparr>ct_store := s\<rparr>)))"

definition control_authorize_resource ::
  "int \<Rightarrow> access_control \<Rightarrow> principal_context \<Rightarrow> string \<Rightarrow> string \<Rightarrow> string \<Rightarrow> bool \<Rightarrow> resource_binding outcome" where
  "control_authorize_resource now c p kind k capability executable =
     bind_result (authorize_resource (browser_guard now c) now (ct_store c) p kind k capability executable) (\<lambda>b.
     bind_result (registration_of c (rb_project b) (Some (rb_digest b))) (\<lambda>_. Inr b))"

definition control_authorize_device ::
  "int \<Rightarrow> access_control \<Rightarrow> principal_context \<Rightarrow> string \<Rightarrow> string \<Rightarrow> string \<Rightarrow> assignment_row outcome" where
  "control_authorize_device now c p device project capability =
     bind_result (registration_of c project None) (\<lambda>_.
     authorize_device (browser_guard now c) now (ct_store c) p device project capability)"

text \<open>
  \<open>effect_authorizer\<close> fixes the principal, the project, the device and the admitted digest; the
  function it returns is called before each effect.
\<close>

record effect_authority =
  ef_principal :: string
  ef_credential :: string
  ef_authorization :: "string option"
  ef_project :: string
  ef_device :: string
  ef_digest :: string

definition effect_authorizer ::
  "access_control \<Rightarrow> principal_context \<Rightarrow> string \<Rightarrow> string \<Rightarrow> string option \<Rightarrow> effect_authority outcome" where
  "effect_authorizer c p project device digest =
     bind_result (registration_of c project digest) (\<lambda>g.
     Inr \<lparr>ef_principal = pc_id p, ef_credential = pc_credential p, ef_authorization = pc_authorization p,
          ef_project = project, ef_device = device, ef_digest = reg_digest g\<rparr>)"

definition effect_capability :: "string \<Rightarrow> string" where
  "effect_capability kind =
     (if kind \<in> set [''observe'', ''app_logs'', ''sdk_capture'', ''sdk_diagnostics'', ''locator'']
      then ''evidence.collect'' else ''device.operate'')"

definition authorize_effect :: "int \<Rightarrow> access_control \<Rightarrow> effect_authority \<Rightarrow> string \<Rightarrow> bool outcome" where
  "authorize_effect now c e kind =
     bind_result (operation_principal now c (ef_credential e) (ef_authorization e)) (\<lambda>p.
     ensure (pc_id p = ef_principal e) (Denied ''unauthorized'' ''Operation credential is no longer current'' 401)
     (bind_result (access_project (ct_store c) (ef_project e)) (\<lambda>d.
      ensure (prj_digest d = ef_digest e)
        (Denied ''stale_project'' ''Project revision changed; close the historical session'' 409)
      (bind_result (control_authorize_device now c p (ef_device e) (ef_project e) (effect_capability kind)) (\<lambda>_.
       Inr True)))))"

text \<open>\<open>except AccessError: continue\<close>; any other error ends the loop.\<close>

fun visible :: "('a \<Rightarrow> 'b outcome) \<Rightarrow> 'a list \<Rightarrow> 'a list outcome" where
  "visible f [] = Inr []"
| "visible f (x # xs) =
     (case f x of
        Inl (Denied _ _ _) \<Rightarrow> visible f xs
      | Inl e \<Rightarrow> Inl e
      | Inr _ \<Rightarrow> bind_result (visible f xs) (\<lambda>ys. Inr (x # ys)))"

definition visible_bindings :: "int \<Rightarrow> access_control \<Rightarrow> principal_context \<Rightarrow> string \<Rightarrow> string \<Rightarrow> resource_binding list outcome" where
  "visible_bindings now c p kind capability =
     bind_result (list_resource_bindings (Some kind) (ct_store c)) (\<lambda>bs.
     visible (\<lambda>b. control_authorize_resource now c p kind (rb_id b) capability False) bs)"

text \<open>The first project of the list that the device is authorized for; then \<open>break\<close>.\<close>

fun first_allowed :: "('a \<Rightarrow> 'b outcome) \<Rightarrow> 'a list \<Rightarrow> bool outcome" where
  "first_allowed f [] = Inr False"
| "first_allowed f (x # xs) =
     (case f x of Inl (Denied _ _ _) \<Rightarrow> first_allowed f xs | Inl e \<Rightarrow> Inl e | Inr _ \<Rightarrow> Inr True)"

definition assignment_candidates :: "access_store \<Rightarrow> assignment_row \<Rightarrow> string list" where
  "assignment_candidates s a =
     (case asg_project a of
        Some p \<Rightarrow> [p]
      | None \<Rightarrow> map prj_id (filter (\<lambda>r. Some (prj_group r) = asg_group a) (list_projects s)))"

fun visible_devices :: "int \<Rightarrow> access_control \<Rightarrow> principal_context \<Rightarrow> string \<Rightarrow> assignment_row list \<Rightarrow> string list outcome" where
  "visible_devices now c p capability [] = Inr []"
| "visible_devices now c p capability (a # as) =
     bind_result (first_allowed (\<lambda>k. control_authorize_device now c p (asg_device a) k capability)
         (assignment_candidates (ct_store c) a)) (\<lambda>ok.
     bind_result (visible_devices now c p capability as) (\<lambda>ds. Inr (if ok then asg_device a # ds else ds)))"

definition visible_device_ids :: "int \<Rightarrow> access_control \<Rightarrow> principal_context \<Rightarrow> string \<Rightarrow> string list outcome" where
  "visible_device_ids now c p capability =
     bind_result (visible_devices now c p capability (list_device_assignments (ct_store c))) (\<lambda>ds.
     Inr (sort (remdups ds)))"

text \<open>The calls \<open>restore_lab_bindings\<close> makes of the lab; whatever a call raises is ignored.\<close>

definition restored_owners :: "access_control \<Rightarrow> (string \<times> string \<times> registration) list outcome" where
  "restored_owners c =
     bind_result (list_resource_bindings (Some ''recording'') (ct_store c)) (\<lambda>bs.
     Inr (List.map_filter (\<lambda>b.
       if rb_meaning b \<noteq> ''release'' then None
       else case registration_of c (rb_project b) (Some (rb_digest b)) of
           Inl _ \<Rightarrow> None
         | Inr g \<Rightarrow> Some (rb_id b, rb_owner b, g)) bs))"

end
