(* ===== verification/Access_Runs.thy ===== *)
theory Access_Runs
  imports Access_Control
begin

text \<open>
  The operations of the access store as one step function, and what they do to the rows. Every
  transaction is a sequence of the row changes of \<open>row_change\<close> (lemma \<open>step_changes\<close>), each with
  what the code has established when it makes it; invariants and the growth of the tables are
  proved once for each row change.
\<close>

section \<open>Operations\<close>

record hashes =
  h_text :: "string \<Rightarrow> string"
  h_bytes :: "string \<Rightarrow> string"
  h_json :: "pyval \<Rightarrow> string"

datatype access_op =
    Bootstrap string
  | Bootstrap_Credential string int string string
  | Create_Identity string string bool
  | Revoke_Identity string string
  | Register_Project string "project_doc option"
  | Grant string string string string
  | Revoke_Membership string string string string
  | Issue_Credential string string int string string
  | Revoke_Credential string string
  | Bind_Resource string string string string string string
  | Authorize_Legacy string string string string string
  | Assign_Device string string "string option" "string option" "string option" "pyval option"
  | Create_Enrollment string string "string list" "string list" int int string string
  | Consume_Enrollment string string string string string
  | Revoke_Enrollment string string
  | Revoke_Host string string
  | Adopt_Legacy string "string option" string string

definition quiet :: "('r \<times> access_store) outcome \<Rightarrow> (unit \<times> access_store) outcome" where
  "quiet r = bind_result r (\<lambda>(_, s). Inr ((), s))"

definition access_step :: "hashes \<Rightarrow> access_store \<Rightarrow> int \<times> access_op \<Rightarrow> (unit \<times> access_store) outcome" where
  "access_step H s x = (case x of (now, op) \<Rightarrow> (case op of
     Bootstrap k \<Rightarrow> bootstrap_administrator k now s
   | Bootstrap_Credential k n c t \<Rightarrow> quiet (bootstrap_administrator_credential (h_text H) k n c t now s)
   | Create_Identity a k b \<Rightarrow> create_identity a k b now s
   | Revoke_Identity a k \<Rightarrow> revoke_identity a k now s
   | Register_Project a d \<Rightarrow> quiet (register_project a d now s)
   | Grant a p k r \<Rightarrow> grant_membership a p k r now s
   | Revoke_Membership a p k r \<Rightarrow> revoke_membership a p k r now s
   | Issue_Credential a k n c t \<Rightarrow> quiet (issue_principal_credential (h_text H) a k n c t now s)
   | Revoke_Credential a c \<Rightarrow> revoke_credential a c now s
   | Bind_Resource kind k p d ow m \<Rightarrow> quiet (bind_resource kind k p d ow m now s)
   | Authorize_Legacy a kind k ad d \<Rightarrow> quiet (authorize_legacy_resource a kind k ad d now s)
   | Assign_Device a dv p g h r \<Rightarrow> quiet (assign_device (h_json H) a dv p g h r now s)
   | Create_Enrollment a h ps gs n m e t \<Rightarrow> quiet (create_host_enrollment (h_text H) a h ps gs n m e t now s)
   | Consume_Enrollment tok h i c t \<Rightarrow> quiet (consume_host_enrollment (h_text H) tok h i c t now s)
   | Revoke_Enrollment a e \<Rightarrow> revoke_host_enrollment a e now s
   | Revoke_Host a h \<Rightarrow> revoke_host a h now s
   | Adopt_Legacy k f fm m \<Rightarrow> quiet (adopt_legacy (h_bytes H) k f fm m now s)))"

abbreviation access_run :: "hashes \<Rightarrow> access_store \<Rightarrow> (int \<times> access_op) list \<Rightarrow> access_store" where
  "access_run H \<equiv> run_ops (access_step H)"

definition access_after :: "hashes \<Rightarrow> nat \<Rightarrow> (int \<times> access_op) list \<Rightarrow> access_store" where
  "access_after H issuer xs = access_run H (new_access_store issuer) xs"

section \<open>Row changes\<close>

definition open_enrollment :: "enrollment_row \<Rightarrow> bool" where
  "open_enrollment r \<longleftrightarrow> enr_consumed r = None \<and> enr_revoked r = None"

definition revoke_row :: "int \<Rightarrow> credential_row \<Rightarrow> credential_row" where
  "revoke_row now r = r\<lparr>crd_revoked := (case crd_revoked r of None \<Rightarrow> Some now | Some t \<Rightarrow> Some t)\<rparr>"

inductive row_change :: "access_store \<Rightarrow> access_store \<Rightarrow> bool" where
  identity_new: "identity_at s k = None \<Longrightarrow> ac_identities s = [] \<and> admin \<or> (\<exists>a. is_administrator s a) \<Longrightarrow>
    row_change s (add_identity k admin now s)"
| identity_off: "is_administrator s a \<Longrightarrow> a \<noteq> k \<Longrightarrow>
    (\<And>r. r \<in> set (ac_memberships s) \<Longrightarrow> mbr_identity r = k \<Longrightarrow> \<not> mbr_active r) \<Longrightarrow>
    (\<And>r. r \<in> set (ac_credentials s) \<Longrightarrow> crd_identity r = k \<Longrightarrow> crd_revoked r \<noteq> None) \<Longrightarrow>
    row_change s (s\<lparr>ac_identities := tbl_update (\<lambda>r. idn_id r = k) (\<lambda>r. r\<lparr>idn_active := False\<rparr>) (ac_identities s)\<rparr>)"
| project_new: "project_at s (prj_id r) = None \<Longrightarrow> row_change s (s\<lparr>ac_projects := ac_projects s @ [r]\<rparr>)"
| project_set: "(\<And>r. prj_id (f r) = prj_id r \<and> prj_active (f r)) \<Longrightarrow>
    row_change s (s\<lparr>ac_projects := tbl_update (\<lambda>r. prj_id r = k) f (ac_projects s)\<rparr>)"
| membership_put: "is_word_id p \<Longrightarrow> project_active s p \<Longrightarrow> identity_active s k \<Longrightarrow>
    row_change s (s\<lparr>ac_memberships := put_membership p k role now (ac_memberships s)\<rparr>)"
| membership_off: "row_change s (s\<lparr>ac_memberships := tbl_update P (\<lambda>r. r\<lparr>mbr_active := False, mbr_updated := now\<rparr>)
    (ac_memberships s)\<rparr>)"
| credential_new: "credential_at s c = None \<Longrightarrow> identity_active s k \<Longrightarrow>
    row_change s (s\<lparr>ac_credentials := ac_credentials s @ [\<lparr>crd_id = c, crd_identity = k, crd_secret = x,
      crd_issued = now, crd_expires = t, crd_revoked = None\<rparr>]\<rparr>)"
| credential_off: "row_change s (s\<lparr>ac_credentials := tbl_update P (revoke_row now) (ac_credentials s)\<rparr>)"
| resource_new: "resource_at s (rsc_kind r) (rsc_id r) = None \<Longrightarrow> rsc_adoption r = None \<Longrightarrow> is_word_id (rsc_id r) \<Longrightarrow>
    is_word_id (rsc_project r) \<Longrightarrow> project_active s (rsc_project r) \<Longrightarrow>
    row_change s (s\<lparr>ac_resources := ac_resources s @ [r]\<rparr>)"
| resource_up: "adoption_at s a = Some d \<Longrightarrow> ado_meaning d = ''legacy-recording-only'' \<Longrightarrow>
    resource_at s kind k = Some r \<Longrightarrow> rsc_meaning r = ''legacy-inert'' \<Longrightarrow>
    row_change s (s\<lparr>ac_resources := tbl_update (\<lambda>r. rsc_kind r = kind \<and> rsc_id r = k) (promoted a x now)
      (ac_resources s)\<rparr>)"
| sanitation_put: "row_change s (s\<lparr>ac_sanitations := put_sanitation x d v now (ac_sanitations s)\<rparr>)"
| assignment_new: "assignment_at s (asg_device r) = None \<Longrightarrow> asg_generation r = 1 \<Longrightarrow>
    (asg_project r = None) \<noteq> (asg_group r = None) \<Longrightarrow> row_change s (s\<lparr>ac_assignments := ac_assignments s @ [r]\<rparr>)"
| assignment_move: "assignment_at s (asg_device r) = Some old \<Longrightarrow> asg_generation r = asg_generation old + 1 \<Longrightarrow>
    asg_sanitation r = Some x \<Longrightarrow> x \<in> snt_digest ` set (ac_sanitations s) \<Longrightarrow>
    (asg_project r = None) \<noteq> (asg_group r = None) \<Longrightarrow>
    row_change s (s\<lparr>ac_assignments := tbl_update (\<lambda>x. asg_device x = asg_device r) (\<lambda>_. r) (ac_assignments s)\<rparr>)"
| enrollment_new: "enrollment_at s (enr_id e) = None \<Longrightarrow> enr_generation e = last_generation s (enr_host e) + 1 \<Longrightarrow>
    open_enrollment e \<Longrightarrow> row_change s (s\<lparr>ac_enrollments := ac_enrollments s @ [e]\<rparr>)"
| enrollment_off: "row_change s (revoke_enrollments P now s)"
| host_enrolled: "enrollment_at s k = Some e \<Longrightarrow> open_enrollment e \<Longrightarrow>
    hst_id r = enr_host e \<Longrightarrow> hst_generation r = enr_generation e \<Longrightarrow> hst_revoked r = None \<Longrightarrow>
    (\<And>x. host_at s (hst_id r) = Some x \<Longrightarrow> hst_revoked x = None \<Longrightarrow> hst_generation x < enr_generation e) \<Longrightarrow>
    put_host r (consume_row k now s) = Inr s' \<Longrightarrow> row_change s s'"
| host_off: "(\<And>e. e \<in> set (ac_enrollments s) \<Longrightarrow> enr_host e = h \<Longrightarrow> \<not> open_enrollment e) \<Longrightarrow>
    row_change s (s\<lparr>ac_hosts := tbl_update (\<lambda>r. hst_id r = h \<and> hst_revoked r = None) (\<lambda>r. r\<lparr>hst_revoked := Some now\<rparr>)
      (ac_hosts s)\<rparr>)"
| adoption_new: "adoption_at s (ado_id r) = None \<Longrightarrow> row_change s (s\<lparr>ac_adoptions := ac_adoptions s @ [r]\<rparr>)"
| bytes_kept: "map_of (ac_preserved s) x = None \<Longrightarrow> row_change s (s\<lparr>ac_preserved := ac_preserved s @ [(x, b)]\<rparr>)"

section \<open>What a transaction establishes\<close>

named_theorems outcome_iff

lemma identified_iff [outcome_iff]: "identified s l k = Inr x \<longleftrightarrow> is_word_id s \<and> k = Inr x"
  by (simp add: identified_def ensure_Inr_iff)

lemma optional_identified_iff [outcome_iff]:
  "optional_identified v l k = Inr x \<longleftrightarrow> (case v of None \<Rightarrow> True | Some s \<Rightarrow> is_word_id s) \<and> k = Inr x"
  by (simp add: optional_identified_def identified_iff split: option.split)

lemma all_identified_iff [outcome_iff]: "all_identified xs l k = Inr x \<longleftrightarrow> list_all is_word_id xs \<and> k = Inr x"
  by (induction xs) (simp_all add: identified_iff)

lemma clocked_iff [outcome_iff]: "clocked now k = Inr x \<longleftrightarrow> 0 \<le> now \<and> k = Inr x"
  by (simp add: clocked_def ensure_Inr_iff)

lemma administrator_iff [outcome_iff]:
  "administrator s a k = Inr x \<longleftrightarrow> is_word_id a \<and> is_administrator s a \<and> k = Inr x"
  by (simp add: administrator_def identified_iff ensure_Inr_iff)

lemma quiet_iff [outcome_iff]: "quiet r = Inr x \<longleftrightarrow> (\<exists>y. r = Inr (y, snd x))"
  by (cases r; cases x) (auto simp: quiet_def)

declare bind_result_Inr_iff [outcome_iff] ensure_Inr_iff [outcome_iff]

lemma option_case_iff [outcome_iff]:
  "(case v of None \<Rightarrow> f | Some r \<Rightarrow> g r) = Inr x \<longleftrightarrow> v = None \<and> f = Inr x \<or> (\<exists>r. v = Some r \<and> g r = Inr x)"
  by (cases v) simp_all

lemma in_tbl_update: "r \<in> set (tbl_update p f xs) \<longleftrightarrow> (\<exists>x \<in> set xs. p x \<and> r = f x \<or> \<not> p x \<and> r = x)"
  by (auto simp: tbl_update_def)

lemma tbl_update_cong: "(\<And>r. r \<in> set xs \<Longrightarrow> P r = Q r \<and> (P r \<longrightarrow> f r = g r)) \<Longrightarrow> tbl_update P f xs = tbl_update Q g xs"
  by (auto simp: tbl_update_def)

abbreviation row_changes :: "access_store \<Rightarrow> access_store \<Rightarrow> bool" where
  "row_changes \<equiv> row_change\<^sup>*\<^sup>*"

lemmas one_change = r_into_rtranclp [of row_change]

lemma two_changes: "row_change s t \<Longrightarrow> row_change t u \<Longrightarrow> row_changes s u"
  by (meson r_into_rtranclp rtranclp.rtrancl_into_rtrancl)

lemma three_changes: "row_change s t \<Longrightarrow> row_change t u \<Longrightarrow> row_change u v \<Longrightarrow> row_changes s v"
  by (rule rtranclp.rtrancl_into_rtrancl [OF two_changes])

lemma no_identities: "ac_identities s = [] \<Longrightarrow> identity_at s k = None"
  by (simp add: identity_at_def)

lemma bootstrap_changes: "bootstrap_administrator k now s = Inr (u, s') \<Longrightarrow> row_changes s s'"
  by (auto simp: bootstrap_administrator_def outcome_iff no_identities intro!: one_change identity_new)

lemma new_identity_active: "identity_at s k = None \<Longrightarrow> identity_active (add_identity k admin now s) k"
  by (simp add: identity_active_def add_identity_def identity_at_def tbl_lookup_append)

lemma add_credential_changes:
  "add_credential c k x now t s = Inr s' \<Longrightarrow> identity_active s k \<Longrightarrow> row_changes s s'"
  by (auto simp: add_credential_def outcome_iff intro!: one_change credential_new)

lemma bootstrap_credential_changes:
  assumes "bootstrap_administrator_credential sha k n c x now s = Inr (v, s')"
  shows "row_changes s s'"
proof -
  from assms have none: "ac_identities s = []"
    and add: "add_credential c k (sha x) now (now + n) (add_identity k True now s) = Inr s'"
    by (auto simp: bootstrap_administrator_credential_def outcome_iff)
  have "row_changes s (add_identity k True now s)"
    using none by (auto simp: no_identities intro!: one_change identity_new)
  also have "row_changes \<dots> s'"
    using add by (rule add_credential_changes) (simp add: new_identity_active no_identities none)
  finally show ?thesis .
qed

lemma create_identity_changes: "create_identity a k b now s = Inr (u, s') \<Longrightarrow> row_changes s s'"
  by (auto simp: create_identity_def outcome_iff intro: one_change identity_new)

lemma revoked_members:
  "r \<in> set (tbl_update (\<lambda>r. mbr_identity r = k) (\<lambda>r. r\<lparr>mbr_active := False, mbr_updated := now\<rparr>) rows) \<Longrightarrow>
    mbr_identity r = k \<Longrightarrow> \<not> mbr_active r"
  unfolding in_tbl_update by (elim bexE disjE conjE) simp_all

lemma revoked_credentials:
  "r \<in> set (tbl_update (\<lambda>r. crd_identity r = k) (revoke_row now) rows) \<Longrightarrow> crd_identity r = k \<Longrightarrow> crd_revoked r \<noteq> None"
  unfolding in_tbl_update by (elim bexE disjE conjE) (simp_all add: revoke_row_def split: option.split)

lemma revoke_identity_changes:
  assumes "revoke_identity a k now s = Inr (u, s')"
  shows "row_changes s s'"
proof -
  let ?m = "s\<lparr>ac_memberships := tbl_update (\<lambda>r. mbr_identity r = k) (\<lambda>r. r\<lparr>mbr_active := False, mbr_updated := now\<rparr>)
    (ac_memberships s)\<rparr>"
  let ?c = "?m\<lparr>ac_credentials := tbl_update (\<lambda>r. crd_identity r = k) (revoke_row now) (ac_credentials s)\<rparr>"
  from assms have a: "is_administrator s a" "a \<noteq> k" and state: "s' = identity_revoked k now s"
    by (auto simp: revoke_identity_def outcome_iff)
  have s': "s' = ?c\<lparr>ac_identities := tbl_update (\<lambda>r. idn_id r = k) (\<lambda>r. r\<lparr>idn_active := False\<rparr>) (ac_identities ?c)\<rparr>"
    unfolding state by (rule access_store.equality) (simp_all add: identity_revoked_def revoke_row_def [abs_def])
  have admin: "is_administrator ?c a" using a(1) by (simp add: is_administrator_def identity_at_def)
  have "row_change s ?m" by (rule membership_off)
  moreover have "row_change ?m ?c" using credential_off [of ?m "\<lambda>r. crd_identity r = k" now] by simp
  moreover have "row_change ?c s'" unfolding s'
    by (rule identity_off [OF admin a(2)]) (simp_all add: revoked_members revoked_credentials)
  ultimately show ?thesis by (rule three_changes)
qed

lemma register_project_changes: "register_project a d now s = Inr (v, s') \<Longrightarrow> row_changes s s'"
  by (auto simp: register_project_def outcome_iff split: if_splits intro!: one_change project_new project_set)

lemma grant_changes: "grant_membership a p k r now s = Inr (u, s') \<Longrightarrow> row_changes s s'"
  by (auto simp: grant_membership_def outcome_iff intro!: one_change membership_put)

lemma revoke_membership_changes: "revoke_membership a p k r now s = Inr (u, s') \<Longrightarrow> row_changes s s'"
  by (auto simp: revoke_membership_def outcome_iff intro!: one_change membership_off)

lemma issue_changes: "issue_principal_credential sha a k n c x now s = Inr (v, s') \<Longrightarrow> row_changes s s'"
  by (auto simp: issue_principal_credential_def outcome_iff intro: add_credential_changes)

lemma revoke_credential_changes:
  assumes "revoke_credential a c now s = Inr (u, s')"
  shows "row_changes s s'"
proof -
  have "tbl_update (\<lambda>r. crd_id r = c \<and> crd_revoked r = None) (\<lambda>r. r\<lparr>crd_revoked := Some now\<rparr>) (ac_credentials s) =
      tbl_update (\<lambda>r. crd_id r = c \<and> crd_revoked r = None) (revoke_row now) (ac_credentials s)"
    by (rule tbl_update_cong) (simp add: revoke_row_def)
  with assms show ?thesis
    by (auto simp: revoke_credential_def outcome_iff intro!: one_change credential_off)
qed

lemma bind_resource_changes: "bind_resource kind k p d ow m now s = Inr (v, s') \<Longrightarrow> row_changes s s'"
  by (cases "resource_at s kind k")
    (auto simp: bind_resource_def outcome_iff Let_def project_active_def split: option.splits
      intro!: one_change resource_new)

lemma authorize_legacy_changes:
  "authorize_legacy_resource a kind k ad d now s = Inr (v, s') \<Longrightarrow> row_changes s s'"
  by (auto simp: authorize_legacy_resource_def outcome_iff Let_def split: option.splits
      intro!: one_change resource_up)

lemma sanitation_value: "sanitation v d r = Inr x \<Longrightarrow> x = v"
  by (auto simp: sanitation_def outcome_iff split: pyval.splits)

lemma put_sanitation_digest: "x \<in> snt_digest ` set (put_sanitation x d v now rows)"
  by (auto simp: put_sanitation_def image_iff split: option.split dest!: tbl_lookup_Some)

lemma store_assignment_changes:
  assumes "store_assignment fp new receipt now s = Inr (v, s')" and "asg_generation new = 1"
    and "(asg_project new = None) \<noteq> (asg_group new = None)"
  shows "row_changes s s'"
proof (cases "assignment_at s (asg_device new)")
  case None
  with assms show ?thesis
    by (auto simp: store_assignment_def outcome_iff intro!: one_change assignment_new)
next
  case (Some old)
  show ?thesis
  proof (cases "assignment_target old = assignment_target new")
    case True
    with Some assms(1) show ?thesis by (simp add: store_assignment_def)
  next
    case False
    with Some assms(1) obtain w where
      s': "s' = s\<lparr>ac_sanitations := put_sanitation (fp w) (asg_device new) w now (ac_sanitations s),
        ac_assignments := tbl_update (\<lambda>r. asg_device r = asg_device new)
          (\<lambda>_. new\<lparr>asg_generation := asg_generation old + 1, asg_sanitation := Some (fp w)\<rparr>) (ac_assignments s)\<rparr>"
      by (auto simp: store_assignment_def outcome_iff Let_def)
    let ?s = "s\<lparr>ac_sanitations := put_sanitation (fp w) (asg_device new) w now (ac_sanitations s)\<rparr>"
    let ?r = "new\<lparr>asg_generation := asg_generation old + 1, asg_sanitation := Some (fp w)\<rparr>"
    have "row_change s ?s" by (rule sanitation_put)
    moreover have "row_change ?s s'"
      using assignment_move [of ?s ?r old "fp w"] Some assms(3) put_sanitation_digest [of "fp w"]
      by (simp add: s' assignment_at_def)
    ultimately show ?thesis by (rule two_changes)
  qed
qed

lemma assign_device_changes: "assign_device fp a d p g h r now s = Inr (v, s') \<Longrightarrow> row_changes s s'"
  by (auto simp: assign_device_def outcome_iff elim!: store_assignment_changes)

lemma create_enrollment_changes:
  "create_host_enrollment sha a h ps gs n m e x now s = Inr (v, s') \<Longrightarrow> row_changes s s'"
  by (auto simp: create_host_enrollment_def outcome_iff Let_def add_enrollment_def
      intro!: one_change enrollment_new simp: open_enrollment_def)

lemma consume_cases:
  assumes "consume_host_enrollment sha tok h i c x now s = Inr (v, s')"
  obtains k sup e where "parse_token sha tok ''rpe'' = Inr (k, sup)" "enrollment_at s k = Some e" "enr_secret e = sup"
    "enr_host e = h" "enr_revoked e = None" "enr_consumed e = None" "now < enr_expires e"
    "\<not> (case host_at s h of Some r \<Rightarrow> enr_generation e \<le> hst_generation r \<and> hst_revoked r = None | None \<Rightarrow> False)"
    "put_host (enrolled_host e i c (sha x) now) (consume_row k now s) = Inr s'"
  using assms unfolding consume_host_enrollment_def outcome_iff by (auto simp: outcome_iff)

lemma consume_enrollment_changes:
  assumes "consume_host_enrollment sha tok h i c x now s = Inr (v, s')"
  shows "row_changes s s'"
  using assms
proof (cases rule: consume_cases)
  case (1 k sup e)
  have "row_change s s'"
    by (rule host_enrolled [OF 1(2) _ _ _ _ _ 1(9)])
      (use 1(4-6,8) in \<open>auto simp: open_enrollment_def enrolled_host_def\<close>)
  then show ?thesis by (rule one_change)
qed

lemma revoke_enrollment_changes: "revoke_host_enrollment a k now s = Inr (u, s') \<Longrightarrow> row_changes s s'"
  by (auto simp: revoke_host_enrollment_def outcome_iff intro!: one_change enrollment_off)

lemma closed_enrollments:
  "e \<in> set (ac_enrollments (revoke_enrollments (\<lambda>r. enr_host r = h) now s)) \<Longrightarrow> enr_host e = h \<Longrightarrow> \<not> open_enrollment e"
  unfolding revoke_enrollments_def open_enrollment_def
  by (simp add: in_tbl_update, elim bexE disjE conjE) simp_all

lemma revoke_host_changes:
  assumes "revoke_host a h now s = Inr (u, s')"
  shows "row_changes s s'"
proof -
  let ?e = "revoke_enrollments (\<lambda>r. enr_host r = h) now s"
  from assms have state: "s' = revoke_enrollments (\<lambda>r. enr_host r = h) now (host_revoked h now s)"
    by (auto simp: revoke_host_def outcome_iff)
  have s': "s' = ?e\<lparr>ac_hosts := tbl_update (\<lambda>r. hst_id r = h \<and> hst_revoked r = None)
      (\<lambda>r. r\<lparr>hst_revoked := Some now\<rparr>) (ac_hosts ?e)\<rparr>"
    unfolding state by (rule access_store.equality) (simp_all add: revoke_enrollments_def host_revoked_def)
  have "row_change s ?e" by (rule enrollment_off)
  moreover have "row_change ?e s'" unfolding s'
    by (rule host_off) (rule closed_enrollments)
  ultimately show ?thesis by (rule two_changes)
qed

lemma record_adoption_changes: "record_adoption r t = (v, s') \<Longrightarrow> row_changes t s'"
  by (cases "adoption_at t (ado_id r)") (auto simp: record_adoption_def intro: one_change adoption_new)

lemma adopt_legacy_changes:
  assumes "adopt_legacy bsha k f fm m now s = Inr (v, s')"
  shows "row_changes s s'"
proof -
  from assms obtain d t where keep: "preserve_bytes (bsha d) d s = Inr t"
    and rest: "t = s' \<or> (\<exists>r. record_adoption r t = (v, s'))"
    by (auto simp: adopt_legacy_def outcome_iff split: if_splits)
  from keep have "row_changes s t"
    by (auto simp: preserve_bytes_def outcome_iff intro: one_change bytes_kept)
  also from rest have "row_changes t s'"
    by (auto intro: record_adoption_changes)
  finally show ?thesis .
qed

lemma step_changes: "access_step H s x = Inr (u, s') \<Longrightarrow> row_changes s s'"
  by (cases x, cases "snd x")
    (auto simp: access_step_def quiet_iff dest: bootstrap_changes bootstrap_credential_changes create_identity_changes
      revoke_identity_changes register_project_changes grant_changes revoke_membership_changes issue_changes
      revoke_credential_changes bind_resource_changes authorize_legacy_changes assign_device_changes
      create_enrollment_changes consume_enrollment_changes revoke_enrollment_changes revoke_host_changes
      adopt_legacy_changes)

end
