(* ===== verification/Access_Rows.thy ===== *)
theory Access_Rows
  imports Access_Runs
begin

text \<open>
  What every run of the access store keeps. Rows are never deleted and change only forwards
  (\<open>access_grows\<close>): an identity is never made active again, a credential and an enrollment never
  become valid again, a host changes its incarnation only together with a larger generation, the
  provenance of a resource is final. \<open>people_inv\<close>, \<open>host_inv\<close> and \<open>device_inv\<close> relate the tables.
\<close>

section \<open>Rows only move forwards\<close>

definition identity_leads :: "identity_row \<Rightarrow> identity_row \<Rightarrow> bool" where
  "identity_leads r r' \<longleftrightarrow> idn_id r' = idn_id r \<and> idn_administrator r' = idn_administrator r \<and>
     idn_created r' = idn_created r \<and> (idn_active r' \<longrightarrow> idn_active r)"

definition project_leads :: "project_row \<Rightarrow> project_row \<Rightarrow> bool" where
  "project_leads r r' \<longleftrightarrow> prj_id r' = prj_id r \<and> (prj_active r \<longrightarrow> prj_active r')"

definition credential_leads :: "credential_row \<Rightarrow> credential_row \<Rightarrow> bool" where
  "credential_leads r r' \<longleftrightarrow> crd_id r' = crd_id r \<and> crd_identity r' = crd_identity r \<and> crd_secret r' = crd_secret r \<and>
     crd_issued r' = crd_issued r \<and> crd_expires r' = crd_expires r \<and>
     (crd_revoked r \<noteq> None \<longrightarrow> crd_revoked r' = crd_revoked r)"

definition promotion :: "resource_row \<Rightarrow> resource_row \<Rightarrow> bool" where
  "promotion r r' \<longleftrightarrow> rsc_meaning r = ''legacy-inert'' \<and> (\<exists>a d t. r' = promoted a d t r)"

definition resource_leads :: "resource_row \<Rightarrow> resource_row \<Rightarrow> bool" where
  "resource_leads r r' \<longleftrightarrow> r' = r \<or> promotion r r'"

definition assignment_leads :: "assignment_row \<Rightarrow> assignment_row \<Rightarrow> bool" where
  "assignment_leads r r' \<longleftrightarrow> r' = r \<or> asg_device r' = asg_device r \<and> asg_generation r < asg_generation r'"

definition enrollment_leads :: "enrollment_row \<Rightarrow> enrollment_row \<Rightarrow> bool" where
  "enrollment_leads r r' \<longleftrightarrow> enr_id r' = enr_id r \<and> enr_host r' = enr_host r \<and>
     enr_generation r' = enr_generation r \<and> enr_secret r' = enr_secret r \<and>
     (enr_consumed r \<noteq> None \<longrightarrow> enr_consumed r' = enr_consumed r) \<and>
     (enr_revoked r \<noteq> None \<longrightarrow> enr_revoked r' = enr_revoked r)"

definition shut_off :: "host_scope_row \<Rightarrow> host_scope_row \<Rightarrow> bool" where
  "shut_off r r' \<longleftrightarrow> hst_revoked r = None \<and> (\<exists>t. r' = r\<lparr>hst_revoked := Some t\<rparr>)"

definition host_leads :: "host_scope_row \<Rightarrow> host_scope_row \<Rightarrow> bool" where
  "host_leads r r' \<longleftrightarrow> r' = r \<or> hst_id r' = hst_id r \<and> hst_generation r < hst_generation r' \<or> shut_off r r'"

lemma promotion_facts:
  assumes "promotion r r'"
  shows "rsc_kind r' = rsc_kind r" "rsc_id r' = rsc_id r" "rsc_project r' = rsc_project r" "rsc_digest r' = rsc_digest r"
    "rsc_owner r' = rsc_owner r" "rsc_meaning r = ''legacy-inert''" "rsc_meaning r' = ''legacy-authorized''"
    "rsc_adoption r' \<noteq> None"
  using assms by (auto simp: promotion_def promoted_def)

lemma shut_off_facts:
  assumes "shut_off r r'"
  shows "hst_id r' = hst_id r" "hst_generation r' = hst_generation r" "hst_incarnation r' = hst_incarnation r"
    "hst_credential r' = hst_credential r" "hst_revoked r = None" "hst_revoked r' \<noteq> None"
  using assms by (auto simp: shut_off_def)

lemma host_leads_trans: "host_leads r r' \<Longrightarrow> host_leads r' r'' \<Longrightarrow> host_leads r r''"
  unfolding host_leads_def by (auto dest: shut_off_facts)

lemma resource_leads_trans: "resource_leads r r' \<Longrightarrow> resource_leads r' r'' \<Longrightarrow> resource_leads r r''"
  unfolding resource_leads_def using promotion_facts(7) [of r r'] promotion_facts(6) [of r' r''] by auto

lemma assignment_leads_trans: "assignment_leads r r' \<Longrightarrow> assignment_leads r' r'' \<Longrightarrow> assignment_leads r r''"
  unfolding assignment_leads_def by (elim conjE disjE) simp_all

interpretation identities: growing_table idn_id identity_leads
  by unfold_locales (auto simp: identity_leads_def)

interpretation projects: growing_table prj_id project_leads
  by unfold_locales (auto simp: project_leads_def)

interpretation credentials: growing_table crd_id credential_leads
  by unfold_locales (auto simp: credential_leads_def)

interpretation resources: growing_table "\<lambda>r. (rsc_kind r, rsc_id r)" resource_leads
proof unfold_locales
  fix r r' r''
  show "resource_leads r r' \<Longrightarrow> (rsc_kind r', rsc_id r') = (rsc_kind r, rsc_id r)"
    by (auto simp: resource_leads_def promotion_facts)
qed (simp add: resource_leads_def, rule resource_leads_trans)

interpretation assignments: growing_table asg_device assignment_leads
proof unfold_locales
  show "assignment_leads r r' \<Longrightarrow> asg_device r' = asg_device r" for r r'
    by (auto simp: assignment_leads_def)
qed (simp add: assignment_leads_def, rule assignment_leads_trans)

interpretation enrollments: growing_table enr_id enrollment_leads
  by unfold_locales (auto simp: enrollment_leads_def)

interpretation hosts: growing_table hst_id host_leads
proof unfold_locales
  show "host_leads r r' \<Longrightarrow> hst_id r' = hst_id r" for r r'
    by (auto simp: host_leads_def shut_off_facts)
qed (simp add: host_leads_def, rule host_leads_trans)

interpretation legacy: growing_table ado_id "(=)"
  by unfold_locales auto

definition access_grows :: "access_store \<Rightarrow> access_store \<Rightarrow> bool" where
  "access_grows s t \<longleftrightarrow> ac_issuer t = ac_issuer s \<and>
     grows identity_leads (ac_identities s) (ac_identities t) \<and> grows project_leads (ac_projects s) (ac_projects t) \<and>
     grows credential_leads (ac_credentials s) (ac_credentials t) \<and>
     grows resource_leads (ac_resources s) (ac_resources t) \<and>
     grows assignment_leads (ac_assignments s) (ac_assignments t) \<and>
     grows enrollment_leads (ac_enrollments s) (ac_enrollments t) \<and> grows host_leads (ac_hosts s) (ac_hosts t) \<and>
     grows (=) (ac_adoptions s) (ac_adoptions t)"

lemma access_grows_refl [simp]: "access_grows s s"
  by (simp add: access_grows_def identities.grows_refl projects.grows_refl credentials.grows_refl
      resources.grows_refl assignments.grows_refl enrollments.grows_refl hosts.grows_refl legacy.grows_refl)

lemma access_grows_trans: "access_grows s t \<Longrightarrow> access_grows t u \<Longrightarrow> access_grows s u"
  unfolding access_grows_def
  by (intro conjI)
    (auto intro: identities.grows_trans projects.grows_trans credentials.grows_trans resources.grows_trans
      assignments.grows_trans enrollments.grows_trans hosts.grows_trans legacy.grows_trans)

section \<open>Hosts and their enrollments\<close>

definition host_inv :: "access_store \<Rightarrow> bool" where
  "host_inv s \<longleftrightarrow>
     (\<forall>e \<in> set (ac_enrollments s). 1 \<le> enr_generation e) \<and>
     distinct (map (\<lambda>e. (enr_host e, enr_generation e)) (ac_enrollments s)) \<and>
     (\<forall>h \<in> set (ac_hosts s). \<exists>e \<in> set (ac_enrollments s).
        enr_host e = hst_id h \<and> enr_generation e = hst_generation h \<and> enr_consumed e \<noteq> None) \<and>
     (\<forall>h \<in> set (ac_hosts s). hst_revoked h \<noteq> None \<longrightarrow>
        (\<forall>e \<in> set (ac_enrollments s). enr_host e = hst_id h \<longrightarrow> open_enrollment e \<longrightarrow> hst_generation h < enr_generation e))"

lemma fold_max_le: "y \<le> fold (\<lambda>r g. max (f r) g) xs (y :: int)"
proof (induction xs arbitrary: y)
  case (Cons x xs)
  from Cons.IH [of "max (f x) y"] show ?case by simp
qed simp

lemma fold_max_member: "r \<in> set xs \<Longrightarrow> f r \<le> fold (\<lambda>r g. max (f r) g) xs (y :: int)"
proof (induction xs arbitrary: y)
  case (Cons x xs)
  then show ?case using fold_max_le [of "max (f x) y" f xs] by auto
qed simp

lemma last_generation_bounds:
  "0 \<le> last_generation s h"
  "e \<in> set (ac_enrollments s) \<Longrightarrow> enr_host e = h \<Longrightarrow> enr_generation e \<le> last_generation s h"
  "host_at s h = Some r \<Longrightarrow> hst_generation r \<le> last_generation s h"
proof -
  let ?y = "case host_at s h of Some r \<Rightarrow> max 0 (hst_generation r) | None \<Rightarrow> 0"
  let ?es = "filter (\<lambda>r. enr_host r = h) (ac_enrollments s)"
  have "0 \<le> ?y" by (simp split: option.split)
  moreover have le: "?y \<le> last_generation s h" unfolding last_generation_def by (rule fold_max_le)
  ultimately show "0 \<le> last_generation s h" by linarith
  show "enr_generation e \<le> last_generation s h" if "e \<in> set (ac_enrollments s)" "enr_host e = h"
    using that unfolding last_generation_def by (intro fold_max_member) simp
  show "hst_generation r \<le> last_generation s h" if "host_at s h = Some r"
    using le that by simp
qed


text \<open>What a table holds after an update.\<close>

lemma put_host_new:
  "host_at s (hst_id r) = None \<Longrightarrow> put_host r s = Inr s' \<Longrightarrow> ac_hosts s' = ac_hosts s @ [r]"
  by (auto simp: put_host_def outcome_iff)

lemma put_host_known:
  "host_at s (hst_id r) = Some x \<Longrightarrow> put_host r s = Inr s' \<Longrightarrow>
    ac_hosts s' = tbl_update (\<lambda>x. hst_id x = hst_id r) (\<lambda>_. r) (ac_hosts s)"
  unfolding put_host_def outcome_iff by (elim conjE) (simp, drule sym, simp)

lemma lookup_replaced:
  "tbl_lookup key k rows = Some x \<Longrightarrow> key r = k \<Longrightarrow> tbl_lookup key k (tbl_update (\<lambda>x. key x = k) (\<lambda>_. r) rows) = Some r"
  by (induction rows) (auto simp: tbl_update_def split: if_splits)

lemma host_at_put:
  assumes "put_host r s = Inr s'"
  shows "host_at s' (hst_id r) = Some r"
proof (cases "host_at s (hst_id r)")
  case None
  with put_host_new [OF None assms] show ?thesis by (simp add: host_at_def tbl_lookup_append)
next
  case (Some x)
  show ?thesis using lookup_replaced [OF Some [unfolded host_at_def], of r] put_host_known [OF Some assms]
    by (simp add: host_at_def)
qed

lemma hosts_after_put:
  assumes "put_host r s = Inr s'" and "x \<in> set (ac_hosts s')"
  shows "x = r \<or> x \<in> set (ac_hosts s) \<and> hst_id x \<noteq> hst_id r"
proof (cases "host_at s (hst_id r)")
  case None
  then have "hst_id r \<notin> hst_id ` set (ac_hosts s)" by (simp add: host_at_def tbl_lookup_None_iff)
  then have "\<And>y. y \<in> set (ac_hosts s) \<Longrightarrow> hst_id y \<noteq> hst_id r" by (metis imageI)
  with assms(2) put_host_new [OF None assms(1)] show ?thesis by auto
next
  case (Some y)
  have "x \<in> set (tbl_update (\<lambda>x. hst_id x = hst_id r) (\<lambda>_. r) (ac_hosts s))"
    using assms(2) put_host_known [OF Some assms(1)] by simp
  then show ?thesis unfolding in_tbl_update by auto
qed

lemma put_host_rest:
  assumes "put_host r s = Inr s'"
  shows "s' = s\<lparr>ac_hosts := ac_hosts s'\<rparr>"
  using assms by (auto simp: put_host_def outcome_iff)

lemma put_host_fields:
  assumes "put_host r s = Inr s'"
  shows "ac_identities s' = ac_identities s" "ac_memberships s' = ac_memberships s" "ac_credentials s' = ac_credentials s"
    "ac_assignments s' = ac_assignments s" "ac_sanitations s' = ac_sanitations s" "ac_resources s' = ac_resources s"
  using assms by (auto simp: put_host_def outcome_iff)

lemma enrollments_after_put: "put_host r s = Inr s' \<Longrightarrow> ac_enrollments s' = ac_enrollments s"
  by (drule put_host_rest) (metis access_store.select_convs(9) access_store.surjective access_store.update_convs(10))

lemma host_invI:
  assumes "\<And>e. e \<in> set (ac_enrollments s) \<Longrightarrow> 1 \<le> enr_generation e"
    and "distinct (map (\<lambda>e. (enr_host e, enr_generation e)) (ac_enrollments s))"
    and "\<And>h. h \<in> set (ac_hosts s) \<Longrightarrow> \<exists>e \<in> set (ac_enrollments s).
      enr_host e = hst_id h \<and> enr_generation e = hst_generation h \<and> enr_consumed e \<noteq> None"
    and "\<And>h e. h \<in> set (ac_hosts s) \<Longrightarrow> hst_revoked h \<noteq> None \<Longrightarrow> e \<in> set (ac_enrollments s) \<Longrightarrow>
      enr_host e = hst_id h \<Longrightarrow> open_enrollment e \<Longrightarrow> hst_generation h < enr_generation e"
  shows "host_inv s"
  using assms unfolding host_inv_def by blast

lemma host_invD:
  assumes "host_inv s"
  shows "e \<in> set (ac_enrollments s) \<Longrightarrow> 1 \<le> enr_generation e"
    "distinct (map (\<lambda>e. (enr_host e, enr_generation e)) (ac_enrollments s))"
    "h \<in> set (ac_hosts s) \<Longrightarrow> \<exists>e \<in> set (ac_enrollments s).
      enr_host e = hst_id h \<and> enr_generation e = hst_generation h \<and> enr_consumed e \<noteq> None"
    "h \<in> set (ac_hosts s) \<Longrightarrow> hst_revoked h \<noteq> None \<Longrightarrow> e \<in> set (ac_enrollments s) \<Longrightarrow>
      enr_host e = hst_id h \<Longrightarrow> open_enrollment e \<Longrightarrow> hst_generation h < enr_generation e"
  using assms unfolding host_inv_def by blast+

lemma host_inv_frame:
  "ac_enrollments t = ac_enrollments s \<Longrightarrow> ac_hosts t = ac_hosts s \<Longrightarrow> host_inv t = host_inv s"
  by (simp add: host_inv_def)

lemma host_inv_new_enrollment:
  assumes inv: "host_inv s" and gen: "enr_generation e = last_generation s (enr_host e) + 1"
  shows "host_inv (s\<lparr>ac_enrollments := ac_enrollments s @ [e]\<rparr>)"
proof (rule host_invI)
  have later: "enr_generation x < enr_generation e" if "x \<in> set (ac_enrollments s)" "enr_host x = enr_host e" for x
    using last_generation_bounds(2) [OF that] gen by simp
  show "1 \<le> enr_generation x" if "x \<in> set (ac_enrollments (s\<lparr>ac_enrollments := ac_enrollments s @ [e]\<rparr>))" for x
    using that host_invD(1) [OF inv, of x] last_generation_bounds(1) [of s "enr_host e"] gen by auto
  show "distinct (map (\<lambda>e. (enr_host e, enr_generation e)) (ac_enrollments (s\<lparr>ac_enrollments := ac_enrollments s @ [e]\<rparr>)))"
    using host_invD(2) [OF inv] later by fastforce
  fix h
  assume "h \<in> set (ac_hosts (s\<lparr>ac_enrollments := ac_enrollments s @ [e]\<rparr>))"
  then have h: "h \<in> set (ac_hosts s)" by simp
  from host_invD(3) [OF inv h] obtain x where x: "x \<in> set (ac_enrollments s)" "enr_host x = hst_id h"
    "enr_generation x = hst_generation h" "enr_consumed x \<noteq> None" by blast
  then show "\<exists>x \<in> set (ac_enrollments (s\<lparr>ac_enrollments := ac_enrollments s @ [e]\<rparr>)).
      enr_host x = hst_id h \<and> enr_generation x = hst_generation h \<and> enr_consumed x \<noteq> None" by auto
  fix y
  assume "hst_revoked h \<noteq> None" "y \<in> set (ac_enrollments (s\<lparr>ac_enrollments := ac_enrollments s @ [e]\<rparr>))"
    "enr_host y = hst_id h" "open_enrollment y"
  then show "hst_generation h < enr_generation y"
    using host_invD(4) [OF inv h, of y] later [OF x(1)] x by auto
qed

lemma host_inv_enrollments:
  assumes inv: "host_inv s"
    and f: "\<And>x. enr_host (f x) = enr_host x \<and> enr_generation (f x) = enr_generation x"
    and used: "\<And>x. enr_consumed x \<noteq> None \<Longrightarrow> enr_consumed (f x) \<noteq> None"
    and opened: "\<And>x. open_enrollment (f x) \<Longrightarrow> open_enrollment x"
  shows "host_inv (s\<lparr>ac_enrollments := tbl_update P f (ac_enrollments s)\<rparr>)" (is "host_inv ?s")
proof (rule host_invI)
  have source: "\<exists>x \<in> set (ac_enrollments s). enr_host y = enr_host x \<and> enr_generation y = enr_generation x \<and>
      (open_enrollment y \<longrightarrow> open_enrollment x)" if "y \<in> set (ac_enrollments ?s)" for y
    using that f opened by (fastforce simp: in_tbl_update)
  show "1 \<le> enr_generation x" if "x \<in> set (ac_enrollments ?s)" for x
    using source [OF that] host_invD(1) [OF inv] by auto
  have "map (\<lambda>e. (enr_host e, enr_generation e)) (ac_enrollments ?s) = map (\<lambda>e. (enr_host e, enr_generation e)) (ac_enrollments s)"
    using f by (simp add: tbl_update_def)
  then show "distinct (map (\<lambda>e. (enr_host e, enr_generation e)) (ac_enrollments ?s))"
    using host_invD(2) [OF inv] by simp
  fix h
  assume "h \<in> set (ac_hosts ?s)"
  then have h: "h \<in> set (ac_hosts s)" by simp
  from host_invD(3) [OF inv h] obtain x where x: "x \<in> set (ac_enrollments s)" "enr_host x = hst_id h"
    "enr_generation x = hst_generation h" "enr_consumed x \<noteq> None" by blast
  then have "(if P x then f x else x) \<in> set (ac_enrollments ?s)" by (auto simp: tbl_update_def)
  with x f used show "\<exists>x \<in> set (ac_enrollments ?s).
      enr_host x = hst_id h \<and> enr_generation x = hst_generation h \<and> enr_consumed x \<noteq> None"
    by (intro bexI [of _ "if P x then f x else x"]) auto
  show "hst_generation h < enr_generation y"
    if "hst_revoked h \<noteq> None" "y \<in> set (ac_enrollments ?s)" "enr_host y = hst_id h" "open_enrollment y" for y
    using source [OF that(2)] host_invD(4) [OF inv h that(1)] that by auto
qed

lemma host_inv_consume: "host_inv s \<Longrightarrow> host_inv (consume_row k now s)"
  unfolding consume_row_def by (rule host_inv_enrollments) (auto simp: open_enrollment_def)

lemma host_inv_revoke: "host_inv s \<Longrightarrow> host_inv (revoke_enrollments P now s)"
  unfolding revoke_enrollments_def by (rule host_inv_enrollments) (auto simp: open_enrollment_def)

lemma consumed_row:
  assumes "enrollment_at s k = Some e" and "enr_consumed e = None"
  shows "e\<lparr>enr_consumed := Some now\<rparr> \<in> set (ac_enrollments (consume_row k now s))"
  using assms unfolding consume_row_def enrollment_at_def
  by (auto simp: in_tbl_update dest!: tbl_lookup_Some)

lemma consume_row_hosts [simp]: "ac_hosts (consume_row k now s) = ac_hosts s"
  by (simp add: consume_row_def)

lemma host_inv_enrolled:
  assumes inv: "host_inv s" and e: "enrollment_at s k = Some e" "open_enrollment e"
    and r: "hst_id r = enr_host e" "hst_generation r = enr_generation e" "hst_revoked r = None"
    and put: "put_host r (consume_row k now s) = Inr s'"
  shows "host_inv s'"
proof -
  let ?t = "consume_row k now s"
  note t = host_inv_consume [OF inv, of k now]
  have es: "ac_enrollments s' = ac_enrollments ?t" by (rule enrollments_after_put [OF put])
  have used: "e\<lparr>enr_consumed := Some now\<rparr> \<in> set (ac_enrollments ?t)"
    using e by (intro consumed_row) (simp_all add: open_enrollment_def)
  show ?thesis
  proof (rule host_invI, unfold es)
    show "1 \<le> enr_generation x" if "x \<in> set (ac_enrollments ?t)" for x using that by (rule host_invD(1) [OF t])
    show "distinct (map (\<lambda>e. (enr_host e, enr_generation e)) (ac_enrollments ?t))" by (rule host_invD(2) [OF t])
    fix h
    assume "h \<in> set (ac_hosts s')"
    then consider "h = r" | "h \<in> set (ac_hosts ?t)" using hosts_after_put [OF put] by blast
    note cases = this
    show "\<exists>x \<in> set (ac_enrollments ?t). enr_host x = hst_id h \<and> enr_generation x = hst_generation h \<and> enr_consumed x \<noteq> None"
      using cases
    proof cases
      case 1
      with used r(1,2) show ?thesis by (intro bexI [of _ "e\<lparr>enr_consumed := Some now\<rparr>"]) simp_all
    next
      case 2
      then show ?thesis by (rule host_invD(3) [OF t])
    qed
    show "hst_generation h < enr_generation x"
      if "hst_revoked h \<noteq> None" "x \<in> set (ac_enrollments ?t)" "enr_host x = hst_id h" "open_enrollment x" for x
      using cases by cases (use that r host_invD(4) [OF t _ that(1,2)] in auto)
  qed
qed

lemma host_inv_off:
  assumes inv: "host_inv s" and closed: "\<And>e. e \<in> set (ac_enrollments s) \<Longrightarrow> enr_host e = h \<Longrightarrow> \<not> open_enrollment e"
  shows "host_inv (s\<lparr>ac_hosts := tbl_update (\<lambda>r. hst_id r = h \<and> hst_revoked r = None)
    (\<lambda>r. r\<lparr>hst_revoked := Some now\<rparr>) (ac_hosts s)\<rparr>)" (is "host_inv ?s")
proof (rule host_invI)
  have source: "\<exists>y \<in> set (ac_hosts s). hst_id x = hst_id y \<and> hst_generation x = hst_generation y \<and>
      (hst_id y = h \<or> hst_revoked x = hst_revoked y)" if "x \<in> set (ac_hosts ?s)" for x
    using that by (auto simp: tbl_update_def)
  show "1 \<le> enr_generation x" if "x \<in> set (ac_enrollments ?s)" for x using that host_invD(1) [OF inv] by simp
  show "distinct (map (\<lambda>e. (enr_host e, enr_generation e)) (ac_enrollments ?s))" using host_invD(2) [OF inv] by simp
  fix x
  assume "x \<in> set (ac_hosts ?s)"
  from source [OF this] obtain y where y: "y \<in> set (ac_hosts s)" "hst_id x = hst_id y" "hst_generation x = hst_generation y"
    "hst_id y = h \<or> hst_revoked x = hst_revoked y" by blast
  show "\<exists>e \<in> set (ac_enrollments ?s). enr_host e = hst_id x \<and> enr_generation e = hst_generation x \<and> enr_consumed e \<noteq> None"
    using host_invD(3) [OF inv y(1)] y by simp
  fix e
  assume e: "hst_revoked x \<noteq> None" "e \<in> set (ac_enrollments ?s)" "enr_host e = hst_id x" "open_enrollment e"
  then have mem: "e \<in> set (ac_enrollments s)" by simp
  with e(3,4) y(2) closed have "hst_id y \<noteq> h" by metis
  with y(4) e(1) have "hst_revoked y \<noteq> None" by simp
  from host_invD(4) [OF inv y(1) this mem _ e(4)] e(3) y(2,3) show "hst_generation x < enr_generation e" by simp
qed

lemma host_inv_change: "row_change s s' \<Longrightarrow> host_inv s \<Longrightarrow> host_inv s'"
proof (induction rule: row_change.induct)
  case (enrollment_new s e)
  then show ?case by (simp add: host_inv_new_enrollment)
next
  case (enrollment_off s P now)
  then show ?case by (rule host_inv_revoke)
next
  case (host_enrolled s k e r now s')
  then show ?case by (intro host_inv_enrolled [of s k e r now s'])
next
  case (host_off s h now)
  then show ?case by (intro host_inv_off)
qed (simp_all add: host_inv_def add_identity_def)

section \<open>Keys\<close>

definition keys_inv :: "access_store \<Rightarrow> bool" where
  "keys_inv s \<longleftrightarrow> distinct_keys idn_id (ac_identities s) \<and> distinct_keys prj_id (ac_projects s) \<and>
     distinct_keys membership_key (ac_memberships s) \<and> distinct_keys crd_id (ac_credentials s) \<and>
     distinct_keys (\<lambda>r. (rsc_kind r, rsc_id r)) (ac_resources s) \<and> distinct_keys snt_digest (ac_sanitations s) \<and>
     distinct_keys asg_device (ac_assignments s) \<and> distinct_keys enr_id (ac_enrollments s) \<and>
     distinct_keys hst_id (ac_hosts s) \<and> distinct_keys ado_id (ac_adoptions s)"

lemma kept_key_update:
  "(\<And>x. x \<in> set xs \<Longrightarrow> P x \<Longrightarrow> key (f x) = key x) \<Longrightarrow> distinct_keys key (tbl_update P f xs) = distinct_keys key xs"
proof -
  assume "\<And>x. x \<in> set xs \<Longrightarrow> P x \<Longrightarrow> key (f x) = key x"
  then have "map key (tbl_update P f xs) = map key xs" by (auto simp: tbl_update_def)
  then show ?thesis by (simp add: distinct_keys_def)
qed

lemma distinct_put_host:
  assumes "put_host r s = Inr s'" and "distinct_keys hst_id (ac_hosts s)"
  shows "distinct_keys hst_id (ac_hosts s')"
proof (cases "host_at s (hst_id r)")
  case None
  then show ?thesis using assms put_host_new [OF None assms(1)]
    by (simp add: host_at_def distinct_keys_snoc)
next
  case (Some x)
  with assms put_host_known [OF Some assms(1)] show ?thesis by (simp add: kept_key_update)
qed

lemma distinct_put_membership:
  "distinct_keys membership_key rows \<Longrightarrow> distinct_keys membership_key (put_membership p k role now rows)"
  by (auto simp: put_membership_def membership_key_def distinct_keys_snoc kept_key_update split: option.split)

lemma distinct_put_sanitation:
  "distinct_keys snt_digest rows \<Longrightarrow> distinct_keys snt_digest (put_sanitation x d v now rows)"
  by (auto simp: put_sanitation_def distinct_keys_snoc split: option.split)

lemma keys_inv_enrolled:
  assumes "keys_inv s" and put: "put_host r (consume_row k now s) = Inr s'"
  shows "keys_inv s'"
proof -
  from assms(1) have "keys_inv (consume_row k now s)"
    by (simp add: keys_inv_def consume_row_def kept_key_update)
  moreover from this have "distinct_keys hst_id (ac_hosts s')"
    by (intro distinct_put_host [OF put]) (simp add: keys_inv_def)
  ultimately show ?thesis by (subst put_host_rest [OF put]) (simp add: keys_inv_def)
qed

lemma keys_inv_change: "row_change s s' \<Longrightarrow> keys_inv s \<Longrightarrow> keys_inv s'"
proof (induction rule: row_change.induct)
  case (host_enrolled s k e r now s')
  then show ?case by (intro keys_inv_enrolled [of s r k now s'])
next
  case (membership_put s p k role now)
  then show ?case by (simp add: keys_inv_def distinct_put_membership)
next
  case (sanitation_put s x d v now)
  then show ?case by (simp add: keys_inv_def distinct_put_sanitation)
qed (simp_all add: keys_inv_def distinct_keys_snoc kept_key_update add_identity_def revoke_enrollments_def
    identity_at_def project_at_def credential_at_def resource_at_def assignment_at_def enrollment_at_def adoption_at_def
    membership_key_def revoke_row_def promoted_def)

section \<open>Every row change moves forwards\<close>

lemma lookup_row: "distinct_keys key rows \<Longrightarrow> x \<in> set rows \<Longrightarrow> key x = k \<Longrightarrow> tbl_lookup key k rows = Some x"
  using tbl_lookup_unique by metis

lemma enrollment_ahead:
  assumes inv: "host_inv s" and e: "enrollment_at s k = Some e" "open_enrollment e"
    and fresh: "hst_revoked x = None \<Longrightarrow> hst_generation x < enr_generation e"
    and at: "host_at s (enr_host e) = Some x"
  shows "hst_generation x < enr_generation e"
proof (cases "hst_revoked x")
  case None
  then show ?thesis by (rule fresh)
next
  case (Some t)
  have mem: "e \<in> set (ac_enrollments s)"
    using e(1) unfolding enrollment_at_def by (rule tbl_lookup_Some [THEN conjunct1])
  have x: "x \<in> set (ac_hosts s)" "hst_id x = enr_host e"
    using tbl_lookup_Some [OF at [unfolded host_at_def]] by simp_all
  show ?thesis by (rule host_invD(4) [OF inv x(1) _ mem]) (use Some x(2) e(2) in simp_all)
qed

lemma host_put_grows:
  assumes inv: "host_inv s" "keys_inv s" and e: "enrollment_at s k = Some e" "open_enrollment e"
    and r: "hst_id r = enr_host e" "hst_generation r = enr_generation e"
    and fresh: "\<And>x. host_at s (hst_id r) = Some x \<Longrightarrow> hst_revoked x = None \<Longrightarrow> hst_generation x < enr_generation e"
    and put: "put_host r (consume_row k now s) = Inr s'"
  shows "grows host_leads (ac_hosts s) (ac_hosts s')"
proof (cases "host_at s (hst_id r)")
  case None
  then have "host_at (consume_row k now s) (hst_id r) = None" by (simp add: host_at_def)
  from put_host_new [OF this put] show ?thesis by (simp add: hosts.grows_snoc)
next
  case (Some y)
  have "host_leads x r" if x: "x \<in> set (ac_hosts s)" "hst_id x = hst_id r" for x
  proof -
    have at: "host_at s (hst_id r) = Some x"
      using inv(2) x unfolding host_at_def keys_inv_def by (intro lookup_row) simp_all
    have "hst_generation x < enr_generation e"
      by (rule enrollment_ahead [OF inv(1) e fresh [OF at]]) (use at r(1) in simp_all)
    then show ?thesis using x(2) r(2) by (simp add: host_leads_def)
  qed
  then have "grows host_leads (ac_hosts s) (tbl_update (\<lambda>x. hst_id x = hst_id r) (\<lambda>_. r) (ac_hosts s))"
    by (intro hosts.grows_update)
  moreover have "host_at (consume_row k now s) (hst_id r) = Some y" using Some by (simp add: host_at_def)
  ultimately show ?thesis using put_host_known [OF _ put] by simp
qed

lemma consume_row_rest: "consume_row k now s = s\<lparr>ac_enrollments := ac_enrollments (consume_row k now s)\<rparr>"
  by (simp add: consume_row_def)

lemma consume_row_grows: "grows enrollment_leads (ac_enrollments s) (ac_enrollments (consume_row k now s))"
  unfolding consume_row_def by (simp, rule enrollments.grows_update) (simp add: enrollment_leads_def)

lemma revoke_enrollments_grows: "grows enrollment_leads (ac_enrollments s) (ac_enrollments (revoke_enrollments P now s))"
  unfolding revoke_enrollments_def by (simp, rule enrollments.grows_update) (simp add: enrollment_leads_def)

lemmas grows_same = identities.grows_refl projects.grows_refl credentials.grows_refl resources.grows_refl
  assignments.grows_refl enrollments.grows_refl hosts.grows_refl legacy.grows_refl

lemmas grows_more = identities.grows_snoc projects.grows_snoc credentials.grows_snoc resources.grows_snoc
  assignments.grows_snoc enrollments.grows_snoc hosts.grows_snoc legacy.grows_snoc

lemma row_change_grows: "row_change s s' \<Longrightarrow> host_inv s \<Longrightarrow> keys_inv s \<Longrightarrow> access_grows s s'"
proof (induction rule: row_change.induct)
  case (identity_off s a k)
  have "grows identity_leads (ac_identities s) (tbl_update (\<lambda>r. idn_id r = k) (\<lambda>r. r\<lparr>idn_active := False\<rparr>) (ac_identities s))"
    by (rule identities.grows_update) (simp add: identity_leads_def)
  then show ?case by (simp add: access_grows_def grows_same)
next
  case (project_set f s k)
  have "grows project_leads (ac_projects s) (tbl_update (\<lambda>r. prj_id r = k) f (ac_projects s))"
    by (rule projects.grows_update) (use project_set.hyps in \<open>simp add: project_leads_def\<close>)
  then show ?case by (simp add: access_grows_def grows_same)
next
  case (credential_off s P now)
  have "grows credential_leads (ac_credentials s) (tbl_update P (revoke_row now) (ac_credentials s))"
    by (rule credentials.grows_update) (auto simp: credential_leads_def revoke_row_def)
  then show ?case by (simp add: access_grows_def grows_same)
next
  case (resource_up s a d kind k r x now)
  have "resource_leads y (promoted a x now y)" if "y \<in> set (ac_resources s)" "rsc_kind y = kind \<and> rsc_id y = k" for y
  proof -
    have "resource_at s kind k = Some y"
      using resource_up.prems that unfolding resource_at_def keys_inv_def by (intro lookup_row) simp_all
    with resource_up.hyps show ?thesis by (auto simp: resource_leads_def promotion_def)
  qed
  then have "grows resource_leads (ac_resources s)
      (tbl_update (\<lambda>r. rsc_kind r = kind \<and> rsc_id r = k) (promoted a x now) (ac_resources s))"
    by (intro resources.grows_update)
  then show ?case by (simp add: access_grows_def grows_same)
next
  case (assignment_move s r old x)
  have "assignment_leads y r" if "y \<in> set (ac_assignments s)" "asg_device y = asg_device r" for y
  proof -
    have "assignment_at s (asg_device r) = Some y"
      using assignment_move.prems that unfolding assignment_at_def keys_inv_def by (intro lookup_row) simp_all
    with assignment_move.hyps that show ?thesis by (simp add: assignment_leads_def)
  qed
  then have "grows assignment_leads (ac_assignments s) (tbl_update (\<lambda>x. asg_device x = asg_device r) (\<lambda>_. r) (ac_assignments s))"
    by (intro assignments.grows_update)
  then show ?case by (simp add: access_grows_def grows_same)
next
  case (enrollment_off s P now)
  show ?case using revoke_enrollments_grows [of s P now]
    by (simp add: access_grows_def grows_same revoke_enrollments_def)
next
  case (host_enrolled s k e r now s')
  have "grows host_leads (ac_hosts s) (ac_hosts s')"
    using host_enrolled by (intro host_put_grows [of s k e r now s'])
  then show ?case using consume_row_grows [of s k now]
    by (subst put_host_rest [OF host_enrolled.hyps(7)]) (simp add: access_grows_def grows_same consume_row_def)
next
  case (host_off s h now)
  have "grows host_leads (ac_hosts s) (tbl_update (\<lambda>r. hst_id r = h \<and> hst_revoked r = None)
      (\<lambda>r. r\<lparr>hst_revoked := Some now\<rparr>) (ac_hosts s))"
    by (rule hosts.grows_update) (auto simp: host_leads_def shut_off_def)
  then show ?case by (simp add: access_grows_def grows_same)
qed (simp_all add: access_grows_def grows_same grows_more add_identity_def)

section \<open>Identities, members and devices\<close>

text \<open>
  Once there is an identity there is an active administrator; what is active belongs to active
  identities and projects; what is not revoked belongs to an active identity.
\<close>

definition people_inv :: "access_store \<Rightarrow> bool" where
  "people_inv s \<longleftrightarrow> (ac_identities s \<noteq> [] \<longrightarrow> (\<exists>a. is_administrator s a)) \<and>
     (\<forall>m \<in> set (ac_memberships s). mbr_active m \<longrightarrow>
        identity_active s (mbr_identity m) \<and> project_active s (mbr_project m)) \<and>
     (\<forall>c \<in> set (ac_credentials s). crd_revoked c = None \<longrightarrow> identity_active s (crd_identity c))"

interpretation identity_off_row: row_update idn_id "\<lambda>r. r\<lparr>idn_active := False\<rparr>"
  by unfold_locales simp

lemma added_identity:
  "identity_active s k \<Longrightarrow> identity_active (add_identity j b now s) k"
  "is_administrator s k \<Longrightarrow> is_administrator (add_identity j b now s) k"
  by (simp_all add: identity_active_def is_administrator_def identity_at_def add_identity_def tbl_lookup_append
      split: option.splits)

lemma removed_identity:
  assumes "j \<noteq> k"
  shows "identity_active (s\<lparr>ac_identities := tbl_update (\<lambda>r. idn_id r = k) (\<lambda>r. r\<lparr>idn_active := False\<rparr>) (ac_identities s)\<rparr>) j =
      identity_active s j"
    and "is_administrator (s\<lparr>ac_identities := tbl_update (\<lambda>r. idn_id r = k) (\<lambda>r. r\<lparr>idn_active := False\<rparr>) (ac_identities s)\<rparr>) j =
      is_administrator s j"
  using assms by (simp_all add: identity_active_def is_administrator_def identity_at_def identity_off_row.lookup_update_other)

lemma project_active_grows: "access_grows s t \<Longrightarrow> project_active s k \<Longrightarrow> project_active t k"
  unfolding project_active_def project_at_def access_grows_def
  using projects.grows_lookup by (fastforce simp: project_leads_def split: option.splits)

lemma people_inv_identities:
  "ac_identities t = ac_identities s \<Longrightarrow> identity_active t = identity_active s"
  "ac_identities t = ac_identities s \<Longrightarrow> is_administrator t = is_administrator s"
  by (simp_all add: fun_eq_iff identity_active_def is_administrator_def identity_at_def)

lemma people_inv_frame:
  assumes "people_inv s" and "access_grows s t" and "ac_identities t = ac_identities s"
    and "\<And>m. m \<in> set (ac_memberships t) \<Longrightarrow> mbr_active m \<Longrightarrow>
      m \<in> set (ac_memberships s) \<or> identity_active s (mbr_identity m) \<and> project_active s (mbr_project m)"
    and "\<And>c. c \<in> set (ac_credentials t) \<Longrightarrow> crd_revoked c = None \<Longrightarrow>
      c \<in> set (ac_credentials s) \<or> identity_active s (crd_identity c)"
  shows "people_inv t"
  using assms(1) assms(4,5) project_active_grows [OF assms(2)]
  unfolding people_inv_def people_inv_identities [OF assms(3)] assms(3) by blast

lemma people_inv_off:
  assumes inv: "people_inv s" and a: "is_administrator s a" "a \<noteq> k"
    and members: "\<And>r. r \<in> set (ac_memberships s) \<Longrightarrow> mbr_identity r = k \<Longrightarrow> \<not> mbr_active r"
    and creds: "\<And>r. r \<in> set (ac_credentials s) \<Longrightarrow> crd_identity r = k \<Longrightarrow> crd_revoked r \<noteq> None"
  shows "people_inv (s\<lparr>ac_identities := tbl_update (\<lambda>r. idn_id r = k) (\<lambda>r. r\<lparr>idn_active := False\<rparr>) (ac_identities s)\<rparr>)"
    (is "people_inv ?t")
proof -
  have "is_administrator ?t a" using a by (simp add: removed_identity)
  moreover have "identity_active ?t (mbr_identity m) \<and> project_active ?t (mbr_project m)"
    if "m \<in> set (ac_memberships s)" "mbr_active m" for m
  proof -
    have "mbr_identity m \<noteq> k" using members that by blast
    then show ?thesis using inv that by (simp add: removed_identity people_inv_def project_active_def project_at_def)
  qed
  moreover have "identity_active ?t (crd_identity c)" if "c \<in> set (ac_credentials s)" "crd_revoked c = None" for c
  proof -
    have "crd_identity c \<noteq> k" using creds that by blast
    then show ?thesis using inv that by (simp add: removed_identity people_inv_def)
  qed
  ultimately show ?thesis unfolding people_inv_def by auto
qed

lemma people_inv_add:
  assumes inv: "people_inv s" and ok: "ac_identities s = [] \<and> admin \<or> (\<exists>a. is_administrator s a)"
  shows "people_inv (add_identity k admin now s)" (is "people_inv ?t")
proof -
  have rest: "ac_memberships ?t = ac_memberships s" "ac_credentials ?t = ac_credentials s"
    "project_active ?t p = project_active s p" for p
    by (simp_all add: add_identity_def project_active_def project_at_def)
  have "\<exists>a. is_administrator ?t a"
    using ok
  proof
    assume "ac_identities s = [] \<and> admin"
    then have "is_administrator ?t k" by (simp add: is_administrator_def identity_at_def add_identity_def)
    then show ?thesis ..
  qed (auto intro: added_identity)
  then show ?thesis using inv unfolding people_inv_def rest by (auto intro: added_identity)
qed

lemma put_members:
  "m \<in> set (put_membership p k role now rows) \<Longrightarrow> m \<in> set rows \<or> mbr_identity m = k \<and> mbr_project m = p"
  by (auto simp: put_membership_def membership_key_def in_tbl_update split: option.splits)

lemma still_active:
  "m \<in> set (tbl_update P (\<lambda>r. r\<lparr>mbr_active := False, mbr_updated := now\<rparr>) rows) \<Longrightarrow> mbr_active m \<Longrightarrow> m \<in> set rows"
  unfolding in_tbl_update by (elim bexE disjE conjE) simp_all

lemma still_valid:
  "c \<in> set (tbl_update P (revoke_row now) rows) \<Longrightarrow> crd_revoked c = None \<Longrightarrow> c \<in> set rows"
  unfolding in_tbl_update by (elim bexE disjE conjE) (simp_all add: revoke_row_def split: option.splits)

lemma people_inv_change:
  assumes "row_change s s'" and "host_inv s" "keys_inv s" and "people_inv s"
  shows "people_inv s'"
proof -
  note grows = row_change_grows [OF assms(1-3)]
  show ?thesis using assms(1) assms(4) grows
  proof (induction rule: row_change.induct)
    case (identity_new s k admin now)
    then show ?case by (intro people_inv_add)
  next
    case (identity_off s a k)
    then show ?case by (intro people_inv_off)
  next
    case (membership_put s p k role now)
    show ?case by (rule people_inv_frame [OF membership_put(4,5)])
        (use membership_put(2,3) in \<open>auto dest!: put_members\<close>)
  next
    case (membership_off s P now)
    show ?case by (rule people_inv_frame [OF membership_off]) (simp_all add: still_active)
  next
    case (credential_new s c k x now t)
    show ?case by (rule people_inv_frame [OF credential_new(3,4)]) (use credential_new(2) in auto)
  next
    case (credential_off s P now)
    show ?case by (rule people_inv_frame [OF credential_off]) (simp_all add: still_valid)
  next
    case (host_enrolled s k e r now s')
    have "ac_identities s' = ac_identities s" "ac_memberships s' = ac_memberships s" "ac_credentials s' = ac_credentials s"
      using put_host_fields [OF host_enrolled(7)] by (simp_all add: consume_row_def)
    then show ?case by (intro people_inv_frame [OF host_enrolled(8,9)]) simp_all
  next
    case (enrollment_off s P now)
    show ?case by (rule people_inv_frame [OF enrollment_off]) (simp_all add: revoke_enrollments_def)
  qed (rule people_inv_frame, assumption, assumption, simp, simp, simp)+
qed

text \<open>
  A device is assigned to a project or to a trust group and not to both; unless it is the first
  assignment, its sanitation receipt is on record.
\<close>

definition assignment_ok :: "access_store \<Rightarrow> assignment_row \<Rightarrow> bool" where
  "assignment_ok s a \<longleftrightarrow> (asg_project a = None) \<noteq> (asg_group a = None) \<and> 1 \<le> asg_generation a \<and>
     (1 < asg_generation a \<longrightarrow> (\<exists>x. asg_sanitation a = Some x \<and> x \<in> snt_digest ` set (ac_sanitations s)))"

definition device_inv :: "access_store \<Rightarrow> bool" where
  "device_inv s \<longleftrightarrow> (\<forall>a \<in> set (ac_assignments s). assignment_ok s a)"

lemma device_inv_frame:
  assumes "device_inv s" and "snt_digest ` set (ac_sanitations s) \<subseteq> snt_digest ` set (ac_sanitations t)"
    and "\<And>a. a \<in> set (ac_assignments t) \<Longrightarrow> a \<in> set (ac_assignments s) \<or> assignment_ok t a"
  shows "device_inv t"
  unfolding device_inv_def
proof
  fix a
  assume "a \<in> set (ac_assignments t)"
  from assms(3) [OF this] show "assignment_ok t a"
  proof
    assume "a \<in> set (ac_assignments s)"
    with assms(1) have "assignment_ok s a" by (simp add: device_inv_def)
    then show ?thesis unfolding assignment_ok_def using subsetD [OF assms(2)] by (elim conjE) (intro conjI impI, simp_all, blast)
  qed
qed

lemma device_inv_change: "row_change s s' \<Longrightarrow> device_inv s \<Longrightarrow> device_inv s'"
proof (induction rule: row_change.induct)
  case (sanitation_put s x d v now)
  show ?case by (rule device_inv_frame [OF sanitation_put]) (auto simp: put_sanitation_def split: option.split)
next
  case (assignment_new s r)
  show ?case
    by (rule device_inv_frame [OF assignment_new(4)]) (use assignment_new(2,3) in \<open>auto simp: assignment_ok_def\<close>)
next
  case (assignment_move s r old x)
  let ?t = "s\<lparr>ac_assignments := tbl_update (\<lambda>x. asg_device x = asg_device r) (\<lambda>_. r) (ac_assignments s)\<rparr>"
  have "old \<in> set (ac_assignments s)"
    using assignment_move(1) unfolding assignment_at_def by (rule tbl_lookup_Some [THEN conjunct1])
  then have "1 \<le> asg_generation old" using assignment_move(6) by (simp add: device_inv_def assignment_ok_def)
  then have r: "assignment_ok ?t r" using assignment_move(2-5) by (simp add: assignment_ok_def)
  have "a \<in> set (ac_assignments s) \<or> a = r" if "a \<in> set (ac_assignments ?t)" for a
    using that by (simp add: in_tbl_update, blast)
  with r show ?case by (intro device_inv_frame [OF assignment_move(6)]) (simp, blast)
next
  case (host_enrolled s k e r now s')
  then show ?case using put_host_fields [OF host_enrolled(7)] by (simp add: device_inv_def assignment_ok_def consume_row_def)
qed (simp_all add: device_inv_def assignment_ok_def add_identity_def revoke_enrollments_def)

text \<open>
  Memberships and resources name projects by identifiers; the project of a resource is active, and a
  resource that names an adoption names one of a recording.
\<close>

definition resource_ok :: "access_store \<Rightarrow> resource_row \<Rightarrow> bool" where
  "resource_ok s r \<longleftrightarrow> is_word_id (rsc_id r) \<and> is_word_id (rsc_project r) \<and> project_active s (rsc_project r) \<and>
     (\<forall>a. rsc_adoption r = Some a \<longrightarrow> (\<exists>d. adoption_at s a = Some d \<and> ado_meaning d = ''legacy-recording-only''))"

definition scope_inv :: "access_store \<Rightarrow> bool" where
  "scope_inv s \<longleftrightarrow> (\<forall>m \<in> set (ac_memberships s). is_word_id (mbr_project m)) \<and>
     (\<forall>r \<in> set (ac_resources s). resource_ok s r)"

lemma later_adoption: "access_grows s t \<Longrightarrow> adoption_at s k = Some r \<Longrightarrow> adoption_at t k = Some r"
  unfolding adoption_at_def access_grows_def using legacy.grows_lookup by metis

lemma resource_ok_later: "access_grows s t \<Longrightarrow> resource_ok s r \<Longrightarrow> resource_ok t r"
  unfolding resource_ok_def by (meson later_adoption project_active_grows)

lemma scope_inv_frame:
  assumes "scope_inv s" and grows: "access_grows s t"
    and "\<And>m. m \<in> set (ac_memberships t) \<Longrightarrow> mbr_project m \<in> mbr_project ` set (ac_memberships s) \<or> is_word_id (mbr_project m)"
    and "\<And>r. r \<in> set (ac_resources t) \<Longrightarrow> r \<in> set (ac_resources s) \<or> resource_ok t r"
  shows "scope_inv t"
  unfolding scope_inv_def
proof (intro conjI ballI)
  show "is_word_id (mbr_project m)" if "m \<in> set (ac_memberships t)" for m
    using assms(3) [OF that] assms(1) by (auto simp: scope_inv_def)
  show "resource_ok t r" if "r \<in> set (ac_resources t)" for r
    using assms(4) [OF that] assms(1) resource_ok_later [OF grows] by (auto simp: scope_inv_def)
qed

lemma promoted_ok:
  assumes "resource_ok s r" and "adoption_at s a = Some d" and "ado_meaning d = ''legacy-recording-only''"
  shows "resource_ok s (promoted a x now r)"
  using assms by (simp add: resource_ok_def promoted_def)

lemma scope_inv_change:
  assumes "row_change s s'" and "host_inv s" "keys_inv s" and "scope_inv s"
  shows "scope_inv s'"
proof -
  note grows = row_change_grows [OF assms(1-3)]
  show ?thesis using assms(1) assms(4) grows
  proof (induction rule: row_change.induct)
    case (membership_put s p k role now)
    show ?case by (rule scope_inv_frame [OF membership_put(4,5)]) (use membership_put(1) in \<open>auto dest!: put_members\<close>)
  next
    case (membership_off s P now)
    have "mbr_project ` set (tbl_update P (\<lambda>r. r\<lparr>mbr_active := False, mbr_updated := now\<rparr>) (ac_memberships s)) =
        mbr_project ` set (ac_memberships s)"
      unfolding set_tbl_update image_image by (rule image_cong) simp_all
    then show ?case by (intro scope_inv_frame [OF membership_off]) (simp, blast, simp)
  next
    case (resource_new s r)
    show ?case by (rule scope_inv_frame [OF resource_new(6,7)])
        (use resource_new(2-5) in \<open>auto simp: resource_ok_def project_active_def project_at_def\<close>)
  next
    case (resource_up s a d kind k r x now)
    let ?t = "s\<lparr>ac_resources := tbl_update (\<lambda>r. rsc_kind r = kind \<and> rsc_id r = k) (promoted a x now) (ac_resources s)\<rparr>"
    have "adoption_at ?t a = Some d" using resource_up(1) by (simp add: adoption_at_def)
    moreover have "resource_ok ?t r" if "r \<in> set (ac_resources s)" for r
      using resource_up(5) that resource_ok_later [OF resource_up(6)] by (simp add: scope_inv_def)
    ultimately have "r \<in> set (ac_resources s) \<or> resource_ok ?t r" if "r \<in> set (ac_resources ?t)" for r
      using that promoted_ok [OF _ _ resource_up(2)] by (simp add: in_tbl_update) blast
    then show ?case by (intro scope_inv_frame [OF resource_up(5,6)]) (simp, blast)
  next
    case (host_enrolled s k e r now s')
    then show ?case using put_host_fields [OF host_enrolled(7)]
      by (intro scope_inv_frame [OF host_enrolled(8,9)]) (simp_all add: consume_row_def)
  next
    case (enrollment_off s P now)
    show ?case by (rule scope_inv_frame [OF enrollment_off]) (simp_all add: revoke_enrollments_def)
  next
    case (identity_new s k admin now)
    show ?case by (rule scope_inv_frame [OF identity_new(3,4)]) (simp_all add: add_identity_def)
  qed (rule scope_inv_frame, assumption, assumption, simp, simp)+
qed

section \<open>Runs\<close>

definition access_inv :: "access_store \<Rightarrow> bool" where
  "access_inv s \<longleftrightarrow> keys_inv s \<and> host_inv s \<and> people_inv s \<and> device_inv s \<and> scope_inv s"

lemma access_inv_new [simp]: "access_inv (new_access_store i)"
  by (simp add: access_inv_def keys_inv_def host_inv_def people_inv_def device_inv_def scope_inv_def new_access_store_def distinct_keys_def)

lemma row_change_inv: "row_change s t \<Longrightarrow> access_inv s \<Longrightarrow> access_inv t \<and> access_grows s t"
  unfolding access_inv_def
  by (blast intro: keys_inv_change host_inv_change people_inv_change device_inv_change scope_inv_change row_change_grows)

lemma row_changes_inv: "row_changes s t \<Longrightarrow> access_inv s \<Longrightarrow> access_inv t \<and> access_grows s t"
proof (induction rule: rtranclp_induct)
  case (step t u)
  then show ?case using row_change_inv [of t u] access_grows_trans by blast
qed simp

lemma step_inv: "access_inv s \<Longrightarrow> access_step H s x = Inr (u, t) \<Longrightarrow> access_inv t \<and> access_grows s t"
  by (rule row_changes_inv [OF step_changes])

interpretation access: guarded_ops "access_step H" access_inv for H
  by unfold_locales (use step_inv in blast)

lemma access_after_inv: "access_inv (access_after H i xs)"
  unfolding access_after_def by (rule access.run_preserves) simp

lemma run_grows: "access_inv s \<Longrightarrow> access_grows s (access_run H s xs)"
proof (induction xs arbitrary: s)
  case (Cons x xs)
  show ?case
  proof (cases "access_step H s x")
    case (Inl e)
    with Cons show ?thesis by simp
  next
    case (Inr p)
    obtain u t where p: "p = (u, t)" by (cases p)
    with Inr step_inv [OF Cons.prems] have t: "access_inv t" "access_grows s t" by blast+
    with Cons.IH [OF t(1)] Inr p show ?thesis by (auto intro: access_grows_trans)
  qed
qed simp

text \<open>One row of each table in a later state.\<close>

lemma later_identity:
  "access_grows s t \<Longrightarrow> identity_at s k = Some r \<Longrightarrow> \<exists>r'. identity_at t k = Some r' \<and> identity_leads r r'"
  unfolding identity_at_def access_grows_def by (elim conjE) (rule identities.grows_lookup)

lemma later_credential:
  "access_grows s t \<Longrightarrow> credential_at s k = Some r \<Longrightarrow> \<exists>r'. credential_at t k = Some r' \<and> credential_leads r r'"
  unfolding credential_at_def access_grows_def by (elim conjE) (rule credentials.grows_lookup)

lemma later_resource:
  "access_grows s t \<Longrightarrow> resource_at s kind k = Some r \<Longrightarrow> \<exists>r'. resource_at t kind k = Some r' \<and> resource_leads r r'"
  unfolding resource_at_def access_grows_def by (elim conjE) (rule resources.grows_lookup)

lemma later_assignment:
  "access_grows s t \<Longrightarrow> assignment_at s k = Some r \<Longrightarrow> \<exists>r'. assignment_at t k = Some r' \<and> assignment_leads r r'"
  unfolding assignment_at_def access_grows_def by (elim conjE) (rule assignments.grows_lookup)

lemma later_enrollment:
  "access_grows s t \<Longrightarrow> enrollment_at s k = Some r \<Longrightarrow> \<exists>r'. enrollment_at t k = Some r' \<and> enrollment_leads r r'"
  unfolding enrollment_at_def access_grows_def by (elim conjE) (rule enrollments.grows_lookup)

lemma later_host:
  "access_grows s t \<Longrightarrow> host_at s k = Some r \<Longrightarrow> \<exists>r'. host_at t k = Some r' \<and> host_leads r r'"
  unfolding host_at_def access_grows_def by (elim conjE) (rule hosts.grows_lookup)

lemma later_issuer: "access_grows s t \<Longrightarrow> ac_issuer t = ac_issuer s"
  by (simp add: access_grows_def)

end
