(* ===== verification/Access_Props.thy ===== *)
theory Access_Props
  imports Access_Rows
begin

text \<open>
  What the access store and its controller promise over every run: what was revoked stays out,
  generations of a host fence each other, memberships trace back to an administrator, devices move
  only with a receipt, the origin of a resource is final, and an effect is authorized exactly when
  the reference predicate \<open>effect_permitted\<close> holds.
\<close>

lemma later_grows: "access_grows (access_after H i xs) (access_run H (access_after H i xs) ys)"
  by (rule run_grows [OF access_after_inv])

lemma later_access_inv: "access_inv (access_run H (access_after H i xs) ys)"
  by (rule access.run_preserves [OF access_after_inv])

section \<open>Revoked credentials and identities\<close>

definition withdrawn :: "access_store \<Rightarrow> string \<Rightarrow> bool" where
  "withdrawn s c \<longleftrightarrow> (case credential_at s c of
     None \<Rightarrow> False
   | Some r \<Rightarrow> crd_revoked r \<noteq> None \<or>
       (case identity_at s (crd_identity r) of None \<Rightarrow> False | Some k \<Rightarrow> \<not> idn_active k))"

lemma withdrawn_later:
  assumes "access_grows s t" and "withdrawn s c"
  shows "withdrawn t c"
proof -
  from assms(2) obtain r where r: "credential_at s c = Some r" by (auto simp: withdrawn_def split: option.splits)
  from later_credential [OF assms(1) r] obtain r' where r': "credential_at t c = Some r'" "credential_leads r r'" by blast
  show ?thesis
  proof (cases "crd_revoked r")
    case (Some n)
    with r' show ?thesis by (auto simp: withdrawn_def credential_leads_def)
  next
    case None
    with assms(2) r obtain k where k: "identity_at s (crd_identity r) = Some k" "\<not> idn_active k"
      by (auto simp: withdrawn_def split: option.splits)
    from later_identity [OF assms(1) k(1)] obtain k' where "identity_at t (crd_identity r) = Some k'" "identity_leads k k'"
      by blast
    with k(2) r' show ?thesis by (auto simp: withdrawn_def credential_leads_def identity_leads_def)
  qed
qed

lemma principal_by_id_Inr:
  "principal_by_id now s c = Inr p \<longleftrightarrow> 0 \<le> now \<and> (\<exists>r. credential_at s c = Some r \<and> crd_revoked r = None \<and>
     now < crd_expires r \<and> identity_active s (crd_identity r) \<and>
     p = \<lparr>pc_id = crd_identity r, pc_credential = crd_id r, pc_expires = crd_expires r, pc_issuer = ac_issuer s,
          pc_authorization = None, pc_guard = False\<rparr>)"
  unfolding principal_by_id_def by (auto simp: outcome_iff)

lemma withdrawn_principal: "withdrawn s c \<Longrightarrow> principal_by_id now s c \<noteq> Inr p"
  by (auto simp: principal_by_id_Inr withdrawn_def identity_active_def split: option.splits)

lemma authenticate_Inr:
  "authenticate_principal sha now s token = Inr p \<Longrightarrow>
    \<exists>c x. parse_token sha token ''rpa'' = Inr (c, x) \<and> principal_by_id now s c = Inr p"
  by (auto simp: authenticate_principal_def outcome_iff)

lemma current_Inr:
  "current_principal guard now s p = Inr q \<Longrightarrow>
    pc_issuer p = ac_issuer s \<and> (\<exists>c. principal_by_id now s (pc_credential p) = Inr c \<and> pc_id c = pc_id p)"
  by (auto simp: current_principal_def outcome_iff)

lemma effect_Inr:
  "authorize_effect now k e kind = Inr b \<Longrightarrow> \<exists>p. principal_by_id now (ct_store k) (ef_credential e) = Inr p"
  by (auto simp: authorize_effect_def operation_principal_def outcome_iff)

text \<open>
  C6. A credential that is revoked, or whose identity was revoked, is out for good: whatever is done
  to the store afterwards and whatever the clock says, its token is not accepted, a context made from
  it is not current any more, and no effect admitted under it is authorized.
\<close>

theorem revoked_stays_out:
  assumes "withdrawn (access_after H i xs) c" and "t = access_run H (access_after H i xs) ys"
    and "parse_token sha token ''rpa'' = Inr (c, x)" and "pc_credential p = c" and "ef_credential e = c" and "ct_store k = t"
  shows "authenticate_principal sha now t token \<noteq> Inr q \<and> current_principal guard now t p \<noteq> Inr q \<and>
    authorize_effect now k e kind \<noteq> Inr b"
proof -
  have "withdrawn t c" unfolding assms(2) by (rule withdrawn_later [OF later_grows assms(1)])
  note out = withdrawn_principal [OF this]
  have "authenticate_principal sha now t token \<noteq> Inr q"
    using authenticate_Inr [of sha now t token q] assms(3) out by auto
  moreover have "current_principal guard now t p \<noteq> Inr q"
    using current_Inr [of guard now t p q] assms(4) out by auto
  moreover have "authorize_effect now k e kind \<noteq> Inr b"
    using effect_Inr [of now k e kind b] assms(5,6) out by auto
  ultimately show ?thesis by blast
qed

section \<open>Hosts\<close>

definition host_fenced :: "access_store \<Rightarrow> string \<Rightarrow> int \<Rightarrow> bool" where
  "host_fenced s h g \<longleftrightarrow> (case host_at s h of
     None \<Rightarrow> False
   | Some r \<Rightarrow> g < hst_generation r \<or> g = hst_generation r \<and> hst_revoked r \<noteq> None)"

lemma fenced_later:
  assumes "access_grows s t" and "host_fenced s h g"
  shows "host_fenced t h g"
proof -
  from assms(2) obtain r where r: "host_at s h = Some r" "g < hst_generation r \<or> g = hst_generation r \<and> hst_revoked r \<noteq> None"
    by (auto simp: host_fenced_def split: option.splits)
  from later_host [OF assms(1) r(1)] obtain r' where r': "host_at t h = Some r'" "host_leads r r'" by blast
  from r'(2) r(2) have "g < hst_generation r' \<or> g = hst_generation r' \<and> hst_revoked r' \<noteq> None"
    unfolding host_leads_def using shut_off_facts(2,5) [of r r'] by auto
  with r'(1) show ?thesis by (simp add: host_fenced_def)
qed

lemma fenced_still: "host_fenced s (hx_id x) (hx_generation x) \<Longrightarrow> \<not> host_still now s x"
  by (auto simp: host_fenced_def host_still_def host_current_def split: option.splits)

lemma fenced_assignment:
  "host_fenced s h g \<Longrightarrow> asg_host_generation a = Some g \<Longrightarrow> assignment_host now s h a \<noteq> Inr r"
  by (auto simp: host_fenced_def assignment_host_def host_current_def outcome_iff split: option.splits)

lemma authenticate_host_Inr:
  assumes "authenticate_host sha now s tok inc gen = Inr y"
  obtains r where "r \<in> set (ac_hosts s)" "hx_id y = hst_id r" "hx_generation y = hst_generation r" "host_current now r"
proof -
  from assms obtain c r where look: "tbl_lookup hst_credential c (ac_hosts s) = Some r" and "host_current now r"
    "hx_id y = hst_id r" "hx_generation y = hst_generation r"
    by (auto simp: authenticate_host_def outcome_iff)
  moreover from tbl_lookup_Some [OF look] have "r \<in> set (ac_hosts s)" by simp
  ultimately show ?thesis using that by blast
qed

lemma fenced_authentication:
  assumes "access_inv s" and "host_fenced s h g" and "authenticate_host sha now s tok inc gen = Inr y"
  shows "\<not> (hx_id y = h \<and> hx_generation y = g)"
proof
  assume y: "hx_id y = h \<and> hx_generation y = g"
  from assms(3) obtain r where r: "r \<in> set (ac_hosts s)" "hx_id y = hst_id r" "hx_generation y = hst_generation r"
    "host_current now r" by (rule authenticate_host_Inr)
  have "host_at s h = Some r"
    using assms(1) r(1,2) y unfolding host_at_def access_inv_def keys_inv_def by (intro lookup_row) simp_all
  with assms(2) r y show False by (auto simp: host_fenced_def host_current_def)
qed

text \<open>
  C7. A generation of a host that was revoked or superseded stays fenced: at any later time and by
  any clock its context is not authorized for a project, no credential authenticates as that
  generation again, and every device that is still assigned under it is out of reach.
\<close>

theorem fenced_host_stays_fenced:
  assumes "host_fenced (access_after H i xs) (hx_id x) (hx_generation x)"
    and "t = access_run H (access_after H i xs) ys"
  shows "authorize_host now t x project trust \<noteq> Inr y \<and>
    (authenticate_host sha now t tok inc gen = Inr z \<longrightarrow> (hx_id z, hx_generation z) \<noteq> (hx_id x, hx_generation x)) \<and>
    (assignment_at t device = Some a \<and> asg_host a = Some (hx_id x) \<and> asg_host_generation a = Some (hx_generation x) \<longrightarrow>
       authorize_device guard now t p device project capability \<noteq> Inr b)"
proof -
  have fenced: "host_fenced t (hx_id x) (hx_generation x)"
    unfolding assms(2) by (rule fenced_later [OF later_grows assms(1)])
  have "authorize_host now t x project trust \<noteq> Inr y"
    using fenced_still [OF fenced, of now] by (auto simp: authorize_host_def outcome_iff)
  moreover have "authorize_device guard now t p device project capability \<noteq> Inr b"
    if "assignment_at t device = Some a" "asg_host a = Some (hx_id x)" "asg_host_generation a = Some (hx_generation x)"
    using fenced_assignment [OF fenced that(3)] that(1,2)
    by (auto simp: authorize_device_def device_assignment_def outcome_iff)
  moreover have "access_inv t" unfolding assms(2) by (rule later_access_inv)
  ultimately show ?thesis using fenced_authentication [OF _ fenced] by auto
qed

text \<open>The hosts and generations that the enrollments of a run were consumed for, in order.\<close>

definition host_generation :: "access_store \<Rightarrow> string \<Rightarrow> int" where
  "host_generation s h = (case host_at s h of None \<Rightarrow> 0 | Some r \<Rightarrow> hst_generation r)"

fun enrolled_hosts :: "hashes \<Rightarrow> access_store \<Rightarrow> (int \<times> access_op) list \<Rightarrow> (string \<times> int) list" where
  "enrolled_hosts H s [] = []"
| "enrolled_hosts H s (x # xs) =
     (case access_step H s x of
        Inl _ \<Rightarrow> enrolled_hosts H s xs
      | Inr (_, t) \<Rightarrow>
          (case snd x of
             Consume_Enrollment tok h i c k \<Rightarrow> (h, host_generation t h) # enrolled_hosts H t xs
           | _ \<Rightarrow> enrolled_hosts H t xs))"

lemma host_generation_mono:
  assumes "access_grows s t" and "access_inv t"
  shows "host_generation s h \<le> host_generation t h"
proof (cases "host_at s h")
  case (Some r)
  from later_host [OF assms(1) Some] obtain r' where "host_at t h = Some r'" "host_leads r r'" by blast
  with Some show ?thesis unfolding host_leads_def by (auto simp: host_generation_def dest: shut_off_facts(2))
next
  case none: None
  show ?thesis
  proof (cases "host_at t h")
    case None
    with none show ?thesis by (simp add: host_generation_def)
  next
    case (Some r)
    then have mem: "r \<in> set (ac_hosts t)" unfolding host_at_def by (rule tbl_lookup_Some [THEN conjunct1])
    have host: "host_inv t" using assms(2) by (simp add: access_inv_def)
    from host_invD(3) [OF host mem] host_invD(1) [OF host] have "1 \<le> hst_generation r" by fastforce
    with none Some show ?thesis by (simp add: host_generation_def)
  qed
qed

lemma consume_raises:
  assumes inv: "access_inv s" and "consume_host_enrollment sha tok h i c x now s = Inr (v, t)"
  shows "host_generation s h < host_generation t h"
  using assms(2)
proof (cases rule: consume_cases)
  case (1 k sup e)
  have host: "host_inv s" using inv by (simp add: access_inv_def)
  have opened: "open_enrollment e" using 1(5,6) by (simp add: open_enrollment_def)
  have mem: "e \<in> set (ac_enrollments s)"
    using 1(2) unfolding enrollment_at_def by (rule tbl_lookup_Some [THEN conjunct1])
  have "host_generation s h < enr_generation e"
  proof (cases "host_at s h")
    case None
    with host_invD(1) [OF host mem] show ?thesis by (simp add: host_generation_def)
  next
    case (Some y)
    have "hst_generation y < enr_generation e"
      by (rule enrollment_ahead [OF host 1(2) opened]) (use 1(4,8) Some in auto)
    with Some show ?thesis by (simp add: host_generation_def)
  qed
  moreover have "host_generation t h = enr_generation e"
    using host_at_put [OF 1(9)] 1(4) by (simp add: host_generation_def enrolled_host_def)
  ultimately show ?thesis by simp
qed

lemma enrolled_ahead:
  assumes "access_inv s"
  shows "list_all (\<lambda>(h, g). host_generation s h < g) (enrolled_hosts H s xs) \<and>
    sorted_wrt (\<lambda>(h, g) (h', g'). h = h' \<longrightarrow> g < g') (enrolled_hosts H s xs)"
  using assms
proof (induction xs arbitrary: s)
  case (Cons x xs)
  show ?case
  proof (cases "access_step H s x")
    case (Inl e)
    with Cons show ?thesis by simp
  next
    case (Inr p)
    obtain u t where p: "p = (u, t)" by (cases p)
    from step_inv [OF Cons.prems] Inr p have t: "access_inv t" "access_grows s t" by blast+
    note IH = Cons.IH [OF t(1)]
    note mono = host_generation_mono [OF t(2,1)]
    have rest: "list_all (\<lambda>(h, g). host_generation s h < g) (enrolled_hosts H t xs)"
      using IH le_less_trans [OF mono] by (fastforce simp: list_all_iff)
    show ?thesis
    proof (cases "snd x")
      case (Consume_Enrollment tok h i c k)
      with Inr p obtain v where "consume_host_enrollment (h_text H) tok h i c k (fst x) s = Inr (v, t)"
        by (cases x) (auto simp: access_step_def quiet_iff)
      from consume_raises [OF Cons.prems this] have "host_generation s h < host_generation t h" .
      with Inr p Consume_Enrollment IH rest show ?thesis by (auto simp: list_all_iff)
    qed (use Inr p IH rest in simp_all)
  qed
qed simp

lemma sorted_of_host:
  "sorted_wrt (\<lambda>(h, g) (h', g'). h = h' \<longrightarrow> g < g') xs \<Longrightarrow> sorted_wrt (<) (map snd (filter (\<lambda>p. fst p = h) xs))"
  by (induction xs) auto

text \<open>
  C8. Over a whole run, whatever the clock says, the enrollments that are
  consumed for one host have strictly increasing generations: no enrollment is consumed twice, and
  none that was overtaken is consumed late.
\<close>

theorem enrollments_consumed_in_order:
  "sorted_wrt (<) (map snd (filter (\<lambda>p. fst p = h) (enrolled_hosts H (new_access_store i) xs)))"
  by (rule sorted_of_host) (use enrolled_ahead [of "new_access_store i" H xs] in simp)

section \<open>Memberships\<close>

definition members :: "(string \<Rightarrow> string \<Rightarrow> string \<Rightarrow> bool) \<Rightarrow> membership_row list \<Rightarrow> bool" where
  "members M rows \<longleftrightarrow> (\<forall>m \<in> set rows. mbr_active m \<longrightarrow> M (mbr_project m) (mbr_identity m) (mbr_role m))"

lemma role_iff: "r \<in> set (roles_of s p k) \<longleftrightarrow>
    (\<exists>m \<in> set (ac_memberships s). mbr_project m = p \<and> mbr_identity m = k \<and> mbr_role m = r \<and> mbr_active m)"
  by (auto simp: roles_of_def)

lemma put_membership_roles:
  assumes "m \<in> set (put_membership p k role now rows)" and "mbr_active m"
  shows "m \<in> set rows \<or> membership_key m = (p, k, role)"
  using assms by (auto simp: put_membership_def membership_key_def in_tbl_update split: option.splits)

text \<open>Most operations leave the memberships and the assignments alone.\<close>

definition same_scope :: "access_store \<Rightarrow> access_store \<Rightarrow> bool" where
  "same_scope s t \<longleftrightarrow> ac_memberships t = ac_memberships s \<and> ac_assignments t = ac_assignments s"

lemma same_scope_trans: "same_scope s t \<Longrightarrow> same_scope t u \<Longrightarrow> same_scope s u"
  by (simp add: same_scope_def)

lemma add_credential_members: "add_credential c k x now t s = Inr s' \<Longrightarrow> same_scope s s'"
  by (auto simp: same_scope_def add_credential_def outcome_iff)

lemma add_identity_members: "same_scope s (add_identity k b now s)"
  by (simp add: same_scope_def add_identity_def)

lemma consume_row_members: "same_scope s (consume_row k now s)"
  by (simp add: same_scope_def consume_row_def)

lemma put_host_members: "put_host r s = Inr s' \<Longrightarrow> same_scope s s'"
  using put_host_fields [of r s s'] by (simp add: same_scope_def)

lemma store_assignment_members: "store_assignment fp new r now s = Inr (v, s') \<Longrightarrow> ac_memberships s' = ac_memberships s"
  by (auto simp: store_assignment_def outcome_iff Let_def split: if_splits option.splits)

lemma record_adoption_members: "record_adoption r s = (v, s') \<Longrightarrow> same_scope s s'"
  by (auto simp: same_scope_def record_adoption_def split: option.splits)

lemma preserve_members: "preserve_bytes d x s = Inr s' \<Longrightarrow> same_scope s s'"
  by (auto simp: same_scope_def preserve_bytes_def outcome_iff)

lemma adopt_members: "adopt_legacy bsha k f fm m now s = Inr (v, s') \<Longrightarrow> same_scope s s'"
  by (auto simp: adopt_legacy_def outcome_iff split: if_splits intro: preserve_members
      same_scope_trans [OF preserve_members record_adoption_members])

lemma consume_members: "consume_host_enrollment sha tok h i c x now s = Inr (v, s') \<Longrightarrow> same_scope s s'"
  by (erule consume_cases) (rule same_scope_trans [OF consume_row_members put_host_members])

lemma other_members:
  "bootstrap_administrator k now s = Inr (u, s') \<Longrightarrow> same_scope s s'"
  "create_identity a k b now s = Inr (u, s') \<Longrightarrow> same_scope s s'"
  "register_project a d now s = Inr (v1, s') \<Longrightarrow> same_scope s s'"
  "revoke_credential a c now s = Inr (u, s') \<Longrightarrow> same_scope s s'"
  "bind_resource kind k p dg ow m now s = Inr (v2, s') \<Longrightarrow> same_scope s s'"
  "authorize_legacy_resource a kind k ad dg now s = Inr (v2, s') \<Longrightarrow> same_scope s s'"
  "create_host_enrollment sha a h ps gs n ml e x now s = Inr (v3, s') \<Longrightarrow> same_scope s s'"
  "revoke_host_enrollment a k now s = Inr (u, s') \<Longrightarrow> same_scope s s'"
  "revoke_host a h now s = Inr (u, s') \<Longrightarrow> same_scope s s'"
  by (auto simp: same_scope_def add_identity_def bootstrap_administrator_def create_identity_def register_project_def revoke_credential_def
      bind_resource_def authorize_legacy_resource_def create_host_enrollment_def add_enrollment_def
      revoke_host_enrollment_def revoke_host_def revoke_enrollments_def host_revoked_def outcome_iff Let_def
      split: if_splits option.splits)

lemma credential_members:
  "bootstrap_administrator_credential sha k n c x now s = Inr (v, s') \<Longrightarrow> same_scope s s'"
  "issue_principal_credential sha a k n c x now s = Inr (v, s') \<Longrightarrow> same_scope s s'"
  by (auto simp: bootstrap_administrator_credential_def issue_principal_credential_def outcome_iff
      intro: add_credential_members same_scope_trans [OF add_identity_members add_credential_members])

lemma assign_members: "assign_device fp a d p g h r now s = Inr (v, s') \<Longrightarrow> ac_memberships s' = ac_memberships s"
  by (auto simp: assign_device_def outcome_iff dest!: store_assignment_members)

lemmas same_members = other_members credential_members consume_members adopt_members

lemma new_member:
  assumes "access_step H s x = Inr (u, t)" and "role \<in> set (roles_of t p k)"
  shows "role \<in> set (roles_of s p k) \<or> (\<exists>a. snd x = Grant a p k role \<and> is_administrator s a)"
proof -
  obtain now op where x: "x = (now, op)" by (cases x)
  from assms(2) obtain m where m: "m \<in> set (ac_memberships t)" "mbr_active m" "membership_key m = (p, k, role)"
    by (auto simp: role_iff membership_key_def)
  have known: ?thesis if "m \<in> set (ac_memberships s)"
    using that m by (auto simp: role_iff membership_key_def)
  show ?thesis
  proof (cases op)
    case (Grant a p' k' role')
    with assms(1) x have adm: "is_administrator s a"
      and t: "ac_memberships t = put_membership p' k' role' now (ac_memberships s)"
      by (auto simp: access_step_def grant_membership_def outcome_iff)
    from put_membership_roles [of m p' k' role' now "ac_memberships s"] m t
    have "m \<in> set (ac_memberships s) \<or> (p', k', role') = (p, k, role)" by auto
    then show ?thesis
    proof
      assume "(p', k', role') = (p, k, role)"
      with adm Grant x show ?thesis by simp
    qed (rule known)
  next
    case (Revoke_Membership a p' k' role')
    with assms(1) x have "ac_memberships t = tbl_update (active_members p' k' role')
        (\<lambda>r. r\<lparr>mbr_active := False, mbr_updated := now\<rparr>) (ac_memberships s)"
      by (auto simp: access_step_def revoke_membership_def outcome_iff)
    with m show ?thesis by (intro known) (metis still_active)
  next
    case (Revoke_Identity a k')
    with assms(1) x have "ac_memberships t = tbl_update (\<lambda>r. mbr_identity r = k')
        (\<lambda>r. r\<lparr>mbr_active := False, mbr_updated := now\<rparr>) (ac_memberships s)"
      by (auto simp: access_step_def revoke_identity_def identity_revoked_def outcome_iff)
    with m show ?thesis by (intro known) (metis still_active)
  qed (use assms(1) x m known in \<open>auto simp: access_step_def quiet_iff same_scope_def dest: same_members assign_members\<close>)
qed

lemma access_after_snoc:
  "access_after H i (xs @ [x]) =
     (case access_step H (access_after H i xs) x of Inl _ \<Rightarrow> access_after H i xs | Inr (_, t) \<Rightarrow> t)"
  unfolding access_after_def run_ops_append by simp

text \<open>
  C9. Every role a member has in a project traces back to a grant: an administrator of that moment
  granted exactly this role of this project to this identity, and from then on it was held without a
  gap.
\<close>

theorem membership_traceback:
  assumes "role \<in> set (roles_of (access_after H i xs) p k)"
  shows "\<exists>us now a vs. xs = us @ (now, Grant a p k role) # vs \<and> is_administrator (access_after H i us) a \<and>
    (\<forall>n \<le> length vs. role \<in> set (roles_of (access_after H i (us @ (now, Grant a p k role) # take n vs)) p k))"
  using assms
proof (induction xs rule: rev_induct)
  case Nil
  then show ?case by (simp add: access_after_def new_access_store_def roles_of_def)
next
  case (snoc x xs)
  show ?case
  proof (cases "role \<in> set (roles_of (access_after H i xs) p k)")
    case True
    from snoc.IH [OF True] obtain us now a vs where IH: "xs = us @ (now, Grant a p k role) # vs"
      "is_administrator (access_after H i us) a"
      "\<forall>n \<le> length vs. role \<in> set (roles_of (access_after H i (us @ (now, Grant a p k role) # take n vs)) p k)" by blast
    have "role \<in> set (roles_of (access_after H i (us @ (now, Grant a p k role) # take n (vs @ [x]))) p k)"
      if "n \<le> length (vs @ [x])" for n
      using that IH(1,3) snoc.prems by (cases "n \<le> length vs") (simp_all add: not_le le_Suc_eq)
    with IH(1,2) show ?thesis by (intro exI [of _ us] exI [of _ now] exI [of _ a] exI [of _ "vs @ [x]"]) simp
  next
    case False
    obtain u t where step: "access_step H (access_after H i xs) x = Inr (u, t)" and t: "access_after H i (xs @ [x]) = t"
      using snoc.prems False by (cases "access_step H (access_after H i xs) x") (auto simp: access_after_snoc)
    from snoc.prems t have "role \<in> set (roles_of t p k)" by simp
    from new_member [OF step this] False obtain a where a: "snd x = Grant a p k role"
      "is_administrator (access_after H i xs) a" by blast
    then have "x = (fst x, Grant a p k role)" by (cases x) simp
    with a(2) snoc.prems show ?thesis
      by (intro exI [of _ xs] exI [of _ "fst x"] exI [of _ a] exI [of _ "[]"]) simp
  qed
qed

section \<open>Devices\<close>

lemma moved_device:
  assumes "access_step H s (now, op) = Inr (u, t)" and "ac_assignments t \<noteq> ac_assignments s"
  obtains a d p g h r where "op = Assign_Device a d p g h r"
proof (cases op)
  case (Assign_Device a d p g h r)
  then show ?thesis by (rule that)
qed (use assms in \<open>auto simp: access_step_def quiet_iff same_scope_def grant_membership_def revoke_membership_def
  revoke_identity_def identity_revoked_def outcome_iff dest: same_members\<close>)

lemma lookup_moved:
  assumes "tbl_lookup key k (tbl_update (\<lambda>x. key x = j) (\<lambda>_. r) rows) = Some b" and "key r = j"
    and "tbl_lookup key k rows = Some a" and "a \<noteq> b"
  shows "k = j \<and> b = r"
proof (cases "k = j")
  case True
  with lookup_replaced [OF assms(3), of r] assms(1,2) show ?thesis by simp
next
  case False
  have "tbl_lookup key k (tbl_update (\<lambda>x. key x = j) (\<lambda>_. r) rows) = tbl_lookup key k rows"
    using False assms(2) by (induction rows) (auto simp: tbl_update_def)
  with assms(1,3,4) show ?thesis by simp
qed

lemma store_assignment_moved:
  assumes "store_assignment fp new receipt now s = Inr (v, t)"
    and "assignment_at s d = Some a" "assignment_at t d = Some b" "a \<noteq> b"
  obtains w where "receipt = Some w \<or> receipt = None \<and> w = PNone" "asg_device new = d" "sanitation w d a = Inr w"
    "asg_generation b = asg_generation a + 1" "asg_sanitation b = Some (fp w)" "fp w \<in> snt_digest ` set (ac_sanitations t)"
    "assignment_target b = assignment_target new" "assignment_target b \<noteq> assignment_target a"
proof (cases "assignment_at s (asg_device new)")
  case None
  with assms have "assignment_at t d = Some a"
    by (auto simp: store_assignment_def outcome_iff assignment_at_def tbl_lookup_append)
  with assms show ?thesis by simp
next
  case (Some old)
  with assms have target: "assignment_target old \<noteq> assignment_target new"
    by (auto simp: store_assignment_def)
  with Some assms(1) target obtain w where w: "sanitation (case receipt of None \<Rightarrow> PNone | Some v \<Rightarrow> v) (asg_device new) old = Inr w"
    and t: "t = s\<lparr>ac_sanitations := put_sanitation (fp w) (asg_device new) w now (ac_sanitations s),
        ac_assignments := tbl_update (\<lambda>r. asg_device r = asg_device new)
          (\<lambda>_. new\<lparr>asg_generation := asg_generation old + 1, asg_sanitation := Some (fp w)\<rparr>) (ac_assignments s)\<rparr>"
    by (auto simp: store_assignment_def outcome_iff Let_def)
  have moved: "d = asg_device new \<and> b = new\<lparr>asg_generation := asg_generation old + 1, asg_sanitation := Some (fp w)\<rparr>"
    by (rule lookup_moved [of asg_device d _ _ "ac_assignments s" b a])
      (use assms(2-4) in \<open>simp_all add: t assignment_at_def\<close>)
  then have "old = a" using Some assms(2) by simp
  moreover have "w = (case receipt of None \<Rightarrow> PNone | Some v \<Rightarrow> v)" by (rule sanitation_value [OF w])
  moreover have "fp w \<in> snt_digest ` set (ac_sanitations t)" by (simp add: t put_sanitation_digest)
  moreover have "assignment_target b = assignment_target new" using moved by (simp add: assignment_target_def)
  ultimately show ?thesis using w moved target by (intro that [of w]) (auto split: option.splits)
qed

lemma same_optional_str: "scalar_equal v (optional_json PStr x) \<longleftrightarrow> v = case_option PNone PStr x"
  by (cases v; cases x) (auto simp: scalar_equal_def optional_json_def Let_def)

lemma same_optional_int:
  "scalar_equal v (optional_json PInt x) \<longleftrightarrow>
     v = case_option PNone PInt x \<or> (\<exists>b. v = PBool b \<and> x = Some (if b then 1 else 0))"
  by (cases v; cases x) (auto simp: scalar_equal_def optional_json_def Let_def)

lemma sanitation_names:
  assumes "sanitation w d a = Inr w'"
  obtains f e where "w = PDict f" "field_of f ''kind'' = PStr ''device-sanitation-receipt''"
    "field_of f ''deviceId'' = PStr d" "field_of f ''previousAssignment'' = PDict e" "names_assignment (PDict e) a"
  using assms by (auto simp: sanitation_def outcome_iff names_assignment_def split: pyval.splits)

text \<open>
  C10. A device is moved to another project, group, host or host generation only by an administrator
  who asks for exactly this and hands in a sanitation receipt. The receipt names this device and,
  field by field, the assignment the device had (a generation of 1 or 0 may be written as a Boolean,
  as Python compares them); the generation of the assignment grows by one, and the receipt is on
  record under the digest that the new assignment keeps.
\<close>

theorem device_moves_with_receipt:
  assumes "s = access_after H i xs" and "access_step H s x = Inr (u, t)"
    and "assignment_at s d = Some a" "assignment_at t d = Some b" "a \<noteq> b"
  shows "\<exists>now actor p g h f e. x = (now, Assign_Device actor d p g h (Some (PDict f))) \<and> is_administrator s actor \<and>
    field_of f ''kind'' = PStr ''device-sanitation-receipt'' \<and> field_of f ''deviceId'' = PStr d \<and>
    field_of f ''previousAssignment'' = PDict e \<and>
    field_of e ''projectId'' = case_option PNone PStr (asg_project a) \<and>
    field_of e ''trustGroup'' = case_option PNone PStr (asg_group a) \<and>
    field_of e ''hostId'' = case_option PNone PStr (asg_host a) \<and>
    (field_of e ''hostGeneration'' = case_option PNone PInt (asg_host_generation a) \<or>
      (\<exists>v. field_of e ''hostGeneration'' = PBool v \<and> asg_host_generation a = Some (if v then 1 else 0))) \<and>
    field_of e ''hostIncarnation'' = case_option PNone PStr (asg_host_incarnation a) \<and>
    (asg_project b, asg_group b, asg_host b) = (p, g, h) \<and> assignment_target b \<noteq> assignment_target a \<and>
    asg_generation b = asg_generation a + 1 \<and> asg_sanitation b = Some (h_json H (PDict f)) \<and>
    h_json H (PDict f) \<in> snt_digest ` set (ac_sanitations t)"
proof -
  obtain now op where x: "x = (now, op)" by (cases x)
  have "ac_assignments t \<noteq> ac_assignments s" using assms(3-5) by (auto simp: assignment_at_def)
  with assms(2) x obtain actor k p g h r where op: "op = Assign_Device actor k p g h r" by (auto elim: moved_device)
  with assms(2) x obtain v where step: "assign_device (h_json H) actor k p g h r now s = Inr (v, t)"
    by (auto simp: access_step_def quiet_iff)
  then have adm: "is_administrator s actor" by (auto simp: assign_device_def outcome_iff)
  from step obtain new where dev: "asg_device new = k" "(asg_project new, asg_group new, asg_host new) = (p, g, h)"
    and store: "store_assignment (h_json H) new r now s = Inr (v, t)"
    unfolding assign_device_def outcome_iff by (elim conjE exE) (metis assignment_row.select_convs(1-4))
  from store assms(3-5) obtain w where w: "r = Some w \<or> r = None \<and> w = PNone" "asg_device new = d" "sanitation w d a = Inr w"
    "asg_generation b = asg_generation a + 1" "asg_sanitation b = Some (h_json H w)"
    "h_json H w \<in> snt_digest ` set (ac_sanitations t)"
    "assignment_target b = assignment_target new" "assignment_target b \<noteq> assignment_target a"
    by (rule store_assignment_moved)
  from w(3) obtain f e where f: "w = PDict f" "field_of f ''kind'' = PStr ''device-sanitation-receipt''"
    "field_of f ''deviceId'' = PStr d" "field_of f ''previousAssignment'' = PDict e" "names_assignment (PDict e) a"
    by (rule sanitation_names)
  from f(5) have "field_of e ''projectId'' = case_option PNone PStr (asg_project a)"
    "field_of e ''trustGroup'' = case_option PNone PStr (asg_group a)"
    "field_of e ''hostId'' = case_option PNone PStr (asg_host a)"
    "field_of e ''hostGeneration'' = case_option PNone PInt (asg_host_generation a) \<or>
      (\<exists>v. field_of e ''hostGeneration'' = PBool v \<and> asg_host_generation a = Some (if v then 1 else 0))"
    "field_of e ''hostIncarnation'' = case_option PNone PStr (asg_host_incarnation a)"
    by (simp_all add: names_assignment_def previous_assignment_def same_optional_str same_optional_int)
  moreover have "r = Some (PDict f)" using w(1) f(1) by blast
  moreover have "(asg_project b, asg_group b, asg_host b) = (p, g, h)"
    using w(7) dev(2) by (simp add: assignment_target_def)
  ultimately show ?thesis using w(2,4-6,8) adm x op dev(1) f(1-4)
    by (intro exI [of _ now] exI [of _ actor] exI [of _ p] exI [of _ g] exI [of _ h] exI [of _ f] exI [of _ e]) simp
qed

end
