(* ===== verification/Access_Effects.thy ===== *)
theory Access_Effects
  imports Access_Props
begin

text \<open>
  What reading the access store promises: the origin of a resource is final, a resource of a project
  one may not read looks like one that does not exist, the list of authorized projects is exact, and
  \<open>authorize_effect\<close>, which the sessions call before every effect on a device, holds exactly under
  the reference predicate \<open>effect_permitted\<close>.
\<close>

section \<open>Resources\<close>

lemma after_scope: "scope_inv (access_after H i xs)" and later_scope: "scope_inv (access_run H (access_after H i xs) ys)"
  using access_after_inv [of H i xs] later_access_inv [of H i xs ys] by (simp_all add: access_inv_def)

lemma resource_row_ok:
  assumes "scope_inv s" and "resource_at s kind k = Some r"
  shows "resource_ok s r" and "rsc_kind r = kind" and "rsc_id r = k"
proof -
  from tbl_lookup_Some [OF assms(2) [unfolded resource_at_def]] have "r \<in> set (ac_resources s)"
    and "rsc_kind r = kind" and "rsc_id r = k" by auto
  then show "resource_ok s r" "rsc_kind r = kind" "rsc_id r = k" using assms(1) by (auto simp: scope_inv_def)
qed

text \<open>
  C11. Where a resource comes from never changes: its project, the project revision that admitted it
  and its owner are those of the binding for ever. The one change there is turns an inert legacy
  resource into an authorized one, and then an adoption of a recording is on record for it.
\<close>

theorem resource_origin_final:
  assumes "resource_at (access_after H i xs) kind k = Some r" and "t = access_run H (access_after H i xs) ys"
  shows "\<exists>r'. resource_at t kind k = Some r' \<and>
    (rsc_project r', rsc_digest r', rsc_owner r') = (rsc_project r, rsc_digest r, rsc_owner r) \<and>
    (r' = r \<or> rsc_meaning r = ''legacy-inert'' \<and> rsc_meaning r' = ''legacy-authorized'' \<and>
      (\<exists>a d. rsc_adoption r' = Some a \<and> adoption_at t a = Some d \<and> ado_meaning d = ''legacy-recording-only''))"
proof -
  from later_resource [OF later_grows assms(1), of ys] obtain r' where r': "resource_at t kind k = Some r'"
    "resource_leads r r'" unfolding assms(2) by blast
  show ?thesis
  proof (cases "r' = r")
    case True
    with r'(1) show ?thesis by blast
  next
    case False
    with r'(2) have up: "promotion r r'" by (simp add: resource_leads_def)
    note facts = promotion_facts [OF up]
    have "resource_ok t r'" unfolding assms(2)
      by (rule resource_row_ok(1) [OF later_scope]) (use r'(1) assms(2) in simp)
    with facts(8) obtain a d where "rsc_adoption r' = Some a" "adoption_at t a = Some d" "ado_meaning d = ''legacy-recording-only''"
      by (auto simp: resource_ok_def)
    with r'(1) facts show ?thesis by (intro exI [of _ r']) simp
  qed
qed

lemma current_fields:
  assumes "current_principal guard now s p = Inr c"
  shows "pc_id c = pc_id p" "pc_credential c = pc_credential p" "pc_issuer c = ac_issuer s"
    "pc_authorization c = pc_authorization p" "pc_guard c = pc_guard p"
proof -
  from assms obtain b where b: "principal_by_id now s (pc_credential p) = Inr b" "pc_id b = pc_id p"
    and c: "if pc_guard p then c = b\<lparr>pc_authorization := pc_authorization p, pc_guard := True\<rparr>
            else pc_authorization p = None \<and> c = b"
    unfolding current_principal_def by (auto simp: outcome_iff split: if_splits)
  from b(1) obtain r where r: "credential_at s (pc_credential p) = Some r"
    "b = \<lparr>pc_id = crd_identity r, pc_credential = crd_id r, pc_expires = crd_expires r, pc_issuer = ac_issuer s,
          pc_authorization = None, pc_guard = False\<rparr>" unfolding principal_by_id_Inr by blast
  have "crd_id r = pc_credential p" using tbl_lookup_Some [OF r(1) [unfolded credential_at_def]] by simp
  with b(2) c r(2) show "pc_id c = pc_id p" "pc_credential c = pc_credential p" "pc_issuer c = ac_issuer s"
    "pc_authorization c = pc_authorization p" "pc_guard c = pc_guard p" by (auto split: if_splits)
qed

lemma guard_same:
  "pc_id c = pc_id p \<Longrightarrow> pc_credential c = pc_credential p \<Longrightarrow> pc_authorization c = pc_authorization p \<Longrightarrow>
    browser_guard now k c = browser_guard now k p"
  by (simp add: browser_guard_def cong: option.case_cong)

lemma current_again:
  assumes "current_principal (browser_guard now k) now s p = Inr c"
  shows "current_principal (browser_guard now k) now s c = Inr c"
proof -
  note f = current_fields [OF assms]
  have "pc_issuer p = ac_issuer s" using assms by (auto simp: current_principal_def outcome_iff)
  with assms show ?thesis
    unfolding current_principal_def f guard_same [OF f(1,2,4)] by simp
qed

lemma no_role:
  assumes cur: "current_principal guard now s c = Inr c" and "roles_of s p (pc_id c) = []" and "is_word_id p"
  shows "authorize guard now s c (Some p) capability = Inl (forbidden ''Project capability is not granted'')"
  using assms by (simp add: authorize_def identified_def)

text \<open>
  C12. A principal without a role in the project of a resource cannot tell the resource from one that
  is not bound at all: whatever capability is asked for, executable or not, the answer is the same.
\<close>

theorem unreadable_resource_hidden:
  assumes "ct_store k = access_after H i xs" and "resource_at (ct_store k) kind a = Some r"
    and "resource_at (ct_store k) kind b = None" and "is_word_id b"
    and "roles_of (ct_store k) (rsc_project r) (pc_id p) = []"
  shows "control_authorize_resource now k p kind a capability executable =
    control_authorize_resource now k p kind b capability executable"
proof (cases "current_principal (browser_guard now k) now (ct_store k) p")
  case (Inl e)
  then show ?thesis by (simp add: control_authorize_resource_def authorize_resource_def)
next
  case (Inr c)
  note cur = current_again [OF Inr]
  have scope: "scope_inv (ct_store k)" unfolding assms(1) by (rule after_scope)
  note row = resource_row_ok [OF scope assms(2)]
  show ?thesis
  proof (cases "kind \<in> set RESOURCE_KINDS")
    case False
    then show ?thesis by (simp add: control_authorize_resource_def authorize_resource_def access_resource_def Inr)
  next
    case True
    have b: "access_resource (ct_store k) kind b = Inl not_found"
      using True assms(3,4) by (simp add: access_resource_def identified_def)
    from row obtain d where "project_at (ct_store k) (rsc_project r) = Some d" "prj_active d"
      by (auto simp: resource_ok_def project_active_def split: option.splits)
    then have a: "access_resource (ct_store k) kind a = Inr (binding_of r)"
      using True assms(2) row by (simp add: access_resource_def identified_def access_project_def resource_ok_def)
    have "authorize (browser_guard now k) now (ct_store k) c (Some (rb_project (binding_of r))) cap =
        Inl (forbidden ''Project capability is not granted'')" for cap
      using row(1) assms(5) current_fields(1) [OF Inr] by (intro no_role [OF cur]) (simp_all add: binding_of_def resource_ok_def)
    then show ?thesis using a b
      by (simp add: control_authorize_resource_def authorize_resource_def Inr forbidden_def not_found_def)
  qed
qed

text \<open>
  C13. The list of projects a principal is told to have a capability in is exact: sorted, without
  duplicates, and it holds a project exactly when the capability would be authorized there.
\<close>

theorem authorized_projects_exact:
  assumes "s = access_after H i xs" and "authorized_project_ids guard now s p capability = Inr ks"
  shows "sorted ks \<and> distinct ks \<and> (\<forall>k. k \<in> set ks \<longleftrightarrow> (\<exists>c. authorize guard now s p (Some k) capability = Inr c))"
proof -
  from assms(2) obtain c where c: "current_principal guard now s p = Inr c"
    and ks: "ks = sort (remdups (map mbr_project (filter (\<lambda>r. mbr_active r \<and> mbr_identity r = pc_id c \<and>
      project_active s (mbr_project r) \<and> capability \<in> set (role_capabilities (mbr_role r))) (ac_memberships s))))"
    unfolding authorized_project_ids_def by (auto simp: outcome_iff)
  have word: "is_word_id (mbr_project m)" if "m \<in> set (ac_memberships s)" for m
    using after_scope [of H i xs] that by (simp add: scope_inv_def assms(1))
  have "k \<in> set ks \<longleftrightarrow> (\<exists>c. authorize guard now s p (Some k) capability = Inr c)" for k
  proof -
    have "(\<exists>c. authorize guard now s p (Some k) capability = Inr c) \<longleftrightarrow>
        is_word_id k \<and> project_active s k \<and> list_ex (\<lambda>role. capability \<in> set (role_capabilities role)) (roles_of s k (pc_id c))"
      by (simp add: authorize_def c outcome_iff)
    also have "\<dots> \<longleftrightarrow> k \<in> set ks"
      using word by (auto simp: ks roles_of_def list_ex_iff)
    finally show ?thesis by simp
  qed
  then show ?thesis by (simp add: ks)
qed

section \<open>Effects on devices\<close>

text \<open>
  The reference: a live credential of an active identity, the browser session (if any) of this
  principal, a registered project at the admitted revision, a role with the capability of the effect,
  and the device assigned to the project under a host that is current.
\<close>

definition credential_live :: "int \<Rightarrow> access_store \<Rightarrow> string \<Rightarrow> string \<Rightarrow> bool" where
  "credential_live now s c who = (case credential_at s c of
     None \<Rightarrow> False
   | Some r \<Rightarrow> crd_revoked r = None \<and> now < crd_expires r \<and> crd_identity r = who \<and> identity_active s who)"

definition session_live :: "int \<Rightarrow> access_control \<Rightarrow> string option \<Rightarrow> string \<Rightarrow> string \<Rightarrow> bool" where
  "session_live now c session who cred = (case session of
     None \<Rightarrow> True
   | Some k \<Rightarrow> (case map_of (ct_sessions c) k of
       None \<Rightarrow> False
     | Some b \<Rightarrow> now < bs_expires b \<and> bs_principal b = who \<and> bs_credential b = cred))"

definition host_reachable :: "int \<Rightarrow> access_store \<Rightarrow> assignment_row \<Rightarrow> string \<Rightarrow> string \<Rightarrow> bool" where
  "host_reachable now s a project trust = (case asg_host a of
     None \<Rightarrow> True
   | Some h \<Rightarrow> (case host_at s h of
       None \<Rightarrow> False
     | Some r \<Rightarrow> host_current now r \<and> asg_host_generation a = Some (hst_generation r) \<and>
         asg_host_incarnation a = Some (hst_incarnation r) \<and>
         (project \<in> set (hst_projects r) \<or> trust \<in> set (hst_groups r))))"

definition device_reachable :: "int \<Rightarrow> access_store \<Rightarrow> string \<Rightarrow> string \<Rightarrow> string \<Rightarrow> bool" where
  "device_reachable now s device project trust = (case assignment_at s device of
     None \<Rightarrow> False
   | Some a \<Rightarrow> (asg_project a = Some project \<or> asg_group a = Some trust) \<and> host_reachable now s a project trust)"

definition has_capability :: "access_store \<Rightarrow> string \<Rightarrow> string \<Rightarrow> string \<Rightarrow> bool" where
  "has_capability s project who capability =
     list_ex (\<lambda>role. capability \<in> set (role_capabilities role)) (roles_of s project who)"

definition effect_permitted :: "int \<Rightarrow> access_control \<Rightarrow> effect_authority \<Rightarrow> string \<Rightarrow> bool" where
  "effect_permitted now c e kind \<longleftrightarrow> 0 \<le> now \<and> is_word_id (ef_project e) \<and> is_word_id (ef_device e) \<and>
     credential_live now (ct_store c) (ef_credential e) (ef_principal e) \<and>
     session_live now c (ef_authorization e) (ef_principal e) (ef_credential e) \<and>
     (case project_at (ct_store c) (ef_project e) of
        None \<Rightarrow> False
      | Some d \<Rightarrow> prj_active d \<and> prj_digest d = ef_digest e \<and> is_hex_digest (ef_digest e) \<and>
          map_of (ct_registrations c) (ef_project e, ef_digest e) \<noteq> None \<and>
          device_reachable now (ct_store c) (ef_device e) (ef_project e) (prj_group d)) \<and>
     has_capability (ct_store c) (ef_project e) (ef_principal e) (effect_capability kind)"

lemma access_project_iff:
  "access_project s k = Inr d \<longleftrightarrow> is_word_id k \<and> project_at s k = Some d \<and> prj_active d"
  by (auto simp: access_project_def outcome_iff)

lemma registration_iff:
  "registration_of c p None = Inr g \<longleftrightarrow>
    (\<exists>d. access_project (ct_store c) p = Inr d \<and> is_hex_digest (prj_digest d) \<and>
      map_of (ct_registrations c) (p, prj_digest d) = Some g)"
  by (auto simp: registration_of_def outcome_iff Let_def)

lemma authorize_iff:
  "authorize guard now s p (Some k) capability = Inr c \<longleftrightarrow>
    current_principal guard now s p = Inr c \<and> is_word_id k \<and> project_active s k \<and> has_capability s k (pc_id c) capability"
  by (auto simp: authorize_def outcome_iff has_capability_def)

lemma assignment_host_iff:
  "assignment_host now s h a = Inr r \<longleftrightarrow> 0 \<le> now \<and> host_at s h = Some r \<and> host_current now r \<and>
    asg_host_generation a = Some (hst_generation r) \<and> asg_host_incarnation a = Some (hst_incarnation r)"
  by (auto simp: assignment_host_def outcome_iff)

lemma authorize_device_iff:
  assumes "0 \<le> now"
  shows "(\<exists>a. authorize_device guard now s p device project capability = Inr a) \<longleftrightarrow>
    (\<exists>c d. authorize guard now s p (Some project) capability = Inr c \<and> access_project s project = Inr d \<and>
      is_word_id device \<and> device_reachable now s device project (prj_group d))"
proof (cases "assignment_at s device")
  case None
  then show ?thesis by (auto simp: authorize_device_def device_assignment_def device_reachable_def outcome_iff)
next
  case (Some a)
  note parts = authorize_device_def device_assignment_def device_reachable_def host_reachable_def outcome_iff
    assignment_host_iff Some
  show ?thesis
  proof (cases "asg_host a")
    case None
    then show ?thesis by (auto simp: parts)
  next
    case host: (Some h)
    show ?thesis using assms by (cases "host_at s h") (auto simp: parts host)
  qed
qed

lemma guarded_current:
  assumes "principal_by_id now (ct_store c) cred = Inr p"
  shows "(\<exists>q. current_principal (browser_guard now c) now (ct_store c)
      (p\<lparr>pc_authorization := Some k, pc_guard := True\<rparr>) = Inr q) \<longleftrightarrow>
    session_live now c (Some k) (pc_id p) (pc_credential p)"
proof -
  from assms obtain r where r: "0 \<le> now" "credential_at (ct_store c) cred = Some r"
    "p = \<lparr>pc_id = crd_identity r, pc_credential = crd_id r, pc_expires = crd_expires r, pc_issuer = ac_issuer (ct_store c),
          pc_authorization = None, pc_guard = False\<rparr>" unfolding principal_by_id_Inr by blast
  have "crd_id r = cred" using tbl_lookup_Some [OF r(2) [unfolded credential_at_def]] by simp
  with r(3) have p: "pc_credential p = cred" "pc_issuer p = ac_issuer (ct_store c)" by simp_all
  show ?thesis using assms r(1) p
    by (auto simp: current_principal_def browser_guard_def session_live_def outcome_iff split: option.splits)
qed

lemma live_principal:
  "0 \<le> now \<and> credential_live now s cred who \<longleftrightarrow> (\<exists>p. principal_by_id now s cred = Inr p \<and> pc_id p = who)"
  unfolding principal_by_id_Inr credential_live_def by (auto split: option.splits)

lemma principal_credential: "principal_by_id now s c = Inr p \<Longrightarrow> pc_credential p = c"
  unfolding principal_by_id_Inr credential_at_def by (auto dest: tbl_lookup_Some)

lemma plain_current:
  assumes "principal_by_id now s c = Inr p"
  shows "current_principal guard now s p = Inr p"
proof -
  have "pc_credential p = c" by (rule principal_credential [OF assms])
  moreover from assms have "pc_issuer p = ac_issuer s" "\<not> pc_guard p" "pc_authorization p = None"
    by (auto simp: principal_by_id_Inr)
  ultimately show ?thesis using assms by (simp add: current_principal_def)
qed

lemma operation_live:
  "(\<exists>p. operation_principal now c cred session = Inr p \<and> pc_id p = who) \<longleftrightarrow>
    0 \<le> now \<and> credential_live now (ct_store c) cred who \<and> session_live now c session who cred"
proof (cases session)
  case None
  then show ?thesis using live_principal [of now "ct_store c" cred who]
    by (auto simp: operation_principal_def outcome_iff session_live_def)
next
  case (Some k)
  have "(\<exists>p. operation_principal now c cred session = Inr p \<and> pc_id p = who) \<longleftrightarrow>
      (\<exists>p. principal_by_id now (ct_store c) cred = Inr p \<and> pc_id p = who \<and>
        (\<exists>q. current_principal (browser_guard now c) now (ct_store c) (p\<lparr>pc_authorization := Some k, pc_guard := True\<rparr>) = Inr q))"
    by (auto simp: operation_principal_def outcome_iff Let_def Some)
  also have "\<dots> \<longleftrightarrow> (\<exists>p. principal_by_id now (ct_store c) cred = Inr p \<and> pc_id p = who) \<and> session_live now c session who cred"
    using guarded_current principal_credential unfolding Some by blast
  finally show ?thesis using live_principal [of now "ct_store c" cred who] by blast
qed

lemma operation_current:
  assumes "operation_principal now c cred session = Inr p"
  shows "\<exists>q. current_principal (browser_guard now c) now (ct_store c) p = Inr q \<and> pc_id q = pc_id p"
proof (cases session)
  case None
  with assms show ?thesis by (auto simp: operation_principal_def outcome_iff dest: plain_current)
next
  case (Some k)
  with assms obtain q where "current_principal (browser_guard now c) now (ct_store c) p = Inr q"
    by (auto simp: operation_principal_def outcome_iff Let_def)
  then show ?thesis using current_fields(1) by blast
qed

lemma control_device_iff:
  assumes "0 \<le> now" and cur: "current_principal (browser_guard now c) now (ct_store c) p = Inr q" "pc_id q = pc_id p"
    and d: "access_project (ct_store c) project = Inr d"
  shows "(\<exists>a. control_authorize_device now c p device project capability = Inr a) \<longleftrightarrow>
    is_hex_digest (prj_digest d) \<and> map_of (ct_registrations c) (project, prj_digest d) \<noteq> None \<and>
    has_capability (ct_store c) project (pc_id p) capability \<and> is_word_id device \<and>
    device_reachable now (ct_store c) device project (prj_group d)"
proof -
  have "(\<exists>a. control_authorize_device now c p device project capability = Inr a) \<longleftrightarrow>
      (\<exists>g. registration_of c project None = Inr g) \<and>
      (\<exists>a. authorize_device (browser_guard now c) now (ct_store c) p device project capability = Inr a)"
    by (auto simp: control_authorize_device_def outcome_iff)
  moreover have "project_active (ct_store c) project" "is_word_id project"
    using d by (auto simp: access_project_iff project_active_def)
  ultimately show ?thesis
    unfolding authorize_device_iff [OF assms(1)] registration_iff authorize_iff using d cur by auto
qed

lemma effect_device:
  assumes "operation_principal now c (ef_credential e) (ef_authorization e) = Inr p"
    and "access_project (ct_store c) (ef_project e) = Inr d"
  shows "(\<exists>a. control_authorize_device now c p (ef_device e) (ef_project e) (effect_capability kind) = Inr a) \<longleftrightarrow>
    is_hex_digest (prj_digest d) \<and> map_of (ct_registrations c) (ef_project e, prj_digest d) \<noteq> None \<and>
    has_capability (ct_store c) (ef_project e) (pc_id p) (effect_capability kind) \<and> is_word_id (ef_device e) \<and>
    device_reachable now (ct_store c) (ef_device e) (ef_project e) (prj_group d)"
proof -
  have "0 \<le> now" using operation_live [of now c "ef_credential e" "ef_authorization e" "pc_id p"] assms(1) by blast
  moreover obtain q where "current_principal (browser_guard now c) now (ct_store c) p = Inr q" "pc_id q = pc_id p"
    using operation_current [OF assms(1)] by blast
  ultimately show ?thesis using assms(2) by (rule control_device_iff)
qed

text \<open>
  C5. An effect on a device is authorized exactly when the reference permits it: the many checks
  \<open>authorize_effect\<close> goes through, with contexts, guards and repeated lookups, neither miss a
  condition nor add one.
\<close>

theorem effect_authorized_iff:
  "authorize_effect now c e kind = Inr True \<longleftrightarrow> effect_permitted now c e kind"
proof -
  let ?s = "ct_store c"
  have "authorize_effect now c e kind = Inr True \<longleftrightarrow>
      (\<exists>p d. operation_principal now c (ef_credential e) (ef_authorization e) = Inr p \<and> pc_id p = ef_principal e \<and>
        access_project ?s (ef_project e) = Inr d \<and> prj_digest d = ef_digest e \<and>
        (\<exists>a. control_authorize_device now c p (ef_device e) (ef_project e) (effect_capability kind) = Inr a))"
    by (auto simp: authorize_effect_def outcome_iff)
  also have "\<dots> \<longleftrightarrow> (\<exists>p. operation_principal now c (ef_credential e) (ef_authorization e) = Inr p \<and> pc_id p = ef_principal e) \<and>
      (\<exists>d. access_project ?s (ef_project e) = Inr d \<and> prj_digest d = ef_digest e \<and> is_hex_digest (ef_digest e) \<and>
        map_of (ct_registrations c) (ef_project e, ef_digest e) \<noteq> None \<and>
        device_reachable now ?s (ef_device e) (ef_project e) (prj_group d)) \<and>
      is_word_id (ef_device e) \<and> has_capability ?s (ef_project e) (ef_principal e) (effect_capability kind)"
    (is "?left \<longleftrightarrow> ?right")
  proof
    assume ?left
    then obtain p d where "operation_principal now c (ef_credential e) (ef_authorization e) = Inr p" "pc_id p = ef_principal e"
        "access_project ?s (ef_project e) = Inr d" "prj_digest d = ef_digest e"
        "\<exists>a. control_authorize_device now c p (ef_device e) (ef_project e) (effect_capability kind) = Inr a" by blast
    with effect_device [of now c e p d] show ?right by auto
  next
    assume ?right
    then obtain p d where "operation_principal now c (ef_credential e) (ef_authorization e) = Inr p" "pc_id p = ef_principal e"
        "access_project ?s (ef_project e) = Inr d" "prj_digest d = ef_digest e" "is_hex_digest (ef_digest e)"
        "map_of (ct_registrations c) (ef_project e, ef_digest e) \<noteq> None"
        "device_reachable now ?s (ef_device e) (ef_project e) (prj_group d)" "is_word_id (ef_device e)"
        "has_capability ?s (ef_project e) (ef_principal e) (effect_capability kind)" by blast
    with effect_device [of now c e p d] show ?left by metis
  qed
  also have "\<dots> \<longleftrightarrow> effect_permitted now c e kind"
    unfolding operation_live effect_permitted_def access_project_iff by (auto split: option.splits)
  finally show ?thesis .
qed

section \<open>Browser sessions\<close>

datatype control_op =
    Store_Op access_op
  | Bind_Project registration
  | Open_Session string string string string
  | Use_Session string "string option" bool
  | Close_Session string
  | Bind_Owned string string string string string

definition control_quiet :: "('r \<times> access_control) outcome \<Rightarrow> (unit \<times> access_control) outcome" where
  "control_quiet r = bind_result r (\<lambda>(_, c). Inr ((), c))"

definition control_step :: "hashes \<Rightarrow> access_control \<Rightarrow> int \<times> control_op \<Rightarrow> (unit \<times> access_control) outcome" where
  "control_step H c x = (case x of (now, op) \<Rightarrow> (case op of
     Store_Op p \<Rightarrow> bind_result (access_step H (ct_store c) (now, p)) (\<lambda>(_, s). Inr ((), c\<lparr>ct_store := s\<rparr>))
   | Bind_Project g \<Rightarrow> control_quiet (bind_project g c)
   | Open_Session token k secret csrf \<Rightarrow> control_quiet (create_browser_session (h_text H) token k secret csrf now c)
   | Use_Session cookie csrf need \<Rightarrow> control_quiet (authenticate_browser (h_text H) cookie csrf need now c)
   | Close_Session cookie \<Rightarrow> close_browser_session (h_text H) cookie c
   | Bind_Owned kind k p ow m \<Rightarrow> control_quiet (control_bind_resource kind k p ow m now c)))"

fun opens :: "string \<Rightarrow> int \<times> control_op \<Rightarrow> bool" where
  "opens k (now, Open_Session token j secret csrf) = (j = k)"
| "opens k _ = False"

definition session_gone :: "string \<Rightarrow> access_control \<Rightarrow> bool" where
  "session_gone k c \<longleftrightarrow> map_of (ct_sessions c) k = None"

lemma gone_after_filter: "map_of xs k = None \<Longrightarrow> map_of (filter P xs) k = None"
  by (auto simp: map_of_eq_None_iff)

lemma gone_after_update: "map_of xs k = None \<Longrightarrow> j \<noteq> k \<Longrightarrow> map_of (AList.update j v xs) k = None"
  by (simp add: update_conv')

lemma gone_after_delete: "map_of xs k = None \<Longrightarrow> map_of (AList.delete j xs) k = None"
  by (simp add: delete_conv')

lemma control_quiet_iff: "control_quiet r = Inr x \<longleftrightarrow> (\<exists>y. r = Inr (y, snd x))"
  by (cases r; cases x) (auto simp: control_quiet_def)

lemma authenticate_state:
  assumes "authenticate_browser sha cookie csrf need now c = Inr (v, d)"
  shows "d = c \<or> (\<exists>j. d = c\<lparr>ct_sessions := AList.delete j (ct_sessions c)\<rparr>)"
  using assms by (auto simp: authenticate_browser_def outcome_iff split: if_splits)

lemma session_stays_gone:
  assumes "session_gone k c" and "\<not> opens k x" and "control_step H c x = Inr (u, d)"
  shows "session_gone k d"
proof -
  obtain now op where x: "x = (now, op)" by (cases x)
  show ?thesis
  proof (cases op)
    case (Store_Op p)
    with assms x show ?thesis by (auto simp: control_step_def session_gone_def outcome_iff)
  next
    case (Bind_Project g)
    with assms x show ?thesis
      by (auto simp: control_step_def session_gone_def control_quiet_iff bind_project_def outcome_iff Let_def)
  next
    case (Open_Session token j secret csrf)
    with assms x have j: "j \<noteq> k" by simp
    from assms(1) have "map_of (live_sessions now c) k = None"
      unfolding session_gone_def live_sessions_def by (rule gone_after_filter)
    with assms(3) x Open_Session j show ?thesis
      by (auto simp: control_step_def session_gone_def control_quiet_iff create_browser_session_def outcome_iff Let_def
          gone_after_update split: if_splits)
  next
    case (Use_Session cookie csrf need)
    then obtain v where "authenticate_browser (h_text H) cookie csrf need now c = Inr (v, d)"
      using assms(3) x by (auto simp: control_step_def control_quiet_iff)
    from authenticate_state [OF this] assms(1) show ?thesis
      unfolding session_gone_def by (elim disjE exE) (simp_all add: gone_after_delete)
  next
    case (Close_Session cookie)
    then obtain j where "d = c\<lparr>ct_sessions := AList.delete j (ct_sessions c)\<rparr>"
      using assms(3) x by (auto simp: control_step_def close_browser_session_def outcome_iff)
    with assms(1) show ?thesis by (simp add: session_gone_def gone_after_delete)
  next
    case (Bind_Owned kind j p ow m)
    with assms x show ?thesis
      by (auto simp: control_step_def session_gone_def control_quiet_iff control_bind_resource_def outcome_iff)
  qed
qed

lemma sessions_stay_gone:
  "session_gone k c \<Longrightarrow> list_all (\<lambda>x. \<not> opens k x) xs \<Longrightarrow> session_gone k (run_ops (control_step H) c xs)"
proof (induction xs arbitrary: c)
  case (Cons x xs)
  then show ?case by (auto split: sum.split dest: session_stays_gone)
qed simp

text \<open>
  C14. A browser session that was closed is closed for good: as long as no new session is given the
  same identifier, its cookie authenticates nobody and no effect that was admitted through it is
  authorized, whatever else happens to the store and the other sessions.
\<close>

theorem closed_session_stays_closed:
  assumes "parse_token (h_text H) cookie ''rps'' = Inr (k, x)" and "close_browser_session (h_text H) cookie c = Inr (u, d)"
    and "list_all (\<lambda>y. \<not> opens k y) xs" and "t = run_ops (control_step H) d xs" and "ef_authorization e = Some k"
  shows "authenticate_browser (h_text H) cookie csrf need now t \<noteq> Inr r \<and> authorize_effect now t e kind \<noteq> Inr True"
proof -
  from assms(1,2) have "d = c\<lparr>ct_sessions := AList.delete k (ct_sessions c)\<rparr>"
    by (auto simp: close_browser_session_def)
  then have "session_gone k d" by (simp add: session_gone_def delete_conv')
  then have gone: "session_gone k t" unfolding assms(4) by (rule sessions_stay_gone [OF _ assms(3)])
  have "authenticate_browser (h_text H) cookie csrf need now t \<noteq> Inr r"
    using assms(1) gone [unfolded session_gone_def] by (auto simp: authenticate_browser_def outcome_iff)
  moreover have "\<not> effect_permitted now t e kind"
    using assms(5) gone [unfolded session_gone_def] by (simp add: effect_permitted_def session_live_def)
  ultimately show ?thesis by (simp add: effect_authorized_iff)
qed

end
