(* ===== verification/Access_Demo.thy ===== *)
theory Access_Demo
  imports Access_Effects
begin

text \<open>
  Concrete runs of the access store and its controller: an administrator, an operator of one
  project, a host that is revoked and enrolled again, a device that is moved, a legacy recording.
  Digests of text are the text itself here.
\<close>

definition demo :: hashes where
  "demo = \<lparr>h_text = (\<lambda>x. x), h_bytes = (\<lambda>x. x), h_json = (\<lambda>_. ''receipt'')\<rparr>"

definition secret :: "char \<Rightarrow> string" where
  "secret c = replicate 32 c"

definition demo_project :: project_doc where
  "demo_project = \<lparr>pd_id = ''p'', pd_revision = ''r1'', pd_digest = replicate 64 CHR ''a'', pd_group = ''g''\<rparr>"

definition people_steps :: "(int \<times> access_op) list" where
  "people_steps = [(10, Bootstrap_Credential ''root'' 3600 ''c0'' (secret CHR ''r'')), (11, Create_Identity ''root'' ''ann'' False),
     (12, Register_Project ''root'' (Some demo_project)), (13, Grant ''root'' ''p'' ''ann'' ''operator''),
     (14, Issue_Credential ''root'' ''ann'' 3600 ''c1'' (secret CHR ''a''))]"

definition demo_effect :: "string option \<Rightarrow> effect_authority" where
  "demo_effect session = \<lparr>ef_principal = ''ann'', ef_credential = ''c1'', ef_authorization = session, ef_project = ''p'',
     ef_device = ''d'', ef_digest = replicate 64 CHR ''a''\<rparr>"

definition demo_principal :: principal_context where
  "demo_principal = \<lparr>pc_id = ''ann'', pc_credential = ''c1'', pc_expires = 3614, pc_issuer = 0, pc_authorization = None,
     pc_guard = False\<rparr>"

definition demo_control :: "access_store \<Rightarrow> access_control" where
  "demo_control s = \<lparr>ct_store = s, ct_seconds = 3600, ct_registrations = [], ct_sessions = []\<rparr>"

definition ann_token :: string where
  "ann_token = access_token ''rpa'' ''c1'' (secret CHR ''a'')"

lemma ann_token_parsed: "parse_token (h_text demo) ann_token ''rpa'' = Inr (''c1'', secret CHR ''a'')"
  by code_simp

section \<open>Revocation\<close>

definition revoked_steps :: "(int \<times> access_op) list" where
  "revoked_steps = people_steps @ [(15, Revoke_Identity ''root'' ''ann'')]"

lemma ann_withdrawn: "withdrawn (access_after demo 0 revoked_steps) ''c1''"
  by code_simp

definition granted_again :: access_store where
  "granted_again = access_run demo (access_after demo 0 revoked_steps) [(16, Grant ''root'' ''p'' ''ann'' ''operator'')]"

theorem revoked_stays_out_witness: "\<forall>q. authenticate_principal (h_text demo) 17 granted_again ann_token \<noteq> Inr q"
  using revoked_stays_out [OF ann_withdrawn granted_again_def ann_token_parsed, of demo_principal "demo_effect None"
      "demo_control granted_again" 17]
  by (simp add: demo_principal_def demo_effect_def demo_control_def)

section \<open>Hosts\<close>

definition host_steps :: "(int \<times> access_op) list" where
  "host_steps = people_steps @
    [(20, Create_Enrollment ''root'' ''h'' [''p''] [''g''] 600 3600 ''e1'' (secret CHR ''1'')),
     (21, Consume_Enrollment (access_token ''rpe'' ''e1'' (secret CHR ''1'')) ''h'' ''i1'' ''hc1'' (secret CHR ''2'')),
     (22, Assign_Device ''root'' ''d'' (Some ''p'') None (Some ''h'') None)]"

definition again_steps :: "(int \<times> access_op) list" where
  "again_steps =
    [(31, Create_Enrollment ''root'' ''h'' [''p''] [''g''] 600 3600 ''e2'' (secret CHR ''3'')),
     (32, Consume_Enrollment (access_token ''rpe'' ''e2'' (secret CHR ''3'')) ''h'' ''i2'' ''hc2'' (secret CHR ''4''))]"

definition first_host :: host_scope where
  "first_host = \<lparr>hx_id = ''h'', hx_generation = 1, hx_incarnation = ''i1'', hx_credential = ''hc1'', hx_expires = 3621,
     hx_projects = [''p''], hx_groups = [''g''], hx_issuer = 0\<rparr>"

definition demo_row :: assignment_row where
  "demo_row = \<lparr>asg_device = ''d'', asg_project = Some ''p'', asg_group = None, asg_host = Some ''h'',
     asg_host_generation = Some 1, asg_host_incarnation = Some ''i1'', asg_generation = 1, asg_sanitation = None,
     asg_updated = 22\<rparr>"

lemma first_fenced: "host_fenced (access_after demo 0 (host_steps @ [(30, Revoke_Host ''root'' ''h'')])) (hx_id first_host) (hx_generation first_host)"
  by code_simp

lemma device_still:
  "assignment_at (access_run demo (access_after demo 0 (host_steps @ [(30, Revoke_Host ''root'' ''h'')])) again_steps) ''d'' = Some demo_row"
  by code_simp

theorem fenced_host_witness:
  "\<exists>t. t = access_run demo (access_after demo 0 (host_steps @ [(30, Revoke_Host ''root'' ''h'')])) again_steps \<and>
    (\<forall>y. authorize_host 40 t first_host ''p'' ''g'' \<noteq> Inr y) \<and>
    (\<forall>guard p b. authorize_device guard 40 t p ''d'' ''p'' ''device.control'' \<noteq> Inr b)"
proof -
  note fenced = fenced_host_stays_fenced [OF first_fenced refl, where device = "''d''" and a = demo_row]
  from fenced [THEN conjunct1] fenced [THEN conjunct2, THEN conjunct2]
  show ?thesis using device_still by (simp add: demo_row_def first_host_def)
qed

section \<open>Memberships\<close>

lemma ann_operates: "''operator'' \<in> set (roles_of (access_after demo 0 people_steps) ''p'' ''ann'')"
  by code_simp

theorem membership_traceback_witness:
  "\<exists>us now a vs. people_steps = us @ (now, Grant a ''p'' ''ann'' ''operator'') # vs \<and>
    is_administrator (access_after demo 0 us) a"
  using membership_traceback [OF ann_operates] by blast

section \<open>A device that moves\<close>

definition demo_receipt :: pyval where
  "demo_receipt = PDict [(''schemaVersion'', PInt 1), (''kind'', PStr ''device-sanitation-receipt''), (''deviceId'', PStr ''d''),
     (''previousAssignment'', PDict [(''projectId'', PStr ''p''), (''trustGroup'', PNone), (''hostId'', PStr ''h''),
       (''hostGeneration'', PInt 1), (''hostIncarnation'', PStr ''i1'')]), (''completedAtMs'', PInt 5), (''limitations'', PList [])]"

definition moving_step :: "int \<times> access_op" where
  "moving_step = (30, Assign_Device ''root'' ''d'' None (Some ''g'') None (Some demo_receipt))"

definition moved_row :: assignment_row where
  "moved_row = \<lparr>asg_device = ''d'', asg_project = None, asg_group = Some ''g'', asg_host = None,
     asg_host_generation = None, asg_host_incarnation = None, asg_generation = 2, asg_sanitation = Some ''receipt'',
     asg_updated = 30\<rparr>"

definition moved_store :: access_store where
  "moved_store = (case access_step demo (access_after demo 0 host_steps) moving_step of
     Inl _ \<Rightarrow> new_access_store 0 | Inr (_, t) \<Rightarrow> t)"

lemma move_allowed: "(case access_step demo (access_after demo 0 host_steps) moving_step of Inl _ \<Rightarrow> False | Inr _ \<Rightarrow> True)"
  by code_simp

lemma move_step: "access_step demo (access_after demo 0 host_steps) moving_step = Inr ((), moved_store)"
  using move_allowed unfolding moved_store_def by (simp split: sum.splits prod.splits)

lemma move_before: "assignment_at (access_after demo 0 host_steps) ''d'' = Some demo_row"
  and move_after: "assignment_at moved_store ''d'' = Some moved_row"
  by code_simp+

theorem device_moves_witness:
  "\<exists>now actor p g h f. moving_step = (now, Assign_Device actor ''d'' p g h (Some (PDict f))) \<and>
    field_of f ''deviceId'' = PStr ''d''"
  using device_moves_with_receipt [OF refl move_step move_before move_after]
  by (simp add: demo_row_def moved_row_def) blast

section \<open>Resources\<close>

definition legacy_steps :: "(int \<times> access_op) list" where
  "legacy_steps = people_steps @
    [(20, Bind_Resource ''recording'' ''v1'' ''p'' (replicate 64 CHR ''a'') ''ann'' ''legacy-inert''),
     (21, Adopt_Legacy ''ad1'' (Some ''bytes'') ''fmt'' ''legacy-recording-only'')]"

definition inert_row :: resource_row where
  "inert_row = \<lparr>rsc_kind = ''recording'', rsc_id = ''v1'', rsc_project = ''p'', rsc_digest = replicate 64 CHR ''a'',
     rsc_owner = ''ann'', rsc_meaning = ''legacy-inert'', rsc_adoption = None, rsc_authorized = None, rsc_bound = 20\<rparr>"

lemma inert_bound: "resource_at (access_after demo 0 legacy_steps) ''recording'' ''v1'' = Some inert_row"
  by code_simp

definition authorized_store :: access_store where
  "authorized_store = access_run demo (access_after demo 0 legacy_steps)
     [(22, Authorize_Legacy ''root'' ''recording'' ''v1'' ''ad1'' (replicate 64 CHR ''b''))]"

theorem resource_origin_witness:
  "\<exists>r. resource_at authorized_store ''recording'' ''v1'' = Some r \<and>
    (rsc_project r, rsc_digest r, rsc_owner r) = (''p'', replicate 64 CHR ''a'', ''ann'')"
  using resource_origin_final [OF inert_bound authorized_store_def] by (auto simp: inert_row_def)

lemma stranger: "roles_of (access_after demo 0 legacy_steps) ''p'' ''root'' = []"
  and unbound: "resource_at (access_after demo 0 legacy_steps) ''recording'' ''v2'' = None"
  by code_simp+

theorem unreadable_resource_witness:
  "control_authorize_resource 30 (demo_control (access_after demo 0 legacy_steps))
      (demo_principal\<lparr>pc_id := ''root'', pc_credential := ''c0''\<rparr>) ''recording'' ''v1'' ''media.read'' False =
    control_authorize_resource 30 (demo_control (access_after demo 0 legacy_steps))
      (demo_principal\<lparr>pc_id := ''root'', pc_credential := ''c0''\<rparr>) ''recording'' ''v2'' ''media.read'' False"
proof (rule unreadable_resource_hidden)
  show "ct_store (demo_control (access_after demo 0 legacy_steps)) = access_after demo 0 legacy_steps"
    by (simp add: demo_control_def)
  show "resource_at (ct_store (demo_control (access_after demo 0 legacy_steps))) ''recording'' ''v1'' = Some inert_row"
    by (simp add: demo_control_def inert_bound)
  show "resource_at (ct_store (demo_control (access_after demo 0 legacy_steps))) ''recording'' ''v2'' = None"
    by (simp add: demo_control_def unbound)
  show "is_word_id ''v2''" by code_simp
  show "roles_of (ct_store (demo_control (access_after demo 0 legacy_steps))) (rsc_project inert_row)
      (pc_id (demo_principal\<lparr>pc_id := ''root'', pc_credential := ''c0''\<rparr>)) = []"
    by (simp add: demo_control_def inert_row_def stranger)
qed

lemma ann_projects:
  "authorized_project_ids (\<lambda>_. Inr True) 30 (access_after demo 0 people_steps) demo_principal ''device.operate'' = Inr [''p'']"
  by code_simp

theorem authorized_projects_witness:
  "\<exists>c. authorize (\<lambda>_. Inr True) 30 (access_after demo 0 people_steps) demo_principal (Some ''p'') ''device.operate'' = Inr c"
proof -
  have "''p'' \<in> set [''p'']" by simp
  with authorized_projects_exact [OF refl ann_projects] show ?thesis by blast
qed

section \<open>Sessions and effects\<close>

definition ready_control :: access_control where
  "ready_control = \<lparr>ct_store = access_after demo 0 host_steps, ct_seconds = 3600,
     ct_registrations = [((''p'', replicate 64 CHR ''a''), \<lparr>reg_object = 1, reg_project = ''p'', reg_revision = ''r1'',
       reg_digest = replicate 64 CHR ''a'', reg_group = ''g''\<rparr>)],
     ct_sessions = [(''b1'', \<lparr>bs_secret = secret CHR ''s'', bs_csrf = ''x'', bs_principal = ''ann'', bs_credential = ''c1'',
       bs_expires = 3000\<rparr>)]\<rparr>"

definition demo_cookie :: string where
  "demo_cookie = access_token ''rps'' ''b1'' (secret CHR ''s'')"

text \<open>While the session is open the effect is authorized.\<close>

lemma open_session_works: "authorize_effect 40 ready_control (demo_effect (Some ''b1'')) ''tap'' = Inr True"
  by code_simp

lemma cookie_parsed: "parse_token (h_text demo) demo_cookie ''rps'' = Inr (''b1'', secret CHR ''s'')"
  by code_simp

definition closed_control :: access_control where
  "closed_control = ready_control\<lparr>ct_sessions := AList.delete ''b1'' (ct_sessions ready_control)\<rparr>"

lemma session_closed: "close_browser_session (h_text demo) demo_cookie ready_control = Inr ((), closed_control)"
  by (simp add: close_browser_session_def cookie_parsed closed_control_def)

theorem closed_session_witness:
  "authorize_effect 42 (run_ops (control_step demo) closed_control
      [(41, Open_Session ann_token ''b2'' (secret CHR ''t'') ''y'')]) (demo_effect (Some ''b1'')) ''tap'' \<noteq> Inr True"
  using closed_session_stays_closed [OF cookie_parsed session_closed _ refl,
      of "[(41, Open_Session ann_token ''b2'' (secret CHR ''t'') ''y'')]" "demo_effect (Some ''b1'')"]
  by (simp add: demo_effect_def)

end
