(* ===== verification/Spec2Isabelle.thy ===== *)
theory Spec2Isabelle
  imports Disk_Budget Clock_Sync Unified_Diff Job_Files Ownership_Reports Run_Store_Demo Access_Demo
begin

text \<open>
  Reproof records QA issues on mobile devices, replays them, applies repairs and verifies them. This
  library models the parts of its Python sources that decide who may act on a device, in what order,
  with which budget, and what is on disk when something fails. Paths are below \<open>src/\<close>.

  The parts and how they interact. A coordinator runs replay jobs (\<open>reproof/live/jobs.py\<close>) on
  devices that its inventory (\<open>live/inventory.py\<close>) lists as available. A device host owns a device
  through a handle of its authority (\<open>live/authority.py\<close>), which issues permits bound to clock
  mappings (\<open>live/clock_sync.py\<close>) and records every dispatch and receipt in a journal
  (\<open>live/state_store.py\<close>); what it attests of its ownership goes back to the inventory. Recordings
  and exports charge one disk budget (\<open>live/disk_budget.py\<close>). A repair is an exact diff
  (\<open>unified_diff.py\<close>) that is built in an execution admitted by the run store
  (\<open>execution/journal.py\<close>); host and guest talk in canonical JSON (\<open>execution/wire.py\<close>) under the
  scalar rules of \<open>contracts/versions.py\<close>. Who may ask for any of this is decided by the access
  control of the coordinator (\<open>live/access.py\<close>): identities, roles in projects, credentials, browser
  sessions, enrolled device hosts, and which project and host a device is assigned to.

  Theories.
  \<open>Prelude\<close>: results (\<open>Inl\<close> an error, \<open>Inr\<close> a value) with their inversion lemmas, Python values,
  names over a character set, tables as lists of rows, and the locales every store shares:
  \<open>row_update\<close> (an UPDATE keeps keys), \<open>growing_table\<close> (rows only move forward), \<open>guarded_ops\<close>
  (an invariant of a step function holds of every run), \<open>fenced_ops\<close> (a generation never decreases).
  \<open>Contracts\<close>: the scalar, path, object and list rules. \<open>Wire\<close>: canonical JSON, chunks, manifests
  and messages.
  \<open>Disk_Budget\<close>: the reservations table, its transactions and handles; the invariant
  \<open>budget_inv\<close>, headroom of the journal, round trips.
  \<open>Clock_Sync\<close>: readings, mappings, drift bounds, the recording anchor; soundness of translated
  intervals for any true time consistent with the readings.
  \<open>Unified_Diff\<close>: parsing and applying; an accepted diff consists of its files' headers and hunks, is
  spliced at the positions its hunk headers name, and can be undone there.
  \<open>Job_Queue\<close>, \<open>Job_Queue_Props\<close>, \<open>Job_Files\<close>: the queue as a record, the worker thread as a
  phase machine, every interleaving as a list of events (\<open>jq_reach\<close>); device exclusion, final
  states, order of dispatch, what a restart reads back from the job files.
  \<open>State_Store\<close>, \<open>State_Store_Props\<close>, \<open>Store_Runs\<close>, \<open>Store_Demo\<close>: each table as rows, each method
  as a transaction; row constraints, fencing by generations and sequences, no dispatch twice.
  \<open>Authority\<close>, \<open>Authority_Props\<close>, \<open>Authority_Demo\<close>: a host with one of its handles over the clock
  and the journal; revocation, deadlines, closing.
  \<open>Inventory\<close>, \<open>Inventory_Props\<close>, \<open>Inventory_Demo\<close>, \<open>Ownership_Reports\<close>: reports of device hosts
  into the two tables of the coordinator; \<open>Ownership_Reports\<close> composes the store, the authority and
  the inventory: when a release that a host attests frees the held row at the coordinator, and when not.
  \<open>Run_Store\<close>: the execution journal as programs over a disk on which every durable change is one
  effect that happens, fails, or is where the process dies. \<open>Run_Store_Props\<close>: triples with one
  post-condition for a returned value and one for an error, and the invariant \<open>journal_inv\<close> kept by
  admission, archiving and finishing. \<open>Run_Store_Runs\<close>: all other operations, and runs.
  \<open>Run_Store_Safety\<close>: one admission for each identity, a loadable journal. \<open>Run_Store_Records\<close>: the
  locale \<open>record_law\<close> of what can happen to one record. \<open>Run_Store_Outcomes\<close>: its two instances,
  reservations and outcomes. \<open>Run_Store_Demo\<close>: concrete runs.
  \<open>Access\<close>: the tables of the access store and its transactions, with the read paths that
  authenticate and authorize. \<open>Access_Control\<close>: the controller over the store, its browser sessions
  in memory and the projects registered with it; \<open>authorize_effect\<close> is the check made before each
  effect on a device. \<open>Access_Runs\<close>: all operations as one datatype with the step function
  \<open>access_step\<close>, and the relation \<open>row_change\<close> of what a step does to the rows. \<open>Access_Rows\<close>: how
  the tables grow, and the invariants of every reachable store (keys, hosts, people, devices, scope).
  \<open>Access_Props\<close>: revocation, fencing of hosts, order of enrollments, traceback of memberships, moves
  of devices. \<open>Access_Effects\<close>: resources, lists of projects, browser sessions, and the flat reference
  \<open>effect_permitted\<close> of the effect check. \<open>Access_Demo\<close>: concrete runs.
  The \<open>_Demo\<close> theories hold closed instances that show the hypotheses of the theorems can be met.

  Correspondence. A table is a list of records with the columns of the schema in order; a dictionary
  is an association list in insertion order; a class is a record and its methods are functions from
  and to it; an exception is \<open>Inl\<close> of a datatype that keeps the class and the message. Python
  integers are \<open>int\<close>; bounds the code checks are written out. Digests (SHA-256), Unicode folding,
  random identifiers, clocks, leases and the answers of providers are parameters or inputs of the
  steps. Definitions are executable. An operation of the access store reads the clock once, as its
  transaction does; token identifiers and secrets are inputs of the step that issues them, and the
  hash of a secret and the digest of a receipt are the parameters \<open>h_text\<close> and \<open>h_json\<close>. The
  arguments of its operations are typed, so the branches that refuse an argument of the wrong type are
  not there; those that refuse a value are.

  Bounds and fuel. No definition uses fuel: recursion is structural or has a measure. Theorems on
  the run store ask for fewer than \<open>2 ^ 31\<close> steps, the bound the code has on archived records.

  Findings shown by a theorem or a lemma: \<open>growth_keeps_headroom_iff\<close> (\<open>Disk_Budget\<close>),
  \<open>translate_omits_coordinator_uncertainty\<close> (\<open>Clock_Sync\<close>), \<open>failed_running_write_records_success\<close> and
  \<open>non_object_file_stops_load\<close> (\<open>Job_Files\<close>), \<open>replaced_host_leaves_available\<close>
  (\<open>Inventory_Demo\<close>).

  Not modelled. Floating-point contract rules and the JSON schemas of scenarios, evidence and
  observations (real numbers, large wire formats). Video capture and encoding, frame spools and
  native frame clocks (byte streams of platform tools). The HTTP server, the clients, the command
  lines and the worker process (I/O and dispatch to the parts above). The live session model and the
  recording session (threads over providers). Android and iOS builds, signing, recovery, egress and
  device tools (what they do is decided by native tools that are not in the sources). Issue packages,
  instrumentation of sources and repair orchestration. In the modelled files: path safety and pragmas
  when a database is opened, migration of old stores, kernel leases and file descriptors, the
  namespace file of the access store, the reading of a legacy source and the validation of a project
  document before they reach its tables, and the iOS
  half of \<open>execution/journal_recovery.py\<close>, whose sessions live in modules that are not modelled.
\<close>

end
